(* ===== verification/Prelude.thy ===== *)
theory Prelude
  imports Main "HOL-Library.Word" "HOL-Library.Monad_Syntax"
begin

text \<open>
  Names and lemmas every component shares: the machine integers of the target
  (ARM, 32-bit, little endian), memory regions as bounded functions, block writes,
  and the resend loop that the serial drivers use.

  A C function that may touch memory outside an array is modelled in the option monad:
  \<^term>\<open>None\<close> is an access outside the region (undefined behaviour), every other
  outcome, error returns included, is under \<^term>\<open>Some\<close>.
\<close>

unbundle bit_operations_syntax

section \<open>Machine integers\<close>

type_synonym u8 = "8 word"
type_synonym u16 = "16 word"
type_synonym u32 = "32 word"
type_synonym u64 = "64 word"

named_theorems word_defs
  \<open>definitions that the word lemmas unfold\<close>

named_theorems wf_intros
  \<open>preservation of the invariants\<close>

named_theorems frame_simps
  \<open>fields that an operation leaves alone\<close>

text \<open>\<^typ>\<open>u16\<close> words in the memory of a little-endian machine.\<close>

definition u16_bytes :: "u16 \<Rightarrow> u8 list" where
  "u16_bytes w = [ucast w, ucast (drop_bit 8 w)]"

definition bytes_u16 :: "u8 \<Rightarrow> u8 \<Rightarrow> u16" where
  "bytes_u16 lo hi = ucast lo OR push_bit 8 (ucast hi)"

text \<open>The four bytes of a 32-bit object, lowest address first, and back.\<close>

definition u32_bytes :: "u32 \<Rightarrow> u8 list" where
  "u32_bytes w = [ucast w, ucast (drop_bit 8 w), ucast (drop_bit 16 w), ucast (drop_bit 24 w)]"

definition bytes_u32 :: "u8 \<Rightarrow> u8 \<Rightarrow> u8 \<Rightarrow> u8 \<Rightarrow> u32" where
  "bytes_u32 a b c d =
     ucast a OR push_bit 8 (ucast b) OR push_bit 16 (ucast c) OR push_bit 24 (ucast d)"

text \<open>The two 16-bit halves of a 32-bit object, lowest address first.\<close>

definition u32_u16s :: "u32 \<Rightarrow> u16 list" where
  "u32_u16s w = [ucast w, ucast (drop_bit 16 w)]"

lemma bytes_u16_bytes [simp]: "bytes_u16 (ucast w) (ucast (drop_bit 8 w)) = w"
  by (rule bit_word_eqI) (auto simp: bytes_u16_def bit_simps)

lemma ucast_bytes_u16_lo [simp]: "(ucast (bytes_u16 lo hi) :: u8) = lo"
  by (rule bit_word_eqI) (auto simp: bytes_u16_def bit_simps)

lemma ucast_bytes_u16_hi [simp]: "(ucast (drop_bit 8 (bytes_u16 lo hi)) :: u8) = hi"
  by (rule bit_word_eqI) (auto simp: bytes_u16_def bit_simps dest: bit_imp_le_length)

lemma u16_bytes_bytes_u16 [simp]: "u16_bytes (bytes_u16 lo hi) = [lo, hi]"
  by (simp add: u16_bytes_def)

lemma length_u16_bytes [simp]: "length (u16_bytes w) = 2"
  by (simp add: u16_bytes_def)

lemma length_concat_u16_bytes [simp]: "length (concat (map u16_bytes ws)) = 2 * length ws"
  by (induction ws) simp_all

lemma bit_u8_high [simp]: "8 \<le> n \<Longrightarrow> \<not> bit (b :: u8) n"
  by (auto dest: bit_imp_le_length)

lemma bit_u16_high [simp]: "16 \<le> n \<Longrightarrow> \<not> bit (b :: u16) n"
  by (auto dest: bit_imp_le_length)

lemma bytes_u32_bytes [simp]:
  "bytes_u32 (ucast w) (ucast (drop_bit 8 w)) (ucast (drop_bit 16 w)) (ucast (drop_bit 24 w)) = w"
proof (rule bit_word_eqI)
  fix n :: nat
  assume "n < LENGTH(32)"
  then consider "n < 8" | "8 \<le> n" "n < 16" | "16 \<le> n" "n < 24" | "24 \<le> n" "n < 32"
    by fastforce
  then show "bit (bytes_u32 (ucast w) (ucast (drop_bit 8 w)) (ucast (drop_bit 16 w))
      (ucast (drop_bit 24 w))) n = bit w n"
    by cases (auto simp: bytes_u32_def bit_simps)
qed

lemma u32_bytes_bytes_u32 [simp]: "u32_bytes (bytes_u32 a b c d) = [a, b, c, d]"
  by (auto simp: u32_bytes_def bytes_u32_def bit_simps intro!: bit_word_eqI)

lemma unat_lt_u16 [simp]: "unat (w :: u16) < 65536"
  using unsigned_less [of w] by simp

lemma unat_lt_u8 [simp]: "unat (w :: u8) < 256"
  using unsigned_less [of w] by simp

text \<open>Reading the word operations as arithmetic on naturals.\<close>

named_theorems unat_ops
  \<open>\<^const>\<open>unat\<close> of shifts, masks and conversions\<close>

lemma unat_drop_bit [unat_ops]: "unat (drop_bit k (w :: 'a::len word)) = unat w div 2 ^ k"
proof -
  have "take_bit LENGTH('a) (unat w) = unat w"
    by (simp add: take_bit_nat_eq_self)
  then show ?thesis
    by (simp only: unsigned_drop_bit_eq) (simp only: drop_bit_eq_div)
qed

lemma unat_and_mask [unat_ops]: "unat ((w :: 'a::len word) AND mask k) = unat w mod 2 ^ k"
  by (simp only: take_bit_eq_mask [symmetric] unsigned_take_bit_eq) (simp only: take_bit_eq_mod)

lemma unat_ucast_mod [unat_ops]:
  "unat (ucast (w :: 'a::len word) :: 'b::len word) = unat w mod 2 ^ LENGTH('b)"
  by (simp add: unsigned_ucast_eq take_bit_eq_mod)

lemma unat_div [unat_ops]: "unat (v div w) = unat v div unat w"
  by (rule unat_div_distrib)

lemma unat_mod [unat_ops]: "unat (v mod w) = unat v mod unat w"
  by (rule unat_mod_distrib)

section \<open>Memory regions\<close>

text \<open>
  A region is a function from indices together with its size. Reading or writing at or
  past the size is \<^term>\<open>None\<close>.
\<close>

definition rd :: "nat \<Rightarrow> (nat \<Rightarrow> 'a) \<Rightarrow> nat \<Rightarrow> 'a option" where
  "rd n f i = (if i < n then Some (f i) else None)"

definition wr :: "nat \<Rightarrow> (nat \<Rightarrow> 'a) \<Rightarrow> nat \<Rightarrow> 'a \<Rightarrow> (nat \<Rightarrow> 'a) option" where
  "wr n f i v = (if i < n then Some (f(i := v)) else None)"

lemma rd_Some [simp]: "i < n \<Longrightarrow> rd n f i = Some (f i)"
  by (simp add: rd_def)

lemma wr_Some [simp]: "i < n \<Longrightarrow> wr n f i v = Some (f(i := v))"
  by (simp add: wr_def)

lemma rd_eq_Some: "rd n f i = Some v \<longleftrightarrow> i < n \<and> v = f i"
  by (auto simp: rd_def)

lemma wr_eq_Some: "wr n f i v = Some g \<longleftrightarrow> i < n \<and> g = f(i := v)"
  by (auto simp: wr_def)

text \<open>A block of consecutive values written from index \<open>i\<close> on.\<close>

fun put :: "(nat \<Rightarrow> 'a) \<Rightarrow> nat \<Rightarrow> 'a list \<Rightarrow> (nat \<Rightarrow> 'a)" where
  "put f i [] = f"
| "put f i (v # vs) = put (f(i := v)) (Suc i) vs"

lemma put_apply:
  "put f i vs k = (if i \<le> k \<and> k < i + length vs then vs ! (k - i) else f k)"
proof (induction vs arbitrary: f i)
  case Nil
  then show ?case by auto
next
  case (Cons v vs)
  show ?case
    by (auto simp: Cons nth_Cons split: nat.splits)
      (metis Suc_diff_Suc Suc_le_lessD diff_Suc_Suc nat.inject le_neq_implies_less)+
qed

lemma put_below [simp]: "k < i \<Longrightarrow> put f i vs k = f k"
  by (simp add: put_apply)

lemma put_outside: "k < i \<or> i + length vs \<le> k \<Longrightarrow> put f i vs k = f k"
  by (auto simp: put_apply)

lemma put_at: "j < length vs \<Longrightarrow> put f i vs (i + j) = vs ! j"
  by (simp add: put_apply)

lemma put_append: "put f i (vs @ ws) = put (put f i vs) (i + length vs) ws"
  by (induction vs arbitrary: f i) simp_all

text \<open>A block of \<open>n\<close> consecutive values read from index \<open>i\<close> on.\<close>

definition get :: "(nat \<Rightarrow> 'a) \<Rightarrow> nat \<Rightarrow> nat \<Rightarrow> 'a list" where
  "get f i n = map f [i..<i + n]"

lemma length_get [simp]: "length (get f i n) = n"
  by (simp add: get_def)

lemma get_0 [simp]: "get f i 0 = []"
  by (simp add: get_def)

lemma get_Suc: "get f i (Suc n) = f i # get f (Suc i) n"
  by (simp add: get_def upt_rec)

lemma get_put: "get (put f i vs) i (length vs) = vs"
  by (auto simp: get_def put_apply intro!: nth_equalityI)

lemma get_put_below: "a + n \<le> i \<Longrightarrow> get (put f i vs) a n = get f a n"
  by (simp add: get_def)

lemma get_put_all: "length vs = n \<Longrightarrow> get (put f i vs) i n = vs"
  using get_put by blast

lemma get_append: "get f a (m + n) = get f a m @ get f (a + m) n"
  by (induction m arbitrary: a) (simp_all add: get_Suc)

section \<open>Resend loops\<close>

text \<open>
  \<^verbatim>\<open>do { resend_num++; ...; ok = ...; } while (resend_num < n && !ok)\<close>: the body runs
  at least once and at most \<open>max 1 n\<close> times. \<open>resend n body s\<close> returns the last
  status, the number of attempts made and the final state.
\<close>

fun resend_from :: "nat \<Rightarrow> ('s \<Rightarrow> bool \<times> 's) \<Rightarrow> nat \<Rightarrow> 's \<Rightarrow> bool \<times> nat \<times> 's" where
  "resend_from 0 body k s = (let (ok, s') = body s in (ok, Suc k, s'))"
| "resend_from (Suc m) body k s =
     (let (ok, s') = body s
      in if ok then (True, Suc k, s') else resend_from m body (Suc k) s')"

definition resend :: "nat \<Rightarrow> ('s \<Rightarrow> bool \<times> 's) \<Rightarrow> 's \<Rightarrow> bool \<times> nat \<times> 's" where
  "resend n body s = resend_from (n - 1) body 0 s"

lemma resend_from_attempts:
  "resend_from m body k s = (ok, a, t) \<Longrightarrow> Suc k \<le> a \<and> a \<le> Suc (k + m)"
proof (induction m arbitrary: k s)
  case 0
  then show ?case by (auto split: prod.splits)
next
  case (Suc m)
  then show ?case by (force split: prod.splits if_splits)
qed

lemma resend_attempts: "resend n body s = (ok, a, t) \<Longrightarrow> 1 \<le> a \<and> a \<le> max 1 n"
  using resend_from_attempts [of "n - 1" body 0 s ok a t] by (auto simp: resend_def)

lemma resend_from_invariant:
  assumes "resend_from m body k s = (ok, a, t)" and "P s"
    and "\<And>s b s'. P s \<Longrightarrow> body s = (b, s') \<Longrightarrow> P s'"
  shows "P t"
  using assms(1,2)
proof (induction m arbitrary: k s)
  case 0
  then show ?case by (auto split: prod.splits dest: assms(3))
next
  case (Suc m)
  obtain b s' where b: "body s = (b, s')" by (cases "body s")
  with Suc.prems(2) have "P s'" using assms(3) by blast
  with Suc b show ?case by (auto split: if_splits)
qed

lemma resend_invariant:
  assumes "resend n body s = (ok, a, t)" and "P s"
    and "\<And>s b s'. P s \<Longrightarrow> body s = (b, s') \<Longrightarrow> P s'"
  shows "P t"
  using resend_from_invariant [of "n - 1" body 0 s ok a t P] assms by (simp add: resend_def)

lemma resend_from_failed:
  "resend_from m body k s = (False, a, t) \<Longrightarrow> a = Suc (k + m)"
proof (induction m arbitrary: k s)
  case 0
  then show ?case by (auto split: prod.splits)
next
  case (Suc m)
  then show ?case by (fastforce split: prod.splits if_splits)
qed

lemma resend_failed: "resend n body s = (False, a, t) \<Longrightarrow> a = max 1 n"
  using resend_from_failed [of "n - 1" body 0 s a t] by (auto simp: resend_def)

text \<open>The last attempt of a successful loop is one whose body reported success.\<close>

lemma resend_from_succeeded:
  "resend_from m body k s = (True, a, t) \<Longrightarrow> \<exists>s'. body s' = (True, t)"
proof (induction m arbitrary: k s)
  case 0
  then show ?case by (auto split: prod.splits)
next
  case (Suc m)
  then show ?case by (fastforce split: prod.splits if_splits)
qed

lemma resend_succeeded: "resend n body s = (True, a, t) \<Longrightarrow> \<exists>s'. body s' = (True, t)"
  using resend_from_succeeded [of "n - 1" body 0 s a t] by (auto simp: resend_def)

lemma bind_SomeE:
  assumes "m \<bind> f = Some z"
  obtains y where "m = Some y" "f y = Some z"
  using assms by (cases m) auto

end
