(* ===== verification/Common.thy ===== *)
theory Common
  imports Prelude
begin

text \<open>
  \<^verbatim>\<open>common/common.c\<close> and the byte macros of \<^verbatim>\<open>common/common.h\<close>: register,
  halfword and byte order conversions, and packed decimal (BCD). A \<^verbatim>\<open>float\<close> is its
  32-bit pattern: the two float conversions only move bytes through
  \<^verbatim>\<open>memcpy\<close>.
\<close>

section \<open>Byte macros\<close>

definition BUILD_UINT16 :: "u8 \<Rightarrow> u8 \<Rightarrow> u16" where
  "BUILD_UINT16 loByte hiByte =
     (ucast loByte AND 0x00FF) + push_bit 8 (ucast hiByte AND 0x00FF)"

definition BUILD_UINT322 :: "u16 \<Rightarrow> u16 \<Rightarrow> u32" where
  "BUILD_UINT322 Word0 Word1 =
     (ucast Word0 AND 0x0000FFFF) + push_bit 16 (ucast Word1 AND 0x0000FFFF)"

definition HI_UINT16 :: "u16 \<Rightarrow> u8" where
  "HI_UINT16 a = ucast (drop_bit 8 a AND 0xFF)"

definition LO_UINT16 :: "u16 \<Rightarrow> u8" where
  "LO_UINT16 a = ucast (a AND 0xFF)"

definition BREAK_UINT32 :: "u32 \<Rightarrow> nat \<Rightarrow> u8" where
  "BREAK_UINT32 var ByteNum = ucast (drop_bit (ByteNum * 8) var AND 0x00FF)"

section \<open>Register and byte order\<close>

definition swap_register32 :: "u32 \<Rightarrow> u32" where
  "swap_register32 var =
     (let tmp1 = drop_bit 16 var AND 0x0000FFFF;
          tmp2 = push_bit 16 var AND 0xFFFF0000
      in tmp1 OR tmp2)"

definition swap_register64 :: "u64 \<Rightarrow> u64" where
  "swap_register64 var =
     (let tmp1 = drop_bit 48 var AND 0x000000000000FFFF;
          tmp2 = drop_bit 16 var AND 0x00000000FFFF0000;
          tmp3 = push_bit 16 var AND 0x0000FFFF00000000;
          tmp4 = push_bit 48 var AND 0xFFFF000000000000
      in tmp1 OR tmp2 OR tmp3 OR tmp4)"

definition swap_int16 :: "u16 \<Rightarrow> u16" where
  "swap_int16 n =
     (let temp1 = drop_bit 8 n AND 0x00FF;
          temp2 = push_bit 8 n AND 0xFF00
      in temp1 OR temp2)"

definition swap_int32 :: "u32 \<Rightarrow> u32" where
  "swap_int32 n =
     (let temp1 = drop_bit 24 n AND 0x000000FF;
          temp2 = drop_bit 8 n AND 0x0000FF00;
          temp3 = push_bit 8 n AND 0x00FF0000;
          temp4 = push_bit 24 n AND 0xFF000000
      in temp1 OR temp2 OR temp3 OR temp4)"

definition swap_int64 :: "u64 \<Rightarrow> u64" where
  "swap_int64 n =
     (let temp1 = drop_bit 56 n AND 0x00000000000000FF;
          temp2 = drop_bit 40 n AND 0x000000000000FF00;
          temp3 = drop_bit 24 n AND 0x0000000000FF0000;
          temp4 = drop_bit 8 n AND 0x00000000FF000000;
          temp5 = push_bit 8 n AND 0x000000FF00000000;
          temp6 = push_bit 24 n AND 0x0000FF0000000000;
          temp7 = push_bit 40 n AND 0x00FF000000000000;
          temp8 = push_bit 56 n AND 0xFF00000000000000
      in temp1 OR temp2 OR temp3 OR temp4 OR temp5 OR temp6 OR temp7 OR temp8)"

definition swap_rcv_float_seq :: "u32 \<Rightarrow> u32" where
  "swap_rcv_float_seq var =
     (let tmp_array = u32_bytes var;
          tmp_change = tmp_array ! 0;
          tmp_array = tmp_array[0 := tmp_array ! 3];
          tmp_array = tmp_array[3 := tmp_change];
          tmp_change = tmp_array ! 1;
          tmp_array = tmp_array[1 := tmp_array ! 2];
          tmp_array = tmp_array[2 := tmp_change]
      in bytes_u32 (tmp_array ! 0) (tmp_array ! 1) (tmp_array ! 2) (tmp_array ! 3))"

definition swap_stor_float_seq :: "u32 \<Rightarrow> u32" where
  "swap_stor_float_seq var =
     (let tmp_array = u32_bytes var;
          tmp_change = tmp_array ! 0;
          tmp_array = tmp_array[0 := tmp_array ! 2];
          tmp_array = tmp_array[2 := tmp_change];
          tmp_change = tmp_array ! 1;
          tmp_array = tmp_array[1 := tmp_array ! 3];
          tmp_array = tmp_array[3 := tmp_change]
      in bytes_u32 (tmp_array ! 0) (tmp_array ! 1) (tmp_array ! 2) (tmp_array ! 3))"

section \<open>Packed decimal\<close>

definition int16_to_bcd :: "u16 \<Rightarrow> u16" where
  "int16_to_bcd n =
     (if n > 9999 then 0
      else push_bit 12 (n div 1000) OR push_bit 8 (n div 100 mod 10)
           OR push_bit 4 (n mod 100 div 10) OR (n mod 10))"

definition bcd_to_int8 :: "u8 \<Rightarrow> u8" where
  "bcd_to_int8 bcd = drop_bit 4 bcd * 10 + (bcd AND 0x0F)"

definition bcd_to_int16 :: "u16 \<Rightarrow> u16" where
  "bcd_to_int16 bcd =
     ucast (bcd_to_int8 (ucast (drop_bit 8 bcd))) * 100
     + ucast (bcd_to_int8 (ucast (bcd AND 0xFF)))"

section \<open>The byte-order contract\<close>

text \<open>
  What the register code relies on when it converts a value on the way in and on the way
  out: the conversion undoes itself and loses nothing.
\<close>

locale byte_order =
  fixes swap :: "'a::len word \<Rightarrow> 'a word"
  assumes swap_swap: "swap (swap w) = w"
begin

lemma swap_eq_iff: "swap v = swap w \<longleftrightarrow> v = w"
  by (metis swap_swap)

lemma swap_bij: "bij swap"
  by (rule involuntory_imp_bij) (rule swap_swap)

lemma swap_eq_move: "swap v = w \<longleftrightarrow> v = swap w"
  by (metis swap_swap)

end

lemma mask_bits [word_defs]:
  "(0xFF :: 'a::len word) = mask 8" "(0xFFFF :: 'a::len word) = mask 16"
  "(0xFF00 :: 'a::len word) = push_bit 8 (mask 8)"
  "(0xFFFF0000 :: 'a::len word) = push_bit 16 (mask 16)"
  "(0xFF0000 :: 'a::len word) = push_bit 16 (mask 8)"
  "(0xFF000000 :: 'a::len word) = push_bit 24 (mask 8)"
  "(0xFFFF00000000 :: 'a::len word) = push_bit 32 (mask 16)"
  "(0xFFFF000000000000 :: 'a::len word) = push_bit 48 (mask 16)"
  "(0xFF00000000 :: 'a::len word) = push_bit 32 (mask 8)"
  "(0xFF0000000000 :: 'a::len word) = push_bit 40 (mask 8)"
  "(0xFF000000000000 :: 'a::len word) = push_bit 48 (mask 8)"
  "(0xFF00000000000000 :: 'a::len word) = push_bit 56 (mask 8)"
  by (simp_all add: mask_eq_exp_minus_1 push_bit_eq_mult)


lemma bit_swap_int16:
  "bit (swap_int16 n) i \<longleftrightarrow>
     (if i < 8 then bit n (i + 8) else i < 16 \<and> bit n (i - 8))"
  by (auto simp: swap_int16_def word_defs bit_simps add.commute)

lemma bit_swap_register32:
  "bit (swap_register32 n) i \<longleftrightarrow>
     (if i < 16 then bit n (i + 16) else i < 32 \<and> bit n (i - 16))"
  by (auto simp: swap_register32_def word_defs bit_simps add.commute)

lemma bit_swap_register64:
  "bit (swap_register64 n) i \<longleftrightarrow>
     (if i < 16 then bit n (i + 48) else if i < 32 then bit n (i + 16)
      else if i < 48 then bit n (i - 16) else i < 64 \<and> bit n (i - 48))"
  by (auto simp: swap_register64_def word_defs bit_simps add.commute)

lemma bit_swap_int32:
  "bit (swap_int32 n) i \<longleftrightarrow>
     (if i < 8 then bit n (i + 24) else if i < 16 then bit n (i + 8)
      else if i < 24 then bit n (i - 8) else i < 32 \<and> bit n (i - 24))"
  by (auto simp: swap_int32_def word_defs bit_simps add.commute)

lemma bit_shift_mask [word_defs]:
  fixes n :: "'a::len word"
  shows "bit (drop_bit k n AND push_bit j (mask m)) i \<longleftrightarrow> j \<le> i \<and> i < j + m \<and> bit n (i + k)"
    and "bit (push_bit k n AND push_bit j (mask m)) i \<longleftrightarrow>
      j \<le> i \<and> i < j + m \<and> i < LENGTH('a) \<and> k \<le> i \<and> bit n (i - k)"
    and "bit (drop_bit k n AND mask m) i \<longleftrightarrow> i < m \<and> bit n (i + k)"
  by (auto simp: bit_simps add.commute dest: bit_imp_le_length)

lemma bit_swap_int64:
  "bit (swap_int64 n) i \<longleftrightarrow>
     (if i < 8 then bit n (i + 56) else if i < 16 then bit n (i + 40)
      else if i < 24 then bit n (i + 24) else if i < 32 then bit n (i + 8)
      else if i < 40 then bit n (i - 8) else if i < 48 then bit n (i - 24)
      else if i < 56 then bit n (i - 40) else i < 64 \<and> bit n (i - 56))"
proof -
  consider "i < 8" | "8 \<le> i" "i < 16" | "16 \<le> i" "i < 24" | "24 \<le> i" "i < 32"
    | "32 \<le> i" "i < 40" | "40 \<le> i" "i < 48" | "48 \<le> i" "i < 56" | "56 \<le> i"
    by linarith
  then show ?thesis
    by cases (simp_all add: swap_int64_def Let_def word_defs bit_or_iff)
qed

lemma swap_int16_twice: "swap_int16 (swap_int16 n) = n"
  by (rule bit_word_eqI) (auto simp: bit_swap_int16)

lemma swap_register32_twice: "swap_register32 (swap_register32 n) = n"
  by (rule bit_word_eqI) (auto simp: bit_swap_register32)

lemma swap_register64_twice: "swap_register64 (swap_register64 n) = n"
  by (rule bit_word_eqI) (auto simp: bit_swap_register64)

lemma swap_int32_twice: "swap_int32 (swap_int32 n) = n"
  by (rule bit_word_eqI) (auto simp: bit_swap_int32)

lemma swap_int64_twice: "swap_int64 (swap_int64 n) = n"
  by (rule bit_word_eqI) (auto simp: bit_swap_int64)

interpretation register32: byte_order swap_register32
  by unfold_locales (rule swap_register32_twice)

interpretation register64: byte_order swap_register64
  by unfold_locales (rule swap_register64_twice)

interpretation int16: byte_order swap_int16
  by unfold_locales (rule swap_int16_twice)

interpretation int32: byte_order swap_int32
  by unfold_locales (rule swap_int32_twice)

interpretation int64: byte_order swap_int64
  by unfold_locales (rule swap_int64_twice)

lemma swap_rcv_float_bytes:
  "swap_rcv_float_seq (bytes_u32 a b c d) = bytes_u32 d c b a"
  by (simp add: swap_rcv_float_seq_def)

lemma swap_stor_float_bytes:
  "swap_stor_float_seq (bytes_u32 a b c d) = bytes_u32 c d a b"
  by (simp add: swap_stor_float_seq_def)

lemma bytes_u32_cases:
  obtains (bytes) a b c d where "w = bytes_u32 a b c d"
  by (metis bytes_u32_bytes)

interpretation rcv_float: byte_order swap_rcv_float_seq
proof
  fix w
  show "swap_rcv_float_seq (swap_rcv_float_seq w) = w"
    by (cases w rule: bytes_u32_cases) (simp add: swap_rcv_float_bytes)
qed

interpretation stor_float: byte_order swap_stor_float_seq
proof
  fix w
  show "swap_stor_float_seq (swap_stor_float_seq w) = w"
    by (cases w rule: bytes_u32_cases) (simp add: swap_stor_float_bytes)
qed

text \<open>
  The float conversions are the register and byte orders: converting a received float is
  the full byte reversal \<^const>\<open>swap_int32\<close> of its pattern, preparing one for the register
  area is the halfword exchange \<^const>\<open>swap_register32\<close>; the two commute and each undoes
  itself, so a value received, converted and read back through the store is recovered exactly.
\<close>

theorem float_orders:
  "swap_rcv_float_seq w = swap_int32 w \<and>
   swap_stor_float_seq w = swap_register32 w \<and>
   swap_stor_float_seq (swap_rcv_float_seq w) = swap_rcv_float_seq (swap_stor_float_seq w) \<and>
   swap_rcv_float_seq (swap_stor_float_seq (swap_stor_float_seq (swap_rcv_float_seq w))) = w"
proof (intro conjI)
  obtain a b c d where w: "w = bytes_u32 a b c d"
    by (rule bytes_u32_cases)
  have *: "swap_int32 (bytes_u32 a b c d) = bytes_u32 d c b a"
    by (rule bit_word_eqI) (auto simp: bit_swap_int32 bytes_u32_def bit_simps)
  have **: "swap_register32 (bytes_u32 a b c d) = bytes_u32 c d a b"
    by (rule bit_word_eqI) (auto simp: bit_swap_register32 bytes_u32_def bit_simps)
  show "swap_rcv_float_seq w = swap_int32 w"
    by (simp add: w * swap_rcv_float_bytes)
  show "swap_stor_float_seq w = swap_register32 w"
    by (simp add: w ** swap_stor_float_bytes)
  show "swap_stor_float_seq (swap_rcv_float_seq w) = swap_rcv_float_seq (swap_stor_float_seq w)"
    by (simp add: w swap_rcv_float_bytes swap_stor_float_bytes)
  show "swap_rcv_float_seq (swap_stor_float_seq (swap_stor_float_seq (swap_rcv_float_seq w))) = w"
    by (simp add: stor_float.swap_swap rcv_float.swap_swap)
qed

section \<open>Packed decimal round trip\<close>

lemma and_15: "(w :: 'a::len word) AND 15 = w AND mask 4"
  by (simp add: mask_eq_exp_minus_1)

lemma and_255: "(w :: 'a::len word) AND 255 = w AND mask 8"
  by (simp add: mask_eq_exp_minus_1)

lemma unat_bcd_to_int8: "unat (bcd_to_int8 b) = 10 * (unat b div 16) + unat b mod 16"
proof -
  have hi: "unat (drop_bit 4 b) = unat b div 16"
    by (simp only: unat_ops) simp
  have lo: "unat (b AND 15) = unat b mod 16"
    by (simp only: and_15 unat_ops) simp
  have "unat b div 16 < 16"
    using unat_lt_u8 [of b] by linarith
  moreover have "unat b mod 16 < 16"
    by simp
  ultimately show ?thesis
    by (simp only: bcd_to_int8_def unat_word_ariths hi lo) simp
qed

definition bcd_value :: "nat \<Rightarrow> nat" where
  "bcd_value k = 1000 * (k div 4096) + 100 * (k div 256 mod 16) + 10 * (k div 16 mod 16) + k mod 16"

lemma nibble_split:
  fixes k :: nat
  shows "k div 256 div 16 = k div 4096"
    and "k mod 256 div 16 = k div 16 mod 16"
    and "k mod 256 mod 16 = k mod 16"
proof -
  have m: "k mod 256 = 16 * (k div 16 mod 16) + k mod 16"
    using mod_mult2_eq [of k 16 16] by simp
  show "k div 256 div 16 = k div 4096"
    by (simp flip: div_mult2_eq)
  show "k mod 256 div 16 = k div 16 mod 16"
    by (simp add: m)
  show "k mod 256 mod 16 = k mod 16"
    by (simp add: m)
qed

lemma unat_bcd_to_int16: "unat (bcd_to_int16 w) = bcd_value (unat w)"
proof -
  define k where "k = unat w"
  have k: "k < 65536" using unat_lt_u16 [of w] by (simp add: k_def)
  have "k div 256 < 256" using k by (simp add: less_mult_imp_div_less)
  then have hi: "unat (ucast (drop_bit 8 w) :: u8) = k div 256"
    by (simp only: unat_ops k_def) simp
  have lo: "unat (ucast (w AND 255) :: u8) = k mod 256"
    by (simp only: and_255 unat_ops k_def) simp
  define p q r t where "p = k div 4096" and "q = k div 256 mod 16" and "r = k div 16 mod 16"
    and "t = k mod 16"
  have b: "p < 16" "q < 16" "r < 16" "t < 16"
    using k by (simp_all add: p_def q_def r_def t_def less_mult_imp_div_less)
  have "unat (bcd_to_int8 (ucast (drop_bit 8 w))) = 10 * p + q"
    by (simp only: unat_bcd_to_int8 hi nibble_split p_def q_def)
  moreover have "unat (bcd_to_int8 (ucast (w AND 255))) = 10 * r + t"
    by (simp only: unat_bcd_to_int8 lo nibble_split r_def t_def)
  ultimately show ?thesis
    using b
    by (simp only: bcd_to_int16_def unat_word_ariths unat_ucast_mod
        bcd_value_def k_def [symmetric] p_def [symmetric] q_def [symmetric] r_def [symmetric]
        t_def [symmetric]) simp
qed

lemma digit_bit: "(w :: u16) < 16 \<Longrightarrow> bit w i \<Longrightarrow> i < 4"
proof -
  assume "w < 16" "bit w i"
  then have "unat w < 2 ^ 4" "bit (unat w) i"
    by (simp_all add: word_less_nat_alt bit_unsigned_iff)
  then show "i < 4"
    by (metis bit_take_bit_iff take_bit_nat_eq_self)
qed

lemma nibbles_or_eq_add:
  assumes "a < 16" "b < 16" "c < 16" "(d :: u16) < 16"
  shows "push_bit 12 a OR push_bit 8 b OR push_bit 4 c OR d
    = push_bit 12 a + (push_bit 8 b + (push_bit 4 c + d))"
proof -
  note dig = digit_bit [OF assms(1)] digit_bit [OF assms(2)] digit_bit [OF assms(3)]
    digit_bit [OF assms(4)]
  have "push_bit 4 c + d = push_bit 4 c OR d"
    by (rule disjunctive_add_eq_or, rule bit_word_eqI) (auto simp: bit_simps dest: dig)
  moreover have "push_bit 8 b + (push_bit 4 c OR d) = push_bit 8 b OR push_bit 4 c OR d"
    by (rule disjunctive_add_eq_or, rule bit_word_eqI) (auto simp: bit_simps dest: dig)
  moreover have "push_bit 12 a + (push_bit 8 b OR push_bit 4 c OR d)
      = push_bit 12 a OR push_bit 8 b OR push_bit 4 c OR d"
    by (rule disjunctive_add_eq_or, rule bit_word_eqI) (auto simp: bit_simps dest: dig)
  ultimately show ?thesis by simp
qed

definition bcd_nibbles :: "nat \<Rightarrow> nat" where
  "bcd_nibbles k = 4096 * (k div 1000) + 256 * (k div 100 mod 10) + 16 * (k mod 100 div 10) + k mod 10"

lemma unat_int16_to_bcd:
  assumes "n \<le> 9999"
  shows "unat (int16_to_bcd n) = bcd_nibbles (unat n)"
proof -
  define k where "k = unat n"
  have k: "k \<le> 9999" using assms by (simp add: k_def word_le_nat_alt)
  have u: "unat (n div 1000) = k div 1000" "unat (n div 100 mod 10) = k div 100 mod 10"
    "unat (n mod 100 div 10) = k mod 100 div 10" "unat (n mod 10) = k mod 10"
    by (simp_all only: unat_ops k_def) simp_all
  have b: "k div 1000 < 10" "k div 100 mod 10 < 10" "k mod 100 div 10 < 10" "k mod 10 < 10"
    using k by linarith+
  have "int16_to_bcd n = push_bit 12 (n div 1000) + (push_bit 8 (n div 100 mod 10)
      + (push_bit 4 (n mod 100 div 10) + n mod 10))"
    using assms b
    by (simp only: int16_to_bcd_def not_le [symmetric] if_not_P if_P if_False)
      (subst nibbles_or_eq_add, simp_all add: word_less_nat_alt u del: drop_bit_eq_div)
  then show ?thesis
    using b
    by (simp only: push_bit_eq_mult unat_word_ariths u bcd_nibbles_def k_def [symmetric]) simp
qed

lemma nibbles_of:
  fixes a b c d :: nat
  assumes "b < 16" "c < 16" "d < 16"
  defines "k \<equiv> 4096 * a + 256 * b + 16 * c + d"
  shows "k div 4096 = a" "k div 256 mod 16 = b" "k div 16 mod 16 = c" "k mod 16 = d"
proof -
  have k: "k = 16 * (16 * (16 * a + b) + c) + d"
    by (simp add: k_def)
  have k1: "k div 16 = 16 * (16 * a + b) + c"
    using assms(3) by (simp add: k)
  have k2: "k div 256 = 16 * a + b"
    using assms(2) k1 div_mult2_eq [of k 16 16] by simp
  show "k div 4096 = a"
    using assms(1) k2 nibble_split(1) [of k] by simp
  show "k div 256 mod 16 = b"
    using assms(1) by (simp add: k2)
  show "k div 16 mod 16 = c"
    using assms(2) mod_mult_self4 [of 16 "16 * a + b" c] by (simp only: k1) simp
  show "k mod 16 = d"
    using assms(3) mod_mult_self4 [of 16 "16 * (16 * a + b) + c" d] by (simp only: k) simp
qed

lemma decimal_digits:
  fixes k :: nat
  shows "1000 * (k div 1000) + 100 * (k div 100 mod 10) + 10 * (k mod 100 div 10) + k mod 10 = k"
proof -
  have "k mod 1000 = 100 * (k div 100 mod 10) + k mod 100"
    using mod_mult2_eq [of k 100 10] by simp
  moreover have "k mod 100 = 10 * (k mod 100 div 10) + k mod 10"
    using mod_mult2_eq [of k 10 10] by simp
  ultimately show ?thesis
    using div_mult_mod_eq [of k 1000] by simp
qed

lemma bcd_nibbles_value: "bcd_value (bcd_nibbles k) = k"
proof -
  have "k div 100 mod 10 < 16" "k mod 100 div 10 < 16" "k mod 10 < 16"
    by (simp_all add: less_mult_imp_div_less trans_less_add1 less_trans [of _ 10])
  from nibbles_of [OF this, of "k div 1000"] show ?thesis
    by (simp only: bcd_value_def bcd_nibbles_def decimal_digits)
qed

text \<open>
  Packed decimal round trip: for every value the four digits can hold
  \<^verbatim>\<open>int16_to_bcd\<close> yields the hexadecimal digits that read as the decimal number, and
  \<^verbatim>\<open>bcd_to_int16\<close> gives the value back; above 9999 the encoder returns 0.
\<close>

theorem bcd_roundtrip:
  "(if n \<le> 9999
    then unat (int16_to_bcd n) = bcd_nibbles (unat n) \<and> bcd_to_int16 (int16_to_bcd n) = n
    else int16_to_bcd n = 0)"
proof (cases "n \<le> 9999")
  case True
  then have "unat n \<le> 9999" by (simp add: word_le_nat_alt)
  then have "unat (bcd_to_int16 (int16_to_bcd n)) = unat n"
    by (simp only: unat_bcd_to_int16 unat_int16_to_bcd [OF True] bcd_nibbles_value)
  then have "bcd_to_int16 (int16_to_bcd n) = n"
    by (rule unsigned_word_eqI)
  then show ?thesis
    using True by (simp add: unat_int16_to_bcd)
next
  case False
  then have "n > 9999" by simp
  then show ?thesis
    by (simp only: int16_to_bcd_def if_P False if_False)
qed

end
