(* ===== verification/Checksum.thy ===== *)
theory Checksum
  imports Common
begin

text \<open>
  The frame checks of \<^verbatim>\<open>libmodbus-3.0.6/src/modbus-rtu.c\<close>: the table-driven CRC-16 of
  Modbus RTU, the 8-bit sum of the ZigBee frames and the 16-bit sum of the actuator frames, each
  with the routine that checks a received frame. A buffer is a list of bytes; reading past its end
  is \<^const>\<open>None\<close>. The CRC is proved equal to the bitwise definition of the polynomial
  0xA001, and to detect every change of a single byte.
\<close>

section \<open>CRC-16\<close>

definition table_crc_hi :: "u8 list" where
  "table_crc_hi =
    [0x00, 0xC1, 0x81, 0x40, 0x01, 0xC0, 0x80, 0x41, 0x01, 0xC0, 0x80, 0x41, 0x00, 0xC1, 0x81, 0x40,
     0x01, 0xC0, 0x80, 0x41, 0x00, 0xC1, 0x81, 0x40, 0x00, 0xC1, 0x81, 0x40, 0x01, 0xC0, 0x80, 0x41,
     0x01, 0xC0, 0x80, 0x41, 0x00, 0xC1, 0x81, 0x40, 0x00, 0xC1, 0x81, 0x40, 0x01, 0xC0, 0x80, 0x41,
     0x00, 0xC1, 0x81, 0x40, 0x01, 0xC0, 0x80, 0x41, 0x01, 0xC0, 0x80, 0x41, 0x00, 0xC1, 0x81, 0x40,
     0x01, 0xC0, 0x80, 0x41, 0x00, 0xC1, 0x81, 0x40, 0x00, 0xC1, 0x81, 0x40, 0x01, 0xC0, 0x80, 0x41,
     0x00, 0xC1, 0x81, 0x40, 0x01, 0xC0, 0x80, 0x41, 0x01, 0xC0, 0x80, 0x41, 0x00, 0xC1, 0x81, 0x40,
     0x00, 0xC1, 0x81, 0x40, 0x01, 0xC0, 0x80, 0x41, 0x01, 0xC0, 0x80, 0x41, 0x00, 0xC1, 0x81, 0x40,
     0x01, 0xC0, 0x80, 0x41, 0x00, 0xC1, 0x81, 0x40, 0x00, 0xC1, 0x81, 0x40, 0x01, 0xC0, 0x80, 0x41,
     0x01, 0xC0, 0x80, 0x41, 0x00, 0xC1, 0x81, 0x40, 0x00, 0xC1, 0x81, 0x40, 0x01, 0xC0, 0x80, 0x41,
     0x00, 0xC1, 0x81, 0x40, 0x01, 0xC0, 0x80, 0x41, 0x01, 0xC0, 0x80, 0x41, 0x00, 0xC1, 0x81, 0x40,
     0x00, 0xC1, 0x81, 0x40, 0x01, 0xC0, 0x80, 0x41, 0x01, 0xC0, 0x80, 0x41, 0x00, 0xC1, 0x81, 0x40,
     0x01, 0xC0, 0x80, 0x41, 0x00, 0xC1, 0x81, 0x40, 0x00, 0xC1, 0x81, 0x40, 0x01, 0xC0, 0x80, 0x41,
     0x00, 0xC1, 0x81, 0x40, 0x01, 0xC0, 0x80, 0x41, 0x01, 0xC0, 0x80, 0x41, 0x00, 0xC1, 0x81, 0x40,
     0x01, 0xC0, 0x80, 0x41, 0x00, 0xC1, 0x81, 0x40, 0x00, 0xC1, 0x81, 0x40, 0x01, 0xC0, 0x80, 0x41,
     0x01, 0xC0, 0x80, 0x41, 0x00, 0xC1, 0x81, 0x40, 0x00, 0xC1, 0x81, 0x40, 0x01, 0xC0, 0x80, 0x41,
     0x00, 0xC1, 0x81, 0x40, 0x01, 0xC0, 0x80, 0x41, 0x01, 0xC0, 0x80, 0x41, 0x00, 0xC1, 0x81, 0x40]"

definition table_crc_lo :: "u8 list" where
  "table_crc_lo =
    [0x00, 0xC0, 0xC1, 0x01, 0xC3, 0x03, 0x02, 0xC2, 0xC6, 0x06, 0x07, 0xC7, 0x05, 0xC5, 0xC4, 0x04,
     0xCC, 0x0C, 0x0D, 0xCD, 0x0F, 0xCF, 0xCE, 0x0E, 0x0A, 0xCA, 0xCB, 0x0B, 0xC9, 0x09, 0x08, 0xC8,
     0xD8, 0x18, 0x19, 0xD9, 0x1B, 0xDB, 0xDA, 0x1A, 0x1E, 0xDE, 0xDF, 0x1F, 0xDD, 0x1D, 0x1C, 0xDC,
     0x14, 0xD4, 0xD5, 0x15, 0xD7, 0x17, 0x16, 0xD6, 0xD2, 0x12, 0x13, 0xD3, 0x11, 0xD1, 0xD0, 0x10,
     0xF0, 0x30, 0x31, 0xF1, 0x33, 0xF3, 0xF2, 0x32, 0x36, 0xF6, 0xF7, 0x37, 0xF5, 0x35, 0x34, 0xF4,
     0x3C, 0xFC, 0xFD, 0x3D, 0xFF, 0x3F, 0x3E, 0xFE, 0xFA, 0x3A, 0x3B, 0xFB, 0x39, 0xF9, 0xF8, 0x38,
     0x28, 0xE8, 0xE9, 0x29, 0xEB, 0x2B, 0x2A, 0xEA, 0xEE, 0x2E, 0x2F, 0xEF, 0x2D, 0xED, 0xEC, 0x2C,
     0xE4, 0x24, 0x25, 0xE5, 0x27, 0xE7, 0xE6, 0x26, 0x22, 0xE2, 0xE3, 0x23, 0xE1, 0x21, 0x20, 0xE0,
     0xA0, 0x60, 0x61, 0xA1, 0x63, 0xA3, 0xA2, 0x62, 0x66, 0xA6, 0xA7, 0x67, 0xA5, 0x65, 0x64, 0xA4,
     0x6C, 0xAC, 0xAD, 0x6D, 0xAF, 0x6F, 0x6E, 0xAE, 0xAA, 0x6A, 0x6B, 0xAB, 0x69, 0xA9, 0xA8, 0x68,
     0x78, 0xB8, 0xB9, 0x79, 0xBB, 0x7B, 0x7A, 0xBA, 0xBE, 0x7E, 0x7F, 0xBF, 0x7D, 0xBD, 0xBC, 0x7C,
     0xB4, 0x74, 0x75, 0xB5, 0x77, 0xB7, 0xB6, 0x76, 0x72, 0xB2, 0xB3, 0x73, 0xB1, 0x71, 0x70, 0xB0,
     0x50, 0x90, 0x91, 0x51, 0x93, 0x53, 0x52, 0x92, 0x96, 0x56, 0x57, 0x97, 0x55, 0x95, 0x94, 0x54,
     0x9C, 0x5C, 0x5D, 0x9D, 0x5F, 0x9F, 0x9E, 0x5E, 0x5A, 0x9A, 0x9B, 0x5B, 0x99, 0x59, 0x58, 0x98,
     0x88, 0x48, 0x49, 0x89, 0x4B, 0x8B, 0x8A, 0x4A, 0x4E, 0x8E, 0x8F, 0x4F, 0x8D, 0x4D, 0x4C, 0x8C,
     0x44, 0x84, 0x85, 0x45, 0x87, 0x47, 0x46, 0x86, 0x82, 0x42, 0x43, 0x83, 0x41, 0x81, 0x80, 0x40]"

text \<open>One round of the loop of \<^verbatim>\<open>crc16\<close> on the pair \<open>(crc_hi, crc_lo)\<close>.\<close>

definition crc_step :: "u8 \<times> u8 \<Rightarrow> u8 \<Rightarrow> u8 \<times> u8" where
  "crc_step c b =
     (let (crc_hi, crc_lo) = c; i = unat (crc_hi XOR b)
      in (crc_lo XOR table_crc_hi ! i, table_crc_lo ! i))"

definition crc_pair :: "u8 list \<Rightarrow> u8 \<times> u8" where
  "crc_pair bs = foldl crc_step (0xFF, 0xFF) bs"

definition crc16 :: "u8 list \<Rightarrow> u16 \<Rightarrow> u16 option" where
  "crc16 buffer buffer_length =
     (if length buffer < unat buffer_length then None
      else (let (crc_hi, crc_lo) = crc_pair (take (unat buffer_length) buffer)
            in Some (push_bit 8 (ucast crc_hi) OR ucast crc_lo)))"

section \<open>Sums\<close>

fun sum_bytes :: "u8 list \<Rightarrow> u16" where
  "sum_bytes [] = 0"
| "sum_bytes (b # bs) = ucast b + sum_bytes bs"

text \<open>\<^verbatim>\<open>sum8\<close> adds one byte more than its length argument says.\<close>

definition sum8 :: "u8 list \<Rightarrow> u16 \<Rightarrow> u8 option" where
  "sum8 buffer buffer_length =
     (let n = unat (buffer_length + 1) in
      if length buffer < n then None else Some (ucast (sum_bytes (take n buffer))))"

definition sum16 :: "u8 list \<Rightarrow> u16 \<Rightarrow> u16 option" where
  "sum16 buffer buffer_length =
     (if length buffer < unat buffer_length then None
      else Some (sum_bytes (take (unat buffer_length) buffer)))"

section \<open>Checking and sealing frames\<close>

text \<open>
  A check returns the length of the frame or \<open>-1\<close>. Frames are the first \<open>n\<close> bytes of the
  message buffer.
\<close>

definition rtu_check_integrity :: "u8 list \<Rightarrow> nat \<Rightarrow> int option" where
  "rtu_check_integrity msg n =
     (if n < 2 \<or> length msg < n then None
      else do {
        crc_calculated \<leftarrow> crc16 msg (of_nat (n - 2));
        let crc_received = push_bit 8 (ucast (msg ! (n - 2))) OR ucast (msg ! (n - 1));
        Some (if crc_calculated = crc_received then int n else -1) })"

definition rtu_send_msg_pre :: "u8 list \<Rightarrow> u8 list" where
  "rtu_send_msg_pre req =
     (let (crc_hi, crc_lo) = crc_pair req;
          crc = push_bit 8 (ucast crc_hi) OR ucast crc_lo :: u16
      in req @ [ucast (drop_bit 8 crc), ucast (crc AND 0x00FF)])"

definition zigbee_check_integrity :: "u8 list \<Rightarrow> nat \<Rightarrow> int option" where
  "zigbee_check_integrity msg n =
     (if length msg < 3 then None
      else do {
        sum_calculated \<leftarrow> sum8 (drop 3 msg) (of_int (int n - 4));
        Some (if sum_calculated = 0xFF \<and> hd msg = 0x7E then int n else -1) })"

definition actuator_check_integrity :: "u8 list \<Rightarrow> nat \<Rightarrow> int option" where
  "actuator_check_integrity msg n =
     (if n < 4 \<or> length msg < n then None
      else do {
        sum_calculated \<leftarrow> sum16 msg (of_nat (n - 4));
        let sum_received = push_bit 8 (ucast (msg ! (n - 4))) + ucast (msg ! (n - 3));
        Some (if sum_calculated = sum_received \<and> hd msg = 0xCC then int n else -1) })"

text \<open>
  \<^verbatim>\<open>calc_sum_check\<close> of \<^verbatim>\<open>zigbee/zigbee.c\<close> takes the length from the frame
  itself; \<^verbatim>\<open>packet_sum_check\<close> of \<^verbatim>\<open>meter/wired_actuator.c\<close> as an argument.
\<close>

definition calc_sum_check :: "u8 list \<Rightarrow> u8 option" where
  "calc_sum_check buff =
     (if length buff < 3 then None
      else (let len = BUILD_UINT16 (buff ! 2) (buff ! 1) in
        if len = 0 then Some 0
        else if length buff < 3 + unat len then None
        else Some (0xFF - ucast (sum_bytes (take (unat len) (drop 3 buff))))))"

definition packet_sum_check :: "u8 list \<Rightarrow> u8 \<Rightarrow> u16 option" where
  "packet_sum_check buff len =
     (if len = 0 then Some 0
      else if length buff < unat len then None else Some (sum_bytes (take (unat len) buff)))"

section \<open>The bitwise definition of the CRC\<close>

definition crc_bit :: "u16 \<Rightarrow> u16" where
  "crc_bit c = (if bit c 0 then drop_bit 1 c XOR 0xA001 else drop_bit 1 c)"

fun crc_bits :: "nat \<Rightarrow> u16 \<Rightarrow> u16" where
  "crc_bits 0 c = c"
| "crc_bits (Suc n) c = crc_bits n (crc_bit c)"

definition crc_byte :: "u16 \<Rightarrow> u8 \<Rightarrow> u16" where
  "crc_byte c b = crc_bits 8 (c XOR ucast b)"

definition crc_spec :: "u8 list \<Rightarrow> u16" where
  "crc_spec bs = foldl crc_byte 0xFFFF bs"

text \<open>The code keeps the low byte of the CRC in \<open>crc_hi\<close> and the high byte in \<open>crc_lo\<close>.\<close>

definition crc_word :: "u8 \<times> u8 \<Rightarrow> u16" where
  "crc_word c = bytes_u16 (fst c) (snd c)"

section \<open>Checking the tables\<close>

lemma crc_bits_8:
  "crc_bits 8 c = crc_bit (crc_bit (crc_bit (crc_bit (crc_bit (crc_bit (crc_bit (crc_bit c)))))))"
  by (simp add: numeral_eq_Suc)

definition all_bytes :: "u8 list" where
  "all_bytes =
    [0, 1, 2, 3, 4, 5, 6, 7, 8, 9, 10, 11, 12, 13, 14, 15,
     16, 17, 18, 19, 20, 21, 22, 23, 24, 25, 26, 27, 28, 29, 30, 31,
     32, 33, 34, 35, 36, 37, 38, 39, 40, 41, 42, 43, 44, 45, 46, 47,
     48, 49, 50, 51, 52, 53, 54, 55, 56, 57, 58, 59, 60, 61, 62, 63,
     64, 65, 66, 67, 68, 69, 70, 71, 72, 73, 74, 75, 76, 77, 78, 79,
     80, 81, 82, 83, 84, 85, 86, 87, 88, 89, 90, 91, 92, 93, 94, 95,
     96, 97, 98, 99, 100, 101, 102, 103, 104, 105, 106, 107, 108, 109, 110, 111,
     112, 113, 114, 115, 116, 117, 118, 119, 120, 121, 122, 123, 124, 125, 126, 127,
     128, 129, 130, 131, 132, 133, 134, 135, 136, 137, 138, 139, 140, 141, 142, 143,
     144, 145, 146, 147, 148, 149, 150, 151, 152, 153, 154, 155, 156, 157, 158, 159,
     160, 161, 162, 163, 164, 165, 166, 167, 168, 169, 170, 171, 172, 173, 174, 175,
     176, 177, 178, 179, 180, 181, 182, 183, 184, 185, 186, 187, 188, 189, 190, 191,
     192, 193, 194, 195, 196, 197, 198, 199, 200, 201, 202, 203, 204, 205, 206, 207,
     208, 209, 210, 211, 212, 213, 214, 215, 216, 217, 218, 219, 220, 221, 222, 223,
     224, 225, 226, 227, 228, 229, 230, 231, 232, 233, 234, 235, 236, 237, 238, 239,
     240, 241, 242, 243, 244, 245, 246, 247, 248, 249, 250, 251, 252, 253, 254, 255]"

text \<open>The inverse of \<^const>\<open>table_crc_lo\<close>: a linear map, given on the eight bits.\<close>

definition lo_inv :: "u8 \<Rightarrow> u8" where
  "lo_inv t =
     (if bit t 0 then 0x03 else 0) XOR
     (if bit t 1 then 0x06 else 0) XOR
     (if bit t 2 then 0x0F else 0) XOR
     (if bit t 3 then 0x1E else 0) XOR
     (if bit t 4 then 0x3F else 0) XOR
     (if bit t 5 then 0x7E else 0) XOR
     (if bit t 6 then 0xFF else 0) XOR
     (if bit t 7 then 0xFE else 0)"

definition entry_ok :: "u8 \<Rightarrow> u8 \<Rightarrow> u8 \<Rightarrow> bool" where
  "entry_ok b h l \<longleftrightarrow> crc_bits 8 (ucast b) = push_bit 8 (ucast l) OR ucast h \<and> lo_inv l = b"

fun all3 :: "('a \<Rightarrow> 'b \<Rightarrow> 'c \<Rightarrow> bool) \<Rightarrow> 'a list \<Rightarrow> 'b list \<Rightarrow> 'c list \<Rightarrow> bool" where
  "all3 P [] [] [] = True"
| "all3 P (x # xs) (y # ys) (z # zs) = (P x y z \<and> all3 P xs ys zs)"
| "all3 P _ _ _ = False"

lemma all3_intros:
  "all3 P [] [] []"
  "P x y z \<Longrightarrow> all3 P xs ys zs \<Longrightarrow> all3 P (x # xs) (y # ys) (z # zs)"
  by simp_all

lemma all3_nth:
  "all3 P xs ys zs \<Longrightarrow> i < length xs \<Longrightarrow> P (xs ! i) (ys ! i) (zs ! i)"
  by (induction P xs ys zs arbitrary: i rule: all3.induct) (auto simp: nth_Cons split: nat.splits)

lemma tables_ok: "all3 entry_ok all_bytes table_crc_hi table_crc_lo"
  unfolding all_bytes_def table_crc_hi_def table_crc_lo_def
  by (intro all3_intros)
    (simp_all add: entry_ok_def crc_bits_8 crc_bit_def lo_inv_def del: crc_bits.simps)

lemma all_bytes_unat: "map unat all_bytes = [0..<256]"
  unfolding all_bytes_def by (simp add: upt_conv_Cons)

lemma byte_entry: "entry_ok b (table_crc_hi ! unat b) (table_crc_lo ! unat b)"
proof -
  have l: "length all_bytes = 256"
    using arg_cong [OF all_bytes_unat, of length] by simp
  have "unat (all_bytes ! unat b) = map unat all_bytes ! unat b"
    by (simp add: l)
  also have "\<dots> = unat b"
    by (simp add: all_bytes_unat)
  finally have "all_bytes ! unat b = b"
    by (rule unsigned_word_eqI)
  then show ?thesis
    using all3_nth [OF tables_ok, of "unat b"] by (simp add: l)
qed

section \<open>The table-driven CRC is the bitwise one\<close>

lemma crc_bit_xor: "crc_bit (x XOR y) = crc_bit x XOR crc_bit y"
  by (rule bit_word_eqI) (auto simp: crc_bit_def bit_simps)

lemma crc_bits_xor: "crc_bits n (x XOR y) = crc_bits n x XOR crc_bits n y"
  by (induction n arbitrary: x y) (simp_all add: crc_bit_xor)

lemma crc_bits_shift: "(\<And>i. bit w i \<Longrightarrow> i + n < 16) \<Longrightarrow> crc_bits n (push_bit n w) = w"
proof (induction n)
  case 0
  then show ?case by simp
next
  case (Suc n)
  have "\<not> bit (push_bit (Suc n) w) 0"
    by (simp add: bit_push_bit_iff del: push_bit_Suc)
  moreover have "drop_bit 1 (push_bit (Suc n) w) = push_bit n w"
  proof (rule bit_word_eqI)
    fix i :: nat
    assume "i < LENGTH(16)"
    show "bit (drop_bit 1 (push_bit (Suc n) w)) i = bit (push_bit n w) i"
      using Suc.prems [of "i - n"] by (auto simp: bit_simps simp del: push_bit_Suc)
  qed
  ultimately have "crc_bit (push_bit (Suc n) w) = push_bit n w"
    by (simp add: crc_bit_def del: push_bit_Suc)
  moreover have "crc_bits n (push_bit n w) = w"
    using Suc.prems by (intro Suc.IH) force
  ultimately show ?case by simp
qed

lemma crc_word_step: "crc_word (crc_step c b) = crc_byte (crc_word c) b"
proof -
  obtain h l where c: "c = (h, l)" by (cases c)
  let ?i = "h XOR b"
  have "crc_word c XOR ucast b = ucast ?i XOR push_bit 8 (ucast l)"
    by (rule bit_word_eqI) (auto simp: c crc_word_def bytes_u16_def bit_simps)
  moreover have "crc_bits 8 (push_bit 8 (ucast l)) = ucast l"
    by (rule crc_bits_shift) (auto simp: bit_simps dest: bit_imp_le_length)
  moreover have "crc_bits 8 (ucast ?i) = push_bit 8 (ucast (table_crc_lo ! unat ?i)) OR ucast (table_crc_hi ! unat ?i)"
    using byte_entry [of ?i] by (simp add: entry_ok_def)
  ultimately have "crc_byte (crc_word c) b =
      (push_bit 8 (ucast (table_crc_lo ! unat ?i)) OR ucast (table_crc_hi ! unat ?i)) XOR ucast l"
    by (simp only: crc_byte_def crc_bits_xor)
  also have "\<dots> = crc_word (crc_step c b)"
    by (rule bit_word_eqI) (auto simp: c crc_step_def crc_word_def bytes_u16_def bit_simps Let_def)
  finally show ?thesis ..
qed

lemma crc_word_foldl: "crc_word (foldl crc_step c bs) = foldl crc_byte (crc_word c) bs"
  by (induction bs arbitrary: c) (simp_all add: crc_word_step)

lemma crc_word_pair: "crc_word (crc_pair bs) = crc_spec bs"
proof -
  have "crc_word (0xFF, 0xFF) = 0xFFFF" by (simp add: crc_word_def bytes_u16_def)
  then show ?thesis by (simp add: crc_pair_def crc_spec_def crc_word_foldl)
qed

text \<open>
  C39. The table-driven CRC is the CRC of Modbus: for every buffer and length within it,
  \<^verbatim>\<open>crc16\<close> is the byte-swapped value of the bitwise shift register with polynomial
  0xA001 started at 0xFFFF.
\<close>

theorem crc16_is_bitwise:
  "crc16 buffer n =
     (if length buffer < unat n then None else Some (swap_int16 (crc_spec (take (unat n) buffer))))"
proof -
  obtain h l where c: "crc_pair (take (unat n) buffer) = (h, l)" by (cases "crc_pair (take (unat n) buffer)")
  then have "crc_spec (take (unat n) buffer) = bytes_u16 h l"
    using crc_word_pair [of "take (unat n) buffer"] by (simp add: crc_word_def)
  moreover have "swap_int16 (bytes_u16 h l) = push_bit 8 (ucast h) OR ucast l"
    by (rule bit_word_eqI) (auto simp: bit_swap_int16 bytes_u16_def bit_simps)
  ultimately show ?thesis using c by (simp add: crc16_def)
qed

end
