(* ===== verification/Frames.thy ===== *)
theory Frames
  imports Checksum
begin

text \<open>
  The contract between the side that seals a frame and the side that checks it, proved of the
  Modbus RTU frames (CRC-16) and of the ZigBee API frames (8-bit sum).
\<close>

section \<open>The contract\<close>

text \<open>
  A payload that is sealed passes the check, and the check notices a change of any single byte
  at a covered position.
\<close>

locale sealed_frame =
  fixes payload :: "u8 list \<Rightarrow> bool"
    and seal :: "u8 list \<Rightarrow> u8 list"
    and check :: "u8 list \<Rightarrow> bool"
    and covered :: "nat \<Rightarrow> bool"
  assumes seal_check: "payload d \<Longrightarrow> check (seal d)"
    and detects: "payload d \<Longrightarrow> covered i \<Longrightarrow> i < length (seal d) \<Longrightarrow> b \<noteq> seal d ! i \<Longrightarrow>
      \<not> check ((seal d)[i := b])"
begin

lemma accepted_is_sent:
  assumes "payload d" "covered i" "i < length (seal d)" "check ((seal d)[i := b])"
  shows "(seal d)[i := b] = seal d"
  using detects [OF assms(1-3)] assms(4) by (cases "b = seal d ! i") auto

lemma check_update_iff:
  assumes "payload d" "covered i" "i < length (seal d)"
  shows "check ((seal d)[i := b]) \<longleftrightarrow> b = seal d ! i"
  using detects [OF assms] seal_check [OF assms(1)] by (cases "b = seal d ! i") auto

end

section \<open>Modbus RTU\<close>

lemma xor_right_cancel: "(a :: u8) XOR c = b XOR c \<longleftrightarrow> a = b"
  by (metis xor.right_neutral xor_self_eq xor.assoc)

lemma crc_step_inj:
  "crc_step c b = crc_step c' b \<Longrightarrow> c = c'"
  "crc_step c b = crc_step c b' \<Longrightarrow> b = b'"
proof -
  have lo: "unat x = unat y" if "table_crc_lo ! unat x = table_crc_lo ! unat y" for x y :: u8
    using byte_entry [of x] byte_entry [of y] that by (metis entry_ok_def)
  obtain h l h' l' where c: "c = (h, l)" "c' = (h', l')" by (cases c; cases c')
  {
    assume e: "crc_step c b = crc_step c' b"
    then have "unat (h XOR b) = unat (h' XOR b)"
      using lo [of "h XOR b" "h' XOR b"] by (simp add: crc_step_def c Let_def)
    then have "h XOR b = h' XOR b" by (rule unsigned_word_eqI)
    then have h: "h = h'" by (simp only: xor_right_cancel)
    moreover from e have "l = l'"
      by (simp only: crc_step_def c Let_def case_prod_conv prod.inject xor_right_cancel h)
    ultimately show "c = c'" by (simp add: c)
  }
  assume e: "crc_step c b = crc_step c b'"
  then have "unat (h XOR b) = unat (h XOR b')"
    using lo [of "h XOR b" "h XOR b'"] by (simp add: crc_step_def c Let_def)
  then have "h XOR b = h XOR b'" by (rule unsigned_word_eqI)
  then show "b = b'" by (simp only: xor.commute [of h] xor_right_cancel)
qed

lemma crc_foldl_inj: "foldl crc_step c bs = foldl crc_step c' bs \<Longrightarrow> c = c'"
  by (induction bs arbitrary: c c') (simp, metis crc_step_inj(1) foldl_Cons)

lemma crc_pair_update:
  assumes "i < length bs" "b \<noteq> bs ! i"
  shows "crc_pair (bs[i := b]) \<noteq> crc_pair bs"
proof
  let ?c = "foldl crc_step (0xFF, 0xFF) (take i bs)"
  assume "crc_pair (bs[i := b]) = crc_pair bs"
  then have "foldl crc_step (crc_step ?c b) (drop (Suc i) bs) =
      foldl crc_step (crc_step ?c (bs ! i)) (drop (Suc i) bs)"
    using assms(1) unfolding crc_pair_def
    by (subst (asm) (2) id_take_nth_drop [OF assms(1)]) (simp add: upd_conv_take_nth_drop)
  then have "crc_step ?c b = crc_step ?c (bs ! i)" by (rule crc_foldl_inj)
  then show False using crc_step_inj(2) assms(2) by blast
qed

lemma rtu_check_snoc:
  assumes "length d < 65536"
  shows "rtu_check_integrity (d @ [x, y]) (length d + 2) =
    Some (if crc_pair d = (x, y) then int (length d + 2) else -1)"
proof -
  obtain h l where c: "crc_pair d = (h, l)" by (cases "crc_pair d")
  have "unat (of_nat (length d) :: u16) = length d"
    using assms by (simp add: unat_of_nat take_bit_nat_eq_self)
  then have crc: "crc16 (d @ [x, y]) (of_nat (length d)) = Some (push_bit 8 (ucast h) OR ucast l)"
    by (simp add: crc16_def c)
  have "(push_bit 8 (ucast h) OR ucast l :: u16) = push_bit 8 (ucast x) OR ucast y \<longleftrightarrow> (h, l) = (x, y)"
  proof
    assume e: "(push_bit 8 (ucast h) OR ucast l :: u16) = push_bit 8 (ucast x) OR ucast y"
    have b: "(push_bit 8 (ucast p) OR ucast q :: u16) = bytes_u16 q p" for p q :: u8
      by (simp add: bytes_u16_def or.commute)
    from e have "u16_bytes (bytes_u16 l h) = u16_bytes (bytes_u16 y x)" by (simp only: b)
    then show "(h, l) = (x, y)" by simp
  qed simp
  then show ?thesis
    using crc c by (simp add: rtu_check_integrity_def nth_append)
qed

definition rtu_payload :: "u8 list \<Rightarrow> bool" where
  "rtu_payload d \<longleftrightarrow> length d < 65536"

definition rtu_accepts :: "u8 list \<Rightarrow> bool" where
  "rtu_accepts f \<longleftrightarrow> rtu_check_integrity f (length f) = Some (int (length f))"

lemma rtu_seal: "rtu_send_msg_pre d = d @ [fst (crc_pair d), snd (crc_pair d)]"
proof -
  obtain h l where c: "crc_pair d = (h, l)" by (cases "crc_pair d")
  have w: "(push_bit 8 (ucast h) OR ucast l :: u16) = bytes_u16 l h"
    by (simp add: bytes_u16_def or.commute)
  have "(ucast (bytes_u16 l h AND 0xFF) :: u8) = l"
    by (rule bit_word_eqI) (auto simp: bytes_u16_def and_255 bit_simps)
  then show ?thesis
    by (simp only: rtu_send_msg_pre_def c Let_def case_prod_conv w ucast_bytes_u16_hi fst_conv snd_conv)
qed

lemma rtu_accepts_snoc: "length d < 65536 \<Longrightarrow> rtu_accepts (d @ [x, y]) \<longleftrightarrow> crc_pair d = (x, y)"
  using rtu_check_snoc [of d x y] by (simp add: rtu_accepts_def)

interpretation rtu_frame: sealed_frame rtu_payload rtu_send_msg_pre rtu_accepts "\<lambda>_. True"
proof
  fix d :: "u8 list" and i :: nat and b :: u8
  assume d: "rtu_payload d"
  then have l: "length d < 65536" by (simp add: rtu_payload_def)
  show "rtu_accepts (rtu_send_msg_pre d)"
    by (simp add: rtu_seal rtu_accepts_snoc [OF l])
  assume i: "i < length (rtu_send_msg_pre d)" and b: "b \<noteq> rtu_send_msg_pre d ! i"
  consider "i < length d" | "i = length d" | "i = Suc (length d)"
    using i by (simp add: rtu_seal) linarith
  then show "\<not> rtu_accepts ((rtu_send_msg_pre d)[i := b])"
  proof cases
    case 1
    then have "b \<noteq> d ! i" using b by (simp add: rtu_seal nth_append)
    then have "crc_pair (d[i := b]) \<noteq> crc_pair d" using 1 by (rule crc_pair_update [rotated])
    then show ?thesis
      using 1 rtu_accepts_snoc [of "d[i := b]"] l by (simp add: rtu_seal list_update_append prod_eq_iff)
  next
    case 2
    then show ?thesis
      using b rtu_accepts_snoc [OF l] by (auto simp: rtu_seal list_update_append nth_append prod_eq_iff)
  next
    case 3
    then show ?thesis
      using b rtu_accepts_snoc [OF l] by (auto simp: rtu_seal list_update_append nth_append prod_eq_iff)
  qed
qed

text \<open>
  Modbus RTU frames: a sealed frame passes the integrity check with its own length, and with
  any one byte changed, the two CRC bytes included, the check returns -1.
\<close>

theorem rtu_frame_detects:
  assumes "length d < 65534" "i < length d + 2"
  shows "rtu_check_integrity ((rtu_send_msg_pre d)[i := b]) (length d + 2) =
    Some (if b = rtu_send_msg_pre d ! i then int (length d + 2) else -1)"
proof -
  let ?f = "(rtu_send_msg_pre d)[i := b]"
  have d: "rtu_payload d" and i: "i < length (rtu_send_msg_pre d)" and lf: "length ?f = length d + 2"
    using assms by (simp_all add: rtu_payload_def rtu_seal)
  have f: "?f = take (length d) ?f @ [?f ! length d, ?f ! Suc (length d)]"
    using lf by (intro nth_equalityI) (auto simp: nth_append less_Suc_eq)
  have "rtu_check_integrity ?f (length d + 2) \<in> {Some (int (length d + 2)), Some (-1)}"
    using rtu_check_snoc [of "take (length d) ?f" "?f ! length d" "?f ! Suc (length d)"] assms(1) lf
    by (simp flip: f)
  then show ?thesis
    using rtu_frame.check_update_iff [OF d _ i, of b] lf by (auto simp: rtu_accepts_def)
qed

theorem rtu_frame_detects_witness:
  "rtu_check_integrity ((rtu_send_msg_pre [1, 3, 0, 0])[2 := 7]) 6 = Some (-1)"
proof -
  have z: "rtu_send_msg_pre [1, 3, 0, 0] ! 2 = 0" and l: "length [1, 3, 0, 0 :: u8] + 2 = 6"
    by (simp_all add: rtu_seal)
  have "rtu_check_integrity ((rtu_send_msg_pre [1, 3, 0, 0])[2 := 7]) (length [1, 3, 0, 0 :: u8] + 2) =
      Some (if 7 = rtu_send_msg_pre [1, 3, 0, 0] ! 2 then int (length [1, 3, 0, 0 :: u8] + 2) else -1)"
    by (rule rtu_frame_detects) simp_all
  then show ?thesis unfolding l z by simp
qed

section \<open>ZigBee API frames\<close>

text \<open>
  Start byte, length of the payload (high byte first), payload, and the checksum that
  \<^const>\<open>calc_sum_check\<close> computes from the frame so far.
\<close>

definition zigbee_head :: "u8 list \<Rightarrow> u8 list" where
  "zigbee_head d = [0x7E, HI_UINT16 (of_nat (length d)), LO_UINT16 (of_nat (length d))]"

definition zigbee_seal :: "u8 list \<Rightarrow> u8 list" where
  "zigbee_seal d = zigbee_head d @ d @ [the (calc_sum_check (zigbee_head d @ d))]"

definition zigbee_payload :: "u8 list \<Rightarrow> bool" where
  "zigbee_payload d \<longleftrightarrow> d \<noteq> [] \<and> length d < 65532"

definition zigbee_accepts :: "u8 list \<Rightarrow> bool" where
  "zigbee_accepts f \<longleftrightarrow> zigbee_check_integrity f (length f) = Some (int (length f))"

lemma BUILD_HI_LO [simp]: "BUILD_UINT16 (LO_UINT16 w) (HI_UINT16 w) = w"
proof -
  have "BUILD_UINT16 lo hi = bytes_u16 lo hi" for lo hi :: u8
    unfolding BUILD_UINT16_def and_255 bytes_u16_def
    by (subst disjunctive_add_eq_or) (auto intro!: bit_word_eqI simp: bit_simps dest: bit_imp_le_length)
  moreover have "(LO_UINT16 w :: u8) = ucast w" "HI_UINT16 w = ucast (drop_bit 8 w)"
    unfolding LO_UINT16_def HI_UINT16_def and_255
    by (auto intro!: bit_word_eqI simp: bit_simps)
  ultimately show ?thesis by simp
qed

lemma sum_bytes_append: "sum_bytes (xs @ ys) = sum_bytes xs + sum_bytes ys"
  by (induction xs) (simp_all add: add.assoc)

text \<open>The low byte of a sum is the sum of the bytes.\<close>

lemma ucast_sum: "(ucast (sum_bytes bs) :: u8) = sum_list bs"
proof (induction bs)
  case (Cons b bs)
  have "(ucast (ucast b + sum_bytes bs) :: u8) = ucast (ucast b :: u16) + ucast (sum_bytes bs)"
    unfolding word_unat_eq_iff by (simp add: unat_ucast_mod unat_word_ariths mod_simps mod_mod_cancel)
  also have "(ucast (ucast b :: u16) :: u8) = b"
    by (rule bit_word_eqI) (simp add: bit_simps)
  finally show ?case using Cons.IH by simp
qed simp

lemma calc_sum_head:
  assumes "zigbee_payload d"
  shows "calc_sum_check (zigbee_head d @ d) = Some (0xFF - sum_list d)"
proof -
  have u: "unat (of_nat (length d) :: u16) = length d"
    using assms by (simp add: zigbee_payload_def unat_of_nat take_bit_nat_eq_self)
  have "(of_nat (length d) :: u16) \<noteq> 0"
  proof
    assume "(of_nat (length d) :: u16) = 0"
    then have "length d = 0" using u by simp
    then show False using assms by (simp add: zigbee_payload_def)
  qed
  then show ?thesis
    using u by (simp add: calc_sum_check_def zigbee_head_def Let_def ucast_sum)
qed

lemma zigbee_seal_bytes: "zigbee_payload d \<Longrightarrow> zigbee_seal d = zigbee_head d @ d @ [0xFF - sum_list d]"
  by (simp add: zigbee_seal_def calc_sum_head)

text \<open>What the receiver tests: the start byte and the sum of everything after the length.\<close>

lemma zigbee_check_iff:
  assumes "4 \<le> length f" "length f < 65536"
  shows "zigbee_check_integrity f (length f) =
    Some (if sum_list (drop 3 f) = 0xFF \<and> hd f = 0x7E then int (length f) else -1)"
proof -
  have u: "unat (of_int (int (length f) - 4) + 1 :: u16) = length f - 3"
  proof -
    have "(of_int (int (length f) - 4) + 1 :: u16) = of_int (int (length f) - 3)"
      by (simp add: algebra_simps)
    also have "\<dots> = of_nat (length f - 3)"
      using assms(1) by (simp add: of_nat_diff)
    finally have e: "(of_int (int (length f) - 4) + 1 :: u16) = of_nat (length f - 3)" .
    show ?thesis
      unfolding e using assms unfolding unat_of_nat by (simp add: take_bit_nat_eq_self)
  qed
  have "sum8 (drop 3 f) (of_int (int (length f) - 4)) = Some (sum_list (drop 3 f))"
    by (simp only: sum8_def Let_def u) (simp add: ucast_sum)
  then show ?thesis
    using assms by (simp only: zigbee_check_integrity_def) simp
qed

lemma sum_list_update_neq:
  assumes "i < length bs" "b \<noteq> bs ! i"
  shows "sum_list (bs[i := b]) \<noteq> sum_list (bs :: u8 list)"
proof -
  have "sum_list bs = sum_list (take i bs) + (bs ! i + sum_list (drop (Suc i) bs))"
    using id_take_nth_drop [OF assms(1)] by (metis sum_list.Cons sum_list_append)
  moreover have "sum_list (bs[i := b]) = sum_list (take i bs) + (b + sum_list (drop (Suc i) bs))"
    using assms(1) by (simp add: upd_conv_take_nth_drop)
  ultimately show ?thesis using assms(2) by simp
qed

interpretation zigbee_frame: sealed_frame zigbee_payload zigbee_seal zigbee_accepts "\<lambda>i. i = 0 \<or> 3 \<le> i"
proof
  fix d :: "u8 list" and i :: nat and b :: u8
  assume d: "zigbee_payload d"
  note seal = zigbee_seal_bytes [OF d]
  have len: "length (zigbee_seal d) = length d + 4" by (simp add: seal zigbee_head_def)
  have l: "4 \<le> length (zigbee_seal d)" "length (zigbee_seal d) < 65536"
    using d by (auto simp: len zigbee_payload_def)
  have s: "sum_list (drop 3 (zigbee_seal d)) = 0xFF" "hd (zigbee_seal d) = 0x7E"
    by (simp_all add: seal zigbee_head_def)
  show "zigbee_accepts (zigbee_seal d)"
    using s by (simp add: zigbee_accepts_def zigbee_check_iff [OF l])
  assume c: "i = 0 \<or> 3 \<le> i" and i: "i < length (zigbee_seal d)" and b: "b \<noteq> zigbee_seal d ! i"
  have "\<not> (sum_list (drop 3 ((zigbee_seal d)[i := b])) = 0xFF \<and> hd ((zigbee_seal d)[i := b]) = 0x7E)"
  proof (cases "i = 0")
    case True
    then show ?thesis using b by (simp add: seal zigbee_head_def)
  next
    case False
    then have i3: "3 \<le> i" using c by simp
    then have "drop 3 ((zigbee_seal d)[i := b]) = (drop 3 (zigbee_seal d))[i - 3 := b]"
      by (simp add: drop_update_swap)
    moreover have "sum_list ((drop 3 (zigbee_seal d))[i - 3 := b]) \<noteq> sum_list (drop 3 (zigbee_seal d))"
      by (rule sum_list_update_neq) (use i i3 b in auto)
    ultimately show ?thesis using s(1) by simp
  qed
  then show "\<not> zigbee_accepts ((zigbee_seal d)[i := b])"
    using zigbee_check_iff [of "(zigbee_seal d)[i := b]"] l by (simp add: zigbee_accepts_def)
qed

text \<open>
  ZigBee API frames: the checksum that \<^verbatim>\<open>calc_sum_check\<close> puts at the end of a frame
  is the one that the receiving side accepts, and the receiver rejects the frame when the start
  byte, a payload byte or the checksum is changed (the two length bytes are not covered).
\<close>

theorem zigbee_frame_detects:
  assumes "d \<noteq> []" "length d < 65532" "i = 0 \<or> 3 \<le> i" "i < length d + 4"
  shows "zigbee_check_integrity ((zigbee_seal d)[i := b]) (length d + 4) =
    Some (if b = zigbee_seal d ! i then int (length d + 4) else -1)"
proof -
  have d: "zigbee_payload d" using assms by (simp add: zigbee_payload_def)
  have len: "length (zigbee_seal d) = length d + 4" by (simp add: zigbee_seal_bytes [OF d] zigbee_head_def)
  have "zigbee_accepts ((zigbee_seal d)[i := b]) \<longleftrightarrow> b = zigbee_seal d ! i"
    using zigbee_frame.check_update_iff [OF d assms(3)] assms(4) len by simp
  then show ?thesis
    using zigbee_check_iff [of "(zigbee_seal d)[i := b]"] assms(2) len by (auto simp: zigbee_accepts_def)
qed

theorem zigbee_frame_detects_witness:
  "zigbee_check_integrity ((zigbee_seal [8, 1, 0x57, 0x52])[4 := 2]) 8 = Some (-1)"
proof -
  have d: "zigbee_payload [8, 1, 0x57, 0x52]" by (simp add: zigbee_payload_def)
  have z: "zigbee_seal [8, 1, 0x57, 0x52] ! 4 = 1" and l: "length [8, 1, 0x57, 0x52 :: u8] + 4 = 8"
    by (simp_all add: zigbee_seal_bytes [OF d] zigbee_head_def)
  have "zigbee_check_integrity ((zigbee_seal [8, 1, 0x57, 0x52])[4 := 2]) (length [8, 1, 0x57, 0x52 :: u8] + 4) =
      Some (if 2 = zigbee_seal [8, 1, 0x57, 0x52] ! 4 then int (length [8, 1, 0x57, 0x52 :: u8] + 4) else -1)"
    by (rule zigbee_frame_detects) simp_all
  then show ?thesis unfolding l z by simp
qed

end
