(* ===== verification/Receive.thy ===== *)
theory Receive
  imports Frames
begin

text \<open>
  The three receive loops of \<^verbatim>\<open>libmodbus-3.0.6/src/modbus.c\<close> (Modbus, ZigBee, actuator),
  the constants of the three backends, and the length computations. A loop reads from a stream
  that arrives in chunks: each \<^verbatim>\<open>select\<close>/\<^verbatim>\<open>recv\<close> returns at most what was
  asked of the chunk that has arrived, an empty chunk is a closed connection, and no further
  chunk means that the loop waits.
\<close>

section \<open>Backends\<close>

datatype backend = Backend_rtu | Backend_zigbee | Backend_tcp

fun header_length :: "backend \<Rightarrow> nat" where
  "header_length Backend_rtu = 1"
| "header_length Backend_zigbee = 1"
| "header_length Backend_tcp = 7"

fun checksum_length :: "backend \<Rightarrow> nat" where
  "checksum_length Backend_rtu = 2"
| "checksum_length Backend_zigbee = 1"
| "checksum_length Backend_tcp = 0"

fun max_adu_length :: "backend \<Rightarrow> nat" where
  "max_adu_length Backend_rtu = 256"
| "max_adu_length Backend_zigbee = 256"
| "max_adu_length Backend_tcp = 260"

fun check_integrity :: "backend \<Rightarrow> u8 list \<Rightarrow> nat \<Rightarrow> int option" where
  "check_integrity Backend_rtu msg n = rtu_check_integrity msg n"
| "check_integrity Backend_zigbee msg n = zigbee_check_integrity msg n"
| "check_integrity Backend_tcp msg n = Some (int n)"

section \<open>Lengths\<close>

datatype msg_type = MSG_INDICATION | MSG_CONFIRMATION | MSG_TIMEOUT

definition FC_READ_HOLDING_REGISTERS :: u8 where "FC_READ_HOLDING_REGISTERS = 0x03"
definition FC_READ_INPUT_REGISTERS :: u8 where "FC_READ_INPUT_REGISTERS = 0x04"
definition FC_WRITE_SINGLE_COIL :: u8 where "FC_WRITE_SINGLE_COIL = 0x05"
definition FC_WRITE_SINGLE_REGISTER :: u8 where "FC_WRITE_SINGLE_REGISTER = 0x06"
definition FC_WRITE_MULTIPLE_COILS :: u8 where "FC_WRITE_MULTIPLE_COILS = 0x0F"
definition FC_WRITE_MULTIPLE_REGISTERS :: u8 where "FC_WRITE_MULTIPLE_REGISTERS = 0x10"
definition FC_REPORT_SLAVE_ID :: u8 where "FC_REPORT_SLAVE_ID = 0x11"
definition FC_WRITE_AND_READ_REGISTERS :: u8 where "FC_WRITE_AND_READ_REGISTERS = 0x17"

lemmas fc_defs = FC_READ_HOLDING_REGISTERS_def FC_READ_INPUT_REGISTERS_def FC_WRITE_SINGLE_COIL_def
  FC_WRITE_SINGLE_REGISTER_def FC_WRITE_MULTIPLE_COILS_def FC_WRITE_MULTIPLE_REGISTERS_def
  FC_REPORT_SLAVE_ID_def FC_WRITE_AND_READ_REGISTERS_def

definition compute_meta_length_after_function :: "u8 \<Rightarrow> msg_type \<Rightarrow> nat" where
  "compute_meta_length_after_function function msg_type =
     (if msg_type = MSG_INDICATION then
        (if function \<le> FC_WRITE_SINGLE_REGISTER then 4
         else if function = FC_WRITE_MULTIPLE_COILS \<or> function = FC_WRITE_MULTIPLE_REGISTERS then 5
         else if function = FC_WRITE_AND_READ_REGISTERS then 9
         else 0)
      else
        (if function \<in> {FC_WRITE_SINGLE_COIL, FC_WRITE_SINGLE_REGISTER, FC_WRITE_MULTIPLE_COILS,
                        FC_WRITE_MULTIPLE_REGISTERS} then 4 else 1))"

text \<open>Reading the message buffer: only bytes received so far.\<close>

definition byte_at :: "u8 list \<Rightarrow> nat \<Rightarrow> nat option" where
  "byte_at msg i = (if i < length msg then Some (unat (msg ! i)) else None)"

definition compute_data_length_after_meta :: "backend \<Rightarrow> msg_type \<Rightarrow> u8 list \<Rightarrow> nat option" where
  "compute_data_length_after_meta be msg_type msg =
     (let h = header_length be in do {
        f \<leftarrow> byte_at msg h;
        let function = (of_nat f :: u8);
        len \<leftarrow>
          (if msg_type = MSG_INDICATION then
             (if function = FC_WRITE_MULTIPLE_COILS \<or> function = FC_WRITE_MULTIPLE_REGISTERS then byte_at msg (h + 5)
              else if function = FC_WRITE_AND_READ_REGISTERS then byte_at msg (h + 9)
              else Some 0)
           else
             (if function \<le> FC_READ_INPUT_REGISTERS \<or> function = FC_REPORT_SLAVE_ID \<or>
                 function = FC_WRITE_AND_READ_REGISTERS then byte_at msg (h + 1)
              else Some 0));
        Some (len + checksum_length be) })"

definition compute_meta_length_after_function_zigbee :: "u8 \<Rightarrow> msg_type \<Rightarrow> nat" where
  "compute_meta_length_after_function_zigbee function msg_type = 2"

definition compute_data_length_after_meta_zigbee :: "backend \<Rightarrow> msg_type \<Rightarrow> u8 list \<Rightarrow> nat option" where
  "compute_data_length_after_meta_zigbee be msg_type msg =
     (if msg_type = MSG_CONFIRMATION then Some 0
      else do {
        hi \<leftarrow> byte_at msg (header_length be);
        lo \<leftarrow> byte_at msg (header_length be + 1);
        Some (hi * 256 + lo + checksum_length be) })"

definition compute_data_length_after_meta_actuator :: "backend \<Rightarrow> msg_type \<Rightarrow> u8 list \<Rightarrow> nat option" where
  "compute_data_length_after_meta_actuator be msg_type msg = do {
     hi \<leftarrow> byte_at msg (header_length be + 2);
     lo \<leftarrow> byte_at msg (header_length be + 3);
     Some (hi * 256 + lo + 4) }"

section \<open>The loop\<close>

datatype step = STEP_FUNCTION | STEP_META | STEP_DATA

text \<open>
  A message with the chunks that have not been read, a failure (closed connection or a message
  that would not fit), waiting for more, or an access to a byte that was not received.
\<close>

datatype rx = Rx_done "u8 list" "u8 list list" | Rx_error | Rx_wait | Rx_fault

text \<open>
  \<open>h\<close> is the header length, \<open>meta\<close> and \<open>data\<close> the two length functions, \<open>mx\<close> the largest
  message.
\<close>

function receive_loop ::
  "nat \<Rightarrow> (u8 \<Rightarrow> nat) \<Rightarrow> (u8 list \<Rightarrow> nat option) \<Rightarrow> nat \<Rightarrow> step \<Rightarrow> nat \<Rightarrow> u8 list \<Rightarrow> u8 list list \<Rightarrow> rx" where
  "receive_loop h meta data mx st 0 msg chunks = Rx_done msg chunks"
| "receive_loop h meta data mx st (Suc n) msg [] = Rx_wait"
| "receive_loop h meta data mx st (Suc n) msg ([] # cs) = Rx_error"
| "receive_loop h meta data mx st (Suc n) msg ((b # bs) # cs) =
     (let c = b # bs;
          msg' = msg @ take (Suc n) c;
          left = Suc n - length (take (Suc n) c);
          rest = drop (Suc n) c;
          cs' = (if rest = [] then cs else rest # cs);
          read_data =
            (case data msg' of
               None \<Rightarrow> Rx_fault
             | Some d \<Rightarrow> if length msg' + d > mx then Rx_error
                         else receive_loop h meta data mx STEP_DATA d msg' cs')
      in if left \<noteq> 0 then receive_loop h meta data mx st left msg' cs'
         else case st of
           STEP_FUNCTION \<Rightarrow>
             if length msg' \<le> h then Rx_fault
             else if meta (msg' ! h) \<noteq> 0
             then receive_loop h meta data mx STEP_META (meta (msg' ! h)) msg' cs'
             else read_data
         | STEP_META \<Rightarrow> read_data
         | STEP_DATA \<Rightarrow> Rx_done msg' cs')"
  by pat_completeness auto
termination
  by (relation "measure (\<lambda>(_, _, _, _, _, _, _, cs). sum_list (map (\<lambda>c. Suc (length c)) cs))") auto

definition receive_msg :: "backend \<Rightarrow> msg_type \<Rightarrow> u8 list list \<Rightarrow> rx" where
  "receive_msg be mt chunks =
     receive_loop (header_length be) (\<lambda>f. compute_meta_length_after_function f mt)
       (compute_data_length_after_meta be mt) (max_adu_length be) STEP_FUNCTION (header_length be + 1) [] chunks"

definition receive_msg_zigbee :: "backend \<Rightarrow> msg_type \<Rightarrow> u8 list list \<Rightarrow> rx" where
  "receive_msg_zigbee be mt chunks =
     receive_loop (header_length be) (\<lambda>f. compute_meta_length_after_function_zigbee f mt)
       (compute_data_length_after_meta_zigbee be mt) (max_adu_length be) STEP_META (header_length be + 2) [] chunks"

definition receive_msg_actuator :: "backend \<Rightarrow> msg_type \<Rightarrow> u8 list list \<Rightarrow> rx" where
  "receive_msg_actuator be mt chunks =
     receive_loop (header_length be) (\<lambda>f. compute_meta_length_after_function_zigbee f mt)
       (compute_data_length_after_meta_actuator be mt) (max_adu_length be) STEP_META (header_length be + 4) [] chunks"

text \<open>The return value of the receive functions: the checked length, or -1.\<close>

definition finish :: "(u8 list \<Rightarrow> nat \<Rightarrow> int option) \<Rightarrow> rx \<Rightarrow> int option" where
  "finish check r =
     (case r of
        Rx_done msg _ \<Rightarrow> check msg (length msg)
      | Rx_error \<Rightarrow> Some (-1)
      | Rx_wait \<Rightarrow> Some (-1)
      | Rx_fault \<Rightarrow> None)"

definition modbus_receive :: "backend \<Rightarrow> u8 list list \<Rightarrow> int option" where
  "modbus_receive be chunks = finish (check_integrity be) (receive_msg be MSG_INDICATION chunks)"

definition modbus_receive_zigbee :: "backend \<Rightarrow> u8 list list \<Rightarrow> int option" where
  "modbus_receive_zigbee be chunks = finish (check_integrity be) (receive_msg_zigbee be MSG_INDICATION chunks)"

definition modbus_receive_zigbee_timeout :: "backend \<Rightarrow> u8 list list \<Rightarrow> int option" where
  "modbus_receive_zigbee_timeout be chunks = finish (check_integrity be) (receive_msg_zigbee be MSG_TIMEOUT chunks)"

definition modbus_receive_actuator_timeout :: "backend \<Rightarrow> u8 list list \<Rightarrow> int option" where
  "modbus_receive_actuator_timeout be chunks =
     finish actuator_check_integrity (receive_msg_actuator be MSG_TIMEOUT chunks)"

definition modbus_receive_confirmation :: "backend \<Rightarrow> u8 list list \<Rightarrow> int option" where
  "modbus_receive_confirmation be chunks = finish (check_integrity be) (receive_msg be MSG_CONFIRMATION chunks)"

section \<open>The stream specification\<close>

text \<open>
  What the loop does to the plain stream of the bytes that arrive before the connection closes,
  whatever the chunks: a message and the bytes left, or no message.
\<close>

definition stream_of :: "u8 list list \<Rightarrow> u8 list" where
  "stream_of chunks = concat (takeWhile (\<lambda>c. c \<noteq> []) chunks)"

datatype flat = Flat_done "u8 list" "u8 list" | Flat_fail | Flat_fault

definition flat_data :: "(u8 list \<Rightarrow> nat option) \<Rightarrow> nat \<Rightarrow> u8 list \<Rightarrow> u8 list \<Rightarrow> flat" where
  "flat_data data mx msg bs =
     (case data msg of
        None \<Rightarrow> Flat_fault
      | Some d \<Rightarrow> if length msg + d > mx then Flat_fail
                  else if length bs < d then Flat_fail
                  else Flat_done (msg @ take d bs) (drop d bs))"

definition flat_function :: "nat \<Rightarrow> (u8 \<Rightarrow> nat) \<Rightarrow> (u8 list \<Rightarrow> nat option) \<Rightarrow> nat \<Rightarrow> u8 list \<Rightarrow> u8 list \<Rightarrow> flat" where
  "flat_function h meta data mx msg bs =
     (if length msg \<le> h then Flat_fault
      else let k = meta (msg ! h) in
        if length bs < k then Flat_fail
        else flat_data data mx (msg @ take k bs) (drop k bs))"

definition flat_step ::
  "nat \<Rightarrow> (u8 \<Rightarrow> nat) \<Rightarrow> (u8 list \<Rightarrow> nat option) \<Rightarrow> nat \<Rightarrow> step \<Rightarrow> nat \<Rightarrow> u8 list \<Rightarrow> u8 list \<Rightarrow> flat" where
  "flat_step h meta data mx st n msg bs =
     (if n = 0 then Flat_done msg bs
      else if length bs < n then Flat_fail
      else case st of
        STEP_FUNCTION \<Rightarrow> flat_function h meta data mx (msg @ take n bs) (drop n bs)
      | STEP_META \<Rightarrow> flat_data data mx (msg @ take n bs) (drop n bs)
      | STEP_DATA \<Rightarrow> Flat_done (msg @ take n bs) (drop n bs))"

fun flatten :: "rx \<Rightarrow> flat" where
  "flatten (Rx_done msg cs) = Flat_done msg (stream_of cs)"
| "flatten Rx_error = Flat_fail"
| "flatten Rx_wait = Flat_fail"
| "flatten Rx_fault = Flat_fault"

lemma flat_data_step:
  "flat_data data mx msg bs =
     (case data msg of
        None \<Rightarrow> Flat_fault
      | Some d \<Rightarrow> if length msg + d > mx then Flat_fail
                  else flat_step h meta data mx STEP_DATA d msg bs)"
  by (auto simp: flat_data_def flat_step_def split: option.splits)

lemma flat_function_step:
  "h < length msg \<Longrightarrow> flat_function h meta data mx msg bs =
     (if meta (msg ! h) \<noteq> 0 then flat_step h meta data mx STEP_META (meta (msg ! h)) msg bs
      else flat_data data mx msg bs)"
  by (auto simp: flat_function_def flat_step_def Let_def)

lemma flat_step_split:
  assumes "length c < n"
  shows "flat_step h meta data mx st n msg (c @ bs) =
    flat_step h meta data mx st (n - length c) (msg @ c) bs"
  using assms by (auto simp: flat_step_def split: step.splits)

definition chunk_size :: "u8 list list \<Rightarrow> nat" where
  "chunk_size cs = sum_list (map (\<lambda>c. Suc (length c)) cs)"

lemma receive_loop_full:
  assumes "c \<noteq> []" "n \<noteq> 0" "n \<le> length c"
  shows "receive_loop h meta data mx st n msg (c # cs) =
    (let msg' = msg @ take n c;
         cs' = (if drop n c = [] then cs else drop n c # cs);
         rd = case data msg' of None \<Rightarrow> Rx_fault
           | Some d \<Rightarrow> if length msg' + d > mx then Rx_error else receive_loop h meta data mx STEP_DATA d msg' cs'
     in case st of
       STEP_FUNCTION \<Rightarrow> if length msg' \<le> h then Rx_fault
         else if meta (msg' ! h) \<noteq> 0 then receive_loop h meta data mx STEP_META (meta (msg' ! h)) msg' cs' else rd
     | STEP_META \<Rightarrow> rd
     | STEP_DATA \<Rightarrow> Rx_done msg' cs')"
proof -
  obtain b bs m where "c = b # bs" "n = Suc m"
    using assms by (metis list.exhaust not0_implies_Suc)
  moreover have "n - length (take n c) = 0" using assms(3) by simp
  ultimately show ?thesis by (simp only: receive_loop.simps Let_def simp_thms if_False)
qed

lemma receive_loop_part:
  assumes "c \<noteq> []" "length c < n"
  shows "receive_loop h meta data mx st n msg (c # cs) = receive_loop h meta data mx st (n - length c) (msg @ c) cs"
proof -
  obtain b bs m where "c = b # bs" "n = Suc m"
    using assms by (metis list.exhaust not0_implies_Suc less_zeroE)
  then show ?thesis using assms(2) by simp
qed

lemma receive_loop_flat:
  "flatten (receive_loop h meta data mx st n msg chunks) = flat_step h meta data mx st n msg (stream_of chunks)"
proof (induction "chunk_size chunks" arbitrary: chunks st n msg rule: less_induct)
  case less
  show ?case
  proof (cases "n = 0 \<or> chunks = [] \<or> hd chunks = []")
    case True
    then show ?thesis by (cases n; cases chunks) (auto simp: flat_step_def stream_of_def)
  next
    case False
    then obtain c cs where n: "n \<noteq> 0" and ch: "chunks = c # cs" and c: "c \<noteq> []" by (cases chunks) auto
    define cs' where "cs' = (if drop n c = [] then cs else drop n c # cs)"
    have dec: "chunk_size cs' < chunk_size chunks" 
      and cat: "stream_of cs' = drop n c @ stream_of cs" and all: "stream_of chunks = c @ stream_of cs"
      using n c by (auto simp: cs'_def ch chunk_size_def stream_of_def)
    note IH = less.hyps [OF dec]
    show ?thesis
    proof (cases "length c < n")
      case True
      then show ?thesis
        using IH [of st "n - length c" "msg @ c"] cat
        by (simp add: all receive_loop_part [OF c True] flat_step_split [OF True] cs'_def) (simp add: ch receive_loop_part [OF c True])
    next
      case False
      then have full: "n \<le> length c" by simp
      let ?m = "msg @ take n c"
      have data: "flatten (case data ?m of None \<Rightarrow> Rx_fault
            | Some d \<Rightarrow> if length ?m + d > mx then Rx_error else receive_loop h meta data mx STEP_DATA d ?m cs')
          = flat_data data mx ?m (stream_of cs')"
        by (auto simp: flat_data_step [of data mx ?m "stream_of cs'" h meta] IH split: option.splits)
      have flat: "flat_step h meta data mx st n msg (stream_of chunks) =
          (case st of
             STEP_FUNCTION \<Rightarrow> flat_function h meta data mx ?m (stream_of cs')
           | STEP_META \<Rightarrow> flat_data data mx ?m (stream_of cs')
           | STEP_DATA \<Rightarrow> Flat_done ?m (stream_of cs'))"
        using n full cat by (simp add: flat_step_def all split: step.split)
      have fn: "flat_function h meta data mx ?m bs =
          (if length ?m \<le> h then Flat_fault
           else if meta (?m ! h) \<noteq> 0 then flat_step h meta data mx STEP_META (meta (?m ! h)) ?m bs
           else flat_data data mx ?m bs)" for bs
        using flat_function_step [of h ?m meta data mx bs] by (simp add: flat_function_def)
      show ?thesis
        unfolding flat unfolding ch receive_loop_full [OF c n full] Let_def cs'_def [symmetric] fn
        using data by (cases st) (simp_all add: IH del: length_append)
    qed
  qed
qed

text \<open>What the receive functions return, as a function of the stream.\<close>

fun flat_finish :: "(u8 list \<Rightarrow> nat \<Rightarrow> int option) \<Rightarrow> flat \<Rightarrow> int option" where
  "flat_finish check (Flat_done msg _) = check msg (length msg)"
| "flat_finish check Flat_fail = Some (-1)"
| "flat_finish check Flat_fault = None"

lemma finish_flatten: "finish check r = flat_finish check (flatten r)"
  by (cases r) (simp_all add: finish_def)

lemmas receive_defs = modbus_receive_def modbus_receive_zigbee_def modbus_receive_zigbee_timeout_def
  modbus_receive_actuator_timeout_def modbus_receive_confirmation_def

lemmas receive_msg_defs = receive_msg_def receive_msg_zigbee_def receive_msg_actuator_def

text \<open>
  C38. Reassembly: how the bytes of a message are cut into reads does not matter. Two deliveries of
  the same bytes before the connection closes make all five receive functions return the same.
\<close>

theorem receive_any_chunks:
  assumes "stream_of chunks = stream_of chunks'"
  shows "modbus_receive be chunks = modbus_receive be chunks' \<and>
    modbus_receive_zigbee be chunks = modbus_receive_zigbee be chunks' \<and>
    modbus_receive_zigbee_timeout be chunks = modbus_receive_zigbee_timeout be chunks' \<and>
    modbus_receive_actuator_timeout be chunks = modbus_receive_actuator_timeout be chunks' \<and>
    modbus_receive_confirmation be chunks = modbus_receive_confirmation be chunks'"
  by (simp only: receive_defs receive_msg_defs finish_flatten receive_loop_flat assms simp_thms)

theorem receive_any_chunks_witness:
  "modbus_receive Backend_rtu [[1, 3], [0], [0, 0, 1, 0x84, 0x0A]] = modbus_receive Backend_rtu [[1, 3, 0, 0, 0, 1, 0x84, 0x0A], []]"
  by (rule receive_any_chunks [THEN conjunct1]) (simp add: stream_of_def)

section \<open>Bounds\<close>

fun flat_ok :: "nat \<Rightarrow> flat \<Rightarrow> bool" where
  "flat_ok mx (Flat_done msg _) \<longleftrightarrow> length msg \<le> mx"
| "flat_ok mx Flat_fail \<longleftrightarrow> True"
| "flat_ok mx Flat_fault \<longleftrightarrow> False"

lemma flat_data_ok: "data msg \<noteq> None \<Longrightarrow> flat_ok mx (flat_data data mx msg bs)"
  by (auto simp: flat_data_def)

lemma flat_meta_ok:
  assumes "\<And>msg. length msg = n \<Longrightarrow> data msg \<noteq> None" "n \<noteq> 0"
  shows "flat_ok mx (flat_step h meta data mx STEP_META n [] bs)"
  using assms by (auto simp: flat_step_def intro!: flat_data_ok)

lemma byte_at_some [simp]: "i < length msg \<Longrightarrow> byte_at msg i = Some (unat (msg ! i))"
  by (simp add: byte_at_def)

lemma data_after_function:
  assumes "header_length be + 1 + compute_meta_length_after_function (msg ! header_length be) mt \<le> length msg"
  shows "compute_data_length_after_meta be mt msg \<noteq> None"
  using assms
  by (auto simp: compute_data_length_after_meta_def compute_meta_length_after_function_def fc_defs Let_def
      split: if_splits)

lemma receive_msg_ok: "flat_ok (max_adu_length be) (flatten (receive_msg be mt chunks))"
  by (auto simp: receive_msg_def receive_loop_flat flat_step_def flat_function_def Let_def min_def
      nth_append intro!: flat_data_ok data_after_function)

text \<open>
  The receive loops stay inside the message buffer: whatever arrives, in whatever chunks, no
  loop reads a byte that it has not received, and a message it delivers has at most
  \<^verbatim>\<open>max_adu_length\<close> bytes.
\<close>

theorem receive_bounded:
  "flat_ok (max_adu_length be) (flatten (receive_msg be mt chunks)) \<and>
   flat_ok (max_adu_length be) (flatten (receive_msg_zigbee be mt chunks)) \<and>
   flat_ok (max_adu_length be) (flatten (receive_msg_actuator be mt chunks))"
proof (intro conjI)
  show "flat_ok (max_adu_length be) (flatten (receive_msg be mt chunks))" by (rule receive_msg_ok)
  show "flat_ok (max_adu_length be) (flatten (receive_msg_zigbee be mt chunks))"
    unfolding receive_msg_zigbee_def receive_loop_flat
    by (rule flat_meta_ok) (auto simp: compute_data_length_after_meta_zigbee_def)
  show "flat_ok (max_adu_length be) (flatten (receive_msg_actuator be mt chunks))"
    unfolding receive_msg_actuator_def receive_loop_flat
    by (rule flat_meta_ok) (auto simp: compute_data_length_after_meta_actuator_def)
qed

section \<open>Whole messages\<close>

text \<open>The requests that the slave serves, without their seal.\<close>

fun request_shape :: "u8 list \<Rightarrow> bool" where
  "request_shape (slave # function # a # b # c # d # rest) \<longleftrightarrow>
     (if function \<le> FC_WRITE_SINGLE_REGISTER then rest = []
      else if function = FC_WRITE_MULTIPLE_COILS \<or> function = FC_WRITE_MULTIPLE_REGISTERS
      then rest \<noteq> [] \<and> length (tl rest) = unat (hd rest)
      else False)"
| "request_shape _ \<longleftrightarrow> False"

lemma flat_stepI:
  "n \<noteq> 0 \<Longrightarrow> length x = n \<Longrightarrow> flat_step h meta data mx STEP_FUNCTION n msg (x @ bs) =
     flat_function h meta data mx (msg @ x) bs"
  "n \<noteq> 0 \<Longrightarrow> length x = n \<Longrightarrow> flat_step h meta data mx STEP_META n msg (x @ bs) =
     flat_data data mx (msg @ x) bs"
  by (auto simp: flat_step_def)

lemma flat_dataI:
  "data msg = Some (length x) \<Longrightarrow> length msg + length x \<le> mx \<Longrightarrow>
     flat_data data mx msg (x @ bs) = Flat_done (msg @ x) bs"
  by (auto simp: flat_data_def)

text \<open>The header of a TCP message stands in front of the slave number.\<close>

lemma request_received:
  assumes "request_shape req" "Suc (length pre) = header_length be" "be \<noteq> Backend_zigbee" "length x = checksum_length be"
    and "length pre + length req + length x \<le> max_adu_length be" "stream_of chunks = pre @ req @ x @ more"
  shows "flatten (receive_msg be MSG_INDICATION chunks) = Flat_done (pre @ req @ x) more"
proof -
  obtain s f a b c d r where req: "req = s # f # a # b # c # d # r"
    using assms(1) by (cases req rule: request_shape.cases) auto
  let ?h = "header_length be"
  let ?meta = "\<lambda>f. compute_meta_length_after_function f MSG_INDICATION"
  let ?data = "compute_data_length_after_meta be MSG_INDICATION"
  have at: "(pre @ s # f # xs) ! ?h = f" for xs
    using assms(2) by (simp add: nth_append flip: assms(2))
  have start: "flatten (receive_msg be MSG_INDICATION chunks) =
      flat_function ?h ?meta ?data (max_adu_length be) (pre @ [s, f]) (a # b # c # d # r @ x @ more)"
    using flat_stepI(1) [of "?h + 1" "pre @ [s, f]" ?h ?meta ?data "max_adu_length be" "[]" "a # b # c # d # r @ x @ more"] assms(2)
    by (simp add: receive_msg_def receive_loop_flat assms(6) req)
  show ?thesis
  proof (cases "f \<le> FC_WRITE_SINGLE_REGISTER")
    case True
    then have r: "r = []" using assms(1) by (simp add: req)
    have f: "f \<noteq> FC_WRITE_MULTIPLE_COILS" "f \<noteq> FC_WRITE_MULTIPLE_REGISTERS" "f \<noteq> FC_WRITE_AND_READ_REGISTERS"
      using True by (auto simp: fc_defs)
    have "?data (pre @ [s, f, a, b, c, d]) = Some (length x)"
      using f assms(2,4) at [of "[a, b, c, d]"] by (simp add: compute_data_length_after_meta_def)
    then have "flat_data ?data (max_adu_length be) (pre @ [s, f, a, b, c, d]) (x @ more) = Flat_done ((pre @ [s, f, a, b, c, d]) @ x) more"
      by (rule flat_dataI) (use assms(5) req r in simp)
    then show ?thesis
      using True f at [of "[]"] assms(2)
      by (simp add: start r req flat_function_def compute_meta_length_after_function_def not_le)
  next
    case False
    then have f: "f = FC_WRITE_MULTIPLE_COILS \<or> f = FC_WRITE_MULTIPLE_REGISTERS"
      using assms(1) by (auto simp: req split: if_splits)
    obtain k ks where r: "r = k # ks" and k: "length ks = unat k"
      using False f assms(1) by (cases r) (auto simp: req)
    have k_at: "(pre @ [s, f, a, b, c, d, k]) ! (?h + 5) = k"
      by (simp add: nth_append flip: assms(2))
    have "?data (pre @ [s, f, a, b, c, d, k]) = Some (length (ks @ x))"
      using f assms(2,4) at [of "[a, b, c, d, k]"] k_at by (auto simp: compute_data_length_after_meta_def k)
    then have "flat_data ?data (max_adu_length be) (pre @ [s, f, a, b, c, d, k]) ((ks @ x) @ more) =
        Flat_done ((pre @ [s, f, a, b, c, d, k]) @ ks @ x) more"
      by (rule flat_dataI) (use assms(5) in \<open>simp add: req r\<close>)
    then show ?thesis
      using False f at [of "[]"] assms(2)
      by (auto simp: start r req flat_function_def compute_meta_length_after_function_def not_le)
  qed
qed

lemma rtu_request_received:
  assumes "request_shape req" "length x = 2" "length req \<le> 254" "stream_of chunks = req @ x @ more"
  shows "flatten (receive_msg Backend_rtu MSG_INDICATION chunks) = Flat_done (req @ x) more"
  using request_received [of req "[]" Backend_rtu x chunks more] assms by simp

lemma rtu_returns:
  assumes "flatten r = Flat_done (rtu_send_msg_pre d) more" "length d < 65536"
  shows "finish (check_integrity Backend_rtu) r = Some (int (length d + 2))"
proof -
  have "rtu_accepts (rtu_send_msg_pre d)"
    by (rule rtu_frame.seal_check) (use assms(2) in \<open>simp add: rtu_payload_def\<close>)
  then show ?thesis using assms(1) by (simp add: finish_flatten rtu_accepts_def rtu_seal)
qed

text \<open>Responses: a fixed block after the writes, a counted block after the reads, an exception.\<close>

fun response_shape :: "u8 list \<Rightarrow> bool" where
  "response_shape (slave # function # rest) \<longleftrightarrow>
     (if function \<in> {FC_WRITE_SINGLE_COIL, FC_WRITE_SINGLE_REGISTER, FC_WRITE_MULTIPLE_COILS,
                     FC_WRITE_MULTIPLE_REGISTERS} then length rest = 4
      else if function \<le> FC_READ_INPUT_REGISTERS \<or> function = FC_REPORT_SLAVE_ID \<or> function = FC_WRITE_AND_READ_REGISTERS
      then rest \<noteq> [] \<and> length (tl rest) = unat (hd rest)
      else length rest = 1)"
| "response_shape _ \<longleftrightarrow> False"

lemma rtu_response_received:
  assumes "response_shape rsp" "length x = 2" "length rsp \<le> 254" "stream_of chunks = rsp @ x @ more"
  shows "flatten (receive_msg Backend_rtu MSG_CONFIRMATION chunks) = Flat_done (rsp @ x) more"
proof -
  obtain s f r where rsp: "rsp = s # f # r"
    using assms(1) by (cases rsp rule: response_shape.cases) auto
  then obtain b r' where r: "r = b # r'" using assms(1) by (cases r) (auto split: if_splits)
  let ?meta = "\<lambda>f. compute_meta_length_after_function f MSG_CONFIRMATION"
  let ?data = "compute_data_length_after_meta Backend_rtu MSG_CONFIRMATION"
  have start: "flatten (receive_msg Backend_rtu MSG_CONFIRMATION chunks) =
      flat_function 1 ?meta ?data 256 [s, f] (r @ x @ more)"
    using flat_stepI(1) [of 2 "[s, f]" 1 ?meta ?data 256 "[]" "r @ x @ more"]
    by (simp add: receive_msg_def receive_loop_flat assms(4) rsp numeral_2_eq_2)
  show ?thesis
  proof (cases "f \<in> {FC_WRITE_SINGLE_COIL, FC_WRITE_SINGLE_REGISTER, FC_WRITE_MULTIPLE_COILS, FC_WRITE_MULTIPLE_REGISTERS}")
    case True
    then have r4: "length r = 4" using assms(1) by (simp add: rsp)
    have "?data ([s, f] @ r) = Some (length x)"
      using True assms(2) by (auto simp: compute_data_length_after_meta_def fc_defs)
    then have "flat_data ?data 256 ([s, f] @ r) (x @ more) = Flat_done (([s, f] @ r) @ x) more"
      by (rule flat_dataI) (use assms(2,3) in \<open>simp add: rsp\<close>)
    then show ?thesis
      using True r4 unfolding start rsp flat_function_def
      by (simp add: compute_meta_length_after_function_def)
  next
    case False
    have d: "?data [s, f, b] = Some (length (r' @ x))"
      using False assms(1,2)
      by (auto simp: compute_data_length_after_meta_def rsp r split: if_splits)
    have "flat_data ?data 256 [s, f, b] ((r' @ x) @ more) = Flat_done ([s, f, b] @ r' @ x) more"
      using flat_dataI [of ?data "[s, f, b]" "r' @ x" 256 more, OF d] assms(2,3) by (simp add: rsp r)
    then show ?thesis
      using False unfolding start rsp r flat_function_def
      by (simp add: compute_meta_length_after_function_def)
  qed
qed

text \<open>
  Receiving a Modbus RTU request: a request sealed with its CRC arrives whole, whatever the
  chunks it is cut into; \<^verbatim>\<open>modbus_receive\<close> returns its length, its bytes are the ones
  that were sent, and the bytes behind it stay for the next call.
\<close>

theorem rtu_request_end_to_end:
  assumes "request_shape req" "length req \<le> 254" "stream_of chunks = rtu_send_msg_pre req @ more"
  shows "modbus_receive Backend_rtu chunks = Some (int (length req + 2)) \<and>
    flatten (receive_msg Backend_rtu MSG_INDICATION chunks) = Flat_done (rtu_send_msg_pre req) more"
proof
  show r: "flatten (receive_msg Backend_rtu MSG_INDICATION chunks) = Flat_done (rtu_send_msg_pre req) more"
    unfolding rtu_seal by (rule rtu_request_received) (use assms in \<open>simp_all add: rtu_seal\<close>)
  show "modbus_receive Backend_rtu chunks = Some (int (length req + 2))"
    unfolding modbus_receive_def by (rule rtu_returns [OF r]) (use assms(2) in simp)
qed

theorem rtu_request_end_to_end_witness:
  "modbus_receive Backend_rtu [take 3 (rtu_send_msg_pre [1, 3, 0, 0, 0, 1]), drop 3 (rtu_send_msg_pre [1, 3, 0, 0, 0, 1])] = Some 8"
proof -
  let ?req = "[1, 3, 0, 0, 0, 1] :: u8 list"
  have "stream_of [take 3 (rtu_send_msg_pre ?req), drop 3 (rtu_send_msg_pre ?req)] = rtu_send_msg_pre ?req @ []"
    by (simp add: stream_of_def rtu_seal)
  moreover have "request_shape ?req" by (simp add: fc_defs)
  ultimately show ?thesis using rtu_request_end_to_end [of ?req _ "[]"] by simp
qed

lemma zigbee_received:
  assumes "d \<noteq> []" "length d \<le> 252" "stream_of chunks = zigbee_seal d @ more" "mt \<noteq> MSG_CONFIRMATION"
  shows "flatten (receive_msg_zigbee Backend_zigbee mt chunks) = Flat_done (zigbee_seal d) more"
    "finish (check_integrity Backend_zigbee) (receive_msg_zigbee Backend_zigbee mt chunks) = Some (int (length d + 4))"
proof -
  have d: "zigbee_payload d" using assms by (simp add: zigbee_payload_def)
  let ?n = "of_nat (length d) :: u16" and ?x = "d @ [0xFF - sum_list d]"
  let ?data = "compute_data_length_after_meta_zigbee Backend_zigbee mt"
  have n: "unat (HI_UINT16 ?n :: u8) * 256 + unat (LO_UINT16 ?n :: u8) = length d"
    using assms(2) by (simp add: HI_UINT16_def LO_UINT16_def and_255 unat_ops unat_of_nat take_bit_nat_eq_self
        unat_drop_bit_eq drop_bit_nat_def unat_ucast_mod)
  have "flatten (receive_msg_zigbee Backend_zigbee mt chunks) = flat_data ?data 256 (zigbee_head d) (?x @ more)"
    using flat_stepI(2) [of 3 "zigbee_head d" 1 _ ?data 256 "[]" "?x @ more"]
    by (simp add: receive_msg_zigbee_def receive_loop_flat assms(3) zigbee_seal_bytes [OF d] zigbee_head_def
        numeral_3_eq_3)
  also have "\<dots> = Flat_done (zigbee_head d @ ?x) more"
    by (rule flat_dataI)
      (use assms(4) n assms(2) in \<open>simp_all add: zigbee_head_def compute_data_length_after_meta_zigbee_def\<close>)
  finally show r: "flatten (receive_msg_zigbee Backend_zigbee mt chunks) = Flat_done (zigbee_seal d) more"
    by (simp add: zigbee_seal_bytes [OF d])
  have "zigbee_accepts (zigbee_seal d)" by (rule zigbee_frame.seal_check [OF d])
  then show "finish (check_integrity Backend_zigbee) (receive_msg_zigbee Backend_zigbee mt chunks) = Some (int (length d + 4))"
    using r by (simp add: finish_flatten zigbee_accepts_def zigbee_seal_bytes [OF d] zigbee_head_def)
qed

text \<open>
  Receiving a ZigBee frame: a frame sealed by \<^verbatim>\<open>calc_sum_check\<close> with at most 252
  payload bytes is delivered whole by both ZigBee receive functions, whatever the chunks.
\<close>

theorem zigbee_end_to_end:
  assumes "d \<noteq> []" "length d \<le> 252" "stream_of chunks = zigbee_seal d @ more"
  shows "modbus_receive_zigbee Backend_zigbee chunks = Some (int (length d + 4)) \<and>
    modbus_receive_zigbee_timeout Backend_zigbee chunks = Some (int (length d + 4)) \<and>
    flatten (receive_msg_zigbee Backend_zigbee MSG_INDICATION chunks) = Flat_done (zigbee_seal d) more"
  using zigbee_received [OF assms, of MSG_INDICATION] zigbee_received [OF assms, of MSG_TIMEOUT]
  by (simp add: modbus_receive_zigbee_def modbus_receive_zigbee_timeout_def)

theorem zigbee_end_to_end_witness:
  "modbus_receive_zigbee Backend_zigbee [take 2 (zigbee_seal [8, 1, 0x57, 0x52]), drop 2 (zigbee_seal [8, 1, 0x57, 0x52])] = Some 8"
proof -
  let ?d = "[8, 1, 0x57, 0x52] :: u8 list"
  have "length (zigbee_seal ?d) = 8"
    by (subst zigbee_seal_bytes) (simp_all add: zigbee_payload_def zigbee_head_def)
  then have "stream_of [take 2 (zigbee_seal ?d), drop 2 (zigbee_seal ?d)] = zigbee_seal ?d @ []"
    by (auto simp: stream_of_def)
  then show ?thesis using zigbee_end_to_end [of ?d _ "[]"] by simp
qed

end
