(* ===== verification/Scan.thy ===== *)
theory Scan
  imports Prelude
begin

text \<open>
  The part of the C library's \<^verbatim>\<open>scanf\<close> family and of \<^verbatim>\<open>strstr\<close> that
  \<^verbatim>\<open>data/map.c\<close> and \<^verbatim>\<open>data/utils.c\<close> use on text: white-space separated words
  (\<^verbatim>\<open>%s\<close>), decimal and hexadecimal halfwords (\<^verbatim>\<open>%hd\<close>,
  \<^verbatim>\<open>%hx\<close>) and literal characters. A number is read as a 32-bit \<^verbatim>\<open>long\<close>
  that saturates at its limits and is then cut to 16 bits, as glibc does on the target.
\<close>

section \<open>Characters\<close>

definition code :: "char \<Rightarrow> nat" where
  "code c = of_char c"

definition is_space :: "char \<Rightarrow> bool" where
  "is_space c \<longleftrightarrow> c \<in> {CHR '' '', CHR 0x09, CHR 0x0A, CHR 0x0B, CHR 0x0C, CHR 0x0D}"

definition is_digit :: "char \<Rightarrow> bool" where
  "is_digit c \<longleftrightarrow> 48 \<le> code c \<and> code c \<le> 57"

definition digit_val :: "char \<Rightarrow> nat" where
  "digit_val c = code c - 48"

definition is_xdigit :: "char \<Rightarrow> bool" where
  "is_xdigit c \<longleftrightarrow> is_digit c \<or> (65 \<le> code c \<and> code c \<le> 70) \<or> (97 \<le> code c \<and> code c \<le> 102)"

definition xdigit_val :: "char \<Rightarrow> nat" where
  "xdigit_val c = (if is_digit c then code c - 48 else if code c \<le> 70 then code c - 55 else code c - 87)"

section \<open>Words and substrings\<close>

text \<open>\<^verbatim>\<open>fscanf(file, "%s\r", buf)\<close> repeated until end of file.\<close>

fun words_from :: "string \<Rightarrow> string \<Rightarrow> string list" where
  "words_from acc [] = (if acc = [] then [] else [rev acc])"
| "words_from acc (c # cs) =
     (if is_space c then (if acc = [] then words_from [] cs else rev acc # words_from [] cs)
      else words_from (c # acc) cs)"

definition words :: "string \<Rightarrow> string list" where
  "words text = words_from [] text"

fun is_prefix :: "string \<Rightarrow> string \<Rightarrow> bool" where
  "is_prefix [] _ = True"
| "is_prefix (_ # _) [] = False"
| "is_prefix (p # ps) (c # cs) = (p = c \<and> is_prefix ps cs)"

text \<open>\<^verbatim>\<open>NULL != strstr(text, pat)\<close>.\<close>

fun strstr :: "string \<Rightarrow> string \<Rightarrow> bool" where
  "strstr [] pat = (pat = [])"
| "strstr (c # cs) pat = (is_prefix pat (c # cs) \<or> strstr cs pat)"

section \<open>Conversions\<close>

definition number :: "nat \<Rightarrow> (char \<Rightarrow> nat) \<Rightarrow> string \<Rightarrow> nat" where
  "number base val ds = foldl (\<lambda>n c. base * n + val c) 0 ds"

definition LONG_MAX :: int where "LONG_MAX = 2147483647"
definition ULONG_MAX :: int where "ULONG_MAX = 4294967295"

fun sign_of :: "string \<Rightarrow> int \<times> string" where
  "sign_of (c # cs) = (if c = CHR ''-'' then (-1, cs) else if c = CHR ''+'' then (1, cs) else (1, c # cs))"
| "sign_of [] = (1, [])"

text \<open>\<^verbatim>\<open>%hd\<close>: optional sign, at least one digit; saturates like \<^verbatim>\<open>strtol\<close>.\<close>

definition scan_hd :: "string \<Rightarrow> (u16 \<times> string) option" where
  "scan_hd text =
     (let (sg, t) = sign_of (dropWhile is_space text);
          ds = takeWhile is_digit t;
          n = sg * int (number 10 digit_val ds);
          v = max (- LONG_MAX - 1) (min LONG_MAX n)
      in if ds = [] then None else Some (word_of_int v, dropWhile is_digit t))"

text \<open>\<^verbatim>\<open>%hx\<close>: optional sign, optional \<^verbatim>\<open>0x\<close>; saturates like \<^verbatim>\<open>strtoul\<close>.\<close>

definition scan_hx :: "string \<Rightarrow> (u16 \<times> string) option" where
  "scan_hx text =
     (let (sg, t) = sign_of (dropWhile is_space text);
          pre = is_prefix ''0x'' t \<or> is_prefix ''0X'' t;
          t = (if pre then drop 2 t else t);
          ds = takeWhile is_xdigit t;
          m = int (number 16 xdigit_val ds);
          v = (if m > ULONG_MAX then ULONG_MAX else sg * m)
      in if ds = [] \<and> \<not> pre then None else Some (word_of_int v, dropWhile is_xdigit t))"

fun scan_char :: "char \<Rightarrow> string \<Rightarrow> string option" where
  "scan_char c [] = None"
| "scan_char c (d # ds) = (if c = d then Some ds else None)"

definition scan_s :: "string \<Rightarrow> (string \<times> string) option" where
  "scan_s text =
     (let t = dropWhile is_space text; w = takeWhile (\<lambda>c. \<not> is_space c) t
      in if w = [] then None else Some (w, dropWhile (\<lambda>c. \<not> is_space c) t))"

section \<open>Facts\<close>

lemma code_lt [simp]: "code c < 256"
  by (simp add: code_def)

lemma words_nonempty: "w \<in> set (words_from acc cs) \<Longrightarrow> w \<noteq> []"
  by (induction acc cs rule: words_from.induct) (auto split: if_splits)

lemma is_prefix_append: "is_prefix p t \<longleftrightarrow> (\<exists>r. t = p @ r)"
  by (induction p t rule: is_prefix.induct) auto

lemma strstr_iff: "strstr t p \<longleftrightarrow> (\<exists>a b. t = a @ p @ b)"
proof (induction t p rule: strstr.induct)
  case (1 pat)
  then show ?case by auto
next
  case (2 c cs pat)
  have "(\<exists>a b. c # cs = a @ pat @ b) \<longleftrightarrow> is_prefix pat (c # cs) \<or> (\<exists>a b. cs = a @ pat @ b)"
    unfolding is_prefix_append
    by (metis append_Cons append_Nil list.sel(3) neq_Nil_conv)
  with 2 show ?case by auto
qed

text \<open>Evaluation of the scanner on concrete text.\<close>

lemmas scan_eval = scan_hd_def scan_hx_def scan_s_def words_def is_space_def is_digit_def
  is_xdigit_def digit_val_def xdigit_val_def code_def number_def LONG_MAX_def ULONG_MAX_def

end
