(* ===== verification/Device.thy ===== *)
theory Device
  imports Scan Common
begin

text \<open>
  The shared state of the program: the register map of \<^verbatim>\<open>data/map.h\<close>
  (\<^verbatim>\<open>Map_t\<close>, the global \<^verbatim>\<open>map_map_t\<close>), the fields of
  \<^verbatim>\<open>Rtu_a118_t\<close> (\<^verbatim>\<open>config.h\<close>) that the modelled code reads or
  writes, and what the program does to the outside world as a list of events. Everything the
  operating system answers (clock, files, levels of input pins, results of
  \<^verbatim>\<open>msync\<close>) comes from an environment record, an argument of the operations.
\<close>

section \<open>The register map\<close>

datatype map_kind =
    MAP_NULL | MAP_RAM | MAP_FLASH1 | MAP_FLASH2 | MAP_SYS | MAP_RECORD | MAP_RO | MAP_RW

text \<open>
  The arrays of \<^verbatim>\<open>Map_t\<close>. Well \<open>w\<close> owns the indices
  \<open>x_max * (w - 1) ..< x_max * w\<close> of the \<open>ram_x\<close> arrays and of \<open>flash2\<close>, and
  \<open>10000 * (w - 1) ..< 10000 * w\<close> of the \<open>ram_y\<close> arrays; \<open>flash1\<close> is shared.
\<close>

record map_t =
  ram_x :: "nat \<Rightarrow> u16"
  ram_x_map_type :: "nat \<Rightarrow> map_kind"
  ram_x_map_record :: "nat \<Rightarrow> map_kind"
  ram_x_map_rw :: "nat \<Rightarrow> map_kind"
  ram_y :: "nat \<Rightarrow> u16"
  ram_y_map_type :: "nat \<Rightarrow> map_kind"
  flash1 :: "nat \<Rightarrow> u16"
  flash2 :: "nat \<Rightarrow> u16"
  flash1_is_new :: bool
  flash2_is_new :: bool
  x_max :: nat

definition FLASH1_MAX_LEN :: nat where "FLASH1_MAX_LEN = 300"
definition MAX_WELL_NUM :: nat where "MAX_WELL_NUM = 8"
definition MAX_REGISTER_NUM :: nat where "MAX_REGISTER_NUM = 10000"

abbreviation x_size :: "map_t \<Rightarrow> nat" where "x_size m \<equiv> MAX_WELL_NUM * x_max m"
abbreviation y_size :: nat where "y_size \<equiv> MAX_WELL_NUM * MAX_REGISTER_NUM"

lemmas map_sizes = FLASH1_MAX_LEN_def MAX_WELL_NUM_def MAX_REGISTER_NUM_def

section \<open>Messages and events\<close>

text \<open>The message queues of \<^verbatim>\<open>Rtu_a118_t\<close> and the messages of \<^verbatim>\<open>pmsg_q.h\<close>.\<close>

datatype queue = Q_zigbee | Q_rtu_server | Q_rtu_client | Q_tcp_server | Q_tcp_client | Q_data | Q_udp_server

definition MSG_NULL :: u16 where "MSG_NULL = 0"
definition MSG_CONFIG_START :: u16 where "MSG_CONFIG_START = 1"
definition MSG_NETWORK_SET_IP :: u16 where "MSG_NETWORK_SET_IP = 2"
definition MSG_CONFIG2_START :: u16 where "MSG_CONFIG2_START = 3"
definition MSG_REQUEST_H_DATA :: u16 where "MSG_REQUEST_H_DATA = 4"
definition MSG_LOAD_ELEC_SYSN :: u16 where "MSG_LOAD_ELEC_SYSN = 5"

text \<open>
  A message is its memory as little-endian halfwords: an \<^verbatim>\<open>int\<close> below 65536 is two
  of them, the second 0.
\<close>

datatype serial_port = PORT_ZIGBEE | PORT_RS485_MASTER | PORT_RS485_SLAVE | PORT_RS232

datatype event =
    MsgSend queue "u16 list"
  | IoctlSet nat u8
  | SetTime u32
  | SerialWrite serial_port "u8 list"
  | LogMsg string
  | Hwclock
  | SystemCall string
  | SocketSend nat "u8 list"
  | DatagramSend "string \<times> string" "u8 list"

section \<open>Device state and environment\<close>

definition RTU_MAX_WELL_NUM :: nat where "RTU_MAX_WELL_NUM = 9"
definition MAX_NUM_METER_TYPE :: nat where "MAX_NUM_METER_TYPE = 10"

text \<open>
  \<open>disk1\<close> and \<open>disk2\<close> are the contents of the two flash files as last synchronised;
  \<open>syncs\<close> counts the calls of \<^verbatim>\<open>msync\<close>. The two-dimensional time tables are
  \<open>RTU_MAX_WELL_NUM\<close> rows of \<open>MAX_NUM_METER_TYPE\<close> entries.
\<close>

record rtu =
  mp :: map_t
  disk1 :: "nat \<Rightarrow> u16"
  disk2 :: "nat \<Rightarrow> u16"
  syncs :: nat
  io_fd :: int
  adc_fd :: int
  equ_meter_para_time :: "nat \<Rightarrow> nat \<Rightarrow> u32"
  meter_sample_time :: "nat \<Rightarrow> nat \<Rightarrow> u32"
  elec_param_meter_mac :: "nat \<Rightarrow> u8 list"
  led_status :: "nat \<Rightarrow> u8"
  mac_addr :: "nat \<Rightarrow> u16"
  time_set_status :: u8
  flash1_reset_status :: u8
  flash1_reset_button :: u8
  thread_time :: "nat \<Rightarrow> u32"
  thread_com_time :: "nat \<Rightarrow> u32"
  out :: "event list"

record tm =
  tm_hour :: int
  tm_min :: int
  tm_sec :: int
  tm_year :: int
  tm_mon :: int
  tm_mday :: int

text \<open>
  \<open>time_now\<close>, \<open>localtime\<close> and \<open>mktime\<close> are the C library's clock functions;
  \<open>msync_ok n\<close> tells whether the \<open>n\<close>-th \<^verbatim>\<open>msync\<close> succeeds;
  \<open>pin_level\<close> is what \<^verbatim>\<open>ioctl(GET)\<close> stores for a pin; \<open>adc_text\<close> is what
  a read of the ADC file returns (\<^const>\<open>None\<close>: the read fails); \<open>battery_fp\<close> is the
  floating-point scaling of the ADC value; \<open>fopen_text\<close> is the content of a readable file;
  \<open>flash_file\<close> the existing flash files with their length in bytes, and \<open>malloc_ok\<close>,
  \<open>create_ok\<close>, \<open>mmap_ok\<close> whether memory and files can be obtained.
\<close>

record env =
  time_now :: u32
  localtime :: "u32 \<Rightarrow> tm"
  mktime :: "tm \<Rightarrow> u32"
  msync_ok :: "nat \<Rightarrow> bool"
  pin_level :: "nat \<Rightarrow> u8"
  adc_text :: "string option"
  battery_fp :: "u16 \<Rightarrow> u16"
  fopen_text :: "string \<Rightarrow> string option"
  flash_file :: "string \<Rightarrow> (u32 \<times> (nat \<Rightarrow> u16)) option"
  malloc_ok :: bool
  create_ok :: "string \<Rightarrow> bool"
  mmap_ok :: "string \<Rightarrow> bool"

definition emit :: "event \<Rightarrow> rtu \<Rightarrow> rtu" where
  "emit ev s = s\<lparr>out := out s @ [ev]\<rparr>"

text \<open>\<^verbatim>\<open>pmsg_q_send\<close> of an \<^verbatim>\<open>int\<close>.\<close>

definition send_int :: "queue \<Rightarrow> u16 \<Rightarrow> rtu \<Rightarrow> rtu" where
  "send_int q m = emit (MsgSend q [m, 0])"

text \<open>
  \<^verbatim>\<open>msync(flash, ..., MS_SYNC)\<close>: on success the file holds the mapped contents.
\<close>

definition msync1 :: "env \<Rightarrow> rtu \<Rightarrow> bool \<times> rtu" where
  "msync1 e s =
     (if msync_ok e (syncs s) then (True, s\<lparr>disk1 := flash1 (mp s), syncs := Suc (syncs s)\<rparr>)
      else (False, s\<lparr>syncs := Suc (syncs s)\<rparr>))"

definition msync2 :: "env \<Rightarrow> rtu \<Rightarrow> bool \<times> rtu" where
  "msync2 e s =
     (if msync_ok e (syncs s) then (True, s\<lparr>disk2 := flash2 (mp s), syncs := Suc (syncs s)\<rparr>)
      else (False, s\<lparr>syncs := Suc (syncs s)\<rparr>))"

section \<open>Frame facts\<close>

lemma emit_frame [frame_simps]:
  "mp (emit ev s) = mp s" "disk1 (emit ev s) = disk1 s" "disk2 (emit ev s) = disk2 s"
  "syncs (emit ev s) = syncs s" "io_fd (emit ev s) = io_fd s" "adc_fd (emit ev s) = adc_fd s"
  "out (emit ev s) = out s @ [ev]" "meter_sample_time (emit ev s) = meter_sample_time s"
  "equ_meter_para_time (emit ev s) = equ_meter_para_time s"
  "mac_addr (emit ev s) = mac_addr s"
  by (simp_all add: emit_def)

lemma send_int_frame [frame_simps]:
  "mp (send_int q v s) = mp s" "disk1 (send_int q v s) = disk1 s"
  "disk2 (send_int q v s) = disk2 s" "syncs (send_int q v s) = syncs s"
  "io_fd (send_int q v s) = io_fd s" "out (send_int q v s) = out s @ [MsgSend q [v, 0]]"
  by (simp_all add: send_int_def frame_simps)

lemma msync1_cases:
  obtains (ok) "msync_ok e (syncs s)"
      "msync1 e s = (True, s\<lparr>disk1 := flash1 (mp s), syncs := Suc (syncs s)\<rparr>)"
    | (fail) "\<not> msync_ok e (syncs s)" "msync1 e s = (False, s\<lparr>syncs := Suc (syncs s)\<rparr>)"
  by (cases "msync_ok e (syncs s)") (auto simp: msync1_def)

lemma msync2_cases:
  obtains (ok) "msync_ok e (syncs s)"
      "msync2 e s = (True, s\<lparr>disk2 := flash2 (mp s), syncs := Suc (syncs s)\<rparr>)"
    | (fail) "\<not> msync_ok e (syncs s)" "msync2 e s = (False, s\<lparr>syncs := Suc (syncs s)\<rparr>)"
  by (cases "msync_ok e (syncs s)") (auto simp: msync2_def)

lemma msync_map [frame_simps]:
  "mp (snd (msync1 e s)) = mp s" "mp (snd (msync2 e s)) = mp s"
  by (simp_all add: msync1_def msync2_def)

section \<open>A sample device\<close>

text \<open>
  A small device for the concrete instances: 311 registers per well as the sample tables ask,
  register 5 of well 1 in flash1, register 16 of well 1 a function register, the others in flash2;
  the external register 7 of well 1 names internal register 5, and it may be written.
\<close>

definition map_demo :: map_t where
  "map_demo =
     \<lparr>ram_x = \<lambda>_. 0, ram_x_map_type = \<lambda>k. if k = 5 then MAP_FLASH1 else if k = 16 then MAP_SYS else MAP_FLASH2,
      ram_x_map_record = \<lambda>_. MAP_NULL, ram_x_map_rw = \<lambda>k. if k = 5 then MAP_RW else MAP_RO,
      ram_y = \<lambda>k. if k = 7 then 5 else 6, ram_y_map_type = \<lambda>k. if k = 7 \<or> k = 8 then MAP_RAM else MAP_NULL,
      flash1 = \<lambda>_. 0, flash2 = \<lambda>_. 0, flash1_is_new = False, flash2_is_new = False, x_max = 311\<rparr>"

definition rtu_demo :: rtu where
  "rtu_demo =
     \<lparr>mp = map_demo, disk1 = \<lambda>_. 0, disk2 = \<lambda>_. 0, syncs = 0, io_fd = 3, adc_fd = -1,
      equ_meter_para_time = \<lambda>_ _. 0, meter_sample_time = \<lambda>_ _. 0, elec_param_meter_mac = \<lambda>_. [],
      led_status = \<lambda>_. 0, mac_addr = \<lambda>_. 0, time_set_status = 0, flash1_reset_status = 0,
      flash1_reset_button = 0, thread_time = \<lambda>_. 0, thread_com_time = \<lambda>_. 0, out = []\<rparr>"

lemmas rtu_demo_eval = rtu_demo_def map_demo_def

end
