(* ===== verification/Map_Table.thy ===== *)
theory Map_Table
  imports Device
begin

text \<open>
  The first half of \<^verbatim>\<open>data/map.c\<close>: sizing the register area from the mapping
  tables, creating and mapping the flash files, filling the arrays from the text of a table
  (\<^verbatim>\<open>ram_map_flash1_value_init\<close>), the per-well tables, remapping one well and the
  boot sequence \<^verbatim>\<open>map_init\<close>. The pointers that C passes are offsets here:
  \<open>xo\<close> into the \<open>ram_x\<close> arrays and \<open>flash2\<close>, \<open>yo\<close> into the \<open>ram_y\<close> arrays.
\<close>

definition PATH_MAP0 :: string where "PATH_MAP0 = ''/usr/share/map0.csv''"
definition PATH_MAP1 :: string where "PATH_MAP1 = ''/usr/share/map1.csv''"
definition PATH_FLASH1 :: string where "PATH_FLASH1 = ''/usr/share/flash1''"
definition PATH_FLASH2 :: string where "PATH_FLASH2 = ''/usr/share/flash2''"
definition PATH_MAP_001 :: string where "PATH_MAP_001 = ''/usr/share/map_001.csv''"

lemmas paths = PATH_MAP0_def PATH_MAP1_def PATH_FLASH1_def PATH_FLASH2_def PATH_MAP_001_def

section \<open>Sizing the register area\<close>

text \<open>\<^verbatim>\<open>sscanf(buf, "%hd,%hd", ...)\<close> with both fields read.\<close>

definition scan_hd_hd :: "string \<Rightarrow> (u16 \<times> u16) option" where
  "scan_hd_hd w = do {
     (x0, t) \<leftarrow> scan_hd w;
     t \<leftarrow> scan_char CHR '','' t;
     (y0, t) \<leftarrow> scan_hd t;
     Some (x0, y0) }"

text \<open>\<^verbatim>\<open>sscanf(buf, "%hd~%hd,%hd~%hd", ...)\<close> with all four fields read, and the rest.\<close>

definition scan_ranges :: "string \<Rightarrow> (u16 \<times> u16 \<times> u16 \<times> u16 \<times> string) option" where
  "scan_ranges w = do {
     (x0, t) \<leftarrow> scan_hd w;
     t \<leftarrow> scan_char CHR ''~'' t;
     (x1, t) \<leftarrow> scan_hd t;
     t \<leftarrow> scan_char CHR '','' t;
     (y0, t) \<leftarrow> scan_hd t;
     t \<leftarrow> scan_char CHR ''~'' t;
     (y1, t) \<leftarrow> scan_hd t;
     Some (x0, x1, y0, y1, t) }"

text \<open>The largest register of one table line; \<^const>\<open>None\<close> when the line does not scan.\<close>

definition line_top :: "string \<Rightarrow> u16 option" where
  "line_top w =
     (if \<not> strstr w ''~'' then map_option fst (scan_hd_hd w)
      else map_option (\<lambda>(x0, x1, _). x1) (scan_ranges w))"

fun table_max :: "string list \<Rightarrow> u16 \<Rightarrow> (int \<times> u16) option" where
  "table_max [] xm = Some (0, xm)"
| "table_max (w # ws) xm =
     (if length w \<ge> 512 then None
      else case line_top w of
        None \<Rightarrow> Some (-1, xm)
      | Some x \<Rightarrow> table_max ws (if xm < x then x else xm))"

text \<open>\<^verbatim>\<open>sscanf(buf_map0, "%hd,%s", ...)\<close>: well type and path of its table.\<close>

definition scan_map0 :: "string \<Rightarrow> (u16 \<times> string) option" where
  "scan_map0 w = do {
     (well_type, t) \<leftarrow> scan_hd w;
     t \<leftarrow> scan_char CHR '','' t;
     (path, t) \<leftarrow> scan_s t;
     Some (well_type, path) }"

fun tables_max :: "env \<Rightarrow> string list \<Rightarrow> u16 \<Rightarrow> (int \<times> u16) option" where
  "tables_max e [] xm = Some (0, xm)"
| "tables_max e (w # ws) xm =
     (if length w \<ge> 512 then None
      else case scan_map0 w of
        None \<Rightarrow> Some (-1, xm)
      | Some (_, path) \<Rightarrow>
          (case fopen_text e path of
             None \<Rightarrow> Some (-1, xm)
           | Some text \<Rightarrow>
               (case table_max (words text) xm of
                  None \<Rightarrow> None
                | Some (rc, xm) \<Rightarrow> if rc = -1 then Some (-1, xm) else tables_max e ws xm)))"

definition get_x_y_z_max_len :: "env \<Rightarrow> u16 \<Rightarrow> (int \<times> u16) option" where
  "get_x_y_z_max_len e xm =
     (case fopen_text e PATH_MAP0 of
        None \<Rightarrow> Some (-1, xm)
      | Some text \<Rightarrow>
          (case tables_max e (words text) xm of
             None \<Rightarrow> None
           | Some (rc, xm) \<Rightarrow>
               if rc = -1 then Some (-1, xm)
               else (let xm = xm + 1 in
                 if unat xm > MAX_REGISTER_NUM then Some (-1, xm) else Some (0, xm))))"

section \<open>Creating the memory and the flash files\<close>

definition get_file_size :: "env \<Rightarrow> string \<Rightarrow> u32" where
  "get_file_size e path = (case flash_file e path of None \<Rightarrow> -1 | Some (n, _) \<Rightarrow> n)"

text \<open>The return code, the new \<^verbatim>\<open>flash_is_new\<close> and the content of the file.\<close>

definition flash_create :: "env \<Rightarrow> string \<Rightarrow> u32 \<Rightarrow> bool \<Rightarrow> int \<times> bool \<times> (nat \<Rightarrow> u16)" where
  "flash_create e path len flash_is_new =
     (case flash_file e path of
        Some (n, content) \<Rightarrow>
          if len \<noteq> get_file_size e path
          then (if \<not> malloc_ok e \<or> \<not> create_ok e path then (-1, True, content) else (0, True, \<lambda>_. 0xFFFF))
          else (0, flash_is_new, content)
      | None \<Rightarrow>
          if \<not> malloc_ok e \<or> \<not> create_ok e path then (-1, True, \<lambda>_. 0xFFFF) else (0, True, \<lambda>_. 0xFFFF))"

definition flash_map :: "env \<Rightarrow> string \<Rightarrow> int" where
  "flash_map e path = (if mmap_ok e path then 0 else -1)"

text \<open>
  The arrays after their \<^verbatim>\<open>memset\<close> and the two files mapped; \<^const>\<open>None\<close> is the
  return value \<open>-1\<close>.
\<close>

definition ram_flash_create :: "env \<Rightarrow> nat \<Rightarrow> map_t option" where
  "ram_flash_create e xm =
     (if \<not> malloc_ok e then None
      else
        (let (rc1, new1, content1) = flash_create e PATH_FLASH1 (of_nat (FLASH1_MAX_LEN * 2)) False;
             (rc2, new2, content2) = flash_create e PATH_FLASH2 (of_nat (xm * MAX_WELL_NUM * 2)) False
         in if rc1 = -1 \<or> rc2 = -1 \<or> flash_map e PATH_FLASH1 = -1 \<or> flash_map e PATH_FLASH2 = -1
            then None
            else Some
              \<lparr>ram_x = \<lambda>_. 0xFFFF, ram_x_map_type = \<lambda>_. MAP_NULL, ram_x_map_record = \<lambda>_. MAP_NULL,
               ram_x_map_rw = \<lambda>_. MAP_RO, ram_y = \<lambda>_. 0xFFFF, ram_y_map_type = \<lambda>_. MAP_NULL,
               flash1 = content1, flash2 = content2, flash1_is_new = new1, flash2_is_new = new2,
               x_max = xm\<rparr>))"

section \<open>Filling the arrays from a table\<close>

text \<open>A line maps one register, or a range of registers, and gives the default value.\<close>

datatype map_line =
    Item (item_x0: u16) (item_y0: u16) (item_dv: u16)
  | Items (items_x0: u16) (items_x1: u16) (items_y0: u16) (items_y1: u16) (items_dv: u16)

definition scan_dv :: "string \<Rightarrow> string \<Rightarrow> u16 option" where
  "scan_dv w t = do {
     t \<leftarrow> scan_char CHR '','' t;
     (d_v, t) \<leftarrow> (if strstr w ''0x'' then scan_hx t else scan_hd t);
     Some d_v }"

definition modbus_to_y :: "u16 \<Rightarrow> u16" where
  "modbus_to_y y = (if int (unat y) - 40001 < 0 then 0 else y - 40001)"

definition parse_line :: "string \<Rightarrow> map_line option" where
  "parse_line w =
     (if \<not> strstr w ''~'' then do {
        (x0, t) \<leftarrow> scan_hd w;
        t \<leftarrow> scan_char CHR '','' t;
        (y0, t) \<leftarrow> scan_hd t;
        d_v \<leftarrow> scan_dv w t;
        Some (Item x0 (modbus_to_y y0) d_v) }
      else do {
        (x0, x1, y0, y1, t) \<leftarrow> scan_ranges w;
        d_v \<leftarrow> scan_dv w t;
        Some (Items x0 x1 (modbus_to_y y0) (modbus_to_y y1) d_v) })"

definition line_type :: "string \<Rightarrow> map_kind" where
  "line_type w =
     (if strstr w ''FLASH1'' then MAP_FLASH1
      else if strstr w ''FLASH2'' then MAP_FLASH2
      else if strstr w ''SYS'' then MAP_SYS else MAP_NULL)"

definition line_record :: "string \<Rightarrow> map_kind" where
  "line_record w = (if strstr w ''RECORD'' then MAP_RECORD else MAP_NULL)"

definition line_rw :: "string \<Rightarrow> map_kind" where
  "line_rw w = (if strstr w ''WR'' then MAP_RW else if strstr w ''RW'' then MAP_RW else MAP_RO)"

text \<open>The body both branches share: register \<open>x\<close> of the well, seen at \<open>y\<close> from outside.\<close>

definition put_value ::
  "nat \<Rightarrow> nat \<Rightarrow> bool \<Rightarrow> bool \<Rightarrow> string \<Rightarrow> u16 \<Rightarrow> nat \<Rightarrow> nat \<Rightarrow> map_t \<Rightarrow> map_t option" where
  "put_value xo yo new1 new2 w d_v x y m = do {
     rx \<leftarrow> wr (x_size m) (ram_x m) (xo + x) d_v;
     ty \<leftarrow> wr (x_size m) (ram_x_map_type m) (xo + x) (line_type w);
     rc \<leftarrow> wr (x_size m) (ram_x_map_record m) (xo + x) (line_record w);
     rw \<leftarrow> wr (x_size m) (ram_x_map_rw m) (xo + x) (line_rw w);
     ry \<leftarrow> wr y_size (ram_y m) (yo + y) (of_nat x);
     yt \<leftarrow> wr y_size (ram_y_map_type m) (yo + y) MAP_RAM;
     let m = m\<lparr>ram_x := rx, ram_x_map_type := ty, ram_x_map_record := rc, ram_x_map_rw := rw,
               ram_y := ry, ram_y_map_type := yt\<rparr>;
     if line_type w \<in> {MAP_SYS, MAP_FLASH1} \<and> new1 then do {
       f \<leftarrow> wr FLASH1_MAX_LEN (flash1 m) x d_v;
       Some (m\<lparr>flash1 := f\<rparr>) }
     else if line_type w \<in> {MAP_SYS, MAP_FLASH2} \<and> new2 then do {
       f \<leftarrow> wr (x_size m) (flash2 m) (xo + x) d_v;
       Some (m\<lparr>flash2 := f\<rparr>) }
     else Some m }"

text \<open>\<open>for (i = x0, j = y0; i <= x1; ++i, ++j)\<close> for \<open>n\<close> more rounds; \<open>j\<close> is a halfword.\<close>

fun put_values ::
  "nat \<Rightarrow> nat \<Rightarrow> bool \<Rightarrow> bool \<Rightarrow> string \<Rightarrow> u16 \<Rightarrow> nat \<Rightarrow> nat \<Rightarrow> nat \<Rightarrow> map_t \<Rightarrow> map_t option" where
  "put_values xo yo new1 new2 w d_v x y 0 m = Some m"
| "put_values xo yo new1 new2 w d_v x y (Suc n) m = do {
     m \<leftarrow> put_value xo yo new1 new2 w d_v x y m;
     put_values xo yo new1 new2 w d_v (Suc x) (Suc y mod 65536) n m }"

text \<open>
  A range with \<open>x1 = 65535\<close> never ends (the halfword counter cannot exceed it), so it has
  no result. A range that is not increasing on both sides is skipped.
\<close>

definition put_line ::
  "nat \<Rightarrow> nat \<Rightarrow> bool \<Rightarrow> bool \<Rightarrow> string \<Rightarrow> map_line \<Rightarrow> map_t \<Rightarrow> map_t option" where
  "put_line xo yo new1 new2 w l m =
     (case l of
        Item x0 y0 d_v \<Rightarrow> put_value xo yo new1 new2 w d_v (unat x0) (unat y0) m
      | Items x0 x1 y0 y1 d_v \<Rightarrow>
          if unat y1 \<le> unat y0 \<or> unat x1 \<le> unat x0 then Some m
          else if unat x1 = 65535 then None
          else put_values xo yo new1 new2 w d_v (unat x0) (unat y0) (Suc (unat x1 - unat x0)) m)"

fun put_lines ::
  "nat \<Rightarrow> nat \<Rightarrow> bool \<Rightarrow> bool \<Rightarrow> string list \<Rightarrow> map_t \<Rightarrow> (int \<times> map_t) option" where
  "put_lines xo yo new1 new2 [] m = Some (0, m)"
| "put_lines xo yo new1 new2 (w # ws) m =
     (if length w \<ge> 512 then None
      else case parse_line w of
        None \<Rightarrow> Some (-1, m)
      | Some l \<Rightarrow> do { m \<leftarrow> put_line xo yo new1 new2 w l m; put_lines xo yo new1 new2 ws m })"

text \<open>\<^verbatim>\<open>memcpy\<close> inside one array of \<open>n\<close> entries.\<close>

definition memcpy_in :: "nat \<Rightarrow> (nat \<Rightarrow> 'a) \<Rightarrow> nat \<Rightarrow> nat \<Rightarrow> nat \<Rightarrow> (nat \<Rightarrow> 'a) option" where
  "memcpy_in n f dst src len =
     (if dst + len \<le> n \<and> src + len \<le> n
      then Some (\<lambda>k. if dst \<le> k \<and> k < dst + len then f (src + (k - dst)) else f k) else None)"

definition copy_well :: "nat \<Rightarrow> nat \<Rightarrow> bool \<Rightarrow> nat \<Rightarrow> map_t \<Rightarrow> map_t option" where
  "copy_well xo yo new2 well_index m = do {
     rx \<leftarrow> memcpy_in (x_size m) (ram_x m) (xo + well_index * x_max m) xo FLASH1_MAX_LEN;
     ty \<leftarrow> memcpy_in (x_size m) (ram_x_map_type m) (xo + well_index * x_max m) xo FLASH1_MAX_LEN;
     rc \<leftarrow> memcpy_in (x_size m) (ram_x_map_record m) (xo + well_index * x_max m) xo FLASH1_MAX_LEN;
     rw \<leftarrow> memcpy_in (x_size m) (ram_x_map_rw m) (xo + well_index * x_max m) xo FLASH1_MAX_LEN;
     ry \<leftarrow> memcpy_in y_size (ram_y m) (yo + well_index * MAX_REGISTER_NUM) yo MAX_REGISTER_NUM;
     yt \<leftarrow> memcpy_in y_size (ram_y_map_type m) (yo + well_index * MAX_REGISTER_NUM) yo MAX_REGISTER_NUM;
     f2 \<leftarrow> (if new2 then memcpy_in (x_size m) (flash2 m) (xo + well_index * x_max m) xo FLASH1_MAX_LEN
            else Some (flash2 m));
     Some (m\<lparr>ram_x := rx, ram_x_map_type := ty, ram_x_map_record := rc, ram_x_map_rw := rw,
             ram_y := ry, ram_y_map_type := yt, flash2 := f2\<rparr>) }"

fun copy_wells :: "nat \<Rightarrow> nat \<Rightarrow> bool \<Rightarrow> nat list \<Rightarrow> map_t \<Rightarrow> map_t option" where
  "copy_wells xo yo new2 [] m = Some m"
| "copy_wells xo yo new2 (v # vs) m = do {
     m \<leftarrow> copy_well xo yo new2 v m;
     copy_wells xo yo new2 vs m }"

definition ram_map_flash1_value_init ::
  "env \<Rightarrow> nat \<Rightarrow> nat \<Rightarrow> bool \<Rightarrow> bool \<Rightarrow> string \<Rightarrow> bool \<Rightarrow> map_t \<Rightarrow> (int \<times> map_t) option" where
  "ram_map_flash1_value_init e xo yo new1 new2 path is_flash1 m =
     (case fopen_text e path of
        None \<Rightarrow> Some (-1, m)
      | Some text \<Rightarrow> do {
          (rc, m) \<leftarrow> put_lines xo yo new1 new2 (words text) m;
          if rc = -1 then Some (-1, m)
          else if \<not> is_flash1 then Some (0, m)
          else do { m \<leftarrow> copy_wells xo yo new2 [1..<MAX_WELL_NUM] m; Some (0, m) } })"

section \<open>The tables of the wells\<close>

fun find_path :: "u16 \<Rightarrow> string list \<Rightarrow> string \<Rightarrow> (int \<times> string) option" where
  "find_path type [] path = Some (-1, path)"
| "find_path type (w # ws) path =
     (if length w \<ge> 512 then None
      else case scan_map0 w of
        None \<Rightarrow> Some (-1, path)
      | Some (well_type, p) \<Rightarrow> if type = well_type then Some (0, p) else find_path type ws path)"

definition get_map_00_path :: "env \<Rightarrow> u16 \<Rightarrow> string \<Rightarrow> (int \<times> string) option" where
  "get_map_00_path e type path =
     (case fopen_text e PATH_MAP0 of
        None \<Rightarrow> Some (-1, path)
      | Some text \<Rightarrow> find_path type (words text) path)"

text \<open>
  Well by well: the type stored in the first register of the well's flash area selects the
  table; an unknown type is replaced by 1 and the default table.
\<close>

fun init_wells :: "env \<Rightarrow> bool \<Rightarrow> string \<Rightarrow> nat list \<Rightarrow> map_t \<Rightarrow> (int \<times> map_t) option" where
  "init_wells e new2 path [] m = Some (0, m)"
| "init_wells e new2 path (v # vs) m = do {
     well_type \<leftarrow> rd (x_size m) (flash2 m) (v * x_max m);
     (rc, path) \<leftarrow> get_map_00_path e well_type path;
     f2 \<leftarrow> (if rc = -1 then wr (x_size m) (flash2 m) (v * x_max m) 1 else Some (flash2 m));
     let path = (if rc = -1 then PATH_MAP_001 else path);
     (rc, m) \<leftarrow> ram_map_flash1_value_init e (v * x_max m) (v * MAX_REGISTER_NUM) False new2 path False
                 (m\<lparr>flash2 := f2\<rparr>);
     if rc = -1 then Some (-1, m) else init_wells e new2 path vs m }"

definition ram_map_flash2_value_init :: "env \<Rightarrow> bool \<Rightarrow> map_t \<Rightarrow> (int \<times> map_t) option" where
  "ram_map_flash2_value_init e new2 m = init_wells e new2 PATH_MAP_001 [0..<MAX_WELL_NUM] m"

text \<open>
  Remapping one well. The bound check compares with \<open>> MAX_WELL_NUM\<close>, so index 8 (well 9)
  passes it.
\<close>

definition map_item_remap :: "env \<Rightarrow> u16 \<Rightarrow> u16 \<Rightarrow> rtu \<Rightarrow> (int \<times> rtu) option" where
  "map_item_remap e well_num well_type s =
     (let well_index = int (unat well_num) - 1; v = nat well_index; m = mp s in
      if well_index < 0 \<or> well_index > int MAX_WELL_NUM then Some (-1, s)
      else do {
        (rc, path) \<leftarrow> get_map_00_path e well_type PATH_MAP_001;
        if rc = -1 then Some (-1, s)
        else do {
          f2 \<leftarrow> wr (x_size m) (flash2 m) (v * x_max m) well_type;
          (rc, m) \<leftarrow> ram_map_flash1_value_init e (v * x_max m) (v * MAX_REGISTER_NUM) False True path False
                      (m\<lparr>flash2 := f2\<rparr>);
          let s = s\<lparr>mp := m\<rparr>;
          if rc = -1 then Some (-1, s)
          else (case msync2 e s of (ok, s) \<Rightarrow> Some (if ok then 0 else -1, s)) } })"

section \<open>Start-up\<close>

definition map_init :: "env \<Rightarrow> rtu \<Rightarrow> (int \<times> rtu) option" where
  "map_init e s = do {
     (rc, xm) \<leftarrow> get_x_y_z_max_len e 0;
     if rc = -1 then Some (-1, s)
     else case ram_flash_create e (unat xm) of
       None \<Rightarrow> Some (-1, s)
     | Some m \<Rightarrow> do {
         (rc, m) \<leftarrow> ram_map_flash1_value_init e 0 0 (flash1_is_new m) (flash2_is_new m) PATH_MAP1 True m;
         if rc = -1 then Some (-1, s)
         else do {
           (rc, m) \<leftarrow> ram_map_flash2_value_init e (flash2_is_new m) m;
           if rc = -1 then Some (-1, s)
           else (let (ok1, t) = msync1 e (s\<lparr>mp := m\<rparr>) in
             if \<not> ok1 then Some (-1, t\<lparr>mp := mp s\<rparr>)
             else (let (ok2, t) = msync2 e t in
               if \<not> ok2 then Some (-1, t\<lparr>mp := mp s\<rparr>) else Some (0, t))) } } }"

end
