(* ===== verification/Gpio.thy ===== *)
theory Gpio
  imports Device "HOL-Library.Multiset"
begin

text \<open>
  \<^verbatim>\<open>gpio/leds.c\<close> and \<^verbatim>\<open>gpio/leds.h\<close> for hardware version 2: pin numbers,
  reading a digital input, driving a digital output (outputs 0 and 1 are latching relays
  driven by a pulse on one of two coils), and the LED sequences.
\<close>

section \<open>Pins and register addresses\<close>

definition GPIO_TO_PIN :: "nat \<Rightarrow> nat \<Rightarrow> nat" where "GPIO_TO_PIN bank gpio = 32 * bank + gpio"

definition MAP_GET_DI0 :: nat where "MAP_GET_DI0 = 1854"
definition MAP_GET_DO0 :: nat where "MAP_GET_DO0 = 1862"

definition IO_HIGH :: u8 where "IO_HIGH = 1"
definition IO_LOW :: u8 where "IO_LOW = 0"
definition LED_ON :: u8 where "LED_ON = IO_LOW"
definition LED_OFF :: u8 where "LED_OFF = IO_HIGH"
definition BUTTON_DOWN :: u8 where "BUTTON_DOWN = 1"
definition BUTTON_UP :: u8 where "BUTTON_UP = 0"

definition LED_RUN :: nat where "LED_RUN = GPIO_TO_PIN 2 1"
definition LED_F3 :: nat where "LED_F3 = GPIO_TO_PIN 1 30"
definition LED_LINK :: nat where "LED_LINK = GPIO_TO_PIN 2 0"
definition LED_F2 :: nat where "LED_F2 = GPIO_TO_PIN 3 2"
definition LED_SEN :: nat where "LED_SEN = GPIO_TO_PIN 3 1"
definition LED_F1 :: nat where "LED_F1 = GPIO_TO_PIN 3 0"
definition XBEE_PWR :: nat where "XBEE_PWR = GPIO_TO_PIN 1 9"
definition XBEE_RET :: nat where "XBEE_RET = GPIO_TO_PIN 1 8"

definition DO0_A :: nat where "DO0_A = GPIO_TO_PIN 0 4"
definition DO0_B :: nat where "DO0_B = GPIO_TO_PIN 3 16"
definition DO1_A :: nat where "DO1_A = GPIO_TO_PIN 3 20"
definition DO1_B :: nat where "DO1_B = GPIO_TO_PIN 3 21"

lemmas pins = GPIO_TO_PIN_def LED_RUN_def LED_F3_def LED_LINK_def LED_F2_def LED_SEN_def LED_F1_def
  XBEE_PWR_def XBEE_RET_def DO0_A_def DO0_B_def DO1_A_def DO1_B_def
lemmas levels = IO_HIGH_def IO_LOW_def LED_ON_def LED_OFF_def

text \<open>The pin of a directly driven register; none for the other addresses.\<close>

definition do_pin :: "nat \<Rightarrow> nat option" where
  "do_pin addr =
     (if addr = MAP_GET_DO0 + 2 then Some (GPIO_TO_PIN 3 15)
      else if addr = MAP_GET_DO0 + 3 then Some (GPIO_TO_PIN 3 14)
      else if addr = MAP_GET_DO0 + 4 then Some (GPIO_TO_PIN 3 17)
      else if addr = MAP_GET_DO0 + 5 then Some (GPIO_TO_PIN 3 19)
      else if addr = MAP_GET_DO0 + 6 then Some (GPIO_TO_PIN 0 29)
      else if addr = MAP_GET_DO0 + 7 then Some (GPIO_TO_PIN 0 20)
      else None)"

definition di_pin :: "nat \<Rightarrow> nat option" where
  "di_pin addr =
     (if addr = MAP_GET_DI0 then Some (GPIO_TO_PIN 0 22)
      else if addr = MAP_GET_DI0 + 1 then Some (GPIO_TO_PIN 0 23)
      else if addr = MAP_GET_DI0 + 2 then Some (GPIO_TO_PIN 0 26)
      else if addr = MAP_GET_DI0 + 3 then Some (GPIO_TO_PIN 0 27)
      else if addr = MAP_GET_DI0 + 4 then Some (GPIO_TO_PIN 1 12)
      else if addr = MAP_GET_DI0 + 5 then Some (GPIO_TO_PIN 1 13)
      else if addr = MAP_GET_DI0 + 6 then Some (GPIO_TO_PIN 1 14)
      else if addr = MAP_GET_DI0 + 7 then Some (GPIO_TO_PIN 1 15)
      else None)"

section \<open>Register interface\<close>

text \<open>
  \<^verbatim>\<open>ioctl\<close> with a pin number that was never assigned is \<^const>\<open>None\<close>. The new
  content of \<open>*v\<close> is returned; it is unchanged when the device is not open.
\<close>

definition gpio_get_do :: "env \<Rightarrow> rtu \<Rightarrow> nat \<Rightarrow> u16 \<Rightarrow> (int \<times> u16) option" where
  "gpio_get_do e s addr v =
     (if io_fd s < 0 then Some (-1, v)
      else case (if di_pin addr = None then do_pin addr else di_pin addr) of
        None \<Rightarrow> None
      | Some pin \<Rightarrow> Some (0, ucast (pin_level e pin)))"

definition ioctl_set :: "nat \<Rightarrow> u8 \<Rightarrow> rtu \<Rightarrow> rtu" where
  "ioctl_set pin level = emit (IoctlSet pin level)"

text \<open>The pulse on the coils \<open>a\<close> (off) and \<open>b\<close> (on) of a latching output.\<close>

definition do_pulse :: "nat \<Rightarrow> nat \<Rightarrow> u16 \<Rightarrow> rtu \<Rightarrow> rtu" where
  "do_pulse a b v s =
     (let (la, lb) = (if v \<noteq> 1 then (IO_HIGH, IO_LOW) else (IO_LOW, IO_HIGH));
          s = ioctl_set a la s;
          s = ioctl_set b lb s;
          s = ioctl_set a IO_LOW s
      in ioctl_set b IO_LOW s)"

definition gpio_set_do :: "rtu \<Rightarrow> nat \<Rightarrow> u16 \<Rightarrow> (int \<times> rtu) option" where
  "gpio_set_do s addr v =
     (if io_fd s < 0 then Some (-1, s)
      else if addr = MAP_GET_DO0 then Some (0, do_pulse DO0_A DO0_B v s)
      else if addr = MAP_GET_DO0 + 1 then Some (0, do_pulse DO1_A DO1_B v s)
      else case do_pin addr of
        None \<Rightarrow> None
      | Some pin \<Rightarrow> Some (0, ioctl_set pin (ucast v) s))"

section \<open>Plain pins and LED sequences\<close>

definition gpio_set :: "nat \<Rightarrow> u8 \<Rightarrow> rtu \<Rightarrow> rtu" where
  "gpio_set num status s = (if io_fd s < 0 then s else ioctl_set num status s)"

definition gpio_get :: "env \<Rightarrow> rtu \<Rightarrow> nat \<Rightarrow> u16 \<Rightarrow> u16" where
  "gpio_get e s num status = (if io_fd s < 0 then status else ucast (pin_level e num))"

fun gpio_sets :: "(nat \<times> u8) list \<Rightarrow> rtu \<Rightarrow> rtu" where
  "gpio_sets [] s = s"
| "gpio_sets ((pin, level) # ps) s = gpio_sets ps (gpio_set pin level s)"

definition gpio_restart_action :: "rtu \<Rightarrow> rtu" where
  "gpio_restart_action s =
     (let flash = [(LED_SEN, LED_OFF), (LED_LINK, LED_OFF), (LED_RUN, LED_OFF),
                   (LED_F3, LED_ON), (LED_F2, LED_ON), (LED_F1, LED_ON),
                   (LED_SEN, LED_ON), (LED_LINK, LED_ON), (LED_RUN, LED_ON),
                   (LED_F3, LED_OFF), (LED_F2, LED_OFF), (LED_F1, LED_OFF)]
      in gpio_sets (flash @ flash @ flash @ [(LED_SEN, LED_OFF), (LED_LINK, LED_OFF), (LED_RUN, LED_OFF)]) s)"

definition zigbee_restart :: "rtu \<Rightarrow> rtu" where
  "zigbee_restart s = gpio_set XBEE_PWR IO_LOW (gpio_set XBEE_PWR IO_HIGH s)"

definition zigbee_init :: "rtu \<Rightarrow> rtu" where
  "zigbee_init s = gpio_set XBEE_RET IO_HIGH s"

section \<open>Levels that the events leave on a pin\<close>

text \<open>The level last driven on a pin, if any.\<close>

fun driven :: "event list \<Rightarrow> nat \<Rightarrow> u8 option" where
  "driven [] pin = None"
| "driven (ev # evs) pin =
     (case driven evs pin of
        Some l \<Rightarrow> Some l
      | None \<Rightarrow> (case ev of IoctlSet p l \<Rightarrow> if p = pin then Some l else None | _ \<Rightarrow> None))"

lemma driven_append:
  "driven (xs @ ys) pin = (case driven ys pin of Some l \<Rightarrow> Some l | None \<Rightarrow> driven xs pin)"
  by (induction xs) (auto split: option.splits)

lemma ioctl_set_frame [frame_simps]:
  "mp (ioctl_set p l s) = mp s" "disk1 (ioctl_set p l s) = disk1 s"
  "disk2 (ioctl_set p l s) = disk2 s" "syncs (ioctl_set p l s) = syncs s"
  "io_fd (ioctl_set p l s) = io_fd s" "out (ioctl_set p l s) = out s @ [IoctlSet p l]"
  by (simp_all add: ioctl_set_def frame_simps)

lemma gpio_set_frame [frame_simps]:
  "mp (gpio_set p l s) = mp s" "disk1 (gpio_set p l s) = disk1 s"
  "disk2 (gpio_set p l s) = disk2 s" "syncs (gpio_set p l s) = syncs s"
  "io_fd (gpio_set p l s) = io_fd s"
  by (simp_all add: gpio_set_def frame_simps)

lemma do_pulse_frame [frame_simps]:
  "mp (do_pulse a b v s) = mp s" "disk1 (do_pulse a b v s) = disk1 s"
  "disk2 (do_pulse a b v s) = disk2 s" "syncs (do_pulse a b v s) = syncs s"
  "io_fd (do_pulse a b v s) = io_fd s"
  by (simp_all add: do_pulse_def frame_simps)

lemma out_do_pulse:
  "out (do_pulse a b v s) = out s @
     [IoctlSet a (if v \<noteq> 1 then 1 else 0), IoctlSet b (if v \<noteq> 1 then 0 else 1),
      IoctlSet a 0, IoctlSet b 0]"
  by (simp add: do_pulse_def frame_simps levels)

lemma gpio_set_do_frame:
  "gpio_set_do s addr v = Some (rc, t) \<Longrightarrow>
     mp t = mp s \<and> disk1 t = disk1 s \<and> disk2 t = disk2 s \<and> syncs t = syncs s \<and> io_fd t = io_fd s"
  by (auto simp: gpio_set_do_def frame_simps split: if_splits option.splits)

lemma gpio_set_do_total:
  "MAP_GET_DO0 \<le> addr \<Longrightarrow> addr \<le> MAP_GET_DO0 + 7 \<Longrightarrow> \<exists>rc t. gpio_set_do s addr v = Some (rc, t)"
  by (simp add: gpio_set_do_def do_pin_def)

lemma gpio_get_do_total:
  "MAP_GET_DI0 \<le> addr \<Longrightarrow> addr \<le> MAP_GET_DI0 + 7 \<Longrightarrow> \<exists>rc x. gpio_get_do e s addr v = Some (rc, x)"
  by (simp add: gpio_get_do_def di_pin_def)

text \<open>The two coils of a latching output.\<close>

definition do_coils :: "nat \<Rightarrow> nat \<times> nat" where
  "do_coils addr = (if addr = MAP_GET_DO0 then (DO0_A, DO0_B) else (DO1_A, DO1_B))"

text \<open>
  Driving a digital output, with the device open. Outputs 2 to 7 set their pin to the low byte
  of the value. Outputs 0 and 1 pulse exactly one coil, the \<open>b\<close> coil for the value 1 and the
  \<open>a\<close> coil for any other value, and leave both coils low.
\<close>

theorem gpio_set_do_levels:
  assumes "0 \<le> io_fd s" "MAP_GET_DO0 \<le> addr" "addr \<le> MAP_GET_DO0 + 7"
  shows "\<exists>t. gpio_set_do s addr v = Some (0, t) \<and>
    (case do_pin addr of
       Some pin \<Rightarrow> out t = out s @ [IoctlSet pin (ucast v)]
     | None \<Rightarrow> (let (a, b) = do_coils addr; on = (if v = 1 then b else a); off = (if v = 1 then a else b) in
         mset (drop (length (out s)) (out t)) =
           {#IoctlSet on 1, IoctlSet off 0, IoctlSet a 0, IoctlSet b 0#} \<and>
         driven (out t) a = Some 0 \<and> driven (out t) b = Some 0))"
proof -
  consider "addr = MAP_GET_DO0" | "addr = MAP_GET_DO0 + 1" | "MAP_GET_DO0 + 2 \<le> addr"
    using assms(2) by linarith
  then show ?thesis
  proof cases
    case 1
    then show ?thesis
      using assms(1) by (simp add: gpio_set_do_def do_pin_def do_coils_def out_do_pulse driven_append)
  next
    case 2
    then show ?thesis
      using assms(1) by (simp add: gpio_set_do_def do_pin_def do_coils_def out_do_pulse driven_append)
  next
    case 3
    then have "do_pin addr \<noteq> None"
      using assms(3) by (simp add: do_pin_def)
    then show ?thesis
      using 3 assms(1) by (auto simp: gpio_set_do_def frame_simps)
  qed
qed

theorem gpio_set_do_levels_witness:
  "\<exists>t. gpio_set_do rtu_demo MAP_GET_DO0 1 = Some (0, t) \<and> driven (out t) DO0_B = Some 0"
proof -
  have "0 \<le> io_fd rtu_demo" by (simp add: rtu_demo_def)
  then show ?thesis
    using gpio_set_do_levels [of rtu_demo MAP_GET_DO0 1]
    by (auto simp: do_pin_def do_coils_def Let_def)
qed

end
