(* ===== verification/Registers.thy ===== *)
theory Registers
  imports Map_Table Gpio
begin

text \<open>
  The second half of \<^verbatim>\<open>data/map.c\<close>: the registers implemented by functions (clock,
  battery, digital inputs and outputs, reset, well type) and the five entry points that the
  rest of the program uses: \<^verbatim>\<open>zigbee_read_registers\<close>,
  \<^verbatim>\<open>zigbee_read_registers_big_l\<close>, \<^verbatim>\<open>zigbee_write_registers\<close>,
  \<^verbatim>\<open>zigbee_write_registers_mset\<close> and the Modbus side
  \<^verbatim>\<open>map_modbus_read_registers\<close>, \<^verbatim>\<open>map_modbus_write_registers\<close>,
  \<^verbatim>\<open>map_modbus_write_data_registers\<close>.
\<close>

section \<open>Addresses of the function registers\<close>

definition MAP_CHANGE_WELL_TYPE :: nat where "MAP_CHANGE_WELL_TYPE = 0"
definition MAP_GET_RTU_VER :: nat where "MAP_GET_RTU_VER = 2"
definition MAP_GET_TIME_HOUR :: nat where "MAP_GET_TIME_HOUR = 4"
definition MAP_GET_TIME_MIN :: nat where "MAP_GET_TIME_MIN = 5"
definition MAP_GET_TIME_SEC :: nat where "MAP_GET_TIME_SEC = 6"
definition MAP_GET_TIME_YEAR :: nat where "MAP_GET_TIME_YEAR = 7"
definition MAP_GET_TIME_MON :: nat where "MAP_GET_TIME_MON = 8"
definition MAP_GET_TIME_DAY :: nat where "MAP_GET_TIME_DAY = 9"
definition MAP_GET_BATTERY_VOLTAGE :: nat where "MAP_GET_BATTERY_VOLTAGE = 10"
definition MAP_CONFIG1 :: nat where "MAP_CONFIG1 = 16"
definition MAP_GET_MAC0 :: nat where "MAP_GET_MAC0 = 50"
definition MAP_CONFIG2_ELEC_INTERV :: nat where "MAP_CONFIG2_ELEC_INTERV = 1796"
definition MAP_CONFIG2_ACT_INTERV :: nat where "MAP_CONFIG2_ACT_INTERV = 1870"
definition MAP_GET_HISTORY :: nat where "MAP_GET_HISTORY = 1901"
definition RTU_VERSION :: u16 where "RTU_VERSION = 1"
definition DI_SWITCH_ON :: u16 where "DI_SWITCH_ON = 1"

lemmas reg_addrs = MAP_CHANGE_WELL_TYPE_def MAP_GET_RTU_VER_def MAP_GET_TIME_HOUR_def
  MAP_GET_TIME_MIN_def MAP_GET_TIME_SEC_def MAP_GET_TIME_YEAR_def MAP_GET_TIME_MON_def
  MAP_GET_TIME_DAY_def MAP_GET_BATTERY_VOLTAGE_def MAP_CONFIG1_def MAP_GET_MAC0_def
  MAP_CONFIG2_ELEC_INTERV_def MAP_CONFIG2_ACT_INTERV_def MAP_GET_HISTORY_def
  MAP_GET_DI0_def MAP_GET_DO0_def

definition time_addr :: "nat \<Rightarrow> bool" where
  "time_addr addr \<longleftrightarrow> MAP_GET_TIME_HOUR \<le> addr \<and> addr \<le> MAP_GET_TIME_DAY"

definition di_addr :: "nat \<Rightarrow> bool" where
  "di_addr addr \<longleftrightarrow> MAP_GET_DI0 \<le> addr \<and> addr < MAP_GET_DI0 + 8"

definition do_addr :: "nat \<Rightarrow> bool" where
  "do_addr addr \<longleftrightarrow> MAP_GET_DO0 \<le> addr \<and> addr < MAP_GET_DO0 + 8"

section \<open>Functions behind registers\<close>

definition map_gettime :: "env \<Rightarrow> nat \<Rightarrow> u16 \<Rightarrow> u16" where
  "map_gettime e addr v =
     (let st_time = localtime e (time_now e) in
      if addr = MAP_GET_TIME_HOUR then int16_to_bcd (word_of_int (tm_hour st_time))
      else if addr = MAP_GET_TIME_MIN then int16_to_bcd (word_of_int (tm_min st_time))
      else if addr = MAP_GET_TIME_SEC then int16_to_bcd (word_of_int (tm_sec st_time))
      else if addr = MAP_GET_TIME_YEAR then int16_to_bcd (word_of_int (tm_year st_time + 1900))
      else if addr = MAP_GET_TIME_MON then int16_to_bcd (word_of_int (tm_mon st_time + 1))
      else if addr = MAP_GET_TIME_DAY then int16_to_bcd (word_of_int (tm_mday st_time))
      else v)"

definition map_settime :: "env \<Rightarrow> nat \<Rightarrow> u16 \<Rightarrow> rtu \<Rightarrow> rtu" where
  "map_settime e addr v s =
     (let t = localtime e (time_now e);
          n = int (unat (bcd_to_int16 v));
          t = (if addr = MAP_GET_TIME_HOUR then t\<lparr>tm_hour := n\<rparr>
               else if addr = MAP_GET_TIME_MIN then t\<lparr>tm_min := n\<rparr>
               else if addr = MAP_GET_TIME_SEC then t\<lparr>tm_sec := n\<rparr>
               else if addr = MAP_GET_TIME_YEAR then t\<lparr>tm_year := n - 1900\<rparr>
               else if addr = MAP_GET_TIME_MON then t\<lparr>tm_mon := n - 1\<rparr>
               else if addr = MAP_GET_TIME_DAY then t\<lparr>tm_mday := n\<rparr>
               else t);
          s = emit (SetTime (mktime e t)) s
      in s\<lparr>time_set_status := time_set_status s + 1\<rparr>)"

text \<open>The new value of \<open>*v\<close> is returned with the state.\<close>

definition rtu_reset_flash1 :: "u16 \<Rightarrow> rtu \<Rightarrow> u16 \<times> rtu" where
  "rtu_reset_flash1 v s =
     (if v = 1 then
        (let s = send_int Q_zigbee MSG_CONFIG_START s;
             s = send_int Q_tcp_server MSG_CONFIG_START s;
             s = send_int Q_udp_server MSG_CONFIG_START s;
             s = send_int Q_rtu_server MSG_CONFIG_START s;
             s = send_int Q_tcp_client MSG_CONFIG_START s;
             s = send_int Q_rtu_client MSG_CONFIG_START s
         in (0, s\<lparr>flash1_reset_status := flash1_reset_status s + 1\<rparr>))
      else (v, s))"

definition rtu_conf_elect_interval :: "rtu \<Rightarrow> rtu" where
  "rtu_conf_elect_interval s = send_int Q_rtu_client MSG_CONFIG2_START s"

definition rtu_conf_act_interval :: "rtu \<Rightarrow> rtu" where
  "rtu_conf_act_interval s = send_int Q_rtu_client MSG_CONFIG2_START s"

definition set_history_data :: "nat \<Rightarrow> rtu \<Rightarrow> rtu" where
  "set_history_data well_num s = emit (MsgSend Q_data [MSG_REQUEST_H_DATA, 0, of_nat well_num, 0]) s"

text \<open>The last character read (a newline) is cut off before the number is scanned.\<close>

definition get_battery_voltage :: "env \<Rightarrow> rtu \<Rightarrow> u16 \<Rightarrow> int \<times> u16" where
  "get_battery_voltage e s v =
     (if adc_fd s = -1 then (-1, v)
      else case adc_text e of
        None \<Rightarrow> (-1, v)
      | Some text \<Rightarrow>
          if text = [] then (-1, v)
          else case scan_hd (butlast (take 63 text)) of
            None \<Rightarrow> (-1, -1)
          | Some (x, _) \<Rightarrow> (0, battery_fp e x))"

definition map_map_fun_read :: "env \<Rightarrow> rtu \<Rightarrow> u16 \<Rightarrow> nat \<Rightarrow> nat \<Rightarrow> (int \<times> u16) option" where
  "map_map_fun_read e s buf well_num addr =
     (let m = mp s; off2 = (well_num - 1) * x_max m in
      if addr = MAP_CHANGE_WELL_TYPE then do { v \<leftarrow> rd (x_size m) (flash2 m) (off2 + addr); Some (0, v) }
      else if addr = MAP_GET_RTU_VER then Some (0, RTU_VERSION)
      else if time_addr addr then Some (0, map_gettime e addr buf)
      else if addr = MAP_GET_BATTERY_VOLTAGE then Some (0, snd (get_battery_voltage e s buf))
      else if addr = MAP_CONFIG1 then Some (0, 0)
      else if MAP_GET_MAC0 \<le> addr \<and> addr \<le> MAP_GET_MAC0 + 5 then Some (0, mac_addr s (addr - MAP_GET_MAC0))
      else if addr = MAP_CONFIG2_ELEC_INTERV \<or> addr = MAP_CONFIG2_ACT_INTERV then
        do { v \<leftarrow> rd (x_size m) (flash2 m) (off2 + addr); Some (0, v) }
      else if di_addr addr then
        do { (_, v) \<leftarrow> gpio_get_do e s addr buf; Some (0, (v AND 1) XOR DI_SWITCH_ON) }
      else if do_addr addr then do { v \<leftarrow> rd (x_size m) (flash2 m) addr; Some (0, v) }
      else Some (-1, buf))"

text \<open>
  Storing a value that is kept in flash2 at \<open>f\<close> and in this well's ram: the
  \<^verbatim>\<open>msync\<close> result is only logged.
\<close>

definition store_sys :: "env \<Rightarrow> nat \<Rightarrow> nat \<Rightarrow> u16 \<Rightarrow> rtu \<Rightarrow> rtu option" where
  "store_sys e f r v s = do {
     f2 \<leftarrow> wr (x_size (mp s)) (flash2 (mp s)) f v;
     rx \<leftarrow> wr (x_size (mp s)) (ram_x (mp s)) r v;
     Some (snd (msync2 e (s\<lparr>mp := (mp s)\<lparr>flash2 := f2, ram_x := rx\<rparr>\<rparr>))) }"

text \<open>
  The result code, the new content of \<open>*buf\<close> (only the reset register changes it) and the
  state.
\<close>

definition map_map_fun_write :: "env \<Rightarrow> u16 \<Rightarrow> nat \<Rightarrow> nat \<Rightarrow> rtu \<Rightarrow> (int \<times> u16 \<times> rtu) option" where
  "map_map_fun_write e buf well_num addr s =
     (let off = (well_num - 1) * x_max (mp s) in
      if addr = MAP_CHANGE_WELL_TYPE then
        do { (_, s) \<leftarrow> map_item_remap e (of_nat well_num) buf s; Some (0, buf, s) }
      else if time_addr addr then Some (0, buf, map_settime e addr buf s)
      else if addr = MAP_CONFIG1 then (let (v, s) = rtu_reset_flash1 buf s in Some (0, v, s))
      else if addr = MAP_CONFIG2_ELEC_INTERV then
        do { s \<leftarrow> store_sys e (off + addr) (off + addr) buf (rtu_conf_elect_interval s); Some (0, buf, s) }
      else if addr = MAP_CONFIG2_ACT_INTERV then
        do { s \<leftarrow> store_sys e (off + addr) (off + addr) buf (rtu_conf_act_interval s); Some (0, buf, s) }
      else if do_addr addr then
        do { (_, s) \<leftarrow> gpio_set_do s addr buf;
             s \<leftarrow> store_sys e addr (off + addr) buf s; Some (0, buf, s) }
      else if addr = MAP_GET_HISTORY then
        do { rx \<leftarrow> wr (x_size (mp s)) (ram_x (mp s)) (off + addr) buf;
             Some (0, buf, set_history_data well_num (s\<lparr>mp := (mp s)\<lparr>ram_x := rx\<rparr>\<rparr>)) }
      else Some (-1, buf, s))"

definition reset_flash1_to_default :: "env \<Rightarrow> rtu \<Rightarrow> (int \<times> rtu) option" where
  "reset_flash1_to_default e s = do {
     (rc, m) \<leftarrow> ram_map_flash1_value_init e 0 0 True False PATH_MAP1 False (mp s);
     let s = s\<lparr>mp := m\<rparr>;
     if rc = -1 then Some (-1, s)
     else (let (v, s) = rtu_reset_flash1 1 s; (ok, s) = msync1 e s in Some (if ok then 0 else -1, s)) }"

section \<open>Register access of the program\<close>

definition args_ok :: "nat \<Rightarrow> int \<Rightarrow> int \<Rightarrow> int \<Rightarrow> bool" where
  "args_ok limit len well_num addr \<longleftrightarrow>
     \<not> (well_num > int MAX_WELL_NUM \<or> well_num < 1 \<or> addr < 0 \<or> len < 1) \<and> \<not> addr + len > int limit"

text \<open>One round of the read loops: the value stored in \<open>*buf\<close>, whose content before is \<open>b\<close>.\<close>

definition read_cell :: "env \<Rightarrow> rtu \<Rightarrow> nat \<Rightarrow> nat \<Rightarrow> u16 \<Rightarrow> u16 option" where
  "read_cell e s well_num i b =
     (let m = mp s; off = x_max m * (well_num - 1) in
      do { kind \<leftarrow> rd (x_size m) (ram_x_map_type m) (off + i);
           case kind of
             MAP_NULL \<Rightarrow> rd (x_size m) (ram_x m) (off + i)
           | MAP_RAM \<Rightarrow> rd (x_size m) (ram_x m) (off + i)
           | MAP_FLASH1 \<Rightarrow> rd FLASH1_MAX_LEN (flash1 m) i
           | MAP_FLASH2 \<Rightarrow> rd (x_size m) (flash2 m) (off + i)
           | MAP_SYS \<Rightarrow> do { (rc, v) \<leftarrow> map_map_fun_read e s b well_num i;
                             if rc = -1 then rd (x_size m) (ram_x m) (off + i) else Some v }
           | _ \<Rightarrow> Some b })"

text \<open>\<open>n\<close> rounds from register \<open>i\<close>; running past the end of the buffer is \<^const>\<open>None\<close>.\<close>

fun read_loop :: "env \<Rightarrow> rtu \<Rightarrow> nat \<Rightarrow> nat \<Rightarrow> nat \<Rightarrow> u16 list \<Rightarrow> u16 list option" where
  "read_loop e s well_num i 0 buf = Some buf"
| "read_loop e s well_num i (Suc n) [] = None"
| "read_loop e s well_num i (Suc n) (b # bs) = do {
     v \<leftarrow> read_cell e s well_num i b;
     vs \<leftarrow> read_loop e s well_num (Suc i) n bs;
     Some (v # vs) }"

definition zigbee_read_registers ::
  "env \<Rightarrow> rtu \<Rightarrow> u16 list \<Rightarrow> int \<Rightarrow> int \<Rightarrow> int \<Rightarrow> (int \<times> u16 list) option" where
  "zigbee_read_registers e s buf len well_num addr =
     (if \<not> args_ok (x_max (mp s)) len well_num addr then Some (-1, buf)
      else do { vs \<leftarrow> read_loop e s (nat well_num) (nat addr) (nat len) buf; Some (0, vs) })"

definition to_big_l :: "bool \<Rightarrow> u16 \<Rightarrow> u16" where
  "to_big_l big_l rc =
     (if big_l then bytes_u16 (ucast (drop_bit 8 rc)) (ucast (rc AND 0xFF)) else rc)"

text \<open>Here the local \<open>rc\<close>, first \<open>-1\<close>, is what a function register may leave alone.\<close>

fun read_loop_big_l :: "env \<Rightarrow> rtu \<Rightarrow> bool \<Rightarrow> nat \<Rightarrow> nat \<Rightarrow> u16 \<Rightarrow> nat \<Rightarrow> u16 list \<Rightarrow> u16 list option" where
  "read_loop_big_l e s big_l well_num i rc 0 buf = Some buf"
| "read_loop_big_l e s big_l well_num i rc (Suc n) [] = None"
| "read_loop_big_l e s big_l well_num i rc (Suc n) (b # bs) = do {
     rc \<leftarrow> read_cell e s well_num i rc;
     vs \<leftarrow> read_loop_big_l e s big_l well_num (Suc i) rc n bs;
     Some (to_big_l big_l rc # vs) }"

definition zigbee_read_registers_big_l ::
  "env \<Rightarrow> rtu \<Rightarrow> u16 list \<Rightarrow> int \<Rightarrow> int \<Rightarrow> int \<Rightarrow> bool \<Rightarrow> (int \<times> u16 list) option" where
  "zigbee_read_registers_big_l e s buf len well_num addr big_l =
     (if \<not> args_ok (x_max (mp s)) len well_num addr then Some (-1, buf)
      else do { vs \<leftarrow> read_loop_big_l e s big_l (nat well_num) (nat addr) (-1) (nat len) buf;
                Some (0, vs) })"

text \<open>
  \<^verbatim>\<open>memset(ram_x + addr, v, len * 2)\<close>: every byte becomes the low byte of \<open>v\<close>.
\<close>

definition zigbee_write_registers_mset :: "u16 \<Rightarrow> int \<Rightarrow> int \<Rightarrow> int \<Rightarrow> rtu \<Rightarrow> int \<times> rtu" where
  "zigbee_write_registers_mset v len well_num addr s =
     (let m = mp s; off = x_max m * (nat well_num - 1) in
      if \<not> args_ok (x_max m) len well_num addr then (-1, s)
      else (0, s\<lparr>mp := m\<lparr>ram_x := put (ram_x m) (off + nat addr)
                  (replicate (nat len) (bytes_u16 (ucast v) (ucast v)))\<rparr>\<rparr>))"

text \<open>
  One round of the write loop: \<open>0\<close> and the state, or \<open>-1\<close> when a flash could not be
  synchronised. The value \<open>*buf\<close> after the round is returned too.
\<close>

definition write_cell :: "env \<Rightarrow> nat \<Rightarrow> nat \<Rightarrow> u16 \<Rightarrow> rtu \<Rightarrow> (int \<times> u16 \<times> rtu) option" where
  "write_cell e well_num i v s =
     (let m = mp s; off = x_max m * (well_num - 1) in
      do { kind \<leftarrow> rd (x_size m) (ram_x_map_type m) (off + i);
           case kind of
             MAP_NULL \<Rightarrow> do { rx \<leftarrow> wr (x_size m) (ram_x m) (off + i) v; Some (0, v, s\<lparr>mp := m\<lparr>ram_x := rx\<rparr>\<rparr>) }
           | MAP_RAM \<Rightarrow> do { rx \<leftarrow> wr (x_size m) (ram_x m) (off + i) v; Some (0, v, s\<lparr>mp := m\<lparr>ram_x := rx\<rparr>\<rparr>) }
           | MAP_FLASH1 \<Rightarrow>
               do { f1 \<leftarrow> wr FLASH1_MAX_LEN (flash1 m) i v;
                    case msync1 e (s\<lparr>mp := m\<lparr>flash1 := f1\<rparr>\<rparr>) of (ok, s) \<Rightarrow>
                      if \<not> ok then Some (-1, v, s)
                      else do { rx \<leftarrow> wr (x_size (mp s)) (ram_x (mp s)) (off + i) v;
                                Some (0, v, s\<lparr>mp := (mp s)\<lparr>ram_x := rx\<rparr>\<rparr>) } }
           | MAP_FLASH2 \<Rightarrow>
               do { f2 \<leftarrow> wr (x_size m) (flash2 m) (off + i) v;
                    case msync2 e (s\<lparr>mp := m\<lparr>flash2 := f2\<rparr>\<rparr>) of (ok, s) \<Rightarrow>
                      if \<not> ok then Some (-1, v, s)
                      else do { rx \<leftarrow> wr (x_size (mp s)) (ram_x (mp s)) (off + i) v;
                                Some (0, v, s\<lparr>mp := (mp s)\<lparr>ram_x := rx\<rparr>\<rparr>) } }
           | MAP_SYS \<Rightarrow>
               do { (_, v, s) \<leftarrow> map_map_fun_write e v well_num i s;
                    rx \<leftarrow> wr (x_size (mp s)) (ram_x (mp s)) (off + i) v;
                    Some (0, v, s\<lparr>mp := (mp s)\<lparr>ram_x := rx\<rparr>\<rparr>) }
           | _ \<Rightarrow> Some (0, v, s) })"

text \<open>The loop returns at the first failed synchronisation, the rest is not written.\<close>

fun write_loop :: "env \<Rightarrow> nat \<Rightarrow> nat \<Rightarrow> nat \<Rightarrow> u16 list \<Rightarrow> rtu \<Rightarrow> (int \<times> rtu) option" where
  "write_loop e well_num i 0 buf s = Some (0, s)"
| "write_loop e well_num i (Suc n) [] s = None"
| "write_loop e well_num i (Suc n) (b # bs) s = do {
     (rc, _, s) \<leftarrow> write_cell e well_num i b s;
     if rc = -1 then Some (-1, s) else write_loop e well_num (Suc i) n bs s }"

definition zigbee_write_registers ::
  "env \<Rightarrow> u16 list \<Rightarrow> int \<Rightarrow> int \<Rightarrow> int \<Rightarrow> rtu \<Rightarrow> (int \<times> rtu) option" where
  "zigbee_write_registers e buf len well_num addr s =
     (if \<not> args_ok (x_max (mp s)) len well_num addr then Some (-1, s)
      else write_loop e (nat well_num) (nat addr) (nat len) buf s)"

section \<open>Register access from Modbus\<close>

text \<open>
  The Modbus side addresses \<open>ram_y\<close>; an entry of kind \<^const>\<open>MAP_RAM\<close> names the internal
  register behind it.
\<close>

definition modbus_read_cell :: "env \<Rightarrow> rtu \<Rightarrow> nat \<Rightarrow> nat \<Rightarrow> u16 \<Rightarrow> u16 option" where
  "modbus_read_cell e s well_num i rc =
     (let m = mp s; off = MAX_REGISTER_NUM * (well_num - 1) in
      do { kind \<leftarrow> rd y_size (ram_y_map_type m) (off + i);
           y \<leftarrow> rd y_size (ram_y m) (off + i);
           case kind of
             MAP_NULL \<Rightarrow> Some y
           | MAP_RAM \<Rightarrow> do { (_, vs) \<leftarrow> zigbee_read_registers e s [rc] 1 (int well_num) (int (unat y));
                            Some (hd vs) }
           | _ \<Rightarrow> Some rc })"

fun modbus_read_loop :: "env \<Rightarrow> rtu \<Rightarrow> bool \<Rightarrow> nat \<Rightarrow> nat \<Rightarrow> u16 \<Rightarrow> nat \<Rightarrow> u16 list \<Rightarrow> u16 list option" where
  "modbus_read_loop e s big_l well_num i rc 0 buf = Some buf"
| "modbus_read_loop e s big_l well_num i rc (Suc n) [] = None"
| "modbus_read_loop e s big_l well_num i rc (Suc n) (b # bs) = do {
     rc \<leftarrow> modbus_read_cell e s well_num i rc;
     vs \<leftarrow> modbus_read_loop e s big_l well_num (Suc i) rc n bs;
     Some (to_big_l big_l rc # vs) }"

definition map_modbus_read_registers ::
  "env \<Rightarrow> rtu \<Rightarrow> u16 list \<Rightarrow> int \<Rightarrow> int \<Rightarrow> int \<Rightarrow> bool \<Rightarrow> (int \<times> u16 list) option" where
  "map_modbus_read_registers e s buf len well_num addr big_l =
     (if \<not> args_ok MAX_REGISTER_NUM len well_num addr then Some (-1, buf)
      else do { vs \<leftarrow> modbus_read_loop e s big_l (nat well_num) (nat addr) (-1) (nat len) buf;
                Some (0, vs) })"

definition from_big_l :: "bool \<Rightarrow> u16 \<Rightarrow> u16" where
  "from_big_l big_l b =
     (if big_l then push_bit 8 (ucast (ucast b :: u8)) + ucast (ucast (drop_bit 8 b) :: u8) else b)"

text \<open>
  One round of the Modbus write loop. The result tells whether the buffer pointer moves on: a
  register that is not writable takes the \<^verbatim>\<open>continue\<close> branch, which skips
  \<^verbatim>\<open>++buf\<close>.
\<close>

definition modbus_write_cell :: "env \<Rightarrow> nat \<Rightarrow> nat \<Rightarrow> u16 \<Rightarrow> rtu \<Rightarrow> (bool \<times> rtu) option" where
  "modbus_write_cell e well_num i rc s =
     (let m = mp s; off = MAX_REGISTER_NUM * (well_num - 1) in
      do { kind \<leftarrow> rd y_size (ram_y_map_type m) (off + i);
           case kind of
             MAP_NULL \<Rightarrow> do { ry \<leftarrow> wr y_size (ram_y m) (off + i) rc; Some (True, s\<lparr>mp := m\<lparr>ram_y := ry\<rparr>\<rparr>) }
           | MAP_RAM \<Rightarrow>
               do { y \<leftarrow> rd y_size (ram_y m) (off + i);
                    rw \<leftarrow> rd (x_size m) (ram_x_map_rw m) (x_max m * (well_num - 1) + unat y);
                    if MAP_RW \<noteq> rw then Some (False, s)
                    else do { (_, s) \<leftarrow> zigbee_write_registers e [rc] 1 (int well_num) (int (unat y)) s;
                              Some (True, s) } }
           | _ \<Rightarrow> Some (True, s) })"

fun modbus_write_loop :: "env \<Rightarrow> bool \<Rightarrow> nat \<Rightarrow> nat \<Rightarrow> nat \<Rightarrow> u16 list \<Rightarrow> rtu \<Rightarrow> (int \<times> rtu) option" where
  "modbus_write_loop e big_l well_num i 0 buf s = Some (0, s)"
| "modbus_write_loop e big_l well_num i (Suc n) [] s = None"
| "modbus_write_loop e big_l well_num i (Suc n) (b # bs) s = do {
     (move, s) \<leftarrow> modbus_write_cell e well_num i (from_big_l big_l b) s;
     modbus_write_loop e big_l well_num (Suc i) n (if move then bs else b # bs) s }"

definition map_modbus_write_registers ::
  "env \<Rightarrow> u16 list \<Rightarrow> int \<Rightarrow> int \<Rightarrow> int \<Rightarrow> bool \<Rightarrow> rtu \<Rightarrow> (int \<times> rtu) option" where
  "map_modbus_write_registers e buf len well_num addr big_l s =
     (if \<not> args_ok MAX_REGISTER_NUM len well_num addr then Some (-1, s)
      else modbus_write_loop e big_l (nat well_num) (nat addr) (nat len) buf s)"

text \<open>
  The history area: of \<open>len\<close> values the ones whose internal register is marked
  \<^const>\<open>MAP_RECORD\<close> are packed from \<open>addr\<close> on; \<open>k\<close> counts values, \<open>j\<close> stored ones.
\<close>

fun data_loop :: "bool \<Rightarrow> nat \<Rightarrow> nat \<Rightarrow> nat \<Rightarrow> nat \<Rightarrow> nat \<Rightarrow> u16 list \<Rightarrow> map_t \<Rightarrow> map_t option" where
  "data_loop big_l well_num addr k j 0 buf m = Some m"
| "data_loop big_l well_num addr k j (Suc n) [] m = None"
| "data_loop big_l well_num addr k j (Suc n) (b # bs) m = do {
     kind \<leftarrow> rd (x_size m) (ram_x_map_record m) (x_max m * (well_num - 1) + k);
     if kind = MAP_RECORD then do {
       ry \<leftarrow> wr y_size (ram_y m) (MAX_REGISTER_NUM * (well_num - 1) + j + addr) (from_big_l big_l b);
       data_loop big_l well_num addr (Suc k) (Suc j) n bs (m\<lparr>ram_y := ry\<rparr>) }
     else data_loop big_l well_num addr (Suc k) j n bs m }"

definition map_modbus_write_data_registers ::
  "u16 list \<Rightarrow> int \<Rightarrow> int \<Rightarrow> int \<Rightarrow> bool \<Rightarrow> rtu \<Rightarrow> (int \<times> rtu) option" where
  "map_modbus_write_data_registers buf len well_num addr big_l s =
     (if \<not> args_ok MAX_REGISTER_NUM len well_num addr then Some (-1, s)
      else do { m \<leftarrow> data_loop big_l (nat well_num) (nat addr) 0 0 (nat len) buf (mp s);
                Some (0, s\<lparr>mp := m\<rparr>) })"

section \<open>Start-up of the outputs\<close>

text \<open>\<^verbatim>\<open>gpio_do_init\<close> of \<^verbatim>\<open>gpio/leds.c\<close>, which uses the registers; \<open>buf\<close> is the uninitialised array.\<close>

definition gpio_do_init :: "env \<Rightarrow> u16 list \<Rightarrow> rtu \<Rightarrow> rtu option" where
  "gpio_do_init e buf s = do {
     (_, buf) \<leftarrow> zigbee_read_registers e s buf 8 1 (int MAP_GET_DO0);
     (_, s) \<leftarrow> zigbee_write_registers e (map (\<lambda>b. if b \<noteq> 1 then 0 else b) buf) 8 1 (int MAP_GET_DO0) s;
     Some s }"

end
