(* ===== verification/Map_Facts.thy ===== *)
theory Map_Facts
  imports Map_Table
begin

text \<open>
  Well-formedness of the register map, what a mapping table has to satisfy to fit it, and the
  facts about \<^verbatim>\<open>data/map.c\<close>'s table code: filling from a fitting table is safe and
  keeps the map well formed, start-up establishes it, remapping a well keeps it.
\<close>

section \<open>Well-formed maps\<close>

abbreviation kind_at :: "map_t \<Rightarrow> nat \<Rightarrow> nat \<Rightarrow> map_kind" where
  "kind_at m w i \<equiv> ram_x_map_type m (x_max m * (w - 1) + i)"

text \<open>
  The area has between 300 and 10000 registers per well; a register kept in flash1 lies in its
  first 300 entries; the external table holds only empty entries and entries that name an
  internal register.
\<close>

definition map_wf :: "map_t \<Rightarrow> bool" where
  "map_wf m \<longleftrightarrow>
     FLASH1_MAX_LEN \<le> x_max m \<and> x_max m \<le> MAX_REGISTER_NUM \<and>
     (\<forall>w<MAX_WELL_NUM. \<forall>i<x_max m.
        ram_x_map_type m (w * x_max m + i) \<in> {MAP_NULL, MAP_RAM, MAP_FLASH1, MAP_FLASH2, MAP_SYS} \<and>
        (ram_x_map_type m (w * x_max m + i) = MAP_FLASH1 \<longrightarrow> i < FLASH1_MAX_LEN)) \<and>
     (\<forall>k<y_size. ram_y_map_type m k \<in> {MAP_NULL, MAP_RAM} \<and>
        (ram_y_map_type m k = MAP_RAM \<longrightarrow> unat (ram_y m k) < x_max m))"

lemma map_wf_size: "map_wf m \<Longrightarrow> 300 \<le> x_max m \<and> x_max m \<le> 10000"
  by (simp add: map_wf_def map_sizes)

lemma map_wf_cell:
  assumes "map_wf m" "1 \<le> w" "w \<le> 8" "i < x_max m"
  shows "kind_at m w i \<in> {MAP_NULL, MAP_RAM, MAP_FLASH1, MAP_FLASH2, MAP_SYS}"
    and "kind_at m w i = MAP_FLASH1 \<Longrightarrow> i < 300"
proof -
  have "w - 1 < MAX_WELL_NUM" using assms(2,3) by (simp add: map_sizes)
  then have "ram_x_map_type m ((w - 1) * x_max m + i) \<in> {MAP_NULL, MAP_RAM, MAP_FLASH1, MAP_FLASH2, MAP_SYS} \<and>
      (ram_x_map_type m ((w - 1) * x_max m + i) = MAP_FLASH1 \<longrightarrow> i < FLASH1_MAX_LEN)"
    using assms(1,4) unfolding map_wf_def by blast
  then show "kind_at m w i \<in> {MAP_NULL, MAP_RAM, MAP_FLASH1, MAP_FLASH2, MAP_SYS}"
    and "kind_at m w i = MAP_FLASH1 \<Longrightarrow> i < 300"
    by (simp_all add: mult.commute map_sizes)
qed

lemma cell_bound:
  assumes "1 \<le> w" "w \<le> 8" "i < (n::nat)"
  shows "n * (w - 1) + i < 8 * n"
proof -
  have "n * (w - 1) \<le> n * 7" using assms by (intro mult_le_mono) auto
  then show ?thesis using assms(3) by linarith
qed

lemma cell_bound' [simp]:
  assumes "1 \<le> w" "w \<le> 8" "i < (n::nat)"
  shows "n * (w - Suc 0) + i < MAX_WELL_NUM * n" "(w - Suc 0) * n + i < MAX_WELL_NUM * n"
  using cell_bound [OF assms] by (simp_all add: map_sizes mult.commute)

lemma cell_eq_iff:
  assumes "i < n" "j < (n::nat)"
  shows "n * v + i = n * w + j \<longleftrightarrow> v = w \<and> i = j"
proof
  assume e: "n * v + i = n * w + j"
  have "(n * v + i) div n = v" "(n * w + j) div n = w"
    using assms by (simp_all add: div_mult_self3)
  with e have "v = w" by simp
  with e show "v = w \<and> i = j" by simp
qed auto

section \<open>Tables that fit\<close>

text \<open>
  A line fits an area of \<open>xm\<close> registers when the registers it names exist on both sides, and
  those it puts into flash1 (\<open>new1\<close>: the defaults of function registers too) lie below 300.
\<close>

definition fits :: "nat \<Rightarrow> bool \<Rightarrow> string \<Rightarrow> nat \<Rightarrow> nat \<Rightarrow> bool" where
  "fits xm new1 w x y \<longleftrightarrow>
     x < xm \<and> y < MAX_REGISTER_NUM \<and>
     (line_type w = MAP_FLASH1 \<or> (new1 \<and> line_type w = MAP_SYS) \<longrightarrow> x < FLASH1_MAX_LEN)"

definition line_fits :: "nat \<Rightarrow> bool \<Rightarrow> string \<Rightarrow> bool" where
  "line_fits xm new1 w \<longleftrightarrow>
     length w < 512 \<and>
     (case parse_line w of
        None \<Rightarrow> True
      | Some (Item x0 y0 _) \<Rightarrow> fits xm new1 w (unat x0) (unat y0)
      | Some (Items x0 x1 y0 y1 _) \<Rightarrow>
          unat y1 \<le> unat y0 \<or> unat x1 \<le> unat x0 \<or>
          fits xm new1 w (unat x1) (unat y0 + (unat x1 - unat x0)))"

definition table_fits :: "env \<Rightarrow> nat \<Rightarrow> bool \<Rightarrow> string \<Rightarrow> bool" where
  "table_fits e xm new1 path \<longleftrightarrow>
     (case fopen_text e path of None \<Rightarrow> True | Some text \<Rightarrow> \<forall>w\<in>set (words text). line_fits xm new1 w)"

text \<open>Every table that \<^verbatim>\<open>map0.csv\<close> names, and the default table, fit.\<close>

definition tables_fit :: "env \<Rightarrow> nat \<Rightarrow> bool" where
  "tables_fit e xm \<longleftrightarrow>
     table_fits e xm False PATH_MAP_001 \<and>
     (case fopen_text e PATH_MAP0 of
        None \<Rightarrow> True
      | Some text \<Rightarrow> \<forall>w\<in>set (words text). length w < 512 \<and>
          (case scan_map0 w of None \<Rightarrow> True | Some (_, path) \<Rightarrow> table_fits e xm False path))"

section \<open>Filling keeps the map well formed\<close>

lemma map_wf_upd:
  assumes "map_wf m" "v < 8" "x < x_max m"
    and "ty \<in> {MAP_NULL, MAP_FLASH1, MAP_FLASH2, MAP_SYS}" "ty = MAP_FLASH1 \<longrightarrow> x < 300"
    and "x_max m' = x_max m"
    and "ram_x_map_type m' = (ram_x_map_type m)(v * x_max m + x := ty)"
    and "ram_y m' = (ram_y m)(yy := of_nat x)" "ram_y_map_type m' = (ram_y_map_type m)(yy := MAP_RAM)"
  shows "map_wf m'"
proof -
  have "x < 65536" using assms(1,3) map_wf_size [of m] by simp
  then have "unat (of_nat x :: u16) = x" by (simp add: unat_of_nat take_bit_nat_eq_self)
  moreover have "\<And>w i. i < x_max m \<Longrightarrow> w * x_max m + i = v * x_max m + x \<longleftrightarrow> w = v \<and> i = x"
    using cell_eq_iff [OF _ assms(3)] by (simp add: mult.commute)
  ultimately show ?thesis
    using assms by (auto simp: map_wf_def map_sizes)
qed

lemma map_wf_cong:
  "map_wf m \<Longrightarrow> x_max m' = x_max m \<Longrightarrow> ram_x_map_type m' = ram_x_map_type m \<Longrightarrow>
     ram_y m' = ram_y m \<Longrightarrow> ram_y_map_type m' = ram_y_map_type m \<Longrightarrow> map_wf m'"
  by (simp add: map_wf_def)

lemma line_type_kinds: "line_type w \<in> {MAP_NULL, MAP_FLASH1, MAP_FLASH2, MAP_SYS}"
  by (simp add: line_type_def)

lemma put_value_wf:
  assumes "map_wf m" "v < 8" "fits (x_max m) new1 w x y"
  shows "\<exists>m'. put_value (v * x_max m) (v * MAX_REGISTER_NUM) new1 new2 w d x y m = Some m' \<and>
    map_wf m' \<and> x_max m' = x_max m"
proof -
  let ?xo = "v * x_max m" and ?yo = "v * MAX_REGISTER_NUM"
  have f: "x < x_max m" "y < 10000" "line_type w = MAP_FLASH1 \<longrightarrow> x < 300"
    and f1: "line_type w \<in> {MAP_SYS, MAP_FLASH1} \<and> new1 \<Longrightarrow> x < FLASH1_MAX_LEN"
    using assms(3) by (auto simp: fits_def map_sizes)
  have b: "?xo + x < x_size m" "?yo + y < y_size"
    using cell_bound' [of "Suc v" x "x_max m"] cell_bound' [of "Suc v" y MAX_REGISTER_NUM] assms(2) f
    by (simp_all add: map_sizes)
  have "\<exists>m'. put_value ?xo ?yo new1 new2 w d x y m = Some m' \<and> x_max m' = x_max m \<and>
      ram_x_map_type m' = (ram_x_map_type m)(?xo + x := line_type w) \<and>
      ram_y m' = (ram_y m)(?yo + y := of_nat x) \<and>
      ram_y_map_type m' = (ram_y_map_type m)(?yo + y := MAP_RAM)"
    using b f1 by (cases "line_type w \<in> {MAP_SYS, MAP_FLASH1} \<and> new1";
        cases "line_type w \<in> {MAP_SYS, MAP_FLASH2} \<and> new2") (simp_all add: put_value_def Let_def)
  then show ?thesis
    using map_wf_upd [OF assms(1,2) f(1) line_type_kinds f(3)] by blast
qed

lemma put_values_wf:
  assumes "map_wf m" "v < 8" "0 < n \<Longrightarrow> fits (x_max m) new1 w (x + n - 1) (y + n - 1)"
  shows "\<exists>m'. put_values (v * x_max m) (v * MAX_REGISTER_NUM) new1 new2 w d x y n m = Some m' \<and>
    map_wf m' \<and> x_max m' = x_max m"
  using assms(1,3)
proof (induction n arbitrary: x y m)
  case 0
  then show ?case by simp
next
  case (Suc n)
  have last: "fits (x_max m) new1 w (x + n) (y + n)"
    using Suc.prems(2) by simp
  then have here: "fits (x_max m) new1 w x y"
    by (auto simp: fits_def)
  have "Suc y mod 65536 = Suc y \<or> n = 0"
    using last by (cases n) (auto simp: fits_def map_sizes)
  then have j: "put_values xo yo new1 new2 w d (Suc x) (Suc y mod 65536) n m' =
      put_values xo yo new1 new2 w d (Suc x) (Suc y) n m'" for xo yo m'
    by auto
  obtain m1 where m1: "put_value (v * x_max m) (v * MAX_REGISTER_NUM) new1 new2 w d x y m = Some m1"
      "map_wf m1" "x_max m1 = x_max m"
    using put_value_wf [OF Suc.prems(1) assms(2) here] by blast
  obtain m2 where "put_values (v * x_max m) (v * MAX_REGISTER_NUM) new1 new2 w d (Suc x) (Suc y) n m1 = Some m2"
      "map_wf m2" "x_max m2 = x_max m"
    using Suc.IH [of m1 "Suc x" "Suc y"] m1 last by (auto simp: Suc_diff_Suc)
  then show ?case
    using m1 by (simp add: j)
qed

lemma put_line_wf:
  assumes "map_wf m" "v < 8" "line_fits (x_max m) new1 w" "parse_line w = Some l"
  shows "\<exists>m'. put_line (v * x_max m) (v * MAX_REGISTER_NUM) new1 new2 w l m = Some m' \<and>
    map_wf m' \<and> x_max m' = x_max m"
proof (cases l)
  case (Item x0 y0 d)
  then show ?thesis
    using assms put_value_wf [OF assms(1,2)] by (simp add: put_line_def line_fits_def)
next
  case (Items x0 x1 y0 y1 d)
  show ?thesis
  proof (cases "unat y1 \<le> unat y0 \<or> unat x1 \<le> unat x0")
    case True
    then show ?thesis using Items assms(1) by (simp add: put_line_def)
  next
    case False
    then have fit: "fits (x_max m) new1 w (unat x1) (unat y0 + (unat x1 - unat x0))"
      using assms(3,4) Items by (simp add: line_fits_def)
    then have "unat x1 \<noteq> 65535"
      using map_wf_size [OF assms(1)] by (auto simp: fits_def)
    moreover have "fits (x_max m) new1 w (unat x0 + Suc (unat x1 - unat x0) - 1)
        (unat y0 + Suc (unat x1 - unat x0) - 1)"
      using fit False by simp
    ultimately show ?thesis
      using False Items put_values_wf [OF assms(1,2), of "Suc (unat x1 - unat x0)" new1 w "unat x0" "unat y0" new2 d]
      by (simp add: put_line_def)
  qed
qed

lemma put_lines_wf:
  assumes "map_wf m" "v < 8" "\<forall>w\<in>set ws. line_fits (x_max m) new1 w"
  shows "\<exists>rc m'. put_lines (v * x_max m) (v * MAX_REGISTER_NUM) new1 new2 ws m = Some (rc, m') \<and>
    map_wf m' \<and> x_max m' = x_max m"
  using assms(1,3)
proof (induction ws arbitrary: m)
  case Nil
  then show ?case by simp
next
  case (Cons w ws)
  show ?case
  proof (cases "parse_line w")
    case None
    then show ?thesis using Cons.prems by (simp add: line_fits_def)
  next
    case (Some l)
    obtain m1 where "put_line (v * x_max m) (v * MAX_REGISTER_NUM) new1 new2 w l m = Some m1"
        "map_wf m1" "x_max m1 = x_max m"
      using put_line_wf [OF Cons.prems(1) assms(2) _ Some, of new1 new2] Cons.prems(2) by auto
    then show ?thesis
      using Some Cons.IH [of m1] Cons.prems(2) by (simp add: line_fits_def)
  qed
qed

section \<open>Copying the common area to the other wells\<close>

lemma copy_well_wf:
  assumes "map_wf m" "1 \<le> v" "v < 8"
  shows "\<exists>m'. copy_well 0 0 new2 v m = Some m' \<and> map_wf m' \<and> x_max m' = x_max m"
proof -
  let ?X = "x_max m"
  have X: "300 \<le> ?X" "?X \<le> 10000"
    using map_wf_size [OF assms(1)] by simp_all
  have vX: "v * ?X \<le> 7 * ?X"
    using assms(3) by (intro mult_le_mono1) simp
  have room: "v * ?X + 300 \<le> 8 * ?X" "v * 10000 + 10000 \<le> 8 * (10000 :: nat)"
    using vX X assms(3) by linarith+
  define cp :: "(nat \<Rightarrow> map_kind) \<Rightarrow> nat \<Rightarrow> map_kind" where
    "cp f k = (if v * ?X \<le> k \<and> k < v * ?X + 300 then f (k - v * ?X) else f k)" for f k
  define m' where "m' = the (copy_well 0 0 new2 v m)"
  have c: "copy_well 0 0 new2 v m = Some m'" and x: "x_max m' = ?X"
    and ty: "ram_x_map_type m' = cp (ram_x_map_type m)"
    and ry: "ram_y m' = (\<lambda>k. if v * 10000 \<le> k \<and> k < v * 10000 + 10000 then ram_y m (k - v * 10000) else ram_y m k)"
    and yt: "ram_y_map_type m' = (\<lambda>k. if v * 10000 \<le> k \<and> k < v * 10000 + 10000
      then ram_y_map_type m (k - v * 10000) else ram_y_map_type m k)"
    using X room by (auto simp: m'_def copy_well_def memcpy_in_def map_sizes cp_def)
  have "cp (ram_x_map_type m) (w * ?X + i) =
      (if w = v \<and> i < 300 then ram_x_map_type m i else ram_x_map_type m (w * ?X + i))" if "i < ?X" for w i
  proof -
    have "v * ?X \<le> w * ?X + i \<and> w * ?X + i < v * ?X + 300 \<longleftrightarrow> w = v \<and> i < 300"
    proof
      assume l: "v * ?X \<le> w * ?X + i \<and> w * ?X + i < v * ?X + 300"
      then obtain j where j: "w * ?X + i = v * ?X + j" "j < 300"
        using le_Suc_ex [of "v * ?X" "w * ?X + i"] by auto
      then show "w = v \<and> i < 300"
        using cell_eq_iff [OF that, of j w v] X by (simp add: mult.commute)
    qed auto
    then show ?thesis by (simp add: cp_def)
  qed
  moreover have "\<And>i. i < ?X \<Longrightarrow> ram_x_map_type m i \<in> {MAP_NULL, MAP_RAM, MAP_FLASH1, MAP_FLASH2, MAP_SYS} \<and>
      (ram_x_map_type m i = MAP_FLASH1 \<longrightarrow> i < 300)"
    using assms(1) unfolding map_wf_def map_sizes by (metis mult_zero_left add_0 zero_less_numeral)
  ultimately have "map_wf m'"
    using assms(1) X unfolding map_wf_def map_sizes x ty ry yt by simp
  then show ?thesis using c x by blast
qed

lemma copy_wells_wf:
  assumes "map_wf m" "\<forall>v\<in>set vs. 1 \<le> v \<and> v < 8"
  shows "\<exists>m'. copy_wells 0 0 new2 vs m = Some m' \<and> map_wf m' \<and> x_max m' = x_max m"
  using assms
proof (induction vs arbitrary: m)
  case Nil
  then show ?case by simp
next
  case (Cons v vs)
  obtain m1 where m1: "copy_well 0 0 new2 v m = Some m1" "map_wf m1" "x_max m1 = x_max m"
    using copy_well_wf [of m v new2] Cons.prems by auto
  then show ?case using Cons.IH [of m1] Cons.prems(2) by simp
qed

section \<open>Filling, remapping, starting up\<close>

lemma value_init_wf:
  assumes "map_wf m" "v < 8" "table_fits e (x_max m) new1 path" "first \<Longrightarrow> v = 0"
  shows "\<exists>rc m'. ram_map_flash1_value_init e (v * x_max m) (v * MAX_REGISTER_NUM) new1 new2 path first m
      = Some (rc, m') \<and> map_wf m' \<and> x_max m' = x_max m"
proof (cases "fopen_text e path")
  case None
  then show ?thesis using assms(1) by (simp add: ram_map_flash1_value_init_def)
next
  case (Some content)
  obtain rc m1 where m1: "put_lines (v * x_max m) (v * MAX_REGISTER_NUM) new1 new2 (words content) m = Some (rc, m1)"
      "map_wf m1" "x_max m1 = x_max m"
    using put_lines_wf [OF assms(1,2), of "words content" new1 new2] assms(3) Some
    by (auto simp: table_fits_def)
  obtain m2 where "copy_wells 0 0 new2 [1..<MAX_WELL_NUM] m1 = Some m2" "map_wf m2" "x_max m2 = x_max m"
    using copy_wells_wf [OF m1(2), of "[1..<MAX_WELL_NUM]" new2] m1(3) by (auto simp: map_sizes)
  then show ?thesis
    using Some m1 assms(4) by (auto simp: ram_map_flash1_value_init_def)
qed

lemma find_path_fits:
  assumes "\<forall>w\<in>set ws. length w < 512 \<and>
      (case scan_map0 w of None \<Rightarrow> True | Some (_, path) \<Rightarrow> table_fits e xm False path)"
  shows "\<exists>rc q. find_path type ws p = Some (rc, q) \<and> (rc = 0 \<or> rc = -1) \<and> (rc = 0 \<longrightarrow> table_fits e xm False q)
    \<and> (rc = -1 \<longrightarrow> q = p)"
  using assms by (induction ws) (auto split: option.splits)

lemma get_path_fits:
  assumes "tables_fit e xm"
  shows "\<exists>rc q. get_map_00_path e type p = Some (rc, q) \<and> (rc = 0 \<or> rc = -1) \<and> (rc = 0 \<longrightarrow> table_fits e xm False q)
    \<and> (rc = -1 \<longrightarrow> q = p)"
  using assms find_path_fits
  by (auto simp: get_map_00_path_def tables_fit_def split: option.splits)

lemma init_wells_wf:
  assumes "map_wf m" "\<forall>v\<in>set vs. v < 8" "tables_fit e (x_max m)"
  shows "\<exists>rc m'. init_wells e new2 path vs m = Some (rc, m') \<and> map_wf m' \<and> x_max m' = x_max m"
  using assms
proof (induction vs arbitrary: m path)
  case Nil
  then show ?case by simp
next
  case (Cons v vs)
  have v: "v < 8" using Cons.prems(2) by simp
  have b: "v * x_max m < x_size m"
    using cell_bound' [of "Suc v" 0 "x_max m"] v map_wf_size [OF Cons.prems(1)] by simp
  obtain rc q where q: "get_map_00_path e (flash2 m (v * x_max m)) path = Some (rc, q)"
      "rc = 0 \<longrightarrow> table_fits e (x_max m) False q" "rc = 0 \<or> rc = -1"
    using get_path_fits [OF Cons.prems(3)] by blast
  define f2 where "f2 = (if rc = -1 then (flash2 m)(v * x_max m := 1) else flash2 m)"
  define q' where "q' = (if rc = -1 then PATH_MAP_001 else q)"
  have fit: "table_fits e (x_max m) False q'"
    using q Cons.prems(3) by (auto simp: q'_def tables_fit_def)
  have wf: "map_wf (m\<lparr>flash2 := f2\<rparr>)"
    by (rule map_wf_cong [OF Cons.prems(1)]) simp_all
  obtain rc2 m2 where m2: "ram_map_flash1_value_init e (v * x_max m) (v * MAX_REGISTER_NUM) False new2 q' False
      (m\<lparr>flash2 := f2\<rparr>) = Some (rc2, m2)" "map_wf m2" "x_max m2 = x_max m"
    using value_init_wf [OF wf v, of e False q' False new2] fit by auto
  have "init_wells e new2 path (v # vs) m = (if rc2 = -1 then Some (-1, m2) else init_wells e new2 q' vs m2)"
    using q(1) b m2(1) by (simp add: f2_def q'_def split: if_splits)
  then show ?case
    using m2 Cons.IH [of m2 q'] Cons.prems by auto
qed

lemma map_item_remap_wf:
  assumes "map_wf (mp s)" "1 \<le> w" "w \<le> 8" "tables_fit e (x_max (mp s))"
  shows "\<exists>rc t. map_item_remap e (of_nat w) ty s = Some (rc, t) \<and> map_wf (mp t) \<and>
    x_max (mp t) = x_max (mp s)"
proof -
  let ?m = "mp s" and ?v = "w - 1"
  have v: "?v < 8" using assms(2,3) by simp
  have u: "nat (int (unat (of_nat w :: u16)) - 1) = ?v" "0 \<le> int (unat (of_nat w :: u16)) - 1"
    "int (unat (of_nat w :: u16)) - 1 \<le> 8"
    using assms(2,3) by (simp_all add: unat_of_nat take_bit_nat_eq_self)
  have b: "?v * x_max ?m < x_size ?m"
    using cell_bound' [of w 0 "x_max ?m"] assms(2,3) map_wf_size [OF assms(1)] by simp
  obtain rc q where q: "get_map_00_path e ty PATH_MAP_001 = Some (rc, q)"
      "rc = 0 \<longrightarrow> table_fits e (x_max ?m) False q" "rc = 0 \<or> rc = -1"
    using get_path_fits [OF assms(4)] by blast
  show ?thesis
  proof (cases "rc = -1")
    case True
    then show ?thesis using q u assms(1) by (simp add: map_item_remap_def Let_def map_sizes)
  next
    case False
    define m1 where "m1 = ?m\<lparr>flash2 := (flash2 ?m)(?v * x_max ?m := ty)\<rparr>"
    have "map_wf m1" unfolding m1_def by (rule map_wf_cong [OF assms(1)]) simp_all
    then obtain rc2 m2 where m2: "ram_map_flash1_value_init e (?v * x_max ?m) (?v * MAX_REGISTER_NUM) False True q False
        m1 = Some (rc2, m2)" "map_wf m2" "x_max m2 = x_max ?m"
      using value_init_wf [of m1 ?v e False q False True] q False v by (auto simp: m1_def)
    then show ?thesis
      using q False u b
      by (auto simp: map_item_remap_def Let_def MAX_WELL_NUM_def [symmetric] m1_def [symmetric]
          msync2_def simp del: One_nat_def)
  qed
qed

lemma ram_flash_create_wf:
  assumes "ram_flash_create e xm = Some m" "300 \<le> xm" "xm \<le> 10000"
  shows "map_wf m" "x_max m = xm"
  using assms by (auto simp: ram_flash_create_def Let_def map_wf_def map_sizes split: prod.splits if_splits)

lemma table_fits_mono: "table_fits e xm True path \<Longrightarrow> table_fits e xm new1 path"
  by (cases new1) (fastforce simp: table_fits_def line_fits_def fits_def split: option.splits map_line.splits)+

lemma map_init_result:
  assumes "get_x_y_z_max_len e 0 = Some (0, xm)" "300 \<le> unat xm" "unat xm \<le> MAX_REGISTER_NUM"
    and "table_fits e (unat xm) True PATH_MAP1" "tables_fit e (unat xm)"
  shows "\<exists>rc t. map_init e s = Some (rc, t) \<and>
    (if rc = 0 then map_wf (mp t) \<and> x_max (mp t) = unat xm \<and>
        disk1 t = flash1 (mp t) \<and> disk2 t = flash2 (mp t)
     else rc = -1 \<and> mp t = mp s)"
proof (cases "ram_flash_create e (unat xm)")
  case None
  then show ?thesis using assms(1) by (simp add: map_init_def)
next
  case (Some m)
  have m: "map_wf m" "x_max m = unat xm"
    using ram_flash_create_wf [OF Some assms(2)] assms(3) by (simp_all add: map_sizes)
  obtain rc1 m1 where m1: "ram_map_flash1_value_init e 0 0 (flash1_is_new m) (flash2_is_new m) PATH_MAP1 True m
      = Some (rc1, m1)" "map_wf m1" "x_max m1 = unat xm"
    using value_init_wf [OF m(1), of 0 e "flash1_is_new m" PATH_MAP1 True "flash2_is_new m"]
      table_fits_mono [OF assms(4)] m(2) by auto
  obtain rc2 m2 where m2: "ram_map_flash2_value_init e (flash2_is_new m1) m1 = Some (rc2, m2)"
      "map_wf m2" "x_max m2 = unat xm"
    using init_wells_wf [OF m1(2), of "[0..<MAX_WELL_NUM]" e "flash2_is_new m1" PATH_MAP_001] m1(3) assms(5)
    by (auto simp: ram_map_flash2_value_init_def map_sizes)
  show ?thesis
    using assms(1) Some m1 m2 by (auto simp: map_init_def Let_def msync1_def msync2_def)
qed

text \<open>
  C4. Start-up. When the sizing pass accepts the tables and every table fits the area it
  computed, \<^verbatim>\<open>map_init\<close> never leaves its arrays. If it returns 0 the map is well formed, has
  the size computed from the tables, and both flash files hold the mapped contents; if it
  fails it leaves the global map alone.
\<close>

theorem map_init_establishes:
  assumes "get_x_y_z_max_len e 0 = Some (0, xm)" "300 \<le> unat xm" "unat xm \<le> MAX_REGISTER_NUM"
    and "table_fits e (unat xm) True PATH_MAP1" "tables_fit e (unat xm)"
  shows "\<exists>rc t. map_init e s = Some (rc, t) \<and>
    (if rc = 0 then map_wf (mp t) \<and> x_max (mp t) = unat xm \<and>
        disk1 t = flash1 (mp t) \<and> disk2 t = flash2 (mp t)
     else rc = -1 \<and> mp t = mp s)"
  by (rule map_init_result [OF assms])

definition env_demo :: env where
  "env_demo =
     \<lparr>time_now = 0, localtime = \<lambda>_. \<lparr>tm_hour = 0, tm_min = 0, tm_sec = 0, tm_year = 100, tm_mon = 0, tm_mday = 1\<rparr>,
      mktime = \<lambda>_. 0, msync_ok = \<lambda>_. True, pin_level = \<lambda>_. 0, adc_text = None, battery_fp = \<lambda>v. v,
      fopen_text = (\<lambda>p. if p = PATH_MAP0 then Some ''1,/m1''
        else if p = ''/m1'' then Some ''0,40001,1,FLASH2,RW 310,40311,7,FLASH2,RW''
        else if p = PATH_MAP1 then Some ''20~24,40021~40025,0x10,FLASH1,WR''
        else None),
      flash_file = \<lambda>_. None, malloc_ok = True, create_ok = \<lambda>_. True, mmap_ok = \<lambda>_. True\<rparr>"

lemmas env_demo_eval = env_demo_def paths scan_eval

lemma map_demo_wf: "map_wf map_demo"
  by (simp add: map_wf_def map_demo_def map_sizes)

lemma tables_demo_fit: "tables_fit env_demo 311"
  by (simp add: tables_fit_def table_fits_def line_fits_def fits_def env_demo_eval parse_line_def
      scan_map0_def scan_dv_def modbus_to_y_def line_type_def map_sizes)

theorem map_init_establishes_witness:
  "\<exists>rc t. map_init env_demo rtu_demo = Some (rc, t) \<and>
    (if rc = 0 then map_wf (mp t) \<and> x_max (mp t) = 311 \<and>
        disk1 t = flash1 (mp t) \<and> disk2 t = flash2 (mp t)
     else rc = -1 \<and> mp t = mp rtu_demo)"
proof -
  have "get_x_y_z_max_len env_demo 0 = Some (0, 311)"
    by (simp add: get_x_y_z_max_len_def env_demo_eval scan_map0_def line_top_def scan_hd_hd_def map_sizes)
  moreover have "table_fits env_demo 311 True PATH_MAP1"
    by (simp add: table_fits_def line_fits_def fits_def env_demo_eval parse_line_def scan_ranges_def scan_dv_def
        modbus_to_y_def line_type_def map_sizes)
  moreover have "tables_fit env_demo 311"
    by (rule tables_demo_fit)
  moreover have u: "unat (311 :: u16) = 311" by simp
  ultimately show ?thesis
    using map_init_establishes [of env_demo 311 rtu_demo, unfolded u] by (simp only: map_sizes)
qed

end
