(* ===== verification/Register_Facts.thy ===== *)
theory Register_Facts
  imports Registers Map_Facts
begin

text \<open>
  The memory safety of the register operations on a well-formed map, what a write stores, what
  a read returns, and what reaches the flash files.
\<close>

section \<open>Reading is safe\<close>

lemma map_map_fun_read_total:
  assumes "map_wf (mp s)" "1 \<le> w" "w \<le> 8" "i < x_max (mp s)"
  shows "\<exists>rc v. map_map_fun_read e s b w i = Some (rc, v)"
proof -
  have "i < x_size (mp s)" using assms(4) by (simp add: map_sizes)
  moreover have "di_addr i \<Longrightarrow> \<exists>rc v. gpio_get_do e s i b = Some (rc, v)"
    by (rule gpio_get_do_total) (simp_all add: di_addr_def)
  ultimately show ?thesis
    using assms by (auto simp: map_map_fun_read_def Let_def)
qed

lemma read_cell_total:
  assumes "map_wf (mp s)" "1 \<le> w" "w \<le> 8" "i < x_max (mp s)"
  shows "\<exists>v. read_cell e s w i b = Some v"
proof -
  obtain rc v where "map_map_fun_read e s b w i = Some (rc, v)"
    using map_map_fun_read_total [OF assms] by blast
  then show ?thesis
    using map_wf_cell [OF assms] assms
    by (auto simp: read_cell_def Let_def FLASH1_MAX_LEN_def)
qed

lemma read_loop_total:
  assumes "map_wf (mp s)" "1 \<le> w" "w \<le> 8" "i + n \<le> x_max (mp s)" "n \<le> length buf"
  shows "\<exists>vs. read_loop e s w i n buf = Some vs \<and> length vs = length buf"
  using assms(4,5)
proof (induction n arbitrary: i buf)
  case 0
  then show ?case by simp
next
  case (Suc n)
  then obtain b bs where buf: "buf = b # bs" by (cases buf) auto
  have "i < x_max (mp s)" using Suc.prems(1) by simp
  then obtain v where "read_cell e s w i b = Some v"
    using read_cell_total [OF assms(1-3)] by blast
  moreover obtain vs where "read_loop e s w (Suc i) n bs = Some vs \<and> length vs = length bs"
    using Suc.IH [of "Suc i" bs] Suc.prems buf by auto
  ultimately show ?case by (simp add: buf)
qed

lemma args_okD:
  assumes "args_ok limit len well addr"
  shows "1 \<le> nat well" "nat well \<le> 8" "nat addr + nat len \<le> limit" "1 \<le> nat len"
    "0 \<le> addr" "1 \<le> well" "1 \<le> len"
  using assms by (auto simp: args_ok_def map_sizes)

section \<open>Writing plain registers\<close>

text \<open>
  What a write of one register stores: the ram copy always, and the flash the register is kept
  in. This is the specification the write loop is compared with.
\<close>

definition store_at :: "nat \<Rightarrow> nat \<Rightarrow> u16 \<Rightarrow> map_t \<Rightarrow> map_t" where
  "store_at w i v m =
     m\<lparr>ram_x := (ram_x m)(x_max m * (w - 1) + i := v),
       flash1 := (if kind_at m w i = MAP_FLASH1 then (flash1 m)(i := v) else flash1 m),
       flash2 := (if kind_at m w i = MAP_FLASH2 then (flash2 m)(x_max m * (w - 1) + i := v) else flash2 m)\<rparr>"

fun store_run :: "nat \<Rightarrow> nat \<Rightarrow> u16 list \<Rightarrow> map_t \<Rightarrow> map_t" where
  "store_run w i [] m = m"
| "store_run w i (v # vs) m = store_run w (Suc i) vs (store_at w i v m)"

lemma store_at_frame [simp]:
  "x_max (store_at w i v m) = x_max m" "ram_x_map_type (store_at w i v m) = ram_x_map_type m"
  "ram_x_map_rw (store_at w i v m) = ram_x_map_rw m" "ram_x_map_record (store_at w i v m) = ram_x_map_record m"
  "ram_y (store_at w i v m) = ram_y m" "ram_y_map_type (store_at w i v m) = ram_y_map_type m"
  by (simp_all add: store_at_def)

lemma store_run_frame [simp]:
  "x_max (store_run w i vs m) = x_max m" "ram_x_map_type (store_run w i vs m) = ram_x_map_type m"
  "ram_x_map_rw (store_run w i vs m) = ram_x_map_rw m"
  "ram_x_map_record (store_run w i vs m) = ram_x_map_record m"
  "ram_y (store_run w i vs m) = ram_y m" "ram_y_map_type (store_run w i vs m) = ram_y_map_type m"
  by (induction w i vs m rule: store_run.induct) simp_all

lemma store_at_wf [wf_intros]: "map_wf m \<Longrightarrow> map_wf (store_at w i v m)"
  by (rule map_wf_cong) simp_all

lemma store_run_wf [wf_intros]: "map_wf m \<Longrightarrow> map_wf (store_run w i vs m)"
  by (rule map_wf_cong) simp_all

text \<open>The value a plain register has, as every reader sees it.\<close>

definition reg :: "map_t \<Rightarrow> nat \<Rightarrow> nat \<Rightarrow> u16" where
  "reg m w i =
     (case kind_at m w i of
        MAP_FLASH1 \<Rightarrow> flash1 m i
      | MAP_FLASH2 \<Rightarrow> flash2 m (x_max m * (w - 1) + i)
      | _ \<Rightarrow> ram_x m (x_max m * (w - 1) + i))"

lemma reg_store_at:
  assumes "1 \<le> w" "1 \<le> w'" "i < x_max m" "j < x_max m"
  shows "reg (store_at w i v m) w' j =
    (if j = i \<and> (w' = w \<or> kind_at m w i = MAP_FLASH1 \<and> kind_at m w' i = MAP_FLASH1) then v
     else reg m w' j)"
proof -
  have "x_max m * (w' - 1) + j = x_max m * (w - 1) + i \<longleftrightarrow> w' = w \<and> j = i"
    using cell_eq_iff [OF assms(4,3)] assms(1,2) by auto
  then show ?thesis
    by (auto simp: reg_def store_at_def split: map_kind.splits)
qed

lemma reg_store_run:
  assumes "1 \<le> w" "1 \<le> w'" "i + length vs \<le> x_max m" "j < x_max m"
  shows "reg (store_run w i vs m) w' j =
    (if i \<le> j \<and> j < i + length vs \<and>
        (w' = w \<or> kind_at m w j = MAP_FLASH1 \<and> kind_at m w' j = MAP_FLASH1) then vs ! (j - i)
     else reg m w' j)"
  using assms(3,4)
proof (induction vs arbitrary: i m)
  case Nil
  then show ?case by auto
next
  case (Cons v vs)
  have *: "reg (store_run w i (v # vs) m) w' j =
      (if Suc i \<le> j \<and> j < Suc i + length vs \<and>
          (w' = w \<or> kind_at m w j = MAP_FLASH1 \<and> kind_at m w' j = MAP_FLASH1) then vs ! (j - Suc i)
       else reg (store_at w i v m) w' j)"
    using Cons.IH [of "Suc i" "store_at w i v m"] Cons.prems by simp
  have "j = i \<or> \<not> Suc i \<le> j \<or> j - i = Suc (j - Suc i)" by auto
  then show ?case
    unfolding * using reg_store_at [OF assms(1,2), of i m j v] Cons.prems
    by (cases "j = i") auto
qed

lemma read_cell_plain:
  assumes "map_wf (mp s)" "1 \<le> w" "w \<le> 8" "i < x_max (mp s)" "kind_at (mp s) w i \<noteq> MAP_SYS"
  shows "read_cell e s w i b = Some (reg (mp s) w i)"
  using map_wf_cell [OF assms(1-4)] assms
  by (auto simp: read_cell_def Let_def reg_def FLASH1_MAX_LEN_def)

text \<open>What can come out of one round of the write loop on a register that no function implements.\<close>

lemma write_cell_plain:
  assumes "map_wf (mp s)" "1 \<le> w" "w \<le> 8" "i < x_max (mp s)" "kind_at (mp s) w i \<noteq> MAP_SYS"
  obtains (stored) t where "write_cell e w i v s = Some (0, v, t)" "mp t = store_at w i v (mp s)"
      "disk1 t = (if kind_at (mp s) w i = MAP_FLASH1 then flash1 (mp t) else disk1 s)"
      "disk2 t = (if kind_at (mp s) w i = MAP_FLASH2 then flash2 (mp t) else disk2 s)"
      "kind_at (mp s) w i \<in> {MAP_FLASH1, MAP_FLASH2} \<Longrightarrow> msync_ok e (syncs s)"
  | (failed) t where "write_cell e w i v s = Some (-1, v, t)"
      "kind_at (mp s) w i \<in> {MAP_FLASH1, MAP_FLASH2}" "\<not> msync_ok e (syncs s)"
      "ram_x (mp t) = ram_x (mp s)" "disk1 t = disk1 s" "disk2 t = disk2 s"
      "ram_x_map_type (mp t) = ram_x_map_type (mp s)" "x_max (mp t) = x_max (mp s)"
      "ram_y (mp t) = ram_y (mp s)" "ram_y_map_type (mp t) = ram_y_map_type (mp s)"
proof -
  let ?m = "mp s" and ?t = "snd (snd (the (write_cell e w i v s)))"
  have b: "x_max ?m * (w - 1) + i < x_size ?m" using assms(2-4) by simp
  consider "kind_at ?m w i = MAP_NULL" | "kind_at ?m w i = MAP_RAM"
    | "kind_at ?m w i = MAP_FLASH1" "i < FLASH1_MAX_LEN" | "kind_at ?m w i = MAP_FLASH2"
    using map_wf_cell [OF assms(1-4)] assms(5) by (auto simp: FLASH1_MAX_LEN_def)
  then show ?thesis
  proof cases
    case 1
    with b show ?thesis by (intro stored [of ?t]) (auto intro!: map_t.equality simp: write_cell_def Let_def store_at_def)
  next
    case 2
    with b show ?thesis by (intro stored [of ?t]) (auto intro!: map_t.equality simp: write_cell_def Let_def store_at_def)
  next
    case 3
    show ?thesis
    proof (cases "msync_ok e (syncs s)")
      case True
      with 3 b show ?thesis by (intro stored [of ?t]) (auto intro!: map_t.equality simp: write_cell_def Let_def store_at_def msync1_def)
    next
      case False
      with 3 b show ?thesis by (intro failed [of ?t]) (auto simp: write_cell_def Let_def msync1_def)
    qed
  next
    case 4
    show ?thesis
    proof (cases "msync_ok e (syncs s)")
      case True
      with 4 b show ?thesis by (intro stored [of ?t]) (auto intro!: map_t.equality simp: write_cell_def Let_def store_at_def msync2_def)
    next
      case False
      with 4 b show ?thesis by (intro failed [of ?t]) (auto simp: write_cell_def Let_def msync2_def)
    qed
  qed
qed

text \<open>The registers \<open>i ..< i + n\<close> of a well are plain: none is implemented by a function.\<close>

definition plain :: "map_t \<Rightarrow> nat \<Rightarrow> nat \<Rightarrow> nat \<Rightarrow> bool" where
  "plain m w i n \<longleftrightarrow> (\<forall>j. i \<le> j \<and> j < i + n \<longrightarrow> kind_at m w j \<noteq> MAP_SYS)"

lemma plain_Suc: "plain m w i (Suc n) \<longleftrightarrow> kind_at m w i \<noteq> MAP_SYS \<and> plain m w (Suc i) n"
  unfolding plain_def
  by (metis Suc_leI add_Suc_right add_Suc_shift le_neq_implies_less less_add_Suc1 less_or_eq_imp_le
      not_less_eq order_refl Suc_le_lessD)

lemma plain_cong: "ram_x_map_type m' = ram_x_map_type m \<Longrightarrow> x_max m' = x_max m \<Longrightarrow> plain m' = plain m"
  by (intro ext) (simp add: plain_def)

definition synced1 :: "rtu \<Rightarrow> nat \<Rightarrow> bool" where
  "synced1 s i \<longleftrightarrow> disk1 s i = flash1 (mp s) i"

definition synced2 :: "rtu \<Rightarrow> nat \<Rightarrow> bool" where
  "synced2 s k \<longleftrightarrow> disk2 s k = flash2 (mp s) k"

definition well_synced :: "rtu \<Rightarrow> nat \<Rightarrow> nat \<Rightarrow> bool" where
  "well_synced s w j \<longleftrightarrow>
     (kind_at (mp s) w j = MAP_FLASH1 \<longrightarrow> synced1 s j) \<and>
     (kind_at (mp s) w j = MAP_FLASH2 \<longrightarrow> synced2 s (x_max (mp s) * (w - 1) + j))"

lemma write_loop_stored:
  assumes "map_wf (mp s)" "1 \<le> w" "w \<le> 8" "i + n \<le> x_max (mp s)" "plain (mp s) w i n"
    "n \<le> length buf" "write_loop e w i n buf s = Some (0, t)"
  shows "mp t = store_run w i (take n buf) (mp s)"
    and "(\<forall>j. D j \<longrightarrow> well_synced s w j) \<Longrightarrow> (\<forall>j. D j \<or> i \<le> j \<and> j < i + n \<longrightarrow> well_synced t w j)"
  using assms(1,4-7)
proof (induction n arbitrary: i buf s D)
  case 0
  {
    case 1
    then show ?case by simp
  next
    case 2
    then show ?case by auto
  }
next
  case (Suc n)
  {
    case prems: 1
    then obtain b bs where buf: "buf = b # bs" by (cases buf) auto
    have i: "i < x_max (mp s)" and k: "kind_at (mp s) w i \<noteq> MAP_SYS" "plain (mp s) w (Suc i) n"
      using prems by (simp_all add: plain_Suc)
    from prems(1) assms(2,3) i k(1) show ?case
    proof (cases rule: write_cell_plain [where e = e and v = b])
      case (stored u)
      show ?thesis
        using Suc.IH(1) [of u "Suc i" bs] prems stored k(2) buf store_at_wf [of "mp s"]
          plain_cong [of "mp u" "mp s"]
        by simp
    next
      case failed
      then show ?thesis using prems(5) buf by simp
    qed
  next
    case prems: 2
    then obtain b bs where buf: "buf = b # bs" by (cases buf) auto
    have i: "i < x_max (mp s)" and k: "kind_at (mp s) w i \<noteq> MAP_SYS" "plain (mp s) w (Suc i) n"
      using prems by (simp_all add: plain_Suc)
    from prems(2) assms(2,3) i k(1) show ?case
    proof (cases rule: write_cell_plain [where e = e and v = b])
      case (stored u)
      have "\<forall>j. (D j \<or> j = i) \<longrightarrow> well_synced u w j"
        using prems(1) stored
        by (auto simp: well_synced_def synced1_def synced2_def store_at_def split: if_splits)
      then have "\<forall>j. (D j \<or> j = i) \<or> Suc i \<le> j \<and> j < Suc i + n \<longrightarrow> well_synced t w j"
        using Suc.IH(2) [of "\<lambda>j. D j \<or> j = i" u "Suc i" bs] prems stored k(2) buf store_at_wf [of "mp s"]
          plain_cong [of "mp u" "mp s"]
        by simp
      then show ?thesis
        by (metis Suc_leI add_Suc_right add_Suc_shift le_neq_implies_less)
    next
      case failed
      then show ?thesis using prems(6) buf by simp
    qed
  }
qed

lemma write_loop_outcome:
  assumes "map_wf (mp s)" "1 \<le> w" "w \<le> 8" "i + n \<le> x_max (mp s)" "plain (mp s) w i n"
    "n \<le> length buf"
  shows "\<exists>rc t. write_loop e w i n buf s = Some (rc, t) \<and>
    (rc = 0 \<or> rc = -1 \<and> (\<exists>k. \<not> msync_ok e k) \<and>
       (\<exists>k<n. kind_at (mp s) w (i + k) \<in> {MAP_FLASH1, MAP_FLASH2} \<and>
          ram_x (mp t) = ram_x (store_run w i (take k buf) (mp s))))"
  using assms(1,4-6)
proof (induction n arbitrary: i buf s)
  case 0
  then show ?case by simp
next
  case (Suc n)
  then obtain b bs where buf: "buf = b # bs" by (cases buf) auto
  have i: "i < x_max (mp s)" and k: "kind_at (mp s) w i \<noteq> MAP_SYS" "plain (mp s) w (Suc i) n"
    using Suc.prems by (simp_all add: plain_Suc)
  from Suc.prems(1) assms(2,3) i k(1) show ?case
  proof (cases rule: write_cell_plain [where e = e and v = b])
    case (stored u)
    then have "\<exists>rc t. write_loop e w (Suc i) n bs u = Some (rc, t) \<and>
      (rc = 0 \<or> rc = -1 \<and> (\<exists>k. \<not> msync_ok e k) \<and>
        (\<exists>k<n. kind_at (mp u) w (Suc i + k) \<in> {MAP_FLASH1, MAP_FLASH2} \<and>
          ram_x (mp t) = ram_x (store_run w (Suc i) (take k bs) (mp u))))"
      using Suc.IH [of u "Suc i" bs] Suc.prems k(2) buf store_at_wf [of "mp s"]
        plain_cong [of "mp u" "mp s"]
      by simp
    then obtain rc t where t: "write_loop e w (Suc i) n bs u = Some (rc, t)" and
      d: "rc = 0 \<or> rc = -1 \<and> (\<exists>k. \<not> msync_ok e k) \<and>
        (\<exists>k<n. kind_at (mp u) w (Suc i + k) \<in> {MAP_FLASH1, MAP_FLASH2} \<and>
          ram_x (mp t) = ram_x (store_run w (Suc i) (take k bs) (mp u)))"
      by blast
    from d show ?thesis
    proof
      assume "rc = 0"
      then show ?thesis using t stored buf by simp
    next
      assume a: "rc = -1 \<and> (\<exists>k. \<not> msync_ok e k) \<and>
        (\<exists>k<n. kind_at (mp u) w (Suc i + k) \<in> {MAP_FLASH1, MAP_FLASH2} \<and>
          ram_x (mp t) = ram_x (store_run w (Suc i) (take k bs) (mp u)))"
      then obtain j where "j < n" "kind_at (mp u) w (Suc i + j) \<in> {MAP_FLASH1, MAP_FLASH2}"
        "ram_x (mp t) = ram_x (store_run w (Suc i) (take j bs) (mp u))" by blast
      then have "Suc j < Suc n \<and> kind_at (mp s) w (i + Suc j) \<in> {MAP_FLASH1, MAP_FLASH2} \<and>
          ram_x (mp t) = ram_x (store_run w i (take (Suc j) buf) (mp s))"
        using stored(2) buf by simp
      then show ?thesis using a t stored(1) buf by auto
    qed
  next
    case (failed u)
    then have "write_loop e w i (Suc n) buf s = Some (-1, u)"
      using buf by simp
    moreover have "0 < Suc n \<and> kind_at (mp s) w (i + 0) \<in> {MAP_FLASH1, MAP_FLASH2} \<and>
        ram_x (mp u) = ram_x (store_run w i (take 0 buf) (mp s))"
      using failed by simp
    ultimately show ?thesis using failed(3) by blast
  qed
qed

lemma nth_take_from: "i \<le> j \<Longrightarrow> j < i + n \<Longrightarrow> take n xs ! (j - i) = xs ! (j - i)"
  by simp

text \<open>
  C3. A register write on plain registers. With valid arguments and enough values the call
  always returns; it returns 0 unless a synchronisation of a flash file failed. After 0 every
  register of every well reads as the abstract store says: the written registers of this well
  have the new values, a register that several wells keep in the shared flash1 changes for all of
  them, and nothing else changes. The map stays well formed.
\<close>

theorem write_registers_stores:
  assumes "map_wf (mp s)" "args_ok (x_max (mp s)) len well addr"
    and "plain (mp s) (nat well) (nat addr) (nat len)" "nat len \<le> length buf"
  shows "\<exists>rc t. zigbee_write_registers e buf len well addr s = Some (rc, t) \<and>
    (rc = 0 \<or> rc = -1 \<and> (\<exists>k. \<not> msync_ok e k)) \<and>
    (rc = 0 \<longrightarrow> map_wf (mp t) \<and>
      (\<forall>w' j. 1 \<le> w' \<and> j < x_max (mp s) \<longrightarrow> reg (mp t) w' j =
        (if nat addr \<le> j \<and> j < nat addr + nat len \<and>
            (w' = nat well \<or> kind_at (mp s) (nat well) j = MAP_FLASH1 \<and> kind_at (mp s) w' j = MAP_FLASH1)
         then buf ! (j - nat addr) else reg (mp s) w' j)))"
proof -
  note a = args_okD [OF assms(2)]
  obtain rc t where t: "write_loop e (nat well) (nat addr) (nat len) buf s = Some (rc, t)"
      "rc = 0 \<or> rc = -1 \<and> (\<exists>k. \<not> msync_ok e k)"
    using write_loop_outcome [OF assms(1) a(1-3) assms(3,4), of e] by blast
  have "map_wf (mp t) \<and>
      (\<forall>w' j. 1 \<le> w' \<and> j < x_max (mp s) \<longrightarrow> reg (mp t) w' j =
        (if nat addr \<le> j \<and> j < nat addr + nat len \<and>
            (w' = nat well \<or> kind_at (mp s) (nat well) j = MAP_FLASH1 \<and> kind_at (mp s) w' j = MAP_FLASH1)
         then buf ! (j - nat addr) else reg (mp s) w' j))" if "rc = 0"
  proof -
    have st: "mp t = store_run (nat well) (nat addr) (take (nat len) buf) (mp s)"
      using write_loop_stored(1) [OF assms(1) a(1-3) assms(3,4)] t(1) that by simp
    show ?thesis
      unfolding st using assms(1,4) a by (auto simp: store_run_wf reg_store_run nth_take_from)
  qed
  then show ?thesis
    using t assms(2) by (auto simp: zigbee_write_registers_def)
qed

lemma demo_args: "args_ok (x_max (mp rtu_demo)) 2 1 4"
  by (simp add: rtu_demo_eval args_ok_def map_sizes)

lemma demo_plain: "plain (mp rtu_demo) (nat 1) (nat 4) (nat 2)"
  by (auto simp: rtu_demo_eval plain_def)

lemma demo_wf: "map_wf (mp rtu_demo)"
  using map_demo_wf by (simp add: rtu_demo_def)

theorem write_registers_stores_witness:
  "\<exists>rc t. zigbee_write_registers env_demo [11, 12] 2 1 4 rtu_demo = Some (rc, t) \<and>
    (rc = 0 \<longrightarrow> reg (mp t) 1 5 = 12)"
proof -
  have "nat 2 \<le> length [11, 12 :: u16]" by simp
  from write_registers_stores [OF demo_wf demo_args demo_plain this, of env_demo]
  obtain rc t where t: "zigbee_write_registers env_demo [11, 12] 2 1 4 rtu_demo = Some (rc, t)"
    and r: "rc = 0 \<Longrightarrow> 1 \<le> w' \<and> j < x_max (mp rtu_demo) \<Longrightarrow> reg (mp t) w' j =
        (if nat 4 \<le> j \<and> j < nat 4 + nat 2 \<and>
            (w' = nat 1 \<or> kind_at (mp rtu_demo) (nat 1) j = MAP_FLASH1 \<and> kind_at (mp rtu_demo) w' j = MAP_FLASH1)
         then [11, 12] ! (j - nat 4) else reg (mp rtu_demo) w' j)" for w' j
    by blast
  show ?thesis
    using t r [of 1 5] by (simp add: rtu_demo_eval)
qed

text \<open>
  Durability: a write of plain registers that returned 0 has reached the flash files for
  every register that is kept in one.
\<close>

theorem write_registers_durable:
  assumes "map_wf (mp s)" "args_ok (x_max (mp s)) len well addr"
    and "plain (mp s) (nat well) (nat addr) (nat len)" "nat len \<le> length buf"
    and "zigbee_write_registers e buf len well addr s = Some (0, t)"
    and "nat addr \<le> j" "j < nat addr + nat len"
  shows "(kind_at (mp s) (nat well) j = MAP_FLASH1 \<longrightarrow> disk1 t j = buf ! (j - nat addr)) \<and>
    (kind_at (mp s) (nat well) j = MAP_FLASH2 \<longrightarrow>
       disk2 t (x_max (mp s) * (nat well - 1) + j) = buf ! (j - nat addr))"
proof -
  note a = args_okD [OF assms(2)]
  have w: "write_loop e (nat well) (nat addr) (nat len) buf s = Some (0, t)"
    using assms(2,5) by (simp add: zigbee_write_registers_def)
  note st = write_loop_stored [OF assms(1) a(1-3) assms(3,4) w]
  have "well_synced t (nat well) j"
    using st(2) [of "\<lambda>_. False"] assms(6,7) by simp
  moreover have "reg (mp t) (nat well) j = buf ! (j - nat addr)"
    unfolding st(1) using assms(4,6,7) a by (simp add: reg_store_run nth_take_from)
  ultimately show ?thesis
    using st(1) by (auto simp: well_synced_def synced1_def synced2_def reg_def)
qed

lemma demo_write:
  "\<exists>t. zigbee_write_registers env_demo [11, 12] 2 1 4 rtu_demo = Some (0, t)"
  by (simp add: zigbee_write_registers_def args_ok_def write_cell_def Let_def rtu_demo_eval map_sizes
      msync1_def msync2_def env_demo_def numeral_2_eq_2)

theorem write_registers_durable_witness:
  "\<exists>t. zigbee_write_registers env_demo [11, 12] 2 1 4 rtu_demo = Some (0, t) \<and> disk1 t 5 = 12"
proof -
  obtain t where t: "zigbee_write_registers env_demo [11, 12] 2 1 4 rtu_demo = Some (0, t)"
    using demo_write by blast
  have l: "nat 2 \<le> length [11, 12 :: u16]" by simp
  show ?thesis
    using t write_registers_durable [OF demo_wf demo_args demo_plain l t, of 5] by (simp add: rtu_demo_eval)
qed

lemma read_loop_plain:
  assumes "map_wf (mp s)" "1 \<le> w" "w \<le> 8" "i + n \<le> x_max (mp s)" "plain (mp s) w i n" "n \<le> length buf"
  shows "read_loop e s w i n buf = Some (map (reg (mp s) w) [i..<i + n] @ drop n buf)"
  using assms(4-6)
proof (induction n arbitrary: i buf)
  case 0
  then show ?case by simp
next
  case (Suc n)
  then obtain b bs where buf: "buf = b # bs" by (cases buf) auto
  have "read_cell e s w i b = Some (reg (mp s) w i)"
    using Suc.prems by (intro read_cell_plain assms) (simp_all add: plain_Suc)
  then show ?case
    using Suc.IH [of "Suc i" bs] Suc.prems buf by (simp add: plain_Suc upt_rec)
qed

text \<open>
  C6. Reading back: after a write of plain registers that returned 0, reading the same registers
  of the same well returns the values written, whatever the buffer held.
\<close>

theorem read_after_write:
  assumes "map_wf (mp s)" "args_ok (x_max (mp s)) len well addr"
    and "plain (mp s) (nat well) (nat addr) (nat len)" "nat len = length buf" "length old = length buf"
    and "zigbee_write_registers e buf len well addr s = Some (0, t)"
  shows "zigbee_read_registers e' t old len well addr = Some (0, buf)"
proof -
  note a = args_okD [OF assms(2)]
  have w: "write_loop e (nat well) (nat addr) (nat len) buf s = Some (0, t)"
    using assms(2,6) by (simp add: zigbee_write_registers_def)
  have st: "mp t = store_run (nat well) (nat addr) buf (mp s)"
    using write_loop_stored(1) [OF assms(1) a(1-3) assms(3) _ w] assms(4) by simp
  have "map (reg (mp t) (nat well)) [nat addr..<nat addr + nat len] = buf"
    unfolding st using assms(1,4) a by (intro nth_equalityI) (auto simp: reg_store_run)
  moreover have "read_loop e' t (nat well) (nat addr) (nat len) old =
      Some (map (reg (mp t) (nat well)) [nat addr..<nat addr + nat len] @ drop (nat len) old)"
    using assms(1,3,4,5) a plain_cong [of "mp t" "mp s"] st
    by (intro read_loop_plain) (auto simp: store_run_wf)
  ultimately show ?thesis
    using assms(2,4,5) st by (simp add: zigbee_read_registers_def)
qed

theorem read_after_write_witness:
  "\<exists>t. zigbee_write_registers env_demo [11, 12] 2 1 4 rtu_demo = Some (0, t) \<and>
    zigbee_read_registers env_demo t [0, 0] 2 1 4 = Some (0, [11, 12])"
proof -
  obtain t where t: "zigbee_write_registers env_demo [11, 12] 2 1 4 rtu_demo = Some (0, t)"
    using demo_write by blast
  have l: "nat 2 = length [11, 12 :: u16]" "length [0, 0 :: u16] = length [11, 12 :: u16]" by simp_all
  show ?thesis
    using t read_after_write [OF demo_wf demo_args demo_plain l t] by blast
qed

section \<open>Writing any register is safe\<close>

lemma store_sys_wf:
  assumes "map_wf (mp s)" "f < x_size (mp s)" "r < x_size (mp s)"
  shows "\<exists>t. store_sys e f r v s = Some t \<and> map_wf (mp t) \<and> x_max (mp t) = x_max (mp s)"
proof -
  have "map_wf ((mp s)\<lparr>flash2 := (flash2 (mp s))(f := v), ram_x := (ram_x (mp s))(r := v)\<rparr>)"
    by (rule map_wf_cong [OF assms(1)]) simp_all
  then show ?thesis
    using assms(2,3) by (simp add: store_sys_def frame_simps)
qed

lemma map_map_fun_write_wf:
  assumes "map_wf (mp s)" "1 \<le> w" "w \<le> 8" "i < x_max (mp s)" "tables_fit e (x_max (mp s))"
  shows "\<exists>rc v t. map_map_fun_write e b w i s = Some (rc, v, t) \<and> map_wf (mp t) \<and>
    x_max (mp t) = x_max (mp s)"
proof -
  have b1: "i < x_size (mp s)" using assms(4) by (simp add: map_sizes)
  have b2: "(w - 1) * x_max (mp s) + i < x_size (mp s)" using assms(2-4) by simp
  obtain rc t where remap: "map_item_remap e (of_nat w) b s = Some (rc, t)" "map_wf (mp t)"
      "x_max (mp t) = x_max (mp s)"
    using map_item_remap_wf [OF assms(1-3,5)] by blast
  have wf_x: "map_wf ((mp s)\<lparr>ram_x := rx\<rparr>)" for rx
    by (rule map_wf_cong [OF assms(1)]) simp_all
  consider "i = MAP_CHANGE_WELL_TYPE" | "i \<noteq> MAP_CHANGE_WELL_TYPE" "time_addr i"
    | "i = MAP_CONFIG1" | "i = MAP_CONFIG2_ELEC_INTERV" | "i = MAP_CONFIG2_ACT_INTERV" | "do_addr i"
    | "i = MAP_GET_HISTORY"
    | "i \<noteq> MAP_CHANGE_WELL_TYPE" "\<not> time_addr i" "i \<noteq> MAP_CONFIG1" "i \<noteq> MAP_CONFIG2_ELEC_INTERV"
      "i \<noteq> MAP_CONFIG2_ACT_INTERV" "\<not> do_addr i" "i \<noteq> MAP_GET_HISTORY"
    by blast
  then show ?thesis
  proof cases
    case 1
    then show ?thesis using remap by (simp add: map_map_fun_write_def)
  next
    case 2
    then show ?thesis using assms(1) by (simp add: map_map_fun_write_def map_settime_def Let_def frame_simps)
  next
    case 3
    then show ?thesis using assms(1)
      by (simp add: map_map_fun_write_def rtu_reset_flash1_def Let_def frame_simps reg_addrs time_addr_def)
  next
    case 4
    have "\<exists>t. store_sys e ((w - 1) * x_max (mp s) + i) ((w - 1) * x_max (mp s) + i) b (rtu_conf_elect_interval s)
        = Some t \<and> map_wf (mp t) \<and> x_max (mp t) = x_max (mp s)"
      using store_sys_wf [of "rtu_conf_elect_interval s", OF _ _ _] assms(1) b2
      by (simp add: rtu_conf_elect_interval_def frame_simps)
    then show ?thesis using 4
      by (auto simp: map_map_fun_write_def Let_def reg_addrs time_addr_def)
  next
    case 5
    have "\<exists>t. store_sys e ((w - 1) * x_max (mp s) + i) ((w - 1) * x_max (mp s) + i) b (rtu_conf_act_interval s)
        = Some t \<and> map_wf (mp t) \<and> x_max (mp t) = x_max (mp s)"
      using store_sys_wf [of "rtu_conf_act_interval s"] assms(1) b2
      by (simp add: rtu_conf_act_interval_def frame_simps)
    then show ?thesis using 5
      by (auto simp: map_map_fun_write_def Let_def reg_addrs time_addr_def)
  next
    case 6
    obtain rc u where u: "gpio_set_do s i b = Some (rc, u)"
      using gpio_set_do_total [of i s b] 6 by (auto simp: do_addr_def)
    note fr = gpio_set_do_frame [OF u]
    have "\<exists>t. store_sys e i ((w - 1) * x_max (mp s) + i) b u = Some t \<and> map_wf (mp t) \<and>
        x_max (mp t) = x_max (mp s)"
      using store_sys_wf [of u i] fr assms(1) b1 b2 by simp
    then show ?thesis using 6 u
      by (auto simp: map_map_fun_write_def Let_def reg_addrs time_addr_def do_addr_def)
  next
    case 7
    then show ?thesis using b2 wf_x
      by (simp add: map_map_fun_write_def Let_def reg_addrs time_addr_def do_addr_def
          set_history_data_def frame_simps)
  next
    case 8
    then show ?thesis using assms(1) by (simp add: map_map_fun_write_def Let_def)
  qed
qed

lemma write_cell_wf:
  assumes "map_wf (mp s)" "1 \<le> w" "w \<le> 8" "i < x_max (mp s)" "tables_fit e (x_max (mp s))"
  shows "\<exists>rc v t. write_cell e w i b s = Some (rc, v, t) \<and> map_wf (mp t) \<and>
    x_max (mp t) = x_max (mp s) \<and> (rc = 0 \<or> rc = -1)"
proof (cases "kind_at (mp s) w i = MAP_SYS")
  case True
  have b2: "x_max (mp s) * (w - 1) + i < x_size (mp s)" using assms(2-4) by simp
  obtain rc v t where t: "map_map_fun_write e b w i s = Some (rc, v, t)" "map_wf (mp t)"
      "x_max (mp t) = x_max (mp s)"
    using map_map_fun_write_wf [OF assms] by blast
  have "map_wf ((mp t)\<lparr>ram_x := rx\<rparr>)" for rx
    by (rule map_wf_cong [OF t(2)]) simp_all
  then show ?thesis using True b2 t by (simp add: write_cell_def Let_def)
next
  case False
  from assms(1-4) False show ?thesis
  proof (cases rule: write_cell_plain [where e = e and v = b])
    case (stored t)
    then show ?thesis using store_at_wf [OF assms(1)] by simp
  next
    case (failed t)
    have "map_wf (mp t)" by (rule map_wf_cong [OF assms(1)]) (simp_all add: failed)
    then show ?thesis using failed by simp
  qed
qed

lemma write_loop_wf:
  assumes "map_wf (mp s)" "1 \<le> w" "w \<le> 8" "i + n \<le> x_max (mp s)" "n \<le> length buf"
    "tables_fit e (x_max (mp s))"
  shows "\<exists>rc t. write_loop e w i n buf s = Some (rc, t) \<and> map_wf (mp t) \<and>
    x_max (mp t) = x_max (mp s) \<and> (rc = 0 \<or> rc = -1)"
  using assms(1,4-6)
proof (induction n arbitrary: i buf s)
  case 0
  then show ?case by simp
next
  case (Suc n)
  then obtain b bs where buf: "buf = b # bs" by (cases buf) auto
  have "i < x_max (mp s)" using Suc.prems by simp
  then obtain rc v u where u: "write_cell e w i b s = Some (rc, v, u)" "map_wf (mp u)"
      "x_max (mp u) = x_max (mp s)" "rc = 0 \<or> rc = -1"
    using write_cell_wf [OF Suc.prems(1) assms(2,3)] Suc.prems(4) by blast
  then show ?case
    using Suc.IH [of u "Suc i" bs] Suc.prems buf by auto
qed

lemma zigbee_write_wf:
  assumes "map_wf (mp s)" "tables_fit e (x_max (mp s))" "nat len \<le> length buf"
  shows "\<exists>rc t. zigbee_write_registers e buf len well addr s = Some (rc, t) \<and> map_wf (mp t) \<and>
    x_max (mp t) = x_max (mp s) \<and> (rc = 0 \<or> rc = -1)"
proof (cases "args_ok (x_max (mp s)) len well addr")
  case True
  note a = args_okD [OF True]
  show ?thesis
    using write_loop_wf [OF assms(1) a(1-3) assms(3,2)] True by (simp add: zigbee_write_registers_def)
next
  case False
  then show ?thesis using assms(1) by (simp add: zigbee_write_registers_def)
qed



section \<open>Function registers\<close>

text \<open>
  A digital output register belongs to the device, not to a well: a value written through
  any well drives the output and is what every well reads back, also when the flash could not be
  synchronised (the call reports success all the same).
\<close>

theorem output_register_shared:
  assumes "map_wf (mp s)" "1 \<le> w" "w \<le> 8" "1 \<le> w'" "w' \<le> 8" "do_addr i" "i < x_max (mp s)"
    and "kind_at (mp s) w i = MAP_SYS" "kind_at (mp s) w' i = MAP_SYS"
  shows "\<exists>t u rc. gpio_set_do s i v = Some (rc, u) \<and>
    zigbee_write_registers e [v] 1 (int w) (int i) s = Some (0, t) \<and> out t = out u \<and>
    zigbee_read_registers e' t [b] 1 (int w') (int i) = Some (0, [v])"
proof -
  obtain rc u where u: "gpio_set_do s i v = Some (rc, u)"
    using gpio_set_do_total [of i s v] assms(6) by (auto simp: do_addr_def)
  note fr = gpio_set_do_frame [OF u]
  have a: "args_ok (x_max (mp s)) 1 (int w) (int i)" "args_ok (x_max (mp s)) 1 (int w') (int i)"
    using assms(2-5,7) by (simp_all add: args_ok_def map_sizes)
  have b1: "i < x_size (mp s)" using assms(7) by (simp add: map_sizes)
  have b2: "x_max (mp s) * (w - 1) + i < x_size (mp s)" "(w - 1) * x_max (mp s) + i < x_size (mp s)"
    "x_max (mp s) * (w' - 1) + i < x_size (mp s)"
    using assms(2-5,7) by simp_all
  have ne: "i \<noteq> MAP_CHANGE_WELL_TYPE" "\<not> time_addr i" "i \<noteq> MAP_CONFIG1" "i \<noteq> MAP_CONFIG2_ELEC_INTERV"
    "i \<noteq> MAP_CONFIG2_ACT_INTERV" "i \<noteq> MAP_GET_RTU_VER" "i \<noteq> MAP_GET_BATTERY_VOLTAGE"
    "\<not> i \<le> MAP_GET_MAC0 + 5" "\<not> di_addr i"
    using assms(6) by (auto simp: do_addr_def time_addr_def di_addr_def reg_addrs)
  define m1 where "m1 = (mp s)\<lparr>flash2 := (flash2 (mp s))(i := v),
    ram_x := (ram_x (mp s))((w - 1) * x_max (mp s) + i := v)\<rparr>"
  have "map_map_fun_write e v w i s = Some (0, v, snd (msync2 e (u\<lparr>mp := m1\<rparr>)))"
    using u fr ne assms(6) b1 b2 by (simp add: map_map_fun_write_def store_sys_def m1_def)
  then have wr: "zigbee_write_registers e [v] 1 (int w) (int i) s =
      Some (0, (snd (msync2 e (u\<lparr>mp := m1\<rparr>)))\<lparr>mp := m1\<lparr>ram_x := (ram_x m1)(x_max (mp s) * (w - 1) + i := v)\<rparr>\<rparr>)"
    using a(1) assms(8) b2 by (simp add: zigbee_write_registers_def write_cell_def Let_def frame_simps m1_def)
  let ?t = "(snd (msync2 e (u\<lparr>mp := m1\<rparr>)))\<lparr>mp := m1\<lparr>ram_x := (ram_x m1)(x_max (mp s) * (w - 1) + i := v)\<rparr>\<rparr>"
  have "zigbee_read_registers e' ?t [b] 1 (int w') (int i) = Some (0, [v])"
    using a(2) assms(6,9) ne b1 b2
    by (simp add: zigbee_read_registers_def read_cell_def map_map_fun_read_def Let_def m1_def)
  moreover have "out ?t = out u" by (simp add: msync2_def)
  ultimately show ?thesis using u wr by blast
qed

definition rtu_outputs :: rtu where
  "rtu_outputs = rtu_demo\<lparr>mp := map_demo\<lparr>x_max := 2000, ram_x_map_type := \<lambda>_. MAP_SYS\<rparr>\<rparr>"

theorem output_register_shared_witness:
  "\<exists>t. zigbee_write_registers env_demo [1] 1 2 1862 rtu_outputs = Some (0, t) \<and>
    zigbee_read_registers env_demo t [0] 1 5 1862 = Some (0, [1])"
proof -
  have "map_wf (mp rtu_outputs)" "do_addr 1862" "1862 < x_max (mp rtu_outputs)"
    "kind_at (mp rtu_outputs) 2 1862 = MAP_SYS" "kind_at (mp rtu_outputs) 5 1862 = MAP_SYS"
    by (simp_all add: rtu_outputs_def rtu_demo_eval map_wf_def map_sizes do_addr_def reg_addrs)
  then show ?thesis
    using output_register_shared [of rtu_outputs 2 5 1862 1 env_demo env_demo 0] by auto
qed

lemma put_well_cells:
  assumes "1 \<le> w" "j < X" "1 \<le> w0" "a + n \<le> X"
  shows "put f (X * (w0 - 1) + a) (replicate n c) (X * (w - 1) + j) =
    (if w = w0 \<and> a \<le> j \<and> j < a + n then c else f (X * (w - 1) + j))"
proof (cases "X * (w0 - 1) + a \<le> X * (w - 1) + j \<and> X * (w - 1) + j < X * (w0 - 1) + a + n")
  case True
  then obtain d where d: "X * (w - 1) + j = X * (w0 - 1) + (a + d)" "d < n"
    using le_Suc_ex [of "X * (w0 - 1) + a" "X * (w - 1) + j"] by auto
  then have "w - 1 = w0 - 1" "j = a + d"
    using cell_eq_iff [OF assms(2), of "a + d" "w - 1" "w0 - 1"] assms(4) by auto
  moreover from this have "w = w0" using assms(1,3) by linarith
  ultimately show ?thesis using d by (simp add: put_apply)
next
  case False
  then show ?thesis by (auto simp: put_apply)
qed

text \<open>
  Clearing registers. \<^verbatim>\<open>zigbee_write_registers_mset\<close> fills the ram copy of
  exactly the named registers with the low byte of the value in both halves (so 1 becomes 0x0101);
  the flash and all other registers keep their contents.
\<close>

theorem mset_fills_bytes:
  assumes "args_ok (x_max (mp s)) len well addr"
  shows "\<exists>t. zigbee_write_registers_mset v len well addr s = (0, t) \<and>
    flash1 (mp t) = flash1 (mp s) \<and> flash2 (mp t) = flash2 (mp s) \<and>
    ram_x_map_type (mp t) = ram_x_map_type (mp s) \<and>
    (\<forall>w j. 1 \<le> w \<and> j < x_max (mp s) \<longrightarrow>
       ram_x (mp t) (x_max (mp s) * (w - 1) + j) =
         (if w = nat well \<and> nat addr \<le> j \<and> j < nat addr + nat len
          then bytes_u16 (ucast v) (ucast v) else ram_x (mp s) (x_max (mp s) * (w - 1) + j)))"
proof -
  note a = args_okD [OF assms]
  have "put (ram_x (mp s)) (x_max (mp s) * (nat well - 1) + nat addr) (replicate (nat len) c)
      (x_max (mp s) * (w - 1) + j) =
      (if w = nat well \<and> nat addr \<le> j \<and> j < nat addr + nat len then c
       else ram_x (mp s) (x_max (mp s) * (w - 1) + j))"
    if "1 \<le> w" "j < x_max (mp s)" for w j and c :: u16
    by (rule put_well_cells [OF that a(1,3)])
  then show ?thesis
    using assms by (simp add: zigbee_write_registers_mset_def Let_def)
qed

theorem mset_fills_bytes_witness:
  "\<exists>t. zigbee_write_registers_mset 1 2 1 4 rtu_demo = (0, t) \<and> ram_x (mp t) 4 = 0x0101"
proof -
  have b: "bytes_u16 (ucast (1 :: u16)) (ucast (1 :: u16)) = 0x0101"
    by (simp add: bytes_u16_def)
  obtain t where "zigbee_write_registers_mset 1 2 1 4 rtu_demo = (0, t)"
    and "\<forall>w j. 1 \<le> w \<and> j < x_max (mp rtu_demo) \<longrightarrow>
       ram_x (mp t) (x_max (mp rtu_demo) * (w - 1) + j) =
         (if w = nat 1 \<and> nat 4 \<le> j \<and> j < nat 4 + nat 2
          then bytes_u16 (ucast (1 :: u16)) (ucast (1 :: u16)) else ram_x (mp rtu_demo) (x_max (mp rtu_demo) * (w - 1) + j))"
    using mset_fills_bytes [OF demo_args, of 1] by blast
  moreover from this(2) [rule_format, of 1 4] b have "ram_x (mp t) 4 = 0x0101"
    by (simp add: rtu_demo_eval)
  ultimately show ?thesis by blast
qed

text \<open>
  Remapping is guarded by an off-by-one: well 9, one past the last, is accepted and, when the
  type has a table, the first store already leaves the flash area; wells 0 and 10 and above are
  refused.
\<close>

theorem remap_well_nine:
  assumes "get_map_00_path e ty PATH_MAP_001 = Some (0, p)"
  shows "map_item_remap e 9 ty s = None \<and> map_item_remap e 0 ty s = Some (-1, s) \<and>
    (9 < w \<longrightarrow> map_item_remap e w ty s = Some (-1, s))"
proof (intro conjI impI)
  show "map_item_remap e 9 ty s = None"
    using assms by (simp add: map_item_remap_def Let_def map_sizes wr_def)
  show "map_item_remap e 0 ty s = Some (-1, s)"
    by (simp add: map_item_remap_def Let_def)
  assume "9 < w"
  then have "9 < unat w" by (simp add: word_less_nat_alt)
  then have "int (unat w) - 1 > 8" by linarith
  then show "map_item_remap e w ty s = Some (-1, s)"
    by (simp only: map_item_remap_def Let_def map_sizes) simp
qed

theorem remap_well_nine_witness:
  "map_item_remap env_demo 9 1 rtu_demo = None"
proof -
  have "get_map_00_path env_demo 1 PATH_MAP_001 = Some (0, ''/m1'')"
    by (simp add: get_map_00_path_def env_demo_eval scan_map0_def)
  then show ?thesis using remap_well_nine [of env_demo 1 _ rtu_demo 0] by blast
qed

end
