(* ===== verification/Register_Store.thy ===== *)
theory Register_Store
  imports Register_Facts
begin

text \<open>
  The contract of a register store: cells that can be written one at a time and read back,
  where writing one leaves the others alone. It is proved of the internal registers of a well
  and of the Modbus view of a well, and the properties of the Modbus block operations rest on it.
\<close>

section \<open>The contract\<close>

locale register_store =
  fixes inv :: "'s \<Rightarrow> bool"
    and valid :: "'s \<Rightarrow> 'k \<Rightarrow> bool"
    and cell :: "'s \<Rightarrow> 'k \<Rightarrow> 'v"
    and store :: "'k \<Rightarrow> 'v \<Rightarrow> 's \<Rightarrow> 's option"
  assumes store_total: "inv s \<Longrightarrow> valid s k \<Longrightarrow> \<exists>t. store k v s = Some t"
    and store_inv: "inv s \<Longrightarrow> valid s k \<Longrightarrow> store k v s = Some t \<Longrightarrow> inv t"
    and store_valid: "inv s \<Longrightarrow> valid s k \<Longrightarrow> store k v s = Some t \<Longrightarrow> valid t j = valid s j"
    and cell_store: "inv s \<Longrightarrow> valid s k \<Longrightarrow> valid s j \<Longrightarrow> store k v s = Some t \<Longrightarrow>
      cell t j = (if j = k then v else cell s j)"
begin

fun store_all :: "'k list \<Rightarrow> 'v list \<Rightarrow> 's \<Rightarrow> 's option" where
  "store_all [] vs s = Some s"
| "store_all (k # ks) [] s = None"
| "store_all (k # ks) (v # vs) s = Option.bind (store k v s) (store_all ks vs)"

lemma store_step:
  assumes "inv s" "valid s k" "store k v s = Some u"
  shows "inv u" "valid u = valid s"
  using store_inv [OF assms] store_valid [OF assms] by auto

lemma store_all_total:
  assumes "inv s" "\<forall>k\<in>set ks. valid s k" "length ks \<le> length vs"
  shows "\<exists>t. store_all ks vs s = Some t \<and> inv t \<and> valid t = valid s"
  using assms
proof (induction ks arbitrary: vs s)
  case Nil
  then show ?case by simp
next
  case (Cons k ks)
  then obtain v vs' where vs: "vs = v # vs'" by (cases vs) auto
  have k: "valid s k" using Cons.prems(2) by simp
  obtain u where u: "store k v s = Some u"
    using store_total [OF Cons.prems(1) k] by blast
  note st = store_step [OF Cons.prems(1) k u]
  show ?case
    using Cons.IH [of u vs'] Cons.prems(2,3) st u vs by simp
qed

lemma store_all_frame:
  assumes "inv s" "\<forall>k\<in>set ks. valid s k" "store_all ks vs s = Some t" "valid s j" "j \<notin> set ks"
  shows "cell t j = cell s j"
  using assms
proof (induction ks vs s rule: store_all.induct)
  case (3 k ks v vs s)
  then obtain u where u: "store k v s = Some u" "store_all ks vs u = Some t"
    by (auto split: bind_splits)
  have k: "valid s k" using 3(3) by simp
  note st = store_step [OF 3(2) k u(1)]
  have "cell t j = cell u j"
    by (rule 3(1) [OF u(1) st(1) _ u(2)]) (use 3 st in auto)
  also have "\<dots> = cell s j"
    using cell_store [OF 3(2) k 3(5) u(1)] 3(6) by simp
  finally show ?case .
qed simp_all

lemma store_all_cells:
  assumes "inv s" "\<forall>k\<in>set ks. valid s k" "distinct ks" "length ks = length vs"
    "store_all ks vs s = Some t"
  shows "map (cell t) ks = vs"
  using assms
proof (induction ks vs s rule: store_all.induct)
  case (3 k ks v vs s)
  then obtain u where u: "store k v s = Some u" "store_all ks vs u = Some t"
    by (auto split: bind_splits)
  have k: "valid s k" using 3(3) by simp
  note st = store_step [OF 3(2) k u(1)]
  have "cell t k = cell u k"
    by (rule store_all_frame [OF st(1) _ u(2)]) (use 3 st in auto)
  moreover have "cell u k = v"
    using cell_store [OF 3(2) k k u(1)] by simp
  moreover have "map (cell t) ks = vs"
    by (rule 3(1) [OF u(1) st(1) _ _ _ u(2)]) (use 3 st in auto)
  ultimately show ?case by simp
qed simp_all

end

section \<open>The internal registers of a well\<close>

definition reg_inv :: "env \<Rightarrow> nat \<Rightarrow> rtu \<Rightarrow> bool" where
  "reg_inv e w s \<longleftrightarrow> map_wf (mp s) \<and> 1 \<le> w \<and> w \<le> 8 \<and> (\<forall>k. msync_ok e k)"

definition reg_valid :: "nat \<Rightarrow> rtu \<Rightarrow> nat \<Rightarrow> bool" where
  "reg_valid w s i \<longleftrightarrow> i < x_max (mp s) \<and> kind_at (mp s) w i \<noteq> MAP_SYS"

definition reg_store :: "env \<Rightarrow> nat \<Rightarrow> nat \<Rightarrow> u16 \<Rightarrow> rtu \<Rightarrow> rtu option" where
  "reg_store e w i v s =
     do { (rc, t) \<leftarrow> zigbee_write_registers e [v] 1 (int w) (int i) s; if rc = 0 then Some t else None }"

lemma args_ok_one: "1 \<le> w \<Longrightarrow> w \<le> 8 \<Longrightarrow> i < n \<Longrightarrow> args_ok n 1 (int w) (int i)"
  by (simp add: args_ok_def map_sizes)

lemma write_one:
  assumes "reg_inv e w s" "reg_valid w s i"
  shows "\<exists>t. zigbee_write_registers e [v] 1 (int w) (int i) s = Some (0, t) \<and> mp t = store_at w i v (mp s)"
proof -
  have a: "map_wf (mp s)" "1 \<le> w" "w \<le> 8" "i < x_max (mp s)" "kind_at (mp s) w i \<noteq> MAP_SYS"
    and ok: "\<forall>k. msync_ok e k"
    using assms by (auto simp: reg_inv_def reg_valid_def)
  from a show ?thesis
  proof (cases rule: write_cell_plain [where e = e and v = v])
    case (stored t)
    have "args_ok (x_max (mp s)) 1 (int w) (int i)"
      using a by (simp add: args_ok_def map_sizes)
    then show ?thesis
      using stored by (simp add: zigbee_write_registers_def)
  next
    case failed
    then show ?thesis using ok by blast
  qed
qed

interpretation regs: register_store "reg_inv e w" "reg_valid w" "\<lambda>s. reg (mp s) w" "reg_store e w" for e w
proof
  fix s t :: rtu and k j :: nat and v :: u16
  assume iv: "reg_inv e w s" "reg_valid w s k"
  then obtain u where u: "reg_store e w k v s = Some u" "mp u = store_at w k v (mp s)"
    using write_one [of e w s k v] by (auto simp: reg_store_def)
  then show "\<exists>t. reg_store e w k v s = Some t" by blast
  assume "reg_store e w k v s = Some t"
  with u have t: "mp t = store_at w k v (mp s)" by simp
  show "reg_inv e w t" using iv t store_at_wf by (simp add: reg_inv_def)
  show "reg_valid w t j = reg_valid w s j" by (simp add: reg_valid_def t)
  assume "reg_valid w s j"
  then show "reg (mp t) w j = (if j = k then v else reg (mp s) w j)"
    using iv reg_store_at [of w w k "mp s" j v] by (simp add: t reg_inv_def reg_valid_def)
qed

section \<open>The Modbus view of a well\<close>

abbreviation y_kind :: "map_t \<Rightarrow> nat \<Rightarrow> nat \<Rightarrow> map_kind" where
  "y_kind m w i \<equiv> ram_y_map_type m (MAX_REGISTER_NUM * (w - 1) + i)"

abbreviation y_val :: "map_t \<Rightarrow> nat \<Rightarrow> nat \<Rightarrow> u16" where
  "y_val m w i \<equiv> ram_y m (MAX_REGISTER_NUM * (w - 1) + i)"

text \<open>What Modbus sees at \<open>i\<close>: the entry itself or the internal register it names.\<close>

definition yreg :: "map_t \<Rightarrow> nat \<Rightarrow> nat \<Rightarrow> u16" where
  "yreg m w i = (if y_kind m w i = MAP_RAM then reg m w (unat (y_val m w i)) else y_val m w i)"

text \<open>
  A writable entry: free, or naming a plain register marked read/write that no other entry of the
  well names.
\<close>

definition y_valid :: "nat \<Rightarrow> rtu \<Rightarrow> nat \<Rightarrow> bool" where
  "y_valid w s i \<longleftrightarrow>
     i < MAX_REGISTER_NUM \<and>
     (y_kind (mp s) w i = MAP_RAM \<longrightarrow>
        reg_valid w s (unat (y_val (mp s) w i)) \<and>
        ram_x_map_rw (mp s) (x_max (mp s) * (w - 1) + unat (y_val (mp s) w i)) = MAP_RW \<and>
        (\<forall>j<MAX_REGISTER_NUM. y_kind (mp s) w j = MAP_RAM \<and> y_val (mp s) w j = y_val (mp s) w i \<longrightarrow> j = i))"

definition y_store :: "env \<Rightarrow> nat \<Rightarrow> nat \<Rightarrow> u16 \<Rightarrow> rtu \<Rightarrow> rtu option" where
  "y_store e w i v s = do { (move, t) \<leftarrow> modbus_write_cell e w i v s; if move then Some t else None }"

text \<open>The map after such a write.\<close>

definition y_put :: "nat \<Rightarrow> nat \<Rightarrow> u16 \<Rightarrow> map_t \<Rightarrow> map_t" where
  "y_put w i v m =
     (if y_kind m w i = MAP_RAM then store_at w (unat (y_val m w i)) v m
      else m\<lparr>ram_y := (ram_y m)(MAX_REGISTER_NUM * (w - 1) + i := v)\<rparr>)"

lemma map_wf_y:
  assumes "map_wf m" "1 \<le> w" "w \<le> 8" "i < MAX_REGISTER_NUM"
  shows "y_kind m w i \<in> {MAP_NULL, MAP_RAM}" "y_kind m w i = MAP_RAM \<Longrightarrow> unat (y_val m w i) < x_max m"
  using assms cell_bound' [of w i MAX_REGISTER_NUM] unfolding map_wf_def by auto

lemma y_write:
  assumes "reg_inv e w s" "y_valid w s i"
  shows "\<exists>t. modbus_write_cell e w i v s = Some (True, t) \<and> mp t = y_put w i v (mp s)"
proof -
  have a: "map_wf (mp s)" "1 \<le> w" "w \<le> 8" "i < MAX_REGISTER_NUM"
    using assms by (auto simp: reg_inv_def y_valid_def)
  have b: "MAX_REGISTER_NUM * (w - 1) + i < y_size" using a by simp
  show ?thesis
  proof (cases "y_kind (mp s) w i = MAP_RAM")
    case True
    then have v: "reg_valid w s (unat (y_val (mp s) w i))"
      "ram_x_map_rw (mp s) (x_max (mp s) * (w - 1) + unat (y_val (mp s) w i)) = MAP_RW"
      using assms(2) by (auto simp: y_valid_def)
    then have "x_max (mp s) * (w - 1) + unat (y_val (mp s) w i) < x_size (mp s)"
      using a by (simp add: reg_valid_def)
    then show ?thesis
      using b True v write_one [OF assms(1) v(1), of v]
      by (auto simp: modbus_write_cell_def Let_def y_put_def)
  next
    case False
    then have "y_kind (mp s) w i = MAP_NULL" using map_wf_y [OF a] by auto
    then show ?thesis using b by (auto simp: modbus_write_cell_def Let_def y_put_def)
  qed
qed

lemma y_put_wf:
  assumes "map_wf m" "1 \<le> w" "w \<le> 8" "i < MAX_REGISTER_NUM"
  shows "map_wf (y_put w i v m)"
proof (cases "y_kind m w i = MAP_RAM")
  case True
  then show ?thesis using store_at_wf [OF assms(1)] by (simp add: y_put_def)
next
  case False
  then show ?thesis using assms(1) by (auto simp: y_put_def map_wf_def)
qed

lemma yreg_y_put:
  assumes "reg_inv e w s" "y_valid w s i" "y_valid w s j"
  shows "yreg (y_put w i v (mp s)) w j = (if j = i then v else yreg (mp s) w j)"
proof (cases "y_kind (mp s) w i = MAP_RAM")
  case True
  let ?x = "unat (y_val (mp s) w i)"
  have i: "1 \<le> w" "?x < x_max (mp s)" "i < MAX_REGISTER_NUM" "j < MAX_REGISTER_NUM"
    using assms True by (auto simp: reg_inv_def y_valid_def reg_valid_def)
  have put: "y_put w i v (mp s) = store_at w ?x v (mp s)"
    using True by (simp add: y_put_def)
  show ?thesis
  proof (cases "y_kind (mp s) w j = MAP_RAM")
    case jr: True
    have j: "unat (y_val (mp s) w j) < x_max (mp s)"
      using assms(3) jr by (simp add: y_valid_def reg_valid_def)
    have "unat (y_val (mp s) w j) = ?x \<longleftrightarrow> j = i"
      using assms(2) True jr i(4) unfolding y_valid_def by (metis unsigned_word_eqI)
    then show ?thesis
      using jr True reg_store_at [OF i(1,1,2) j, of v] by (simp add: yreg_def put)
  next
    case False
    then show ?thesis using True by (auto simp: yreg_def put store_at_def)
  qed
next
  case False
  let ?m = "(mp s)\<lparr>ram_y := (ram_y (mp s))(MAX_REGISTER_NUM * (w - 1) + i := v)\<rparr>"
  have "reg ?m w x = reg (mp s) w x" for x by (simp add: reg_def cong: map_kind.case_cong)
  moreover have "y_put w i v (mp s) = ?m" using False by (simp add: y_put_def)
  ultimately show ?thesis using False by (auto simp: yreg_def)
qed

interpretation modbus_regs: register_store "reg_inv e w" "y_valid w" "\<lambda>s. yreg (mp s) w" "y_store e w" for e w
proof
  fix s t :: rtu and k j :: nat and v :: u16
  assume iv: "reg_inv e w s" "y_valid w s k"
  then obtain u where u: "y_store e w k v s = Some u" "mp u = y_put w k v (mp s)"
    using y_write [of e w s k v] by (auto simp: y_store_def)
  then show "\<exists>t. y_store e w k v s = Some t" by blast
  assume "y_store e w k v s = Some t"
  with u have t: "mp t = y_put w k v (mp s)" by simp
  show "reg_inv e w t"
    using iv t y_put_wf [of "mp s" w k v] by (auto simp: reg_inv_def y_valid_def)
  show "y_valid w t j = y_valid w s j"
    using iv by (auto simp: y_valid_def reg_valid_def t y_put_def)
  assume "y_valid w s j"
  then show "yreg (mp t) w j = (if j = k then v else yreg (mp s) w j)"
    using yreg_y_put [OF iv] t by simp
qed

section \<open>Modbus blocks\<close>

lemma to_from_big_l [simp]: "to_big_l b (from_big_l b v) = v"
proof (cases b)
  case True
  have d: "from_big_l True v = push_bit 8 (ucast v) OR ucast (drop_bit 8 v :: u16)"
    unfolding from_big_l_def by (simp, subst disjunctive_add_eq_or)
      (auto intro!: bit_word_eqI simp: bit_simps)
  have "to_big_l True (from_big_l True v) = v"
    unfolding d to_big_l_def
    by (rule bit_word_eqI) (auto simp: bytes_u16_def and_255 bit_simps)
  with True show ?thesis by simp
qed (simp add: to_big_l_def from_big_l_def)

lemma modbus_write_loop_store_all:
  assumes "reg_inv e w s" "\<forall>j\<in>set [i..<i + n]. y_valid w s j" "n \<le> length buf"
  shows "\<exists>t. modbus_write_loop e b w i n buf s = Some (0, t) \<and>
    modbus_regs.store_all e w [i..<i + n] (map (from_big_l b) (take n buf)) s = Some t"
  using assms
proof (induction n arbitrary: i buf s)
  case 0
  then show ?case by simp
next
  case (Suc n)
  then obtain x xs where buf: "buf = x # xs" by (cases buf) auto
  have k: "y_valid w s i" by (rule bspec [OF Suc.prems(2)]) auto
  obtain u where u: "modbus_write_cell e w i (from_big_l b x) s = Some (True, u)"
    using y_write [OF Suc.prems(1) k] by blast
  then have us: "y_store e w i (from_big_l b x) s = Some u" by (simp add: y_store_def)
  note st = modbus_regs.store_step [OF Suc.prems(1) k us]
  have up: "[i..<i + Suc n] = i # [Suc i..<Suc i + n]" by (simp add: upt_rec)
  have rest: "\<forall>j\<in>set [Suc i..<Suc i + n]. y_valid w u j"
    unfolding st(2) using Suc.prems(2) unfolding up by simp
  obtain t where "modbus_write_loop e b w (Suc i) n xs u = Some (0, t)"
    "modbus_regs.store_all e w [Suc i..<Suc i + n] (map (from_big_l b) (take n xs)) u = Some t"
    using Suc.IH [OF st(1) rest, of xs] Suc.prems(3) buf by auto
  then show ?case
    unfolding up using u us buf by simp
qed

text \<open>An entry that can be read without calling a function register.\<close>

definition y_readable :: "nat \<Rightarrow> rtu \<Rightarrow> nat \<Rightarrow> bool" where
  "y_readable w s i \<longleftrightarrow>
     i < MAX_REGISTER_NUM \<and> (y_kind (mp s) w i = MAP_RAM \<longrightarrow> reg_valid w s (unat (y_val (mp s) w i)))"

lemma y_valid_readable: "y_valid w s i \<Longrightarrow> y_readable w s i"
  by (auto simp: y_valid_def y_readable_def)

lemma modbus_read_cell_valid:
  assumes "map_wf (mp s)" "1 \<le> w" "w \<le> 8" "y_readable w s i"
  shows "modbus_read_cell e' s w i rc = Some (yreg (mp s) w i)"
proof -
  have a: "map_wf (mp s)" "1 \<le> w" "w \<le> 8" "i < MAX_REGISTER_NUM"
    using assms by (auto simp: y_readable_def)
  have b: "MAX_REGISTER_NUM * (w - 1) + i < y_size" using a by simp
  show ?thesis
  proof (cases "y_kind (mp s) w i = MAP_RAM")
    case True
    then have v: "unat (y_val (mp s) w i) < x_max (mp s)" "kind_at (mp s) w (unat (y_val (mp s) w i)) \<noteq> MAP_SYS"
      using assms(4) by (auto simp: y_readable_def reg_valid_def)
    note args_ok_one [OF a(2,3) v(1)]
    then show ?thesis
      using b True read_cell_plain [OF a(1-3) v]
      by (simp add: modbus_read_cell_def Let_def yreg_def zigbee_read_registers_def)
  next
    case False
    then have "y_kind (mp s) w i = MAP_NULL" using map_wf_y [OF a] by auto
    then show ?thesis using b by (simp add: modbus_read_cell_def Let_def yreg_def)
  qed
qed

lemma modbus_read_loop_valid:
  assumes "map_wf (mp s)" "1 \<le> w" "w \<le> 8" "\<forall>j\<in>set [i..<i + n]. y_readable w s j" "n \<le> length buf"
  shows "modbus_read_loop e' s b w i rc n buf = Some (map (to_big_l b \<circ> yreg (mp s) w) [i..<i + n] @ drop n buf)"
  using assms(4,5)
proof (induction n arbitrary: i buf rc)
  case 0
  then show ?case by simp
next
  case (Suc n)
  then obtain x xs where buf: "buf = x # xs" by (cases buf) auto
  have k: "y_readable w s i" by (rule bspec [OF Suc.prems(1)]) auto
  have up: "[i..<i + Suc n] = i # [Suc i..<Suc i + n]" by (simp add: upt_rec)
  have ih: "modbus_read_loop e' s b w (Suc i) rc' n xs =
      Some (map (to_big_l b \<circ> yreg (mp s) w) [Suc i..<Suc i + n] @ drop n xs)" for rc'
    using Suc.IH [of "Suc i" xs rc'] Suc.prems buf by auto
  show ?case
    unfolding up by (simp add: buf modbus_read_cell_valid [OF assms(1-3) k] ih)
qed

text \<open>
  C7. Modbus block write and read. When every entry of the block is free or names a plain writable
  register of its own, and the flash can be synchronised, writing the block returns 0, reading it
  with the same byte order gives back the same buffer, and every other writable entry of the
  well reads as before.
\<close>

theorem modbus_block_roundtrip:
  assumes "reg_inv e (nat well) s" "args_ok MAX_REGISTER_NUM len well addr"
    and "\<forall>j\<in>set [nat addr..<nat addr + nat len]. y_valid (nat well) s j"
    and "nat len = length buf" "length old = length buf"
  shows "\<exists>t. map_modbus_write_registers e buf len well addr b s = Some (0, t) \<and>
    map_modbus_read_registers e' t old len well addr b = Some (0, buf) \<and>
    (\<forall>j. y_valid (nat well) s j \<and> \<not> (nat addr \<le> j \<and> j < nat addr + nat len) \<longrightarrow>
       yreg (mp t) (nat well) j = yreg (mp s) (nat well) j)"
proof -
  let ?w = "nat well" and ?ks = "[nat addr..<nat addr + nat len]"
  obtain t where t: "modbus_write_loop e b ?w (nat addr) (nat len) buf s = Some (0, t)"
    "modbus_regs.store_all e ?w ?ks (map (from_big_l b) buf) s = Some t"
    using modbus_write_loop_store_all [OF assms(1,3), of buf b] assms(4) by auto
  have inv: "reg_inv e ?w t" "y_valid ?w t = y_valid ?w s"
    using modbus_regs.store_all_total [OF assms(1,3), of "map (from_big_l b) buf"] t(2) assms(4) by auto
  have cells: "map (yreg (mp t) ?w) ?ks = map (from_big_l b) buf"
    by (rule modbus_regs.store_all_cells [OF assms(1,3) _ _ t(2)]) (simp_all add: assms(4))
  have "map (to_big_l b \<circ> yreg (mp t) ?w) ?ks = map (to_big_l b) (map (yreg (mp t) ?w) ?ks)"
    by simp
  also have "\<dots> = buf" by (simp only: cells map_map) (simp add: o_def)
  finally have buf: "map (to_big_l b \<circ> yreg (mp t) ?w) ?ks = buf" .
  have wf: "map_wf (mp t)" "1 \<le> ?w" "?w \<le> 8" "\<forall>j\<in>set ?ks. y_readable ?w t j"
    using inv assms(3) y_valid_readable by (auto simp: reg_inv_def)
  have "modbus_read_loop e' t b ?w (nat addr) (-1) (nat len) old = Some buf"
    using modbus_read_loop_valid [OF wf, of old e' b "-1"] assms(4,5) buf by simp
  moreover have "\<forall>j. y_valid ?w s j \<and> \<not> (nat addr \<le> j \<and> j < nat addr + nat len) \<longrightarrow>
      yreg (mp t) ?w j = yreg (mp s) ?w j"
    using modbus_regs.store_all_frame [OF assms(1,3) t(2)] by simp
  ultimately show ?thesis
    using t(1) assms(2) by (auto simp: map_modbus_write_registers_def map_modbus_read_registers_def)
qed

text \<open>
  A read-only register inside a Modbus block shifts the rest: the value meant for it is not
  dropped but stored in the next entry, because the buffer pointer is not advanced.
\<close>

theorem modbus_write_shifts:
  assumes "map_wf (mp s)" "1 \<le> w" "w \<le> 8" "Suc i < MAX_REGISTER_NUM"
    and "y_kind (mp s) w i = MAP_RAM"
    and "ram_x_map_rw (mp s) (x_max (mp s) * (w - 1) + unat (y_val (mp s) w i)) \<noteq> MAP_RW"
    and "y_kind (mp s) w (Suc i) = MAP_NULL"
  shows "\<exists>t. map_modbus_write_registers e [v1, v2] 2 (int w) (int i) False s = Some (0, t) \<and>
    yreg (mp t) w (Suc i) = v1 \<and> y_val (mp t) w (Suc i) = v1"
proof -
  have b: "MAX_REGISTER_NUM * (w - 1) + i < y_size" "MAX_REGISTER_NUM * (w - 1) + Suc i < y_size"
    using assms(2-4) cell_bound' [of w i MAX_REGISTER_NUM] cell_bound' [of w "Suc i" MAX_REGISTER_NUM]
    by simp_all
  have "unat (y_val (mp s) w i) < x_max (mp s)"
    using map_wf_y [OF assms(1-3), of i] assms(4,5) by simp
  then have x: "x_max (mp s) * (w - 1) + unat (y_val (mp s) w i) < x_size (mp s)"
    using assms(2,3) by simp
  have a: "args_ok MAX_REGISTER_NUM 2 (int w) (int i)"
    using assms(2-4) by (simp add: args_ok_def map_sizes)
  have "modbus_write_cell e w i v1 s = Some (False, s)"
    using b x assms(5,6) by (simp add: modbus_write_cell_def Let_def)
  then show ?thesis
    using a b assms(7)
    by (simp add: map_modbus_write_registers_def numeral_2_eq_2 from_big_l_def)
      (simp add: modbus_write_cell_def Let_def yreg_def)
qed

theorem modbus_write_shifts_witness:
  "\<exists>t. map_modbus_write_registers env_demo [21, 22] 2 1 8 False rtu_demo = Some (0, t) \<and>
    y_val (mp t) 1 9 = 21"
proof -
  have "y_kind (mp rtu_demo) 1 8 = MAP_RAM"
    "ram_x_map_rw (mp rtu_demo) (x_max (mp rtu_demo) * (1 - 1) + unat (y_val (mp rtu_demo) 1 8)) \<noteq> MAP_RW"
    "y_kind (mp rtu_demo) 1 (Suc 8) = MAP_NULL"
    by (simp_all add: rtu_demo_eval)
  from modbus_write_shifts [OF demo_wf _ _ _ this, of env_demo 21 22]
  show ?thesis by (auto simp: map_sizes)
qed

theorem modbus_block_roundtrip_witness:
  "\<exists>t. map_modbus_write_registers env_demo [21, 22] 2 1 6 True rtu_demo = Some (0, t) \<and>
    map_modbus_read_registers env_demo t [0, 0] 2 1 6 True = Some (0, [21, 22])"
proof -
  have "reg_inv env_demo (nat 1) rtu_demo"
    using demo_wf by (simp add: reg_inv_def env_demo_def)
  moreover have "args_ok MAX_REGISTER_NUM 2 1 6"
    by (simp add: args_ok_def map_sizes)
  moreover have "\<forall>j\<in>set [nat 6..<nat 6 + nat 2]. y_valid (nat 1) rtu_demo j"
    by (auto simp: y_valid_def reg_valid_def rtu_demo_eval map_sizes upt_rec)
  ultimately show ?thesis
    using modbus_block_roundtrip [of env_demo 1 rtu_demo 2 6 "[21, 22]" "[0, 0]" True env_demo] by force
qed

end
