(* ===== verification/Modbus.thy ===== *)
theory Modbus
  imports Receive Register_Store
begin

text \<open>
  The Modbus requests and responses of \<^verbatim>\<open>libmodbus-3.0.6/src/modbus.c\<close>, as adapted
  by the program: \<^verbatim>\<open>modbus_reply\<close> serves the register map of a well,
  \<^verbatim>\<open>modbus_read_registers\<close>, \<^verbatim>\<open>modbus_write_register\<close> and
  \<^verbatim>\<open>modbus_write_registers\<close> are the master side. A call of
  \<^verbatim>\<open>send\<close> takes its result from a list, an exhausted list is a call that never
  returns; received bytes come in chunks.
\<close>

section \<open>Building messages\<close>

record ctx =
  backend_of :: backend
  ctx_slave :: int
  error_recovery_link :: bool
  t_id :: u16

record sft =
  sft_slave :: nat
  sft_function :: nat
  sft_t_id :: nat

definition hi_byte :: "u16 \<Rightarrow> u8" where "hi_byte v = ucast (drop_bit 8 v)"
definition lo_byte :: "u16 \<Rightarrow> u8" where "lo_byte v = ucast (v AND 0xFF)"

text \<open>
  The transaction number of the TCP requests is a static variable of the routine; it is kept in
  the context. The RTU routine asserts that a slave is set.
\<close>

definition build_request_basis :: "ctx \<Rightarrow> u8 \<Rightarrow> int \<Rightarrow> int \<Rightarrow> (u8 list \<times> ctx) option" where
  "build_request_basis c function addr nb =
     (let tl = [word_of_int (ctx_slave c), function,
                word_of_int (drop_bit 8 addr), word_of_int (addr AND 0xFF),
                word_of_int (drop_bit 8 nb), word_of_int (nb AND 0xFF)]
      in if backend_of c = Backend_tcp then
           (let t = (if t_id c < 0xFFFF then t_id c + 1 else 0)
            in Some ([hi_byte t, lo_byte t, 0, 0, 0, 0] @ tl, c\<lparr>t_id := t\<rparr>))
         else if ctx_slave c = -1 then None
         else Some (tl, c))"

text \<open>Bytes 4 and 5 of a TCP message are written by \<^verbatim>\<open>send_msg_pre\<close>.\<close>

definition build_response_basis :: "backend \<Rightarrow> sft \<Rightarrow> u8 list" where
  "build_response_basis be sft =
     (let tl = [of_nat (sft_slave sft), of_nat (sft_function sft)]
      in if be = Backend_tcp
         then [of_nat (sft_t_id sft div 256), of_nat (sft_t_id sft mod 256), 0, 0, 0, 0] @ tl
         else tl)"

definition tcp_send_msg_pre :: "u8 list \<Rightarrow> u8 list" where
  "tcp_send_msg_pre req =
     (let mbap_length = of_int (int (length req) - 6) :: u16
      in req[4 := hi_byte mbap_length, 5 := lo_byte mbap_length])"

definition send_msg_pre :: "backend \<Rightarrow> u8 list \<Rightarrow> u8 list" where
  "send_msg_pre be req = (if be = Backend_tcp then tcp_send_msg_pre req else rtu_send_msg_pre req)"

fun send_loop :: "bool \<Rightarrow> int list \<Rightarrow> int option" where
  "send_loop link [] = None"
| "send_loop link (rc # rcs) = (if link \<and> rc = -1 then send_loop link rcs else Some rc)"

text \<open>The result of \<^verbatim>\<open>send_msg\<close> and the bytes handed to \<^verbatim>\<open>send\<close>.\<close>

definition send_msg :: "backend \<Rightarrow> bool \<Rightarrow> u8 list \<Rightarrow> int list \<Rightarrow> (int \<times> u8 list) option" where
  "send_msg be link msg sends =
     (let msg = send_msg_pre be msg in do {
        rc \<leftarrow> send_loop link sends;
        Some (if rc > 0 \<and> rc \<noteq> int (length msg) then -1 else rc, msg) })"

section \<open>The slave\<close>

definition MODBUS_MAX_READ_REGISTERS :: nat where "MODBUS_MAX_READ_REGISTERS = 1020"
definition MODBUS_MAX_WRITE_REGISTERS :: nat where "MODBUS_MAX_WRITE_REGISTERS = 123"
definition RTU_MAX_READ_REGISTER :: nat where "RTU_MAX_READ_REGISTER = 10000"
definition MAX_A118_MESSAGE_LENGTH :: nat where "MAX_A118_MESSAGE_LENGTH = 260 + 1020 * 2"
definition MODBUS_EXCEPTION_ILLEGAL_FUNCTION :: u8 where "MODBUS_EXCEPTION_ILLEGAL_FUNCTION = 1"
definition MODBUS_EXCEPTION_ILLEGAL_DATA_ADDRESS :: u8 where "MODBUS_EXCEPTION_ILLEGAL_DATA_ADDRESS = 2"
definition MODBUS_EXCEPTION_ILLEGAL_DATA_VALUE :: u8 where "MODBUS_EXCEPTION_ILLEGAL_DATA_VALUE = 3"

lemmas modbus_limits = MODBUS_MAX_READ_REGISTERS_def MODBUS_MAX_WRITE_REGISTERS_def
  RTU_MAX_READ_REGISTER_def MAX_A118_MESSAGE_LENGTH_def

lemmas modbus_exceptions = MODBUS_EXCEPTION_ILLEGAL_FUNCTION_def
  MODBUS_EXCEPTION_ILLEGAL_DATA_ADDRESS_def MODBUS_EXCEPTION_ILLEGAL_DATA_VALUE_def

definition response_exception :: "backend \<Rightarrow> sft \<Rightarrow> u8 \<Rightarrow> u8 list" where
  "response_exception be sft exception_code =
     build_response_basis be (sft\<lparr>sft_function := sft_function sft + 0x80\<rparr>) @ [exception_code]"

text \<open>Two bytes of the message, as the 16-bit objects that the register routines see.\<close>

definition halfwords :: "nat \<Rightarrow> u8 list \<Rightarrow> u16 list option" where
  "halfwords n bs =
     (if length bs < 2 * n then None
      else Some (map (\<lambda>k. bytes_u16 (bs ! (2 * k)) (bs ! (2 * k + 1))) [0..<n]))"

text \<open>
  The response of a read has the registers where \<^verbatim>\<open>map_modbus_read_registers\<close> puts
  them; that part of the buffer is not initialised before, and zeros stand for it.
\<close>

definition reply_read :: "backend \<Rightarrow> env \<Rightarrow> sft \<Rightarrow> nat \<Rightarrow> nat \<Rightarrow> rtu \<Rightarrow> u8 list option" where
  "reply_read be e sft address nb s =
     (if nb < 1 \<or> MODBUS_MAX_READ_REGISTERS < nb
      then Some (response_exception be sft MODBUS_EXCEPTION_ILLEGAL_DATA_VALUE)
      else if address + nb > RTU_MAX_READ_REGISTER
      then Some (response_exception be sft MODBUS_EXCEPTION_ILLEGAL_DATA_ADDRESS)
      else do {
        (_, vs) \<leftarrow> map_modbus_read_registers e s (replicate nb 0) (int nb) (int (sft_slave sft)) (int address) True;
        Some (build_response_basis be sft @ [of_nat (nb * 2)] @ concat (map u16_bytes vs)) })"

definition reply_write_single ::
  "backend \<Rightarrow> env \<Rightarrow> sft \<Rightarrow> u8 list \<Rightarrow> int \<Rightarrow> nat \<Rightarrow> rtu \<Rightarrow> (u8 list \<times> rtu) option" where
  "reply_write_single be e sft req req_length address s =
     (if address \<ge> RTU_MAX_READ_REGISTER
      then Some (response_exception be sft MODBUS_EXCEPTION_ILLEGAL_DATA_ADDRESS, s)
      else do {
        vs \<leftarrow> halfwords 1 (drop (header_length be + 3) req);
        (_, s) \<leftarrow> map_modbus_write_registers e vs 1 (int (sft_slave sft)) (int address) True s;
        if req_length < 0 \<or> int (length req) < req_length \<or> int MAX_A118_MESSAGE_LENGTH < req_length then None
        else Some (take (nat req_length) req, s) })"

definition reply_write_multiple ::
  "backend \<Rightarrow> env \<Rightarrow> sft \<Rightarrow> u8 list \<Rightarrow> nat \<Rightarrow> nat \<Rightarrow> rtu \<Rightarrow> (u8 list \<times> rtu) option" where
  "reply_write_multiple be e sft req address nb s =
     (if nb < 1 \<or> MODBUS_MAX_WRITE_REGISTERS < nb
      then Some (response_exception be sft MODBUS_EXCEPTION_ILLEGAL_DATA_VALUE, s)
      else if address + nb > RTU_MAX_READ_REGISTER
      then Some (response_exception be sft MODBUS_EXCEPTION_ILLEGAL_DATA_ADDRESS, s)
      else do {
        vs \<leftarrow> halfwords nb (drop (header_length be + 6) req);
        (_, s) \<leftarrow> map_modbus_write_registers e vs (int nb) (int (sft_slave sft)) (int address) True s;
        let rsp = build_response_basis be sft;
        Some (rsp @ take 4 (drop (length rsp) req), s) })"

text \<open>
  \<open>req\<close> is the receive buffer, \<open>req_length\<close> the length of the message in it. The result is the
  return value, what was handed to \<^verbatim>\<open>send\<close> (\<^const>\<open>None\<close>: nothing) and the
  state. The filters of all backends accept every slave.
\<close>

definition prepare_response_tid :: "backend \<Rightarrow> u8 list \<Rightarrow> int \<Rightarrow> (nat \<times> int) option" where
  "prepare_response_tid be req req_length =
     (if be = Backend_tcp then do { a \<leftarrow> byte_at req 0; b \<leftarrow> byte_at req 1; Some (a * 256 + b, req_length) }
      else Some (0, req_length - 2))"

definition reply_function ::
  "backend \<Rightarrow> env \<Rightarrow> sft \<Rightarrow> u8 list \<Rightarrow> int \<Rightarrow> nat \<Rightarrow> rtu \<Rightarrow> (u8 list \<times> rtu) option" where
  "reply_function be e sft req req_length address s =
     (let h = header_length be; function = (of_nat (sft_function sft) :: u8) in
      if function = FC_READ_HOLDING_REGISTERS then do {
        n1 \<leftarrow> byte_at req (h + 3); n2 \<leftarrow> byte_at req (h + 4);
        rsp \<leftarrow> reply_read be e sft address (n1 * 256 + n2) s; Some (rsp, s) }
      else if function = FC_WRITE_SINGLE_REGISTER then reply_write_single be e sft req req_length address s
      else if function = FC_WRITE_MULTIPLE_REGISTERS then do {
        n1 \<leftarrow> byte_at req (h + 3); n2 \<leftarrow> byte_at req (h + 4);
        reply_write_multiple be e sft req address (n1 * 256 + n2) s }
      else Some (response_exception be sft MODBUS_EXCEPTION_ILLEGAL_FUNCTION, s))"

definition modbus_reply ::
  "backend \<Rightarrow> bool \<Rightarrow> env \<Rightarrow> u8 list \<Rightarrow> int \<Rightarrow> int list \<Rightarrow> rtu \<Rightarrow> (int \<times> u8 list option \<times> rtu) option" where
  "modbus_reply be link e req req_length sends s = do {
     let h = header_length be;
     slave \<leftarrow> byte_at req (h - 1);
     function \<leftarrow> byte_at req h;
     a1 \<leftarrow> byte_at req (h + 1);
     a2 \<leftarrow> byte_at req (h + 2);
     if slave < 1 \<or> slave > MAX_WELL_NUM then Some (0, None, s)
     else do {
       (tid, req_length) \<leftarrow> prepare_response_tid be req req_length;
       let s = s\<lparr>led_status := (led_status s)(1 := led_status s 1 + 1)\<rparr>;
       (rsp, s) \<leftarrow> reply_function be e \<lparr>sft_slave = slave, sft_function = function, sft_t_id = tid\<rparr>
                     req req_length (a1 * 256 + a2) s;
       (rc, msg) \<leftarrow> send_msg be link rsp sends;
       Some (rc, Some msg, s) } }"

section \<open>The master\<close>

datatype modbus_error = EMBMDATA | EMBBADDATA | EMBX nat | EMBBADEXC | NO_MESSAGE

text \<open>\<open>-1\<close> is \<^verbatim>\<open>MSG_LENGTH_UNDEFINED\<close>.\<close>

definition compute_response_length_from_request :: "backend \<Rightarrow> u8 list \<Rightarrow> int option" where
  "compute_response_length_from_request be req =
     (let offset = header_length be in do {
        f \<leftarrow> byte_at req offset;
        if f = 17 then Some (-1)
        else do {
          length \<leftarrow>
            (if f = 1 \<or> f = 2 then do {
               n1 \<leftarrow> byte_at req (offset + 3); n2 \<leftarrow> byte_at req (offset + 4);
               Some (2 + (n1 * 256 + n2) div 8 + (if (n1 * 256 + n2) mod 8 \<noteq> 0 then 1 else 0)) }
             else if f = 23 \<or> f = 3 \<or> f = 4 then do {
               n1 \<leftarrow> byte_at req (offset + 3); n2 \<leftarrow> byte_at req (offset + 4);
               Some (2 + 2 * (n1 * 256 + n2)) }
             else if f = 7 then Some 3
             else Some 5);
          Some (int (offset + length + checksum_length be)) } })"

text \<open>The two numbers that a response must make equal.\<close>

definition conf_values :: "nat \<Rightarrow> nat \<Rightarrow> u8 list \<Rightarrow> u8 list \<Rightarrow> (nat \<times> nat) option" where
  "conf_values offset function req rsp =
     (if function = 1 \<or> function = 2 then do {
        n1 \<leftarrow> byte_at req (offset + 3); n2 \<leftarrow> byte_at req (offset + 4);
        r \<leftarrow> byte_at rsp (offset + 1);
        let n = n1 * 256 + n2;
        Some (n div 8 + (if n mod 8 \<noteq> 0 then 1 else 0), r) }
      else if function = 23 \<or> function = 3 \<or> function = 4 then do {
        n1 \<leftarrow> byte_at req (offset + 3); n2 \<leftarrow> byte_at req (offset + 4);
        r \<leftarrow> byte_at rsp (offset + 1);
        Some (n1 * 256 + n2, r div 2) }
      else if function = 15 \<or> function = 16 then do {
        n1 \<leftarrow> byte_at req (offset + 3); n2 \<leftarrow> byte_at req (offset + 4);
        r1 \<leftarrow> byte_at rsp (offset + 3); r2 \<leftarrow> byte_at rsp (offset + 4);
        Some (n1 * 256 + n2, r1 * 256 + r2) }
      else if function = 17 then do { r \<leftarrow> byte_at rsp (offset + 1); Some (r, r) }
      else Some (1, 1))"

definition pre_check_confirmation :: "backend \<Rightarrow> u8 list \<Rightarrow> u8 list \<Rightarrow> bool option" where
  "pre_check_confirmation be req rsp =
     (if be = Backend_tcp then do {
        a \<leftarrow> byte_at req 0; b \<leftarrow> byte_at rsp 0;
        if a \<noteq> b then Some False else do {
          a \<leftarrow> byte_at req 1; b \<leftarrow> byte_at rsp 1; Some (a = b) } }
      else Some True)"

definition check_confirmation ::
  "backend \<Rightarrow> u8 list \<Rightarrow> u8 list \<Rightarrow> int \<Rightarrow> (modbus_error + nat) option" where
  "check_confirmation be req rsp rsp_length =
     (let offset = header_length be in do {
        ok \<leftarrow> pre_check_confirmation be req rsp;
        if \<not> ok then Some (Inl EMBBADDATA) else do {
        computed \<leftarrow> compute_response_length_from_request be req;
        fq \<leftarrow> byte_at req offset;
        if rsp_length = computed \<or> computed = -1 then do {
          f \<leftarrow> byte_at rsp offset;
          if f \<noteq> fq then Some (Inl EMBBADDATA) else do {
          (req_nb_value, rsp_nb_value) \<leftarrow> conf_values offset f req rsp;
          Some (if req_nb_value = rsp_nb_value then Inr rsp_nb_value else Inl EMBBADDATA) } }
        else if rsp_length = int (offset + 2 + checksum_length be) then do {
          f \<leftarrow> byte_at rsp offset;
          if int fq \<noteq> int f - 0x80 then Some (Inl EMBBADDATA) else do {
          exception_code \<leftarrow> byte_at rsp (offset + 1);
          Some (Inl (if exception_code < 12 then EMBX exception_code else EMBBADEXC)) } }
        else Some (Inl EMBBADDATA) } })"

text \<open>
  Sending a request and checking the confirmation: the message received, and the value that
  \<^verbatim>\<open>check_confirmation\<close> returns. A \<^verbatim>\<open>send\<close> that returns 0 or less ends
  the call with that value and without an answer.
\<close>

datatype answer = Answer nat "u8 list" | Refused modbus_error | Not_sent int

text \<open>The value that a call returns.\<close>

definition answer_rc :: "answer \<Rightarrow> int" where
  "answer_rc ans = (case ans of Answer n _ \<Rightarrow> int n | Refused _ \<Rightarrow> -1 | Not_sent rc \<Rightarrow> rc)"

definition request_response ::
  "ctx \<Rightarrow> u8 list \<Rightarrow> int list \<Rightarrow> u8 list list \<Rightarrow> (answer \<times> u8 list) option" where
  "request_response c req sends chunks =
     (let be = backend_of c in do {
        (rc, sent) \<leftarrow> send_msg be (error_recovery_link c) req sends;
        if rc > 0 then do {
          rc \<leftarrow> modbus_receive_confirmation be chunks;
          if rc = -1 then Some (Refused NO_MESSAGE, sent)
          else (case receive_msg be MSG_CONFIRMATION chunks of
                  Rx_done rsp _ \<Rightarrow> do {
                    r \<leftarrow> check_confirmation be req rsp rc;
                    Some (case r of Inl err \<Rightarrow> Refused err | Inr n \<Rightarrow> Answer n rsp, sent) }
                | _ \<Rightarrow> None) }
        else Some (Not_sent rc, sent) })"

text \<open>The results: what the call answers, the destination array, the bytes sent.\<close>

fun store_response :: "nat \<Rightarrow> u8 list \<Rightarrow> nat \<Rightarrow> u16 list \<Rightarrow> u16 list option" where
  "store_response offset rsp 0 dest = Some dest"
| "store_response offset rsp (Suc n) [] = None"
| "store_response offset rsp (Suc n) (d # ds) = do {
     h \<leftarrow> byte_at rsp (offset + 2); l \<leftarrow> byte_at rsp (offset + 3);
     vs \<leftarrow> store_response (offset + 2) rsp n ds;
     Some (of_nat (h * 256 + l) # vs) }"

definition read_registers ::
  "ctx \<Rightarrow> u8 \<Rightarrow> int \<Rightarrow> int \<Rightarrow> u16 list \<Rightarrow> int list \<Rightarrow> u8 list list \<Rightarrow> (answer \<times> u16 list \<times> u8 list) option" where
  "read_registers c function addr nb dest sends chunks =
     (if nb > int MODBUS_MAX_READ_REGISTERS then Some (Refused EMBMDATA, dest, [])
      else do {
        (req, c) \<leftarrow> build_request_basis c function addr nb;
        (ans, sent) \<leftarrow> request_response c req sends chunks;
        case ans of
          Answer n rsp \<Rightarrow> do { dest \<leftarrow> store_response (header_length (backend_of c)) rsp n dest; Some (ans, dest, sent) }
        | _ \<Rightarrow> Some (ans, dest, sent) })"

definition modbus_read_registers ::
  "ctx \<Rightarrow> int \<Rightarrow> int \<Rightarrow> u16 list \<Rightarrow> int list \<Rightarrow> u8 list list \<Rightarrow> (answer \<times> u16 list \<times> u8 list) option" where
  "modbus_read_registers c addr nb dest sends chunks =
     (if nb > int MODBUS_MAX_READ_REGISTERS then Some (Refused EMBMDATA, dest, [])
      else read_registers c FC_READ_HOLDING_REGISTERS addr nb dest sends chunks)"

definition modbus_write_register ::
  "ctx \<Rightarrow> int \<Rightarrow> int \<Rightarrow> int list \<Rightarrow> u8 list list \<Rightarrow> (answer \<times> u8 list) option" where
  "modbus_write_register c addr v sends chunks = do {
     (req, c) \<leftarrow> build_request_basis c FC_WRITE_SINGLE_REGISTER addr v;
     request_response c req sends chunks }"

text \<open>A negative count writes a request without data.\<close>

definition write_request :: "u8 list \<Rightarrow> int \<Rightarrow> u16 list \<Rightarrow> u8 list option" where
  "write_request basis nb src =
     (if length src < nat nb then None
      else Some (basis @ [word_of_int (nb * 2)] @ concat (map (\<lambda>v. [hi_byte v, lo_byte v]) (take (nat nb) src))))"

definition modbus_write_registers ::
  "ctx \<Rightarrow> int \<Rightarrow> int \<Rightarrow> u16 list \<Rightarrow> int list \<Rightarrow> u8 list list \<Rightarrow> (answer \<times> u8 list) option" where
  "modbus_write_registers c addr nb src sends chunks =
     (if nb > int MODBUS_MAX_WRITE_REGISTERS then Some (Refused EMBMDATA, [])
      else do {
        (basis, c) \<leftarrow> build_request_basis c FC_WRITE_MULTIPLE_REGISTERS addr nb;
        req \<leftarrow> write_request basis nb src;
        request_response c req sends chunks })"

end
