(* ===== verification/Modbus_Facts.thy ===== *)
theory Modbus_Facts
  imports Modbus
begin

text \<open>
  What the Modbus slave answers, and what a master gets that talks to it over a serial line:
  the exceptions, the registers read and written, and the composition of master, framing,
  reassembly and slave.
\<close>

section \<open>Frames as seen by the slave\<close>

text \<open>A request: \<open>pre\<close> is what precedes the slave address (nothing, or six bytes of TCP header).\<close>

definition pre_of :: "backend \<Rightarrow> u8 list \<Rightarrow> bool" where
  "pre_of be pre \<longleftrightarrow> Suc (length pre) = header_length be"

definition rtu_header :: "u8 \<Rightarrow> u8 \<Rightarrow> nat \<Rightarrow> nat \<Rightarrow> u8 list" where
  "rtu_header slave function a n =
     [slave, function, of_nat (a div 256), of_nat (a mod 256), of_nat (n div 256), of_nat (n mod 256)]"

lemma byte_at_append: "length pre \<le> i \<Longrightarrow> byte_at (pre @ xs) i = byte_at xs (i - length pre)"
  by (auto simp: byte_at_def nth_append)

lemma byte_at_Cons [simp]:
  "byte_at (x # xs) 0 = Some (unat x)" "byte_at (x # xs) (Suc i) = byte_at xs i"
  by (simp_all add: byte_at_def)

lemma byte_at_Cons_numeral [simp]: "byte_at (x # xs) (numeral k) = byte_at xs (pred_numeral k)"
  by (simp add: numeral_eq_Suc)

lemma unat_of_nat_u8 [simp]: "unat (of_nat n :: u8) = n mod 256"
  by (simp add: unat_of_nat take_bit_nat_def)

lemma header_fields:
  assumes "pre_of be pre" "a < 65536" "n < 65536"
  shows "byte_at (pre @ rtu_header sl f a n @ rest) (header_length be - 1) = Some (unat sl)"
    "byte_at (pre @ rtu_header sl f a n @ rest) (header_length be) = Some (unat f)"
    "byte_at (pre @ rtu_header sl f a n @ rest) (header_length be + 1) = Some (a div 256)"
    "byte_at (pre @ rtu_header sl f a n @ rest) (header_length be + 2) = Some (a mod 256)"
    "byte_at (pre @ rtu_header sl f a n @ rest) (header_length be + 3) = Some (n div 256)"
    "byte_at (pre @ rtu_header sl f a n @ rest) (header_length be + 4) = Some (n mod 256)"
proof -
  have l: "header_length be = Suc (length pre)" using assms(1) by (simp add: pre_of_def)
  have "a div 256 < 256" "n div 256 < 256" using assms(2,3) by auto
  then show "byte_at (pre @ rtu_header sl f a n @ rest) (header_length be - 1) = Some (unat sl)"
    "byte_at (pre @ rtu_header sl f a n @ rest) (header_length be) = Some (unat f)"
    "byte_at (pre @ rtu_header sl f a n @ rest) (header_length be + 1) = Some (a div 256)"
    "byte_at (pre @ rtu_header sl f a n @ rest) (header_length be + 2) = Some (a mod 256)"
    "byte_at (pre @ rtu_header sl f a n @ rest) (header_length be + 3) = Some (n div 256)"
    "byte_at (pre @ rtu_header sl f a n @ rest) (header_length be + 4) = Some (n mod 256)"
    by (simp_all add: l byte_at_append rtu_header_def Suc_diff_le del: byte_at_some)
qed

text \<open>The head of the answer.\<close>

definition answer_head :: "backend \<Rightarrow> u8 list \<Rightarrow> u8 \<Rightarrow> u8 \<Rightarrow> u8 list" where
  "answer_head be pre slave function =
     (if be = Backend_tcp then [pre ! 0, pre ! 1, 0, 0, 0, 0] else []) @ [slave, function]"

definition counted :: "rtu \<Rightarrow> rtu" where
  "counted s = s\<lparr>led_status := (led_status s)(1 := led_status s 1 + 1)\<rparr>"

lemma counted_mp [simp]: "mp (counted s) = mp s"
  by (simp add: counted_def)

definition tid_of :: "backend \<Rightarrow> u8 list \<Rightarrow> nat" where
  "tid_of be pre = (if be = Backend_tcp then unat (pre ! 0) * 256 + unat (pre ! 1) else 0)"

lemma prepare_tid:
  assumes "pre_of be pre"
  shows "prepare_response_tid be (pre @ xs) n =
    Some (tid_of be pre, if be = Backend_tcp then n else n - 2)"
  using assms
  by (cases be) (auto simp: prepare_response_tid_def tid_of_def pre_of_def byte_at_def nth_append)

lemma response_basis:
  assumes "pre_of be pre"
  shows "build_response_basis be \<lparr>sft_slave = sl, sft_function = f, sft_t_id = tid_of be pre\<rparr> =
    answer_head be pre (of_nat sl) (of_nat f)"
proof -
  have "unat (pre ! 1) < 256" using unsigned_less [of "pre ! 1"] by simp
  then show ?thesis by (simp add: build_response_basis_def answer_head_def tid_of_def)
qed

lemma modbus_reply_served:
  assumes "pre_of be pre" "a < 65536" "n < 65536" "1 \<le> unat sl" "unat sl \<le> 8"
  shows "modbus_reply be link e (pre @ rtu_header sl f a n @ rest) len sends s =
    do { (rsp, s) \<leftarrow> reply_function be e \<lparr>sft_slave = unat sl, sft_function = unat f, sft_t_id = tid_of be pre\<rparr>
           (pre @ rtu_header sl f a n @ rest) (if be = Backend_tcp then len else len - 2) a (counted s);
         (rc, msg) \<leftarrow> send_msg be link rsp sends;
         Some (rc, Some msg, s) }"
  using assms(4,5) header_fields [OF assms(1-3), of sl f rest]
  by (simp add: modbus_reply_def Let_def prepare_tid [OF assms(1)] MAX_WELL_NUM_def counted_def)

section \<open>The answers of the slave\<close>

text \<open>The exception that the protocol demands for a request, if any.\<close>

definition exception_of :: "u8 \<Rightarrow> nat \<Rightarrow> nat \<Rightarrow> u8 option" where
  "exception_of f a n =
     (if f = 3 \<or> f = 16 then
        (if n = 0 \<or> n > (if f = 3 then 1020 else 123) then Some 3
         else if a + n > 10000 then Some 2 else None)
      else if f = 6 then (if a < 10000 then None else Some 2)
      else Some 1)"

text \<open>What is sent when the answer is \<open>rsp\<close> and \<^verbatim>\<open>send\<close> returns \<open>k\<close>.\<close>

definition answered :: "backend \<Rightarrow> int \<Rightarrow> u8 list \<Rightarrow> rtu \<Rightarrow> int \<times> u8 list option \<times> rtu" where
  "answered be k rsp s =
     (if k > 0 \<and> k \<noteq> int (length (send_msg_pre be rsp)) then -1 else k, Some (send_msg_pre be rsp), s)"

lemma send_once: "k \<noteq> -1 \<or> \<not> link \<Longrightarrow> send_msg be link rsp [k] =
    Some (if k > 0 \<and> k \<noteq> int (length (send_msg_pre be rsp)) then -1 else k, send_msg_pre be rsp)"
  by (auto simp: send_msg_def Let_def)

lemma exception_frame:
  assumes "pre_of be pre"
  shows "response_exception be \<lparr>sft_slave = unat sl, sft_function = unat f, sft_t_id = tid_of be pre\<rparr> ec =
    answer_head be pre sl (f + 0x80) @ [ec]"
  using response_basis [OF assms, of "unat sl" "unat f + 0x80"] by (simp add: response_exception_def)

lemma halfwords_drop:
  "halfwords k (drop (header_length be + 3 + j) xs) = halfwords k (drop j (drop 3 (drop (header_length be) xs)))"
  by (simp add: add.commute add.left_commute)

text \<open>
  Requests that the slave refuses: a function code other than 3, 6 and 16, a number of
  registers outside the limits, and a range that leaves the 10000 registers of a well are answered
  with the exception code that the protocol demands, and no register changes.
\<close>

theorem reply_exceptions:
  assumes "pre_of be pre" "a < 65536" "n < 65536" "1 \<le> unat sl" "unat sl \<le> 8"
    and "exception_of f a n = Some ec" "k \<noteq> -1 \<or> \<not> link"
  shows "modbus_reply be link e (pre @ rtu_header sl f a n @ rest) len [k] s =
    Some (answered be k (answer_head be pre sl (f + 0x80) @ [ec]) (counted s))"
proof -
  let ?sft = "\<lparr>sft_slave = unat sl, sft_function = unat f, sft_t_id = tid_of be pre\<rparr>"
  have "reply_function be e ?sft (pre @ rtu_header sl f a n @ rest) len' a (counted s) =
      Some (response_exception be ?sft ec, counted s)" for len'
    using assms(6) header_fields [OF assms(1-3), of sl f rest]
    by (auto simp: reply_function_def Let_def fc_defs reply_read_def reply_write_single_def
        reply_write_multiple_def exception_of_def modbus_limits modbus_exceptions split: if_splits)
  then show ?thesis
    using send_once [OF assms(7)]
    by (simp add: modbus_reply_served [OF assms(1-5)] exception_frame [OF assms(1)] answered_def)
qed

theorem reply_exceptions_witness:
  "modbus_reply Backend_rtu False env_demo (rtu_header 2 3 9999 2) 8 [5] rtu_demo =
    Some (answered Backend_rtu 5 [2, 0x83, 2] (counted rtu_demo))"
proof -
  have "pre_of Backend_rtu []" "exception_of 3 9999 2 = Some 2"
    by (simp_all add: pre_of_def exception_of_def)
  from reply_exceptions [OF this(1) _ _ _ _ this(2), of 2 5 False env_demo "[]" 8 rtu_demo]
  show ?thesis by (simp add: answer_head_def)
qed

lemma args_ok_nat:
  "1 \<le> w \<Longrightarrow> w \<le> 8 \<Longrightarrow> 1 \<le> n \<Longrightarrow> a + n \<le> 10000 \<Longrightarrow> args_ok MAX_REGISTER_NUM (int n) (int w) (int a)"
  by (simp add: args_ok_def map_sizes)

text \<open>The register block of a request as the register routines see it.\<close>

definition be_bytes :: "u16 \<Rightarrow> u8 list" where
  "be_bytes v = [hi_byte v, lo_byte v]"

lemma length_be_bytes [simp]: "length (concat (map be_bytes vs)) = 2 * length vs"
  by (induction vs) (simp_all add: be_bytes_def)

lemma function_reads:
  assumes "pre_of be pre" "1 \<le> unat sl" "unat sl \<le> 8" "1 \<le> n" "n \<le> 1020" "a + n \<le> 10000"
    and "map_wf (mp s)" "\<forall>j\<in>set [a..<a + n]. y_readable (unat sl) s j"
  shows "reply_function be e \<lparr>sft_slave = unat sl, sft_function = 3, sft_t_id = tid_of be pre\<rparr>
      (pre @ rtu_header sl 3 a n @ rest) len a s =
    Some (answer_head be pre sl 3 @ [of_nat (2 * n)] @ concat (map (be_bytes \<circ> yreg (mp s) (unat sl)) [a..<a + n]), s)"
proof -
  let ?w = "unat sl"
  let ?sft = "\<lparr>sft_slave = ?w, sft_function = 3, sft_t_id = tid_of be pre\<rparr>"
  have lt: "a < 65536" "n < 65536" using assms(5,6) by auto
  have args: "args_ok MAX_REGISTER_NUM (int n) (int ?w) (int a)"
    by (rule args_ok_nat [OF assms(2-4,6)])
  have regs: "map_modbus_read_registers e s (replicate n 0) (int n) (int ?w) (int a) True =
      Some (0, map (to_big_l True \<circ> yreg (mp s) ?w) [a..<a + n])"
    using modbus_read_loop_valid [OF assms(7,2,3,8), of "replicate n 0" e True "-1"] args
    by (simp add: map_modbus_read_registers_def)
  have big: "u16_bytes (to_big_l True v) = be_bytes v" for v
    by (simp add: to_big_l_def hi_byte_def lo_byte_def be_bytes_def)
  have "reply_read be e ?sft a n s =
      Some (answer_head be pre sl 3 @ [of_nat (2 * n)] @ concat (map (be_bytes \<circ> yreg (mp s) ?w) [a..<a + n]))"
    using assms(4-6) regs response_basis [OF assms(1), of ?w 3]
    by (simp add: reply_read_def modbus_limits o_def big mult.commute)
  then show ?thesis
    using header_fields(5,6) [OF assms(1) lt, of sl 3 rest]
    by (simp add: reply_function_def Let_def fc_defs)
qed

text \<open>
  C37. Reading registers (function 3): for a legal range of entries that no function register
  stands behind, the answer holds the byte count and the registers in order, the high byte first,
  and the map does not change. The count is the low byte of twice the number of registers.
\<close>

theorem reply_reads:
  assumes "pre_of be pre" "1 \<le> unat sl" "unat sl \<le> 8" "1 \<le> n" "n \<le> 1020" "a + n \<le> 10000"
    and "map_wf (mp s)" "\<forall>j\<in>set [a..<a + n]. y_readable (unat sl) s j" "k \<noteq> -1 \<or> \<not> link"
  shows "modbus_reply be link e (pre @ rtu_header sl 3 a n @ rest) len [k] s =
    Some (answered be k (answer_head be pre sl 3 @ [of_nat (2 * n)] @
      concat (map (be_bytes \<circ> yreg (mp s) (unat sl)) [a..<a + n])) (counted s))"
proof -
  have "a < 65536" "n < 65536" "\<forall>j\<in>set [a..<a + n]. y_readable (unat sl) (counted s) j"
    using assms(5,6,8) by (auto simp: y_readable_def reg_valid_def)
  then show ?thesis
    using send_once [OF assms(9)] function_reads [OF assms(1-6), of "counted s" e rest] assms(7)
    by (simp add: modbus_reply_served [OF assms(1) _ _ assms(2,3)] answered_def)
qed

text \<open>Here the master asks for 200 registers: the count says 144 bytes, 400 follow.\<close>

theorem reply_reads_witness:
  "\<exists>bs. modbus_reply Backend_rtu False env_demo (rtu_header 1 3 1000 200) 8 [405] rtu_demo =
    Some (answered Backend_rtu 405 ([1, 3, 144] @ bs) (counted rtu_demo)) \<and> length bs = 400"
proof -
  have "pre_of Backend_rtu []" "\<forall>j\<in>set [1000..<1000 + 200]. y_readable (unat (1 :: u8)) rtu_demo j"
    by (auto simp: pre_of_def y_readable_def rtu_demo_eval map_sizes)
  note fits = this
  have m: "(400 :: u8) = 144" by simp
  from reply_reads [OF fits(1) _ _ _ _ _ demo_wf fits(2), of 405 False env_demo "[]" 8]
  have "modbus_reply Backend_rtu False env_demo (rtu_header 1 3 1000 200) 8 [405] rtu_demo =
      Some (answered Backend_rtu 405 ([1, 3, 144] @ concat (map (be_bytes \<circ> yreg (mp rtu_demo) 1) [1000..<1000 + 200]))
        (counted rtu_demo))"
    using m by (simp add: answer_head_def del: upt_conv_Cons_Cons upt_rec_numeral)
  moreover
  have "length (concat (map (be_bytes \<circ> f) [a..<a + n])) = 2 * n" for f :: "nat \<Rightarrow> u16" and a n
    using length_be_bytes [of "map f [a..<a + n]"] by simp
  from this [of "yreg (mp rtu_demo) 1" 1000 200]
  have "length (concat (map (be_bytes \<circ> yreg (mp rtu_demo) 1) [1000..<1000 + 200])) = 400"
    by (rule trans) simp
  ultimately show ?thesis by blast
qed

lemma hi_lo_swap [simp]: "from_big_l True (bytes_u16 (hi_byte v) (lo_byte v)) = v"
proof -
  have "ucast (hi_byte v) = (drop_bit 8 v :: u16)"
    unfolding hi_byte_def by (rule bit_word_eqI) (auto simp: bit_simps dest: bit_imp_le_length)
  moreover have "ucast (lo_byte v) = (v AND 0xFF :: u16)"
    unfolding lo_byte_def and_255 by (rule bit_word_eqI) (auto simp: bit_simps dest: bit_imp_le_length)
  moreover have "push_bit 8 (drop_bit 8 v) + (v AND 0xFF) = v"
    unfolding and_255
    by (subst disjunctive_add_eq_or) (auto intro!: bit_word_eqI simp: bit_simps)
  ultimately show ?thesis by (simp add: from_big_l_def)
qed

lemma be_bytes_nth:
  "k < length vs \<Longrightarrow> (concat (map be_bytes vs) @ xs) ! (2 * k) = hi_byte (vs ! k)"
  "k < length vs \<Longrightarrow> (concat (map be_bytes vs) @ xs) ! (2 * k + 1) = lo_byte (vs ! k)"
  by (induction vs arbitrary: k) (auto simp: be_bytes_def nth_Cons split: nat.splits)

lemma halfwords_be_bytes:
  "halfwords (length vs) (concat (map be_bytes vs) @ xs) = Some (map (\<lambda>v. bytes_u16 (hi_byte v) (lo_byte v)) vs)"
  unfolding halfwords_def using be_bytes_nth
  by (auto intro!: nth_equalityI)

text \<open>Writing a block of writable entries.\<close>

lemma block_written:
  assumes "reg_inv e w s" "\<forall>j\<in>set [i..<i + length vs]. y_valid w s j"
  shows "\<exists>t. modbus_write_loop e True w i (length vs) (map (\<lambda>v. bytes_u16 (hi_byte v) (lo_byte v)) vs) s = Some (0, t) \<and>
    reg_inv e w t \<and> y_valid w t = y_valid w s \<and> map (yreg (mp t) w) [i..<i + length vs] = vs \<and>
    (\<forall>j. y_valid w s j \<and> \<not> (i \<le> j \<and> j < i + length vs) \<longrightarrow> yreg (mp t) w j = yreg (mp s) w j)"
proof -
  let ?buf = "map (\<lambda>v. bytes_u16 (hi_byte v) (lo_byte v)) vs" and ?ks = "[i..<i + length vs]"
  have vs: "map (from_big_l True) (take (length vs) ?buf) = vs" by (simp add: o_def)
  obtain t where t: "modbus_write_loop e True w i (length vs) ?buf s = Some (0, t)"
    "modbus_regs.store_all e w ?ks vs s = Some t"
    using modbus_write_loop_store_all [OF assms, of ?buf True] vs by auto
  then show ?thesis
    using modbus_regs.store_all_total [OF assms, of vs] modbus_regs.store_all_cells [OF assms _ _ t(2)]
      modbus_regs.store_all_frame [OF assms t(2)] by auto
qed

lemma counted_inv [simp]: "reg_inv e w (counted s) = reg_inv e w s" "y_valid w (counted s) = y_valid w s"
  by (auto simp: reg_inv_def y_valid_def reg_valid_def)

lemma function_writes:
  assumes "pre_of be pre" "1 \<le> length vs" "length vs \<le> 123" "a + length vs \<le> 10000"
    and "reg_inv e (unat sl) s" "\<forall>j\<in>set [a..<a + length vs]. y_valid (unat sl) s j"
  shows "\<exists>t. (\<forall>len. reply_function be e \<lparr>sft_slave = unat sl, sft_function = 16, sft_t_id = tid_of be pre\<rparr>
        (pre @ rtu_header sl 16 a (length vs) @ [cnt] @ concat (map be_bytes vs) @ junk) len a s =
      Some (answer_head be pre sl 16 @ drop 2 (rtu_header sl 16 a (length vs)), t)) \<and>
    map_wf (mp t) \<and> map (yreg (mp t) (unat sl)) [a..<a + length vs] = vs \<and>
    (\<forall>j. y_valid (unat sl) s j \<and> \<not> (a \<le> j \<and> j < a + length vs) \<longrightarrow>
       yreg (mp t) (unat sl) j = yreg (mp s) (unat sl) j) \<and>
    reg_inv e (unat sl) t \<and> y_valid (unat sl) t = y_valid (unat sl) s"
proof -
  let ?w = "unat sl" and ?n = "length vs"
  let ?req = "pre @ rtu_header sl 16 a ?n @ [cnt] @ concat (map be_bytes vs) @ junk"
  let ?sft = "\<lparr>sft_slave = ?w, sft_function = 16, sft_t_id = tid_of be pre\<rparr>"
  have lt: "a < 65536" "?n < 65536" and w: "1 \<le> ?w" "?w \<le> 8"
    using assms(3-5) by (auto simp: reg_inv_def)
  obtain t where t: "modbus_write_loop e True ?w a ?n (map (\<lambda>v. bytes_u16 (hi_byte v) (lo_byte v)) vs) s = Some (0, t)"
    and p: "reg_inv e ?w t" "map (yreg (mp t) ?w) [a..<a + ?n] = vs"
      "\<forall>j. y_valid ?w s j \<and> \<not> (a \<le> j \<and> j < a + ?n) \<longrightarrow> yreg (mp t) ?w j = yreg (mp s) ?w j"
      "y_valid ?w t = y_valid ?w s"
    using block_written [of e ?w s a vs] assms(5,6) by auto
  have l: "header_length be = Suc (length pre)" using assms(1) by (simp add: pre_of_def)
  have data: "drop (header_length be + 6) ?req = concat (map be_bytes vs) @ junk"
    by (simp add: l rtu_header_def)
  have hd: "length (answer_head be pre sl 16) = header_length be + 1"
    by (cases be) (simp_all add: answer_head_def)
  have tl: "take 4 (drop (header_length be + 1) ?req) = drop 2 (rtu_header sl 16 a ?n)"
    by (simp add: l rtu_header_def)
  have args: "args_ok MAX_REGISTER_NUM (int ?n) (int ?w) (int a)" by (rule args_ok_nat [OF w assms(2,4)])
  have wr: "map_modbus_write_registers e (map (\<lambda>v. bytes_u16 (hi_byte v) (lo_byte v)) vs) (int ?n) (int ?w) (int a)
      True s = Some (0, t)"
    unfolding map_modbus_write_registers_def using t args by simp
  have limits: "\<not> (?n < 1 \<or> 123 < ?n)" "\<not> 10000 < a + ?n" using assms(2-4) by linarith+
  have basis: "build_response_basis be ?sft = answer_head be pre sl 16"
    using response_basis [OF assms(1), of ?w 16] by simp
  have "reply_write_multiple be e ?sft ?req a ?n s =
      Some (answer_head be pre sl 16 @ drop 2 (rtu_header sl 16 a ?n), t)"
    unfolding reply_write_multiple_def modbus_limits data halfwords_be_bytes bind.simps Let_def
    using limits wr basis by (simp only: if_False bind.simps sft.simps case_prod_conv hd tl)
  then have "reply_function be e ?sft ?req len' a s =
      Some (answer_head be pre sl 16 @ drop 2 (rtu_header sl 16 a ?n), t)" for len'
    using header_fields(5,6) [OF assms(1) lt, of sl 16 "[cnt] @ concat (map be_bytes vs) @ junk"]
    by (simp add: reply_function_def Let_def fc_defs del: append.simps)
  then show ?thesis using p unfolding reg_inv_def by blast
qed

text \<open>
  Writing registers (function 16): when the entries are writable and the flash can be
  synchronised, the values of the request are in the registers afterwards, every other writable
  entry of the well is unchanged, and the answer repeats the address and the number.
\<close>

theorem reply_writes:
  assumes "pre_of be pre" "1 \<le> length vs" "length vs \<le> 123" "a + length vs \<le> 10000"
    and "reg_inv e (unat sl) s" "\<forall>j\<in>set [a..<a + length vs]. y_valid (unat sl) s j" "k \<noteq> -1 \<or> \<not> link"
  shows "\<exists>t. modbus_reply be link e (pre @ rtu_header sl 16 a (length vs) @ [cnt] @ concat (map be_bytes vs) @ junk) len [k] s =
      Some (answered be k (answer_head be pre sl 16 @ drop 2 (rtu_header sl 16 a (length vs))) t) \<and>
    map_wf (mp t) \<and> map (yreg (mp t) (unat sl)) [a..<a + length vs] = vs \<and>
    (\<forall>j. y_valid (unat sl) s j \<and> \<not> (a \<le> j \<and> j < a + length vs) \<longrightarrow>
       yreg (mp t) (unat sl) j = yreg (mp s) (unat sl) j)"
proof -
  have lt: "a < 65536" "length vs < 65536" and w: "1 \<le> unat sl" "unat sl \<le> 8"
    using assms(3-5) by (auto simp: reg_inv_def)
  show ?thesis
    using function_writes [OF assms(1-4), of e sl "counted s" cnt junk] assms(5,6) send_once [OF assms(7)]
    by (auto simp: modbus_reply_served [OF assms(1) lt w] answered_def simp del: append.simps)
qed

lemma demo_writable: "\<forall>j\<in>set [6..<6 + 2]. y_valid (unat (1 :: u8)) rtu_demo j" "reg_inv env_demo (unat (1 :: u8)) rtu_demo"
  using demo_wf
  by (auto simp: y_valid_def reg_valid_def rtu_demo_eval map_sizes upt_rec reg_inv_def env_demo_def)

theorem reply_writes_witness:
  "\<exists>t. modbus_reply Backend_rtu False env_demo (rtu_header 1 16 6 2 @ [4, 0x12, 0x34, 0, 9]) 13 [8] rtu_demo =
      Some (answered Backend_rtu 8 [1, 16, 0, 6, 0, 2] t) \<and>
    yreg (mp t) 1 6 = 0x1234"
proof -
  let ?vs = "[0x1234, 9] :: u16 list"
  have pre: "pre_of Backend_rtu []" by (simp add: pre_of_def)
  have b: "concat (map be_bytes ?vs) = [0x12, 0x34, 0, 9]"
    by (simp add: be_bytes_def hi_byte_def lo_byte_def)
  obtain t where "modbus_reply Backend_rtu False env_demo
        ([] @ rtu_header 1 16 6 (length ?vs) @ [4] @ concat (map be_bytes ?vs) @ []) 13 [8] rtu_demo =
      Some (answered Backend_rtu 8 (answer_head Backend_rtu [] 1 16 @ drop 2 (rtu_header 1 16 6 (length ?vs))) t)"
    and "map (yreg (mp t) (unat (1 :: u8))) [6..<6 + length ?vs] = ?vs"
    using reply_writes [OF pre, of ?vs 6 env_demo 1 rtu_demo 8 False 4 "[]" 13] demo_writable by auto
  then show ?thesis
    unfolding b by (intro exI [of _ t]) (simp add: answer_head_def rtu_header_def upt_rec)
qed

section \<open>Master and slave over a serial line\<close>

text \<open>A master of the RTU backend that talks to slave \<open>w\<close>.\<close>

definition rtu_master :: "ctx \<Rightarrow> u8 \<Rightarrow> bool" where
  "rtu_master c w \<longleftrightarrow> backend_of c = Backend_rtu \<and> ctx_slave c = int (unat w) \<and> 1 \<le> unat w \<and> unat w \<le> 8"

lemma word_of_int_split:
  "(word_of_int (drop_bit 8 (int a)) :: u8) = of_nat (a div 256)"
  "(word_of_int (int a AND 0xFF) :: u8) = of_nat (a mod 256)"
proof -
  have "drop_bit 8 (int a) = int (a div 256)" by (simp add: drop_bit_int_def)
  then show "(word_of_int (drop_bit 8 (int a)) :: u8) = of_nat (a div 256)"
    by (simp only: of_int_of_nat_eq)
  have "int a AND 0xFF = int (a mod 256)"
    using take_bit_eq_mask [of 8 "int a"] by (simp add: mask_eq_exp_minus_1 take_bit_int_def zmod_int)
  then show "(word_of_int (int a AND 0xFF) :: u8) = of_nat (a mod 256)"
    by (simp only: of_int_of_nat_eq)
qed

lemma master_request:
  assumes "rtu_master c w"
  shows "build_request_basis c f (int a) (int n) = Some (rtu_header w f a n, c)"
proof -
  have "(word_of_int (int (unat w)) :: u8) = w" "int (unat w) \<noteq> -1"
    by (simp, linarith)
  then show ?thesis
    using assms by (simp add: build_request_basis_def rtu_master_def rtu_header_def word_of_int_split Let_def)
qed

lemma be_bytes_value [simp]: "(of_nat (unat (hi_byte v) * 256 + unat (lo_byte v)) :: u16) = v"
proof -
  have "unat v < 65536" using unsigned_less [of v] by simp
  then have "unat v div 256 < 256" by (intro less_mult_imp_div_less) simp
  then have "unat (hi_byte v) * 256 + unat (lo_byte v) = unat v"
    by (simp add: hi_byte_def lo_byte_def and_255 unat_ops unat_drop_bit_eq drop_bit_nat_def unat_ucast_mod)
  then show ?thesis by simp
qed

lemma be_bytes_value' [simp]: "ucast (hi_byte v) * 256 + ucast (lo_byte v) = (v :: u16)"
  using be_bytes_value [of v] by (simp del: be_bytes_value)

lemma store_response_be_bytes:
  assumes "length pre = off + 2" "length vs \<le> length dest"
  shows "store_response off (pre @ concat (map be_bytes vs) @ x) (length vs) dest = Some (vs @ drop (length vs) dest)"
  using assms
proof (induction vs arbitrary: pre off dest)
  case (Cons v vs)
  then obtain d ds where dest: "dest = d # ds" by (cases dest) auto
  have "store_response (off + 2) ((pre @ be_bytes v) @ concat (map be_bytes vs) @ x) (length vs) ds =
      Some (vs @ drop (length vs) ds)"
    by (rule Cons.IH) (use Cons.prems dest in \<open>simp_all add: be_bytes_def\<close>)
  then show ?case
    using Cons.prems(1)
    by (simp add: dest byte_at_append be_bytes_def Suc_diff_le del: byte_at_some cong: map_cong)
qed simp

lemma read_confirmed:
  assumes "n \<le> 125" "length data = 2 * n" "length x = 2"
  shows "check_confirmation Backend_rtu (rtu_header w 3 a n) ([w, 3, of_nat (2 * n)] @ data @ x) (int (5 + 2 * n)) =
    Some (Inr n)"
proof -
  have n: "n div 256 = 0" "n mod 256 = n" using assms(1) by simp_all
  have "compute_response_length_from_request Backend_rtu (rtu_header w 3 a n) = Some (int (5 + 2 * n))"
    by (simp add: compute_response_length_from_request_def rtu_header_def n Let_def)
  moreover have "conf_values 1 3 (rtu_header w 3 a n) ([w, 3, of_nat (2 * n)] @ data @ x) = Some (n, n)"
    using assms(1) by (simp add: conf_values_def rtu_header_def n del: of_nat_mult)
  ultimately show ?thesis
    by (simp add: check_confirmation_def pre_check_confirmation_def rtu_header_def Let_def)
qed

lemma write_confirmed:
  assumes "n < 65536"
  shows "check_confirmation Backend_rtu (rtu_header w 16 a n @ rest) (rtu_header w 16 a n @ x) 8 = Some (Inr n)"
proof -
  have "n div 256 < 256" using assms by auto
  then have n: "n div 256 mod 256 = n div 256" by simp
  have "compute_response_length_from_request Backend_rtu (rtu_header w 16 a n @ rest) = Some 8"
    by (simp add: compute_response_length_from_request_def rtu_header_def Let_def)
  moreover have "conf_values 1 16 (rtu_header w 16 a n @ rest) (rtu_header w 16 a n @ x) = Some (n, n)"
    by (simp add: conf_values_def rtu_header_def n)
  ultimately show ?thesis
    by (simp add: check_confirmation_def pre_check_confirmation_def rtu_header_def Let_def)
qed

lemma send_ok [simp]: "send_msg be link rsp [int (length (send_msg_pre be rsp))] =
    Some (int (length (send_msg_pre be rsp)), send_msg_pre be rsp)"
  by (simp add: send_msg_def Let_def)

lemma rtu_pre [simp]: "send_msg_pre Backend_rtu rsp = rtu_send_msg_pre rsp"
  by (simp add: send_msg_pre_def)

text \<open>What a master gets for a sealed response that arrives.\<close>

lemma rtu_answer:
  assumes "response_shape rsp" "length rsp \<le> 254" "stream_of chunks = rtu_send_msg_pre rsp @ junk"
    and "check_confirmation Backend_rtu req (rtu_send_msg_pre rsp) (int (length rsp + 2)) = Some (Inr n)"
    and "backend_of c = Backend_rtu"
  shows "request_response c req [int (length (rtu_send_msg_pre req))] chunks =
    Some (Answer n (rtu_send_msg_pre rsp), rtu_send_msg_pre req)"
proof -
  have r: "flatten (receive_msg Backend_rtu MSG_CONFIRMATION chunks) = Flat_done (rtu_send_msg_pre rsp) junk"
    unfolding rtu_seal by (rule rtu_response_received) (use assms in \<open>simp_all add: rtu_seal\<close>)
  then obtain cs where m: "receive_msg Backend_rtu MSG_CONFIRMATION chunks = Rx_done (rtu_send_msg_pre rsp) cs"
    by (cases "receive_msg Backend_rtu MSG_CONFIRMATION chunks") auto
  have "modbus_receive_confirmation Backend_rtu chunks = Some (int (length rsp + 2))"
    unfolding modbus_receive_confirmation_def by (rule rtu_returns [OF r]) (use assms(2) in simp)
  moreover have "0 < int (length (rtu_send_msg_pre req))" by (simp add: rtu_seal)
  moreover have "send_msg Backend_rtu l req [int (length (rtu_send_msg_pre req))] =
      Some (int (length (rtu_send_msg_pre req)), rtu_send_msg_pre req)" for l
    using send_ok [of Backend_rtu l req] by simp
  ultimately show ?thesis
    using m assms(4,5) by (simp add: request_response_def Let_def)
qed

text \<open>The master with the answer of a slave to its request.\<close>

lemma read_answered:
  assumes "rtu_master c w" "length vs \<le> 125" "length vs \<le> length dest"
    and "rsp = rtu_send_msg_pre ([w, 3, of_nat (2 * length vs)] @ concat (map be_bytes vs))"
    and "stream_of chunks = rsp @ junk"
  shows "modbus_read_registers c (int a) (int (length vs)) dest [8] chunks =
    Some (Answer (length vs) rsp, vs @ drop (length vs) dest, rtu_send_msg_pre (rtu_header w 3 a (length vs)))"
proof -
  let ?n = "length vs" and ?body = "[w, 3, of_nat (2 * length vs)] @ concat (map be_bytes vs)"
  have c: "backend_of c = Backend_rtu" using assms(1) by (simp add: rtu_master_def)
  have l: "length ?body = 3 + 2 * ?n" by simp
  have "unat (of_nat (2 * ?n) :: u8) = 2 * ?n" using assms(2) by (simp del: of_nat_mult)
  then have shape: "response_shape ?body" by (simp add: fc_defs)
  have seal: "rtu_send_msg_pre ?body = [w, 3, of_nat (2 * ?n)] @ concat (map be_bytes vs) @ [fst (crc_pair ?body), snd (crc_pair ?body)]"
    unfolding rtu_seal by simp
  have "check_confirmation Backend_rtu (rtu_header w 3 a ?n) (rtu_send_msg_pre ?body) (int (length ?body + 2)) = Some (Inr ?n)"
    unfolding seal l using read_confirmed [OF assms(2), of "concat (map be_bytes vs)" "[fst (crc_pair ?body), snd (crc_pair ?body)]" w a]
    by (simp add: add.commute)
  from rtu_answer [OF shape _ assms(5) [unfolded assms(4)] this c] assms(2)
  have ans: "request_response c (rtu_header w 3 a ?n) [8] chunks =
      Some (Answer ?n rsp, rtu_send_msg_pre (rtu_header w 3 a ?n))"
    by (simp add: assms(4)) (simp add: rtu_seal rtu_header_def)
  have "store_response 1 rsp ?n dest = Some (vs @ drop ?n dest)"
    using store_response_be_bytes [of "[w, 3, of_nat (2 * ?n)]" 1 vs dest] assms(3) unfolding assms(4) seal by simp
  then show ?thesis
    using ans assms(2) c by (simp add: modbus_read_registers_def read_registers_def modbus_limits master_request [OF assms(1)] fc_defs)
qed

lemma write_answered:
  assumes "rtu_master c w" "length vs \<le> 123"
    and "rsp = rtu_send_msg_pre (rtu_header w 16 a (length vs))" "stream_of chunks = rsp @ junk"
  shows "modbus_write_registers c (int a) (int (length vs)) vs [int (9 + 2 * length vs)] chunks =
    Some (Answer (length vs) rsp, rtu_send_msg_pre (rtu_header w 16 a (length vs) @ [of_nat (2 * length vs)] @ concat (map be_bytes vs)))"
proof -
  let ?n = "length vs" and ?rsp = "rtu_header w 16 a (length vs)"
  let ?body = "rtu_header w 16 a ?n @ [of_nat (2 * ?n)] @ concat (map be_bytes vs)"
  have c: "backend_of c = Backend_rtu" using assms(1) by (simp add: rtu_master_def)
  have l: "length ?body = 7 + 2 * ?n" "length ?rsp = 6" by (simp_all add: rtu_header_def)
  have shape: "response_shape ?rsp" by (simp add: rtu_header_def fc_defs)
  have "check_confirmation Backend_rtu ?body (rtu_send_msg_pre ?rsp) (int (length ?rsp + 2)) = Some (Inr ?n)"
    using write_confirmed [of ?n w a] assms(2) l unfolding rtu_seal by simp
  from rtu_answer [OF shape _ assms(4) [unfolded assms(3)] this c] l
  have "request_response c ?body [int (9 + 2 * ?n)] chunks = Some (Answer ?n rsp, rtu_send_msg_pre ?body)"
    by (simp add: rtu_seal assms(3))
  moreover have "write_request (rtu_header w 16 a ?n) (int ?n) vs = Some ?body"
    by (simp add: write_request_def mult.commute be_bytes_def [abs_def])
  ultimately show ?thesis
    using assms(2) by (simp add: modbus_write_registers_def modbus_limits master_request [OF assms(1)] fc_defs)
qed

text \<open>
  C1. A master reads registers over a serial line: the request of
  \<^verbatim>\<open>modbus_read_registers\<close> is received by the slave whatever its chunks, the slave
  answers it, and when the answer arrives, in whatever chunks, the master returns the number of
  registers and has in its array what the slave's registers hold.
\<close>

theorem master_reads:
  assumes "rtu_master c w" "1 \<le> n" "n \<le> 125" "a + n \<le> 10000" "n \<le> length dest"
    and "map_wf (mp s)" "\<forall>j\<in>set [a..<a + n]. y_readable (unat w) s j"
    and "req = rtu_send_msg_pre (rtu_header w 3 a n)" "stream_of chunks = req"
  shows "modbus_receive Backend_rtu chunks = Some 8 \<and>
    (\<exists>rsp. modbus_reply Backend_rtu False e req 8 [int (5 + 2 * n)] s = Some (int (5 + 2 * n), Some rsp, counted s) \<and>
      (\<forall>chunks' junk. stream_of chunks' = rsp @ junk \<longrightarrow>
        modbus_read_registers c (int a) (int n) dest [8] chunks' =
          Some (Answer n rsp, map (yreg (mp s) (unat w)) [a..<a + n] @ drop n dest, req)))"
proof -
  define vs where "vs = map (yreg (mp s) (unat w)) [a..<a + n]"
  define rsp where "rsp = [w, 3, of_nat (2 * n)] @ concat (map be_bytes vs)"
  have n: "length vs = n" by (simp add: vs_def)
  then have l: "length rsp = 3 + 2 * n" by (simp add: rsp_def)
  have w: "1 \<le> unat w" "unat w \<le> 8" and c: "backend_of c = Backend_rtu" using assms(1) by (auto simp: rtu_master_def)
  have "request_shape (rtu_header w 3 a n)" by (simp add: rtu_header_def fc_defs)
  then have "flatten (receive_msg Backend_rtu MSG_INDICATION chunks) = Flat_done req []"
    using rtu_request_received [of "rtu_header w 3 a n" _ chunks "[]"] assms(8,9)
    by (simp add: rtu_seal rtu_header_def)
  then have received: "modbus_receive Backend_rtu chunks = Some 8"
    using rtu_returns [of _ "rtu_header w 3 a n" "[]"]
    by (simp add: modbus_receive_def assms(8)) (simp add: rtu_header_def)
  have rd: "\<forall>j\<in>set [a..<a + n]. y_readable (unat w) (counted s) j"
    using assms(7) by (simp add: y_readable_def reg_valid_def)
  have pre: "pre_of Backend_rtu []" by (simp add: pre_of_def)
  obtain p q where req: "req = [] @ rtu_header w 3 a n @ [p, q]" by (simp add: assms(8) rtu_seal)
  have len: "int (5 + 2 * n) = int (length (rtu_send_msg_pre rsp))" by (simp add: rtu_seal l)
  have fn: "reply_function Backend_rtu e \<lparr>sft_slave = unat w, sft_function = unat (3 :: u8), sft_t_id = tid_of Backend_rtu []\<rparr>
      req 6 a (counted s) = Some (rsp, counted s)"
    unfolding req using function_reads [OF pre w assms(2) _ assms(4) _ rd, of e "[p, q]" 6] assms(3,6)
    by (simp add: answer_head_def rsp_def vs_def)
  have "modbus_reply Backend_rtu False e req 8 [int (5 + 2 * n)] s =
      Some (int (5 + 2 * n), Some (rtu_send_msg_pre rsp), counted s)"
    using modbus_reply_served [OF pre _ _ w, of a n False e 3 "[p, q]" 8 "[int (5 + 2 * n)]" s] fn assms(3,4)
      send_ok [of Backend_rtu False rsp] len unfolding req by simp
  moreover have "modbus_read_registers c (int a) (int n) dest [8] chunks' =
      Some (Answer n (rtu_send_msg_pre rsp), vs @ drop n dest, req)"
    if "stream_of chunks' = rtu_send_msg_pre rsp @ junk" for chunks' junk
    using read_answered [OF assms(1), of vs dest "rtu_send_msg_pre rsp" chunks' junk a] assms(3,5,8) n that
    by (simp add: rsp_def)
  ultimately show ?thesis using received vs_def by blast
qed

theorem master_reads_witness:
  "\<exists>rsp. modbus_reply Backend_rtu False env_demo (rtu_send_msg_pre (rtu_header 1 3 6 2)) 8 [9] rtu_demo =
      Some (9, Some rsp, counted rtu_demo) \<and>
    modbus_read_registers \<lparr>backend_of = Backend_rtu, ctx_slave = 1, error_recovery_link = False, t_id = 0\<rparr>
      6 2 [7, 7, 7] [8] [rsp] = Some (Answer 2 rsp, [6, 0, 7], rtu_send_msg_pre (rtu_header 1 3 6 2))"
proof -
  let ?c = "\<lparr>backend_of = Backend_rtu, ctx_slave = 1, error_recovery_link = False, t_id = 0\<rparr>"
  let ?req = "rtu_send_msg_pre (rtu_header 1 3 6 2)"
  have c: "rtu_master ?c 1" by (simp add: rtu_master_def)
  have y: "\<forall>j\<in>set [6..<6 + 2]. y_readable (unat (1 :: u8)) rtu_demo j"
    by (auto simp: y_readable_def reg_valid_def rtu_demo_eval map_sizes upt_rec)
  have v: "map (yreg (mp rtu_demo) (unat (1 :: u8))) [6..<6 + 2] = [6, 0]"
    by (simp add: yreg_def reg_def rtu_demo_eval upt_rec)
  have st: "stream_of [?req] = ?req" "rsp \<noteq> [] \<Longrightarrow> stream_of [rsp] = rsp @ []" for rsp
    by (simp_all add: stream_of_def rtu_seal)
  obtain rsp where rsp: "modbus_reply Backend_rtu False env_demo ?req 8 [int (5 + 2 * 2)] rtu_demo =
      Some (int (5 + 2 * 2), Some rsp, counted rtu_demo)"
    and ans: "\<And>chunks' junk. stream_of chunks' = rsp @ junk \<Longrightarrow>
      modbus_read_registers ?c (int 6) (int 2) [7, 7, 7] [8] chunks' =
        Some (Answer 2 rsp, map (yreg (mp rtu_demo) (unat (1 :: u8))) [6..<6 + 2] @ drop 2 [7, 7, 7], ?req)"
    using master_reads [OF c, of 2 6 "[7, 7, 7]" rtu_demo ?req "[?req]" env_demo] demo_wf y st by auto
  have "send_msg_pre Backend_rtu r \<noteq> []" for r by (simp add: rtu_seal)
  then have "rsp \<noteq> []"
    using rsp by (auto simp: modbus_reply_def send_msg_def Let_def split: bind_splits if_splits prod.splits)
  from ans [OF st(2) [OF this]] rsp show ?thesis unfolding v by auto
qed

text \<open>
  C2. A master writes registers over a serial line: the request of
  \<^verbatim>\<open>modbus_write_registers\<close> is received whatever its chunks, the slave stores the
  values and answers, and when the answer arrives the master returns the number of registers
  written. No other writable register of the well changes.
\<close>

theorem master_writes:
  assumes "rtu_master c w" "1 \<le> length vs" "length vs \<le> 123" "a + length vs \<le> 10000"
    and "reg_inv e (unat w) s" "\<forall>j\<in>set [a..<a + length vs]. y_valid (unat w) s j"
    and "req = rtu_send_msg_pre (rtu_header w 16 a (length vs) @ [of_nat (2 * length vs)] @ concat (map be_bytes vs))"
    and "stream_of chunks = req"
  shows "modbus_receive Backend_rtu chunks = Some (int (9 + 2 * length vs)) \<and>
    (\<exists>rsp t. modbus_reply Backend_rtu False e req (int (9 + 2 * length vs)) [8] s = Some (8, Some rsp, t) \<and>
      map (yreg (mp t) (unat w)) [a..<a + length vs] = vs \<and>
      (\<forall>j. y_valid (unat w) s j \<and> \<not> (a \<le> j \<and> j < a + length vs) \<longrightarrow>
         yreg (mp t) (unat w) j = yreg (mp s) (unat w) j) \<and>
      (\<forall>chunks' junk. stream_of chunks' = rsp @ junk \<longrightarrow>
        modbus_write_registers c (int a) (int (length vs)) vs [int (9 + 2 * length vs)] chunks' =
          Some (Answer (length vs) rsp, req)))"
proof -
  let ?n = "length vs"
  define body where "body = rtu_header w 16 a ?n @ [of_nat (2 * ?n)] @ concat (map be_bytes vs)"
  define rsp where "rsp = rtu_header w 16 a ?n"
  have w: "1 \<le> unat w" "unat w \<le> 8" and c: "backend_of c = Backend_rtu" using assms(1) by (auto simp: rtu_master_def)
  have l: "length body = 7 + 2 * ?n" "length rsp = 6" by (simp_all add: body_def rsp_def rtu_header_def)
  have cnt: "unat (of_nat (2 * ?n) :: u8) = 2 * ?n" using assms(3) by (simp del: of_nat_mult)
  have shapes: "request_shape body" "response_shape rsp"
    using cnt by (simp_all add: body_def rsp_def rtu_header_def fc_defs)
  have req: "req = rtu_send_msg_pre body" by (simp add: assms(7) body_def)
  have "flatten (receive_msg Backend_rtu MSG_INDICATION chunks) = Flat_done req []"
    using rtu_request_received [OF shapes(1), of _ chunks "[]"] assms(3,8) l by (simp add: rtu_seal req)
  then have received: "modbus_receive Backend_rtu chunks = Some (int (9 + 2 * ?n))"
    using rtu_returns [of _ body "[]"] l assms(3) by (simp add: modbus_receive_def req)
  have pre: "pre_of Backend_rtu []" by (simp add: pre_of_def)
  have eq: "req = [] @ rtu_header w 16 a ?n @ [of_nat (2 * ?n)] @ concat (map be_bytes vs) @ [fst (crc_pair body), snd (crc_pair body)]"
    unfolding req rtu_seal by (simp add: body_def)
  have hd: "answer_head Backend_rtu [] w 16 @ drop 2 (rtu_header w 16 a ?n) = rsp"
    by (simp add: answer_head_def rsp_def rtu_header_def)
  obtain t where fn: "\<And>len. reply_function Backend_rtu e \<lparr>sft_slave = unat w, sft_function = 16, sft_t_id = tid_of Backend_rtu []\<rparr>
      req len a (counted s) = Some (rsp, t)"
    and t: "map (yreg (mp t) (unat w)) [a..<a + ?n] = vs"
      "\<forall>j. y_valid (unat w) s j \<and> \<not> (a \<le> j \<and> j < a + ?n) \<longrightarrow> yreg (mp t) (unat w) j = yreg (mp s) (unat w) j"
    using function_writes [OF pre assms(2-4), of e w "counted s" "of_nat (2 * ?n)" "[fst (crc_pair body), snd (crc_pair body)]"]
      assms(5,6) unfolding eq hd by auto
  have l8: "int (length (rtu_send_msg_pre rsp)) = 8" by (simp add: rtu_seal l)
  have "modbus_reply Backend_rtu False e req (int (9 + 2 * ?n)) [8] s = Some (8, Some (rtu_send_msg_pre rsp), t)"
    using modbus_reply_served [OF pre _ _ w, of a ?n False e 16
        "[of_nat (2 * ?n)] @ concat (map be_bytes vs) @ [fst (crc_pair body), snd (crc_pair body)]" "int (9 + 2 * ?n)" "[8]" s, folded eq]
      fn assms(3,4) send_ok [of Backend_rtu False rsp] l8
    by simp
  moreover have "modbus_write_registers c (int a) (int ?n) vs [int (9 + 2 * ?n)] chunks' =
      Some (Answer ?n (rtu_send_msg_pre rsp), req)"
    if "stream_of chunks' = rtu_send_msg_pre rsp @ junk" for chunks' junk
    using write_answered [OF assms(1,3) _ that [unfolded rsp_def]] by (simp add: rsp_def req body_def)
  ultimately show ?thesis using received t by blast
qed

theorem master_writes_witness:
  "\<exists>rsp t. modbus_reply Backend_rtu False env_demo
      (rtu_send_msg_pre (rtu_header 1 16 6 2 @ [4, 0x12, 0x34, 0, 9])) 13 [8] rtu_demo = Some (8, Some rsp, t) \<and>
    yreg (mp t) 1 6 = 0x1234"
proof -
  let ?vs = "[0x1234, 9] :: u16 list" and ?req = "rtu_send_msg_pre (rtu_header 1 16 6 2 @ [4, 0x12, 0x34, 0, 9])"
  let ?c = "\<lparr>backend_of = Backend_rtu, ctx_slave = 1, error_recovery_link = False, t_id = 0\<rparr>"
  have c: "rtu_master ?c 1" by (simp add: rtu_master_def)
  have b: "?req = rtu_send_msg_pre (rtu_header 1 16 6 (length ?vs) @ [of_nat (2 * length ?vs)] @ concat (map be_bytes ?vs))"
    by (simp add: be_bytes_def hi_byte_def lo_byte_def numeral_2_eq_2 [symmetric])
  have "stream_of [?req] = ?req" by (simp add: stream_of_def rtu_seal)
  from master_writes [where a = 6 and e = env_demo and s = rtu_demo, OF c _ _ _ _ _ b this] demo_writable
  obtain rsp t where "modbus_reply Backend_rtu False env_demo ?req (int (9 + 2 * length ?vs)) [8] rtu_demo = Some (8, Some rsp, t)"
    and "map (yreg (mp t) (unat (1 :: u8))) [6..<6 + length ?vs] = ?vs"
    by auto
  then show ?thesis by (intro exI [of _ rsp] exI [of _ t]) (simp add: upt_rec)
qed

lemma long_read_refused:
  assumes "backend_of c = Backend_rtu" "125 < n" "n < 65536"
  shows "request_response c (rtu_header w 3 a n) sends chunks \<noteq> Some (Answer m rsp, sent)"
proof
  assume r: "request_response c (rtu_header w 3 a n) sends chunks = Some (Answer m rsp, sent)"
  have "n div 256 < 256" using assms(3) by (intro less_mult_imp_div_less) simp
  moreover have "512 * int (n div 256) + 2 * int (n mod 256) = 2 * int n"
    using div_mult_mod_eq [of n 256] by linarith
  ultimately have "compute_response_length_from_request Backend_rtu (rtu_header w 3 a n) = Some (int (5 + 2 * n))"
    by (simp add: compute_response_length_from_request_def rtu_header_def Let_def)
  then have refuse: "check_confirmation Backend_rtu (rtu_header w 3 a n) msg rc \<noteq> Some (Inr m)" if "rc < 257" for msg rc m
    using assms(2) that
    by (auto simp: check_confirmation_def pre_check_confirmation_def rtu_header_def Let_def split: bind_splits if_splits)
  obtain rc rest where rc: "modbus_receive_confirmation Backend_rtu chunks = Some rc"
    and msg: "receive_msg Backend_rtu MSG_CONFIRMATION chunks = Rx_done rsp rest"
    and conf: "check_confirmation Backend_rtu (rtu_header w 3 a n) rsp rc = Some (Inr m)"
    using r assms(1)
    by (auto simp: request_response_def Let_def split: bind_splits if_splits rx.splits sum.splits)
  have "length rsp \<le> 256" using receive_msg_ok [of Backend_rtu MSG_CONFIRMATION chunks] msg by simp
  then have "rc < 257"
    using rc msg by (auto simp: modbus_receive_confirmation_def finish_def rtu_check_integrity_def Let_def split: bind_splits if_splits)
  then show False using refuse conf by blast
qed

text \<open>
  The master refuses to believe a long read: a request for more than 125 registers, which
  both sides allow up to 1020, is sent, but no bytes that come back make
  \<^verbatim>\<open>modbus_read_registers\<close> return registers; its array stays as it was.
\<close>

theorem long_reads_fail:
  assumes "rtu_master c w" "125 < n" "n \<le> 1020"
    and "modbus_read_registers c (int a) (int n) dest sends chunks = Some (ans, dest', sent)"
  shows "(\<forall>m rsp. ans \<noteq> Answer m rsp) \<and> dest' = dest"
proof -
  have "backend_of c = Backend_rtu" using assms(1) by (simp add: rtu_master_def)
  then have "request_response c (rtu_header w 3 a n) sends chunks \<noteq> Some (Answer m rsp, sent')" for m rsp sent'
    using assms(2,3) by (intro long_read_refused) auto
  then show ?thesis
    using assms(3,4)
    by (auto simp: modbus_read_registers_def read_registers_def modbus_limits master_request [OF assms(1)] fc_defs
        split: bind_splits answer.splits if_splits)
qed

theorem long_reads_fail_witness:
  "\<exists>ans sent. modbus_read_registers \<lparr>backend_of = Backend_rtu, ctx_slave = 1, error_recovery_link = False, t_id = 0\<rparr>
      6 200 [7] [8] [[]] = Some (ans, [7], sent) \<and> (\<forall>m rsp. ans \<noteq> Answer m rsp)"
proof -
  let ?c = "\<lparr>backend_of = Backend_rtu, ctx_slave = 1, error_recovery_link = False, t_id = 0\<rparr>"
  have c: "rtu_master ?c 1" by (simp add: rtu_master_def)
  have "modbus_receive_confirmation Backend_rtu [[]] = Some (-1)"
    by (simp add: modbus_receive_confirmation_def finish_def receive_msg_def numeral_2_eq_2)
  moreover have "send_msg Backend_rtu l (rtu_header 1 3 6 200) [8] = Some (8, rtu_send_msg_pre (rtu_header 1 3 6 200))" for l
    using send_ok [of Backend_rtu l "rtu_header 1 3 6 200"] by (simp add: rtu_seal) (simp add: rtu_header_def)
  ultimately have "\<exists>ans sent. request_response ?c (rtu_header 1 3 6 200) [8] [[]] = Some (Refused NO_MESSAGE, sent)"
    by (simp add: request_response_def)
  then have "\<exists>ans d sent. modbus_read_registers ?c (int 6) (int 200) [7] [8] [[]] = Some (ans, d, sent)"
    by (auto simp: modbus_read_registers_def read_registers_def modbus_limits master_request [OF c] FC_READ_HOLDING_REGISTERS_def
        simp del: of_nat_numeral)
  then obtain ans d sent where r: "modbus_read_registers ?c (int 6) (int 200) [7] [8] [[]] = Some (ans, d, sent)"
    by blast
  have "(\<forall>m rsp. ans \<noteq> Answer m rsp) \<and> d = [7]" by (rule long_reads_fail [OF c _ _ r]) simp_all
  then show ?thesis using r by auto
qed

end
