(* ===== verification/Zigbee.thy ===== *)
theory Zigbee
  imports Receive
begin

text \<open>
  The ZigBee module of \<^verbatim>\<open>zigbee/zigbee.c\<close>: data packets, the frames that set the
  parameters of the radio, and the dialogue of \<^verbatim>\<open>set_zigbee_para\<close> with its AT orders
  and resend loops. The serial port delivers chunks to the AT dialogue and, for each call of
  \<^verbatim>\<open>modbus_receive_zigbee_timeout\<close>, what arrives before the timeout; what is written
  and logged is recorded.
\<close>

section \<open>Data packets\<close>

definition ZIGBEE_API_HEAD :: u8 where "ZIGBEE_API_HEAD = 0x7E"
definition ZIGBEE_API_NETADDR0 :: u8 where "ZIGBEE_API_NETADDR0 = 0xFF"
definition ZIGBEE_API_NETADDR1 :: u8 where "ZIGBEE_API_NETADDR1 = 0xFE"
definition ZIGBEE_API_TRANSRC :: u8 where "ZIGBEE_API_TRANSRC = 0xE8"
definition ZIGBEE_API_TRANDES :: u8 where "ZIGBEE_API_TRANDES = 0xE8"
definition ZIGBEE_API_CLUSTERID0 :: u8 where "ZIGBEE_API_CLUSTERID0 = 0x00"
definition ZIGBEE_API_CLUSTERID1 :: u8 where "ZIGBEE_API_CLUSTERID1 = 0x11"
definition ZIGBEE_API_PROFILEID0 :: u8 where "ZIGBEE_API_PROFILEID0 = 0x18"
definition ZIGBEE_API_PROFILEID1 :: u8 where "ZIGBEE_API_PROFILEID1 = 0x57"
definition ZIGBEE_API_BROADCASTRAD :: u8 where "ZIGBEE_API_BROADCASTRAD = 0x00"
definition ZIGBEE_API_SENDOPTION :: u8 where "ZIGBEE_API_SENDOPTION = 0x60"
definition A11_ZIGBEE_SND_DATA_LEN :: nat where "A11_ZIGBEE_SND_DATA_LEN = 80"
definition ZIGBEE_SND_PACKET_LEN :: nat where "ZIGBEE_SND_PACKET_LEN = 20"
definition RESEND_NUM :: nat where "RESEND_NUM = 10"

lemmas zigbee_consts = ZIGBEE_API_HEAD_def ZIGBEE_API_NETADDR0_def ZIGBEE_API_NETADDR1_def
  ZIGBEE_API_TRANSRC_def ZIGBEE_API_TRANDES_def ZIGBEE_API_CLUSTERID0_def ZIGBEE_API_CLUSTERID1_def
  ZIGBEE_API_PROFILEID0_def ZIGBEE_API_PROFILEID1_def ZIGBEE_API_BROADCASTRAD_def
  ZIGBEE_API_SENDOPTION_def

text \<open>
  The packet in \<^verbatim>\<open>tmp_buff\<close>, or \<^const>\<open>None\<close> when a source array is too
  short. The checksum follows the data; for 80 bytes that is the field
  \<^verbatim>\<open>tx_api_check_sum\<close>.
\<close>

definition zigbee_packet :: "u8 list \<Rightarrow> u8 list \<Rightarrow> nat \<Rightarrow> u8 list option" where
  "zigbee_packet mac send_data len =
     (if length mac < 10 \<or> length send_data < len then None
      else let n = of_nat (ZIGBEE_SND_PACKET_LEN + len) :: u16;
               buff = [ZIGBEE_API_HEAD, HI_UINT16 n, LO_UINT16 n, ZIGBEE_API_CLUSTERID1, ZIGBEE_API_CLUSTERID0] @
                 take 8 mac @ [ZIGBEE_API_NETADDR0, ZIGBEE_API_NETADDR1,
                   ZIGBEE_API_TRANSRC, ZIGBEE_API_TRANDES, ZIGBEE_API_CLUSTERID0, ZIGBEE_API_CLUSTERID1,
                   ZIGBEE_API_PROFILEID0, ZIGBEE_API_PROFILEID1, ZIGBEE_API_BROADCASTRAD, ZIGBEE_API_SENDOPTION] @
                 take len send_data
           in do { sum \<leftarrow> calc_sum_check buff; Some (buff @ [sum]) })"

text \<open>
  \<open>write_rc\<close> is what \<^verbatim>\<open>write\<close> returns. The results are the return value and what was
  written, if anything.
\<close>

definition zigbee_send_packet :: "u8 list \<Rightarrow> u8 list \<Rightarrow> u8 \<Rightarrow> int \<Rightarrow> (int \<times> u8 list option) option" where
  "zigbee_send_packet mac send_data len write_rc =
     (if unat len > A11_ZIGBEE_SND_DATA_LEN then Some (-1, None)
      else do {
        packet \<leftarrow> zigbee_packet mac send_data (unat len);
        Some (if write_rc < int (ZIGBEE_SND_PACKET_LEN + unat len + 4) then -1 else 0, Some packet) })"

section \<open>The port\<close>

record zport =
  rx_chunks :: "u8 list list"
  answers :: "u8 list list list"
  written :: "u8 list list"
  logged :: "string list"

definition port_write :: "u8 list \<Rightarrow> zport \<Rightarrow> zport" where
  "port_write bs p = p\<lparr>written := written p @ [bs]\<rparr>"

definition log_error :: "string \<Rightarrow> zport \<Rightarrow> zport" where
  "log_error msg p = p\<lparr>logged := logged p @ [msg]\<rparr>"

text \<open>\<^verbatim>\<open>read\<close> of at most \<open>n\<close> bytes; an empty result stands for 0 and for -1.\<close>

definition port_read :: "nat \<Rightarrow> zport \<Rightarrow> u8 list \<times> zport" where
  "port_read n p =
     (case rx_chunks p of
        [] \<Rightarrow> ([], p)
      | c # cs \<Rightarrow>
          if n = 0 then ([], p)
          else (take n c, p\<lparr>rx_chunks := (if drop n c = [] then cs else drop n c # cs)\<rparr>))"

section \<open>AT orders\<close>

definition ascii :: "string \<Rightarrow> u8 list" where
  "ascii s = map of_char s"

definition OK_CR :: "u8 list" where
  "OK_CR = [0x4F, 0x4B, 0x0D]"

text \<open>
  The inner loop of \<^verbatim>\<open>set_at_order\<close>: \<open>reply\<close> are the \<open>rc_cnt\<close> bytes received so
  far, \<open>cnt\<close> is \<^verbatim>\<open>rc_read_cnt\<close>.
\<close>

function at_collect :: "u8 list \<Rightarrow> nat \<Rightarrow> zport \<Rightarrow> u8 list \<times> nat \<times> zport" where
  "at_collect reply cnt p =
     (let (bs, p) = port_read (3 - length reply) p;
          reply = reply @ bs
      in if length reply < 3 \<and> Suc cnt < 3 then at_collect reply (Suc cnt) p
         else (reply, Suc cnt, p))"
  by pat_completeness auto
termination by (relation "measure (\<lambda>(_, cnt, _). 3 - cnt)") auto

declare at_collect.simps [simp del]

text \<open>One round of the outer loop; neither the bytes received nor the read counter are reset.\<close>

definition at_round :: "u8 list \<Rightarrow> u8 list \<times> nat \<times> zport \<Rightarrow> bool \<times> u8 list \<times> nat \<times> zport" where
  "at_round order s =
     (let (reply, cnt, p) = s;
          (reply, cnt, p) = at_collect reply cnt (port_write order p)
      in (reply = OK_CR, reply, cnt, p))"

text \<open>The result is a \<^verbatim>\<open>u8\<close>: the failure -1 is 255.\<close>

definition set_at_order :: "string \<Rightarrow> zport \<Rightarrow> u8 \<times> zport" where
  "set_at_order order p =
     (if order = '''' then (-1, p)
      else (case resend RESEND_NUM (at_round (ascii order)) ([], 0, p) of
        (ok, n, _, _, p) \<Rightarrow>
          if n \<ge> RESEND_NUM \<or> \<not> ok then (-1, log_error ''zigbee para set error at '' p) else (1, p)))"

section \<open>Parameter frames\<close>

text \<open>
  The part common to the functions below: the struct is filled, the checksum put behind the data
  and \<^verbatim>\<open>len + 4\<close> bytes are written.
\<close>

definition at_frame :: "u8 \<Rightarrow> u8 \<Rightarrow> u8 \<Rightarrow> u8 \<Rightarrow> u8 list \<Rightarrow> u8 list option" where
  "at_frame len flag c1 c2 data =
     (let f = [0x7E, 0, len, 0x08, flag, c1, c2] @ data in
      do { sum \<leftarrow> calc_sum_check f; Some (take (unat len + 4) (f @ [sum])) })"

definition u64_bytes :: "u64 \<Rightarrow> u8 list" where
  "u64_bytes w = map (\<lambda>k. ucast (drop_bit (8 * k) w)) [0..<8]"

definition set_panid :: "u32 \<Rightarrow> u8 list option" where
  "set_panid panid = at_frame 0x0C 0x02 0x49 0x44 (u64_bytes (swap_int64 (ucast panid)))"

text \<open>\<open>Some None\<close>: nothing is written.\<close>

definition set_sc_ch :: "u8 \<Rightarrow> u8 \<Rightarrow> u8 list option option" where
  "set_sc_ch auto_or_handle_flag ch =
     (if auto_or_handle_flag = 0 then map_option Some (at_frame 0x06 0x0B 0x53 0x43 [0x7F, 0xFF])
      else if ch < 0x0B \<or> ch > 0x19 then Some None
      else (let temp = of_nat (2 ^ (unat ch - 0x0B)) :: u16
            in map_option Some (at_frame 0x06 0x0B 0x53 0x43 [ucast (drop_bit 8 temp), ucast temp])))"

definition set_password_enable :: "u8 \<Rightarrow> u8 list option option" where
  "set_password_enable flag =
     (if flag > 1 then Some None
      else map_option Some (at_frame 0x05 0x01 0x45 0x45 [if flag = 0 then 0 else 1]))"

definition set_xbee_key :: "u64 \<Rightarrow> u8 list option" where
  "set_xbee_key key = at_frame 0x0C 0x04 0x4B 0x59 (u64_bytes (swap_int64 key))"

definition xbee_store_parameter :: "u8 list option" where
  "xbee_store_parameter = at_frame 0x04 0x01 0x57 0x52 []"

definition xbee_net_restart :: "u8 list option" where
  "xbee_net_restart = at_frame 0x04 0x04 0x4E 0x52 []"

section \<open>The configuration dialogue\<close>

record st_zigbee_para_option =
  panid :: u32
  auto_or_handle_flag :: u16
  ch :: u16
  enable_or_disable_password_flag :: u16
  key :: u64

text \<open>Is the answer that arrives the status frame of the command with the name \<open>c1 c2\<close>?\<close>

definition answer_accepted :: "u8 \<Rightarrow> u8 \<Rightarrow> u8 list list \<Rightarrow> bool" where
  "answer_accepted c1 c2 chunks =
     (modbus_receive_zigbee_timeout Backend_zigbee chunks = Some 9 \<and>
      (case receive_msg_zigbee Backend_zigbee MSG_TIMEOUT chunks of
         Rx_done msg _ \<Rightarrow> msg ! 0 = ZIGBEE_API_HEAD \<and> msg ! 5 = c1 \<and> msg ! 6 = c2
       | _ \<Rightarrow> False))"

definition para_round :: "u8 list option \<Rightarrow> u8 \<Rightarrow> u8 \<Rightarrow> zport \<Rightarrow> bool \<times> zport" where
  "para_round frame c1 c2 p =
     (let p = (case frame of None \<Rightarrow> p | Some f \<Rightarrow> port_write f p) in
      case answers p of
        [] \<Rightarrow> (False, p)
      | a # as \<Rightarrow> (answer_accepted c1 c2 a, p\<lparr>answers := as\<rparr>))"

definition para_phase :: "string \<Rightarrow> u8 list option \<Rightarrow> u8 \<Rightarrow> u8 \<Rightarrow> zport \<Rightarrow> zport" where
  "para_phase msg frame c1 c2 p =
     (case resend RESEND_NUM (para_round frame c1 c2) p of
        (ok, n, p) \<Rightarrow> if n \<ge> RESEND_NUM \<or> \<not> ok then log_error msg p else p)"

definition CR :: string where
  "CR = [CHR 0x0D]"

definition at_orders :: "string list" where
  "at_orders =
     [''+++'', ''ATZS 2'' @ CR, ''ATCE 1'' @ CR, ''ATAP 1'' @ CR, ''ATAO 1'' @ CR, ''ATSM 0'' @ CR,
      ''ATSP 100'' @ CR, ''ATSN 7FFF'' @ CR]"

fun send_orders :: "string list \<Rightarrow> zport \<Rightarrow> zport" where
  "send_orders [] p = p"
| "send_orders (order # orders) p = send_orders orders (snd (set_at_order order p))"

text \<open>
  The swapped parameters stay in the caller's buffer and are returned. The flags and the channel
  are passed as bytes. The result of the last AT order is compared with \<open>-1\<close> as an
  \<^verbatim>\<open>int\<close>.
\<close>

definition set_zigbee_para ::
  "st_zigbee_para_option \<Rightarrow> zport \<Rightarrow> (st_zigbee_para_option \<times> zport) option" where
  "set_zigbee_para para p =
     (let para = para\<lparr>panid := swap_register32 (panid para), key := swap_register64 (key para)\<rparr>;
          p = send_orders at_orders p;
          (rc, p) = set_at_order (''ATCN '' @ CR) p
      in if int (unat rc) = -1 then Some (para, p)
         else do {
           f_id \<leftarrow> set_panid (panid para);
           let p = para_phase ''zigbee para set error pandid '' (Some f_id) 0x49 0x44 p;
           f_sc \<leftarrow> set_sc_ch (ucast (auto_or_handle_flag para)) (ucast (ch para));
           let p = para_phase ''zigbee para set error SC '' f_sc 0x53 0x43 p;
           f_ee \<leftarrow> set_password_enable (ucast (enable_or_disable_password_flag para));
           let p = para_phase ''zigbee para set error EE '' f_ee 0x45 0x45 p;
           f_ky \<leftarrow> set_xbee_key (key para);
           let p = para_phase ''zigbee para set error KY '' (Some f_ky) 0x4B 0x59 p;
           f_wr \<leftarrow> xbee_store_parameter;
           let p = para_phase ''zigbee para set error WR '' (Some f_wr) 0x57 0x52 p;
           f_nr \<leftarrow> xbee_net_restart;
           let p = para_phase ''zigbee para set error NR '' (Some f_nr) 0x4E 0x52 p;
           Some (para, p) })"

section \<open>Frames\<close>

definition transmit_payload :: "u8 list \<Rightarrow> u8 list \<Rightarrow> u8 list" where
  "transmit_payload mac d =
     [0x11, 0x00] @ take 8 mac @ [0xFF, 0xFE, 0xE8, 0xE8, 0x00, 0x11, 0x18, 0x57, 0x00, 0x60] @ d"

lemma zigbee_packet_seal:
  assumes "10 \<le> length mac" "n \<le> 80" "n \<le> length d"
  shows "zigbee_packet mac d n = Some (zigbee_seal (transmit_payload mac (take n d)))"
proof -
  let ?p = "transmit_payload mac (take n d)"
  have l: "length ?p = ZIGBEE_SND_PACKET_LEN + n"
    using assms by (simp add: transmit_payload_def ZIGBEE_SND_PACKET_LEN_def)
  then have p: "zigbee_payload ?p"
    using assms(2) by (auto simp: zigbee_payload_def ZIGBEE_SND_PACKET_LEN_def)
  have "zigbee_packet mac d n = do { s \<leftarrow> calc_sum_check (zigbee_head ?p @ ?p); Some ((zigbee_head ?p @ ?p) @ [s]) }"
    using assms unfolding zigbee_head_def l
    by (simp add: zigbee_packet_def Let_def transmit_payload_def zigbee_consts)
  then show ?thesis by (simp add: calc_sum_head [OF p] zigbee_seal_bytes [OF p])
qed

lemma at_frame_seal:
  assumes "unat len = 4 + length data"
  shows "at_frame len flag c1 c2 data = Some (zigbee_seal ([8, flag, c1, c2] @ data))"
proof -
  let ?p = "[8, flag, c1, c2] @ data"
  have l: "length ?p = unat len" using assms by simp
  have b: "unat len < 256" using unsigned_less [of len] by simp
  have p: "zigbee_payload ?p" unfolding zigbee_payload_def l using less_trans [OF b, of 65532] by simp
  have "(of_nat (length ?p) :: u16) = ucast len" unfolding l by simp
  then have "zigbee_head ?p = [0x7E, 0, len]"
    by (simp add: zigbee_head_def HI_UINT16_def LO_UINT16_def and_255)
       (auto intro!: bit_word_eqI simp: bit_simps dest: bit_imp_le_length)
  then show ?thesis
    using calc_sum_head [OF p] zigbee_seal_bytes [OF p] assms by (simp add: at_frame_def Let_def)
qed

text \<open>
  Data packets: with at most 80 data bytes \<^verbatim>\<open>zigbee_send_packet\<close> writes the sealed
  API frame of the transmit request (address, network address FFFE, the fixed cluster and profile,
  the data), and the receiving side gets it whole whatever its chunks; more data are refused.
\<close>

theorem send_packet_received:
  assumes "10 \<le> length mac" "unat len \<le> length d"
  shows "if unat len \<le> 80
    then \<exists>f. zigbee_send_packet mac d len (int (24 + unat len)) = Some (0, Some f) \<and>
      f = zigbee_seal (transmit_payload mac (take (unat len) d)) \<and>
      (\<forall>chunks. stream_of chunks = f \<longrightarrow>
        flatten (receive_msg_zigbee Backend_zigbee MSG_INDICATION chunks) = Flat_done f [] \<and>
        modbus_receive_zigbee Backend_zigbee chunks = Some (int (24 + unat len)))
    else zigbee_send_packet mac d len write_rc = Some (-1, None)"
proof (cases "unat len \<le> 80")
  case True
  let ?p = "transmit_payload mac (take (unat len) d)"
  have l: "length ?p = 20 + unat len" using assms by (simp add: transmit_payload_def)
  have ne: "?p \<noteq> []" by (simp add: transmit_payload_def)
  have "zigbee_send_packet mac d len (int (24 + unat len)) = Some (0, Some (zigbee_seal ?p))"
    using True assms zigbee_packet_seal [OF assms(1) True]
    by (simp add: zigbee_send_packet_def A11_ZIGBEE_SND_DATA_LEN_def ZIGBEE_SND_PACKET_LEN_def)
  moreover have "flatten (receive_msg_zigbee Backend_zigbee MSG_INDICATION chunks) = Flat_done (zigbee_seal ?p) [] \<and>
      modbus_receive_zigbee Backend_zigbee chunks = Some (int (24 + unat len))"
    if "stream_of chunks = zigbee_seal ?p" for chunks
    using zigbee_received [OF ne, of chunks "[]" MSG_INDICATION] that l True
    by (auto simp: modbus_receive_zigbee_def)
  ultimately show ?thesis using True by auto
next
  case False
  then show ?thesis by (simp add: zigbee_send_packet_def A11_ZIGBEE_SND_DATA_LEN_def)
qed

theorem send_packet_received_witness:
  "\<exists>f. zigbee_send_packet [0, 0x13, 0xA2, 0, 1, 2, 3, 4, 5, 6] [7, 8] 2 26 = Some (0, Some f) \<and>
    modbus_receive_zigbee Backend_zigbee [f] = Some 26"
proof -
  let ?mac = "[0, 0x13, 0xA2, 0, 1, 2, 3, 4, 5, 6] :: u8 list"
  obtain f where f: "zigbee_send_packet ?mac [7, 8] 2 26 = Some (0, Some f)"
    "\<forall>chunks. stream_of chunks = f \<longrightarrow> modbus_receive_zigbee Backend_zigbee chunks = Some 26"
    "f = zigbee_seal (transmit_payload ?mac (take (unat (2 :: u8)) [7, 8]))"
    using send_packet_received [of ?mac 2 "[7, 8]" 0] by auto
  have "stream_of [f] = f" using f(3) by (simp add: stream_of_def zigbee_seal_def)
  then show ?thesis using f by auto
qed

lemma u64_bytes_swap: "u64_bytes (swap_int64 k) = rev (u64_bytes k)"
  by (auto simp: u64_bytes_def upt_rec bit_simps bit_swap_int64 add.commute intro!: bit_word_eqI)

lemma no_bit_u32: "32 \<le> i \<Longrightarrow> \<not> bit (w :: u32) i"
  by (auto dest: bit_imp_le_length)

lemma u64_bytes_u32: "u64_bytes (ucast pan) = u32_bytes pan @ [0, 0, 0, 0]"
  by (auto simp: u64_bytes_def u32_bytes_def upt_rec no_bit_u32 intro!: bit_word_eqI simp: bit_simps)

text \<open>
  Parameter frames: every frame of the configuration dialogue is a sealed API frame of the AT
  command it stands for; the network number and the key go out with the most significant byte
  first, a manual channel 11 to 25 as the mask with just its bit, and any other channel or a
  flag above 1 sends nothing.
\<close>

theorem parameter_frames:
  "set_panid pan = Some (zigbee_seal ([8, 2, 0x49, 0x44, 0, 0, 0, 0] @ rev (u32_bytes pan))) \<and>
   set_xbee_key k = Some (zigbee_seal ([8, 4, 0x4B, 0x59] @ rev (u64_bytes k))) \<and>
   set_sc_ch 0 c = Some (Some (zigbee_seal [8, 0x0B, 0x53, 0x43, 0x7F, 0xFF])) \<and>
   (flag \<noteq> 0 \<longrightarrow> set_sc_ch flag c =
     (if 11 \<le> unat c \<and> unat c \<le> 25
      then let mask = of_nat (2 ^ (unat c - 11)) :: u16
           in Some (Some (zigbee_seal [8, 0x0B, 0x53, 0x43, ucast (drop_bit 8 mask), ucast mask]))
      else Some None)) \<and>
   set_password_enable flag = Some (if flag \<le> 1 then Some (zigbee_seal [8, 1, 0x45, 0x45, flag]) else None) \<and>
   xbee_store_parameter = Some (zigbee_seal [8, 1, 0x57, 0x52]) \<and>
   xbee_net_restart = Some (zigbee_seal [8, 4, 0x4E, 0x52])"
proof (intro conjI impI)
  have l: "length (u64_bytes w) = 8" for w by (simp add: u64_bytes_def)
  show "set_panid pan = Some (zigbee_seal ([8, 2, 0x49, 0x44, 0, 0, 0, 0] @ rev (u32_bytes pan)))"
    unfolding set_panid_def by (subst at_frame_seal) (simp_all add: l u64_bytes_swap u64_bytes_u32 u32_bytes_def)
  show "set_xbee_key k = Some (zigbee_seal ([8, 4, 0x4B, 0x59] @ rev (u64_bytes k)))"
    unfolding set_xbee_key_def by (subst at_frame_seal) (simp_all add: l u64_bytes_swap)
  show "set_sc_ch 0 c = Some (Some (zigbee_seal [8, 0x0B, 0x53, 0x43, 0x7F, 0xFF]))"
    by (simp add: set_sc_ch_def at_frame_seal)
  have range: "c < 0x0B \<or> c > 0x19 \<longleftrightarrow> \<not> (11 \<le> unat c \<and> unat c \<le> 25)"
    by (auto simp: word_less_nat_alt)
  assume "flag \<noteq> 0"
  then show "set_sc_ch flag c =
     (if 11 \<le> unat c \<and> unat c \<le> 25
      then let mask = of_nat (2 ^ (unat c - 11)) :: u16
           in Some (Some (zigbee_seal [8, 0x0B, 0x53, 0x43, ucast (drop_bit 8 mask), ucast mask]))
      else Some None)"
    unfolding set_sc_ch_def range by (simp add: at_frame_seal Let_def)
next
  have "flag \<le> 1 \<Longrightarrow> flag = 0 \<or> flag = 1" by (auto simp: word_le_nat_alt word_unat_eq_iff)
  then show "set_password_enable flag = Some (if flag \<le> 1 then Some (zigbee_seal [8, 1, 0x45, 0x45, flag]) else None)"
    by (auto simp: set_password_enable_def at_frame_seal)
  show "xbee_store_parameter = Some (zigbee_seal [8, 1, 0x57, 0x52])"
    by (simp add: xbee_store_parameter_def at_frame_seal)
  show "xbee_net_restart = Some (zigbee_seal [8, 4, 0x4E, 0x52])"
    by (simp add: xbee_net_restart_def at_frame_seal)
qed

theorem parameter_frames_witness:
  "set_sc_ch 1 12 = Some (Some (zigbee_seal [8, 0x0B, 0x53, 0x43, 0, 2]))"
  using parameter_frames [of 0 0 12 1] by (simp add: Let_def)

section \<open>The dialogue\<close>

text \<open>What an attempt writes; the reply is kept between attempts.\<close>

lemma port_read_frame [simp]:
  "written (snd (port_read n p)) = written p" "answers (snd (port_read n p)) = answers p"
  "logged (snd (port_read n p)) = logged p"
  by (simp_all add: port_read_def split: list.splits)

lemma at_collect_frame:
  "at_collect reply cnt p = (reply', cnt', p') \<Longrightarrow>
     written p' = written p \<and> answers p' = answers p \<and> logged p' = logged p"
proof (induction reply cnt p arbitrary: reply' cnt' p' rule: at_collect.induct)
  case (1 reply cnt p)
  obtain bs q where q: "port_read (3 - length reply) p = (bs, q)" by (cases "port_read (3 - length reply) p")
  then have f: "written q = written p" "answers q = answers p" "logged q = logged p"
    using port_read_frame [of "3 - length reply" p] by simp_all
  show ?case
  proof (cases "length (reply @ bs) < 3 \<and> Suc cnt < 3")
    case True
    then have "at_collect (reply @ bs) (Suc cnt) q = (reply', cnt', p')"
      using "1.prems" q by (subst (asm) at_collect.simps) (simp add: Let_def)
    from "1.IH" [OF q [symmetric] refl refl True this] f show ?thesis by auto
  next
    case False
    then have "(reply', cnt', p') = (reply @ bs, Suc cnt, q)"
      using "1.prems" q by (subst (asm) at_collect.simps) (auto simp: Let_def)
    then show ?thesis using f by auto
  qed
qed

lemma at_collect_full:
  assumes "length reply = 3"
  shows "at_collect reply cnt p = (reply, Suc cnt, p)"
proof -
  have "port_read 0 p = ([], p)" by (simp add: port_read_def split: list.splits)
  then show ?thesis using assms by (subst at_collect.simps) (simp add: Let_def)
qed

lemma at_rounds:
  "resend_from m (at_round order) k (reply, cnt, p) = (ok, n, reply', cnt', p') \<Longrightarrow>
     written p' = written p @ replicate (n - k) order \<and> answers p' = answers p \<and> logged p' = logged p \<and> k < n \<and> n \<le> Suc (k + m)"
proof (induction m arbitrary: k reply cnt p)
  case 0
  then show ?case
    using at_collect_frame [of reply cnt "port_write order p"]
    by (auto simp: at_round_def port_write_def split: prod.splits)
next
  case (Suc m)
  obtain r c q where q: "at_collect reply cnt (port_write order p) = (r, c, q)"
    by (cases "at_collect reply cnt (port_write order p)")
  have f: "written q = written p @ [order]" "answers q = answers p" "logged q = logged p"
    using at_collect_frame [OF q] by (simp_all add: port_write_def)
  show ?case
  proof (cases "r = OK_CR")
    case True
    then show ?thesis using Suc.prems q f by (auto simp: at_round_def)
  next
    case False
    then have "at_round order (reply, cnt, p) = (False, r, c, q)" by (simp add: at_round_def q)
    then have "resend_from m (at_round order) (Suc k) (r, c, q) = (ok, n, reply', cnt', p')"
      using Suc.prems by simp
    note ih = Suc.IH [OF this]
    then have "n - k = Suc (n - Suc k)" by linarith
    then show ?thesis using ih f by simp
  qed
qed

text \<open>Once three wrong bytes are there, nothing helps.\<close>

lemma at_rounds_stuck:
  assumes "length reply = 3" "reply \<noteq> OK_CR"
  shows "resend_from m (at_round order) k (reply, cnt, p) =
    (False, Suc (k + m), reply, cnt + Suc m, p\<lparr>written := written p @ replicate (Suc m) order\<rparr>)"
proof (induction m arbitrary: k cnt p)
  case 0
  then show ?case using assms by (simp add: at_round_def at_collect_full port_write_def)
next
  case (Suc m)
  have "at_round order (reply, cnt, p) = (False, reply, Suc cnt, port_write order p)"
    using assms by (simp add: at_round_def at_collect_full)
  then show ?case by (simp add: Suc.IH port_write_def)
qed

text \<open>
  A wrong first reply dooms an AT order: the reply buffer is not cleared between the resends.
  When the first chunk that arrives has three bytes and they are not \<open>OK\<close> and carriage return,
  the order is written ten times, whatever arrives later is not looked at, an error is logged and
  the result is 255.
\<close>

theorem at_order_stuck:
  assumes "order \<noteq> []" "rx_chunks p = c # cs" "3 \<le> length c" "take 3 c \<noteq> OK_CR"
  shows "\<exists>q. set_at_order order p = (255, q) \<and>
    written q = written p @ replicate 10 (ascii order) \<and> length (logged q) = Suc (length (logged p)) \<and>
    rx_chunks q = (if drop 3 c = [] then cs else drop 3 c # cs)"
proof -
  define cs' where "cs' = (if drop 3 c = [] then cs else drop 3 c # cs)"
  define q where "q = p\<lparr>rx_chunks := cs', written := written p @ [ascii order]\<rparr>"
  have l: "length (take 3 c) = 3" using assms(3) by simp
  have "at_collect [] 0 (port_write (ascii order) p) = (take 3 c, 1, q)"
    using assms(2,3) by (subst at_collect.simps) (simp add: port_read_def port_write_def Let_def q_def cs'_def)
  then have step: "at_round (ascii order) ([], 0, p) = (False, take 3 c, 1, q)"
    using assms(4) by (simp add: at_round_def)
  have n: "RESEND_NUM - 1 = Suc 8" by (simp add: RESEND_NUM_def)
  have "resend RESEND_NUM (at_round (ascii order)) ([], 0, p) =
      (False, 10, take 3 c, 10, q\<lparr>written := written q @ replicate 9 (ascii order)\<rparr>)"
    unfolding resend_def n resend_from.simps step
    using at_rounds_stuck [OF l assms(4), of 8 "ascii order" 1 1 q] by simp
  moreover have "written q @ replicate 9 (ascii order) = written p @ replicate 10 (ascii order)"
    using replicate_add [of 1 9 "ascii order"] by (simp add: q_def)
  ultimately show ?thesis
    using assms(1) by (simp add: set_at_order_def log_error_def RESEND_NUM_def) (simp add: q_def cs'_def)
qed

theorem at_order_stuck_witness:
  "\<exists>q. set_at_order (''ATCN '' @ CR) \<lparr>rx_chunks = [[0x4F, 0x4B, 0x0A, 0x4F], [0x4F, 0x4B, 0x0D]], answers = [],
      written = [], logged = []\<rparr> = (255, q) \<and> length (written q) = 10"
proof -
  let ?p = "\<lparr>rx_chunks = [[0x4F, 0x4B, 0x0A, 0x4F], [0x4F, 0x4B, 0x0D]], answers = [], written = [], logged = []\<rparr> :: zport"
  have "take 3 [0x4F, 0x4B, 0x0A, 0x4F :: u8] \<noteq> OK_CR" by (simp add: OK_CR_def)
  then obtain q where "set_at_order (''ATCN '' @ CR) ?p = (255, q)" "written q = written ?p @ replicate 10 (ascii (''ATCN '' @ CR))"
    using at_order_stuck [of "''ATCN '' @ CR" ?p "[0x4F, 0x4B, 0x0A, 0x4F]" "[[0x4F, 0x4B, 0x0D]]"] by auto
  then show ?thesis by (intro exI [of _ q]) simp
qed

lemma set_at_order_writes:
  assumes "order \<noteq> []"
  shows "\<exists>n q. 1 \<le> n \<and> n \<le> 10 \<and> snd (set_at_order order p) = q \<and>
    written q = written p @ replicate n (ascii order) \<and> answers q = answers p"
proof -
  obtain ok n r c q where r: "resend RESEND_NUM (at_round (ascii order)) ([], 0, p) = (ok, n, r, c, q)"
    by (cases "resend RESEND_NUM (at_round (ascii order)) ([], 0, p)") auto
  have "written q = written p @ replicate n (ascii order)" "answers q = answers p" "0 < n" "n \<le> 10"
    using at_rounds [OF r [unfolded resend_def]] by (simp_all add: RESEND_NUM_def)
  then show ?thesis using assms by (auto simp: set_at_order_def r log_error_def)
qed

text \<open>The copies of a frame that a loop of \<open>n\<close> attempts writes.\<close>

definition copies :: "nat \<Rightarrow> u8 list option \<Rightarrow> u8 list list" where
  "copies n frame = (case frame of None \<Rightarrow> [] | Some f \<Rightarrow> replicate n f)"

lemma send_orders_writes:
  assumes "\<forall>order\<in>set orders. order \<noteq> []"
  shows "\<exists>ns. length ns = length orders \<and> set ns \<subseteq> {1..10} \<and>
    written (send_orders orders p) = written p @ concat (map2 copies ns (map (\<lambda>x. Some (ascii x)) orders))"
  using assms
proof (induction orders arbitrary: p)
  case Nil
  then show ?case by simp
next
  case (Cons order orders)
  obtain n q where n: "1 \<le> n" "n \<le> 10" and q: "snd (set_at_order order p) = q"
    and w: "written q = written p @ replicate n (ascii order)"
    using set_at_order_writes [of order p] Cons.prems by auto
  obtain ns where ns: "length ns = length orders" "set ns \<subseteq> {1..10}"
    and rest: "written (send_orders orders q) = written q @ concat (map2 copies ns (map (\<lambda>x. Some (ascii x)) orders))"
    using Cons.IH [of q] Cons.prems by auto
  have "length (n # ns) = length (order # orders)" "set (n # ns) \<subseteq> {1..10}" using n ns by auto
  then show ?case using q w rest by (intro exI [of _ "n # ns"]) (simp add: copies_def)
qed

lemma para_round_writes:
  "resend_from m (para_round frame c1 c2) k p = (ok, n, q) \<Longrightarrow>
     written q = written p @ copies (n - k) frame \<and> k < n \<and> n \<le> Suc (k + m)"
proof (induction m arbitrary: k p)
  case 0
  then show ?case
    by (auto simp: para_round_def port_write_def copies_def Let_def split: option.splits list.splits prod.splits)
next
  case (Suc m)
  obtain b r where r: "para_round frame c1 c2 p = (b, r)" by (cases "para_round frame c1 c2 p")
  then have w: "written r = written p @ copies 1 frame"
    by (auto simp: para_round_def port_write_def copies_def Let_def split: option.splits list.splits)
  show ?case
  proof (cases b)
    case True
    then show ?thesis using Suc.prems r w by auto
  next
    case False
    then have "resend_from m (para_round frame c1 c2) (Suc k) r = (ok, n, q)" using Suc.prems r by simp
    note ih = Suc.IH [OF this]
    then have "n - k = 1 + (n - Suc k)" by linarith
    then show ?thesis using ih w by (simp add: copies_def split: option.splits)
  qed
qed

lemma para_phase_writes:
  "\<exists>n. 1 \<le> n \<and> n \<le> 10 \<and> written (para_phase msg frame c1 c2 p) = written p @ copies n frame"
proof -
  obtain ok n q where r: "resend RESEND_NUM (para_round frame c1 c2) p = (ok, n, q)"
    by (cases "resend RESEND_NUM (para_round frame c1 c2) p") auto
  have "written q = written p @ copies n frame" "1 \<le> n" "n \<le> 10"
    using para_round_writes [OF r [unfolded resend_def]] by (auto simp: RESEND_NUM_def)
  then show ?thesis by (auto simp: para_phase_def r log_error_def)
qed

fun run_phases :: "(string \<times> u8 list option \<times> u8 \<times> u8) list \<Rightarrow> zport \<Rightarrow> zport" where
  "run_phases [] p = p"
| "run_phases ((msg, frame, c1, c2) # phases) p = run_phases phases (para_phase msg frame c1 c2 p)"

lemma run_phases_writes:
  "\<exists>ns. length ns = length phases \<and> set ns \<subseteq> {1..10} \<and>
    written (run_phases phases p) = written p @ concat (map2 copies ns (map (\<lambda>x. fst (snd x)) phases))"
proof (induction phases p rule: run_phases.induct)
  case (2 msg frame c1 c2 phases p)
  obtain n where n: "1 \<le> n" "n \<le> 10" "written (para_phase msg frame c1 c2 p) = written p @ copies n frame"
    using para_phase_writes by blast
  obtain ns where "length ns = length phases" "set ns \<subseteq> {1..10}"
    "written (run_phases phases (para_phase msg frame c1 c2 p)) =
      written (para_phase msg frame c1 c2 p) @ concat (map2 copies ns (map (\<lambda>x. fst (snd x)) phases))"
    using 2 by blast
  then show ?case using n by (intro exI [of _ "n # ns"]) simp
qed simp

text \<open>The six commands, from the parameters as they are stored, and the whole dialogue.\<close>

definition phases :: "st_zigbee_para_option \<Rightarrow> (string \<times> u8 list option \<times> u8 \<times> u8) list" where
  "phases para =
     [(''zigbee para set error pandid '', set_panid (swap_register32 (panid para)), 0x49, 0x44),
      (''zigbee para set error SC '', the (set_sc_ch (ucast (auto_or_handle_flag para)) (ucast (ch para))), 0x53, 0x43),
      (''zigbee para set error EE '', the (set_password_enable (ucast (enable_or_disable_password_flag para))), 0x45, 0x45),
      (''zigbee para set error KY '', set_xbee_key (swap_register64 (key para)), 0x4B, 0x59),
      (''zigbee para set error WR '', xbee_store_parameter, 0x57, 0x52),
      (''zigbee para set error NR '', xbee_net_restart, 0x4E, 0x52)]"

definition dialogue :: "st_zigbee_para_option \<Rightarrow> u8 list option list" where
  "dialogue para = map (\<lambda>x. Some (ascii x)) (at_orders @ [''ATCN '' @ CR]) @ map (\<lambda>x. fst (snd x)) (phases para)"

lemma set_zigbee_para_phases:
  "set_zigbee_para para p =
     Some (para\<lparr>panid := swap_register32 (panid para), key := swap_register64 (key para)\<rparr>,
       run_phases (phases para) (send_orders (at_orders @ [''ATCN '' @ CR]) p))"
proof -
  have l: "length (u64_bytes w) = 8" for w by (simp add: u64_bytes_def)
  obtain f1 where f1: "set_panid (swap_register32 (panid para)) = Some f1"
    by (simp add: set_panid_def at_frame_seal l)
  have "set_sc_ch a b \<noteq> None" "set_password_enable a \<noteq> None" for a b
    by (auto simp: set_sc_ch_def set_password_enable_def at_frame_seal Let_def)
  then obtain f2 f3 where f2: "set_sc_ch (ucast (auto_or_handle_flag para)) (ucast (ch para)) = Some f2"
    and f3: "set_password_enable (ucast (enable_or_disable_password_flag para)) = Some f3"
    by blast
  obtain f4 where f4: "set_xbee_key (swap_register64 (key para)) = Some f4"
    by (simp add: set_xbee_key_def at_frame_seal l)
  obtain f5 f6 where f56: "xbee_store_parameter = Some f5" "xbee_net_restart = Some f6"
    by (simp add: xbee_store_parameter_def xbee_net_restart_def at_frame_seal)
  have so: "send_orders (xs @ [x]) q = snd (set_at_order x (send_orders xs q))" for xs x q
    by (induction xs arbitrary: q) simp_all
  have "int (unat rc) \<noteq> -1" for rc :: u8 by linarith
  then show ?thesis
    by (simp add: set_zigbee_para_def phases_def Let_def so split_beta f1 f2 f3 f4 f56)
qed

lemma para_dialogue:
  "\<exists>ns q. length ns = 15 \<and> set ns \<subseteq> {1..10} \<and>
    set_zigbee_para para p =
      Some (para\<lparr>panid := swap_register32 (panid para), key := swap_register64 (key para)\<rparr>, q) \<and>
    written q = written p @ concat (map2 copies ns (dialogue para))"
proof -
  let ?orders = "at_orders @ [''ATCN '' @ CR]"
  have "\<forall>order\<in>set ?orders. order \<noteq> []" by (simp add: at_orders_def)
  then obtain ns where ns: "length ns = length ?orders" "set ns \<subseteq> {1..10}"
    and w: "written (send_orders ?orders p) = written p @ concat (map2 copies ns (map (\<lambda>x. Some (ascii x)) ?orders))"
    using send_orders_writes by blast
  obtain ms where ms: "length ms = length (phases para)" "set ms \<subseteq> {1..10}"
    and v: "written (run_phases (phases para) (send_orders ?orders p)) =
      written (send_orders ?orders p) @ concat (map2 copies ms (map (\<lambda>x. fst (snd x)) (phases para)))"
    using run_phases_writes by blast
  have "length (ns @ ms) = 15" using ns(1) ms(1) by (simp add: at_orders_def phases_def)
  moreover have "set (ns @ ms) \<subseteq> {1..10}" using ns(2) ms(2) by simp
  moreover have "written (run_phases (phases para) (send_orders ?orders p)) =
      written p @ concat (map2 copies (ns @ ms) (dialogue para))"
  proof -
    have "map2 copies (ns @ ms) (xs @ ys) = map2 copies ns xs @ map2 copies ms ys" if "length ns = length xs" for xs ys
      using that by simp
    from this [of "map (\<lambda>x. Some (ascii x)) ?orders"] show ?thesis
      unfolding v w dialogue_def using ns(1) by (simp only: length_map concat_append append_assoc)
  qed
  ultimately show ?thesis unfolding set_zigbee_para_phases by blast
qed

text \<open>
  C40. The configuration dialogue always ends and always runs to its end: nine AT orders and the six
  parameter commands are sent in this order, each at least once and at most ten times, whatever the
  radio answers. A command with an invalid parameter is skipped, and the failure of the AT orders,
  which the code means to stop the dialogue, does not.
\<close>

theorem configuration_order:
  "\<exists>ns q. length ns = 15 \<and> set ns \<subseteq> {1..10} \<and>
    set_zigbee_para para p =
      Some (para\<lparr>panid := swap_register32 (panid para), key := swap_register64 (key para)\<rparr>, q) \<and>
    written q = written p @ concat (map2 copies ns (dialogue para))"
  by (rule para_dialogue)

text \<open>
  When a command is reported as failed: exactly when none of the first nine answers is
  accepted. So an acceptance at the tenth and last attempt is logged as an error as well.
\<close>

theorem phase_error_logged:
  "logged (para_phase msg frame c1 c2 p) =
    logged p @ (if \<exists>a\<in>set (take 9 (answers p)). answer_accepted c1 c2 a then [] else [msg])"
proof -
  have rounds: "\<exists>ok n q. resend_from m (para_round frame c1 c2) k p = (ok, n, q) \<and> logged q = logged p \<and>
      (if \<exists>a\<in>set (take m (answers p)). answer_accepted c1 c2 a then ok \<and> n \<le> k + m else n = Suc (k + m))" for m k
  proof (induction m arbitrary: k p)
    case 0
    then show ?case
      by (auto simp: para_round_def port_write_def Let_def split: option.splits list.splits)
  next
    case (Suc m)
    obtain b r where r: "para_round frame c1 c2 p = (b, r)" by (cases "para_round frame c1 c2 p")
    show ?case
    proof (cases "answers p")
      case Nil
      then have "\<not> b" "answers r = []" "logged r = logged p"
        using r by (auto simp: para_round_def port_write_def Let_def split: option.splits)
      then show ?thesis using Suc [of "Suc k" r] r Nil by simp
    next
      case (Cons a as)
      then have "b = answer_accepted c1 c2 a" "answers r = as" "logged r = logged p"
        using r by (auto simp: para_round_def port_write_def Let_def split: option.splits)
      then show ?thesis using Suc [of "Suc k" r] r Cons by (auto split: if_splits)
    qed
  qed
  show ?thesis
    using rounds [of 9 0] by (auto simp: para_phase_def resend_def RESEND_NUM_def log_error_def split: if_splits)
qed

end
