(* ===== verification/Meter.thy ===== *)
theory Meter
  imports Register_Store Zigbee
begin

text \<open>
  What the wireless meters share, after \<^verbatim>\<open>meter/meter.h\<close> and
  \<^verbatim>\<open>meter/meter.c\<close>: the registers of a well that belong to the meters, the packets,
  the header of the answers, the daily request for the meter parameters, and the clearing of
  values whose meter has stopped reporting.
\<close>

section \<open>Registers\<close>

definition OIL_PRESSURE_SIZE :: nat where "OIL_PRESSURE_SIZE = 72"
definition OIL_PRESSURE_RTDATA_ADDR :: nat where "OIL_PRESSURE_RTDATA_ADDR = 300"
definition OIL_PRESSURE_METER_INFO_ADDR :: nat where "OIL_PRESSURE_METER_INFO_ADDR = 302"
definition OIL_PRESSURE_INTERVAL_ADDR :: nat where "OIL_PRESSURE_INTERVAL_ADDR = 322"
definition OIL_PRESSURE_TIME_ADDR :: nat where "OIL_PRESSURE_TIME_ADDR = 323"
definition OIL_PRESSURE_METER_PARA_ADDR :: nat where "OIL_PRESSURE_METER_PARA_ADDR = 329"
definition TEMPERATURE_RTDATA_ADDR :: nat where "TEMPERATURE_RTDATA_ADDR = 516"
definition TEMPERATURE_METER_INFO_ADDR :: nat where "TEMPERATURE_METER_INFO_ADDR = 518"
definition TEMPERATURE_INTERVAL_ADDR :: nat where "TEMPERATURE_INTERVAL_ADDR = 538"
definition TEMPERATURE_TIME_ADDR :: nat where "TEMPERATURE_TIME_ADDR = 539"
definition TEMPERATURE_METER_PARA_ADDR :: nat where "TEMPERATURE_METER_PARA_ADDR = 545"
definition STL_SPEED_RTDATA_ADDR :: nat where "STL_SPEED_RTDATA_ADDR = 588"
definition STL_METER_INFO_ADDR :: nat where "STL_METER_INFO_ADDR = 594"
definition STL_INTERVAL_ADDR :: nat where "STL_INTERVAL_ADDR = 614"
definition STL_TIME_ADDR :: nat where "STL_TIME_ADDR = 615"
definition STL_METER_PARA_ADDR :: nat where "STL_METER_PARA_ADDR = 621"
definition LOAD_LOAD_RTDATA_ADDR :: nat where "LOAD_LOAD_RTDATA_ADDR = 664"
definition LOAD_METER_INFO_ADDR :: nat where "LOAD_METER_INFO_ADDR = 668"
definition LOAD_INTERVAL_ADDR :: nat where "LOAD_INTERVAL_ADDR = 688"
definition LOAD_SET_POINTS_ADDR :: nat where "LOAD_SET_POINTS_ADDR = 690"
definition LOAD_SAMPLE_POINTS_ADDR :: nat where "LOAD_SAMPLE_POINTS_ADDR = 691"
definition LOAD_SAMPLE_MODE_ADDR :: nat where "LOAD_SAMPLE_MODE_ADDR = 692"
definition LOAD_TRAVEL_CNT_ADDR :: nat where "LOAD_TRAVEL_CNT_ADDR = 693"
definition LOAD_CYCLE_POS_ADDR :: nat where "LOAD_CYCLE_POS_ADDR = 697"
definition LOAD_CYCLE_LOAD_ADDR :: nat where "LOAD_CYCLE_LOAD_ADDR = 947"
definition LOAD_CYCLE_TIME_ADDR :: nat where "LOAD_CYCLE_TIME_ADDR = 1203"
definition LOAD_METER_PARA_ADDR :: nat where "LOAD_METER_PARA_ADDR = 1209"
definition ELEC_CURRENT_RTDATA_ADDR :: nat where "ELEC_CURRENT_RTDATA_ADDR = 1252"
definition ELEC_ACTIVE_POWER_RTDATA_ADDR :: nat where "ELEC_ACTIVE_POWER_RTDATA_ADDR = 1264"
definition ELEC_REACTIVE_POWER_RTDATA_ADDR :: nat where "ELEC_REACTIVE_POWER_RTDATA_ADDR = 1266"
definition ELEC_ACTIVE_POWER_RATE_RTDATA_ADDR :: nat where "ELEC_ACTIVE_POWER_RATE_RTDATA_ADDR = 1268"
definition ELEC_REACTIVE_POWER_RATE_RTDATA_ADDR :: nat where "ELEC_REACTIVE_POWER_RATE_RTDATA_ADDR = 1270"
definition ELEC_POWER_FACTOR_RTDATA_ADDR :: nat where "ELEC_POWER_FACTOR_RTDATA_ADDR = 1274"
definition ELEC_CYCLE_CURRENT_ADDR :: nat where "ELEC_CYCLE_CURRENT_ADDR = 1276"
definition ELEC_CYCLE_POWER_ADDR :: nat where "ELEC_CYCLE_POWER_ADDR = 1526"
definition ELEC_METER_INFO_ADDR :: nat where "ELEC_METER_INFO_ADDR = 1776"
definition ELEC_INTERVAL_ADDR :: nat where "ELEC_INTERVAL_ADDR = 1796"
definition ELEC_TIME_ADDR :: nat where "ELEC_TIME_ADDR = 1799"
definition ELEC_CYCLE_TIME_ADDR :: nat where "ELEC_CYCLE_TIME_ADDR = 1805"
definition ELEC_METER_PARA_ADDR :: nat where "ELEC_METER_PARA_ADDR = 1811"
definition ACTUATOR_INTERVAL_ADDR :: nat where "ACTUATOR_INTERVAL_ADDR = 1870"
definition ACTUATOR_TOTAL_FLOW_ADDR :: nat where "ACTUATOR_TOTAL_FLOW_ADDR = 1875"
definition ACTUATOR_FLOW_RATE_ADDR :: nat where "ACTUATOR_FLOW_RATE_ADDR = 1877"
definition ACTUATOR2_TOTAL_FLOW_ADDR :: nat where "ACTUATOR2_TOTAL_FLOW_ADDR = 1890"

lemmas pressure_addrs = OIL_PRESSURE_SIZE_def OIL_PRESSURE_RTDATA_ADDR_def
  OIL_PRESSURE_METER_INFO_ADDR_def OIL_PRESSURE_INTERVAL_ADDR_def OIL_PRESSURE_TIME_ADDR_def
  OIL_PRESSURE_METER_PARA_ADDR_def
lemmas temperature_addrs = TEMPERATURE_RTDATA_ADDR_def TEMPERATURE_METER_INFO_ADDR_def
  TEMPERATURE_INTERVAL_ADDR_def TEMPERATURE_TIME_ADDR_def TEMPERATURE_METER_PARA_ADDR_def
lemmas stl_addrs = STL_SPEED_RTDATA_ADDR_def STL_METER_INFO_ADDR_def STL_INTERVAL_ADDR_def
  STL_TIME_ADDR_def STL_METER_PARA_ADDR_def
lemmas load_addrs = LOAD_LOAD_RTDATA_ADDR_def LOAD_METER_INFO_ADDR_def LOAD_INTERVAL_ADDR_def
  LOAD_SET_POINTS_ADDR_def LOAD_SAMPLE_POINTS_ADDR_def LOAD_SAMPLE_MODE_ADDR_def
  LOAD_TRAVEL_CNT_ADDR_def LOAD_CYCLE_POS_ADDR_def LOAD_CYCLE_LOAD_ADDR_def
  LOAD_CYCLE_TIME_ADDR_def LOAD_METER_PARA_ADDR_def
lemmas elec_addrs = ELEC_CURRENT_RTDATA_ADDR_def ELEC_ACTIVE_POWER_RTDATA_ADDR_def
  ELEC_REACTIVE_POWER_RTDATA_ADDR_def ELEC_ACTIVE_POWER_RATE_RTDATA_ADDR_def
  ELEC_REACTIVE_POWER_RATE_RTDATA_ADDR_def ELEC_POWER_FACTOR_RTDATA_ADDR_def
  ELEC_CYCLE_CURRENT_ADDR_def ELEC_CYCLE_POWER_ADDR_def ELEC_METER_INFO_ADDR_def
  ELEC_INTERVAL_ADDR_def ELEC_TIME_ADDR_def ELEC_CYCLE_TIME_ADDR_def ELEC_METER_PARA_ADDR_def
lemmas actuator_addrs = ACTUATOR_INTERVAL_ADDR_def ACTUATOR_TOTAL_FLOW_ADDR_def
  ACTUATOR_FLOW_RATE_ADDR_def ACTUATOR2_TOTAL_FLOW_ADDR_def

section \<open>Meter numbers and codes\<close>

definition OIL_PRESSURE_NO :: nat where "OIL_PRESSURE_NO = 0"
definition CASING_PRESSURE_NO :: nat where "CASING_PRESSURE_NO = 1"
definition BACK_PRESSURE_NO :: nat where "BACK_PRESSURE_NO = 2"
definition TEMPERATURE_NO :: nat where "TEMPERATURE_NO = 3"
definition LOAD_NO :: nat where "LOAD_NO = 4"
definition ELECTRICAL_PARAMETER_NO :: nat where "ELECTRICAL_PARAMETER_NO = 5"
definition STL_NO :: nat where "STL_NO = 6"
definition ACTUATOR_NO1 :: nat where "ACTUATOR_NO1 = 7"
definition ACTUATOR_NO2 :: nat where "ACTUATOR_NO2 = 8"
definition WL_FLOW_METER_NO :: nat where "WL_FLOW_METER_NO = 9"

lemmas meter_numbers = OIL_PRESSURE_NO_def CASING_PRESSURE_NO_def BACK_PRESSURE_NO_def
  TEMPERATURE_NO_def LOAD_NO_def ELECTRICAL_PARAMETER_NO_def STL_NO_def ACTUATOR_NO1_def
  ACTUATOR_NO2_def WL_FLOW_METER_NO_def

definition PER_DAY_SECONDS :: u32 where "PER_DAY_SECONDS = 86400"
definition CLEAR_RTDATA_CNT :: u32 where "CLEAR_RTDATA_CNT = 10"
definition PROTOCOL_TYPE :: u16 where "PROTOCOL_TYPE = 0"
definition VENDER_CODE_TJWZ :: u16 where "VENDER_CODE_TJWZ = 6"
definition METER_TYPE_WL_INTERGRATION_LOAD :: u16 where "METER_TYPE_WL_INTERGRATION_LOAD = 1"
definition METER_TYPE_WL_PRESSURE :: u16 where "METER_TYPE_WL_PRESSURE = 2"
definition METER_TYPE_WL_TEMPERATURE :: u16 where "METER_TYPE_WL_TEMPERATURE = 3"
definition METER_TYPE_WL_ELECTRICITY :: u16 where "METER_TYPE_WL_ELECTRICITY = 4"
definition METER_TYPE_WL_INTERGRATION_SPEED_TORQUE :: u16 where
  "METER_TYPE_WL_INTERGRATION_SPEED_TORQUE = 9"
definition METER_TYPE_WL_FLOW_METER :: u16 where "METER_TYPE_WL_FLOW_METER = 0x0A"
definition METER_TYPE_WL_RTU :: u16 where "METER_TYPE_WL_RTU = 0x1F10"
definition DATA_TYPE_ROUTINE_DATA :: u16 where "DATA_TYPE_ROUTINE_DATA = 0"
definition DATA_TYPE_METER_PARA :: u16 where "DATA_TYPE_METER_PARA = 0x10"
definition DATA_TYPE_INTERGRATION_LOAD_DIAGRAM :: u16 where "DATA_TYPE_INTERGRATION_LOAD_DIAGRAM = 0x20"
definition DATA_TYPE_ELECTRICITY_DIAGRAM :: u16 where "DATA_TYPE_ELECTRICITY_DIAGRAM = 0x30"
definition DATA_TYPE_RTU_ACK_ROUTINE :: u16 where "DATA_TYPE_RTU_ACK_ROUTINE = 0x0100"
definition DATA_TYPE_RTU_EQU_METER_PARA :: u16 where "DATA_TYPE_RTU_EQU_METER_PARA = 0x0101"
definition DATA_TYPE_RTU_EQU_INTERGRATION_DIAGRAM_DATA :: u16 where
  "DATA_TYPE_RTU_EQU_INTERGRATION_DIAGRAM_DATA = 0x0200"
definition DATA_TYPE_RTU_ACK_INTERGRATION_DIAGRAM_DATA :: u16 where
  "DATA_TYPE_RTU_ACK_INTERGRATION_DIAGRAM_DATA = 0x0201"
definition DATA_TYPE_RTU_EQU_WL_ELECTRICITY_DIAGRAM_DATA :: u16 where
  "DATA_TYPE_RTU_EQU_WL_ELECTRICITY_DIAGRAM_DATA = 0x0210"
definition DATA_TYPE_RTU_ACK_WL_ELECTRICITY_DIAGRAM_DATA :: u16 where
  "DATA_TYPE_RTU_ACK_WL_ELECTRICITY_DIAGRAM_DATA = 0x0211"

lemmas meter_types = METER_TYPE_WL_INTERGRATION_LOAD_def METER_TYPE_WL_PRESSURE_def
  METER_TYPE_WL_TEMPERATURE_def METER_TYPE_WL_ELECTRICITY_def
  METER_TYPE_WL_INTERGRATION_SPEED_TORQUE_def METER_TYPE_WL_FLOW_METER_def
lemmas data_types = DATA_TYPE_ROUTINE_DATA_def DATA_TYPE_METER_PARA_def
  DATA_TYPE_INTERGRATION_LOAD_DIAGRAM_def DATA_TYPE_ELECTRICITY_DIAGRAM_def
  DATA_TYPE_RTU_ACK_ROUTINE_def DATA_TYPE_RTU_EQU_METER_PARA_def
  DATA_TYPE_RTU_EQU_INTERGRATION_DIAGRAM_DATA_def DATA_TYPE_RTU_ACK_INTERGRATION_DIAGRAM_DATA_def
  DATA_TYPE_RTU_EQU_WL_ELECTRICITY_DIAGRAM_DATA_def DATA_TYPE_RTU_ACK_WL_ELECTRICITY_DIAGRAM_DATA_def

section \<open>Packets\<close>

text \<open>
  The packed structures are read out of the received bytes; a multi-byte field is what a
  little-endian load gives (the sender's order is the opposite one, and the code swaps). A
  \<^verbatim>\<open>float\<close> is its bit pattern.
\<close>

definition u16_at :: "u8 list \<Rightarrow> nat \<Rightarrow> u16" where
  "u16_at b i = bytes_u16 (b ! i) (b ! (i + 1))"

definition u32_at :: "u8 list \<Rightarrow> nat \<Rightarrow> u32" where
  "u32_at b i = bytes_u32 (b ! i) (b ! (i + 1)) (b ! (i + 2)) (b ! (i + 3))"

record st_a11_packet_header =
  protocol_type :: u16
  vender_no :: u16
  sensor_type :: u16
  sensor_group :: u8
  sensor_num :: u8
  data_typed :: u16

text \<open>The fields all routine packets begin with.\<close>

record st_sensor_info = st_a11_packet_header +
  comm_quality :: u8
  bat_value :: u8
  collect_interval :: u16
  meter_satus :: u16

record st_sensor_normal_packet = st_sensor_info +
  sensor_valve :: u32

record st_torque_speed_load_normal_packet = st_sensor_info +
  torque_valve :: u32
  load_valve :: u32
  speed_valve :: u32

record st_sensor_flow_packet = st_sensor_info +
  total_flow_valve :: u32
  current_flow_valve :: u32

definition header_of :: "u8 list \<Rightarrow> st_a11_packet_header" where
  "header_of b = \<lparr>protocol_type = u16_at b 0, vender_no = u16_at b 2, sensor_type = u16_at b 4,
     sensor_group = b ! 6, sensor_num = b ! 7, data_typed = u16_at b 8\<rparr>"

definition sensor_info :: "u8 list \<Rightarrow> st_sensor_info" where
  "sensor_info b = st_a11_packet_header.extend (header_of b)
     (st_sensor_info.fields (b ! 10) (b ! 11) (u16_at b 12) (u16_at b 14))"

definition normal_packet :: "u8 list \<Rightarrow> st_sensor_normal_packet" where
  "normal_packet b = st_sensor_info.extend (sensor_info b) (st_sensor_normal_packet.fields (u32_at b 16))"

definition torque_speed_load_packet :: "u8 list \<Rightarrow> st_torque_speed_load_normal_packet" where
  "torque_speed_load_packet b = st_sensor_info.extend (sensor_info b)
     (st_torque_speed_load_normal_packet.fields (u32_at b 16) (u32_at b 20) (u32_at b 24))"

definition flow_packet :: "u8 list \<Rightarrow> st_sensor_flow_packet" where
  "flow_packet b = st_sensor_info.extend (sensor_info b)
     (st_sensor_flow_packet.fields (u32_at b 16) (u32_at b 20))"

text \<open>
  The size of \<^verbatim>\<open>st_meter_param\<close>; the analysers hand over its halfwords.
\<close>

definition METER_PARAM_SIZE :: nat where "METER_PARAM_SIZE = 86"

section \<open>Operations of the meters\<close>

text \<open>\<^verbatim>\<open>packet_a11_rtu_header\<close>: the ten bytes put at the start of the answer.\<close>

definition packet_a11_rtu_header :: "u8 list \<Rightarrow> u8 \<Rightarrow> u8 \<Rightarrow> u16 \<Rightarrow> u8 list" where
  "packet_a11_rtu_header buf grp no data_type =
     u16_bytes (swap_int16 PROTOCOL_TYPE) @ u16_bytes (swap_int16 VENDER_CODE_TJWZ) @
     u16_bytes (swap_int16 METER_TYPE_WL_RTU) @ [grp, no] @ u16_bytes (swap_int16 data_type) @
     drop 10 buf"

text \<open>The register functions with their results thrown away, as all the callers here do.\<close>

definition read_register :: "env \<Rightarrow> rtu \<Rightarrow> u16 \<Rightarrow> nat \<Rightarrow> nat \<Rightarrow> u16 option" where
  "read_register e s old well_no addr =
     do { (_, vs) \<leftarrow> zigbee_read_registers e s [old] 1 (int well_no) (int addr); Some (hd vs) }"

definition write_registers :: "env \<Rightarrow> u16 list \<Rightarrow> nat \<Rightarrow> nat \<Rightarrow> rtu \<Rightarrow> rtu option" where
  "write_registers e vs well_no addr s =
     do { (_, s) \<leftarrow> zigbee_write_registers e vs (int (length vs)) (int well_no) (int addr) s; Some s }"

definition time_registers :: "env \<Rightarrow> u16 list" where
  "time_registers e =
     (let st_time = localtime e (time_now e) in
      map (\<lambda>k. int16_to_bcd (of_int k))
        [tm_year st_time + 1900, tm_mon st_time + 1, tm_mday st_time, tm_hour st_time,
         tm_min st_time, tm_sec st_time])"

definition save_time_register :: "env \<Rightarrow> nat \<Rightarrow> nat \<Rightarrow> rtu \<Rightarrow> rtu option" where
  "save_time_register e well_no addr s = write_registers e (time_registers e) well_no addr s"

text \<open>
  \<^verbatim>\<open>judge_eq_meter_para\<close>: 0 asks for the parameters of the meter. The day is an unsigned
  constant, so the difference of the times is compared as an unsigned number.
\<close>

definition judge_eq_meter_para :: "env \<Rightarrow> int \<Rightarrow> nat \<Rightarrow> rtu \<Rightarrow> int \<times> rtu" where
  "judge_eq_meter_para e well_no meter_type s =
     (if well_no \<ge> int RTU_MAX_WELL_NUM - 1 \<or> well_no < 1 then (-1, s)
      else if meter_type \<ge> MAX_NUM_METER_TYPE then (-1, s)
      else (let w = nat (well_no - 1); row = equ_meter_para_time s w in
        if time_now e - row meter_type > PER_DAY_SECONDS
        then (0, s\<lparr>equ_meter_para_time := (equ_meter_para_time s)(w := row(meter_type := time_now e))\<rparr>)
        else (-1, s)))"

definition meter_info :: "('a) st_sensor_info_scheme \<Rightarrow> u16 list" where
  "meter_info p =
     [swap_int16 (vender_no p), swap_int16 (sensor_type p), ucast (sensor_group p), ucast (sensor_num p),
      ucast (comm_quality p), ucast (bat_value p), swap_int16 (collect_interval p),
      swap_int16 (meter_satus p), 0, 0]"

definition save_meter_info :: "env \<Rightarrow> ('a) st_sensor_info_scheme \<Rightarrow> nat \<Rightarrow> nat \<Rightarrow> rtu \<Rightarrow> rtu option" where
  "save_meter_info e p well_no addr s = write_registers e (meter_info p) well_no addr s"

text \<open>\<^verbatim>\<open>time(&rtu_a118_t.meter_sample_time[w][no])\<close>\<close>

definition set_sample_time :: "env \<Rightarrow> nat \<Rightarrow> nat \<Rightarrow> rtu \<Rightarrow> rtu" where
  "set_sample_time e w no s =
     s\<lparr>meter_sample_time := (meter_sample_time s)(w := (meter_sample_time s w)(no := time_now e))\<rparr>"

section \<open>Clearing stale values\<close>

text \<open>
  First loop of \<^verbatim>\<open>clear_meter_rtdata\<close>: the row of sample intervals of well
  \<open>i + 1\<close>, from \<open>tmp\<close>, the value read last.
\<close>

definition interval_row :: "env \<Rightarrow> rtu \<Rightarrow> u16 \<Rightarrow> nat \<Rightarrow> (u16 list \<times> u16) option" where
  "interval_row e s tmp i = do {
     oil \<leftarrow> read_register e s tmp (i + 1) OIL_PRESSURE_INTERVAL_ADDR;
     casing \<leftarrow> read_register e s oil (i + 1) (OIL_PRESSURE_INTERVAL_ADDR + OIL_PRESSURE_SIZE);
     back \<leftarrow> read_register e s casing (i + 1) (OIL_PRESSURE_INTERVAL_ADDR + OIL_PRESSURE_SIZE * 2);
     temperature \<leftarrow> read_register e s back (i + 1) TEMPERATURE_INTERVAL_ADDR;
     load \<leftarrow> read_register e s temperature (i + 1) LOAD_INTERVAL_ADDR;
     elec \<leftarrow> read_register e s load (i + 1) ELEC_INTERVAL_ADDR;
     stl \<leftarrow> read_register e s elec (i + 1) STL_INTERVAL_ADDR;
     actuator \<leftarrow> read_register e s stl (i + 1) ACTUATOR_INTERVAL_ADDR;
     Some ([oil, casing, back, temperature, load * 60, elec, stl, actuator, actuator], actuator) }"

fun interval_rows :: "env \<Rightarrow> rtu \<Rightarrow> u16 \<Rightarrow> nat list \<Rightarrow> u16 list list option" where
  "interval_rows e s tmp [] = Some []"
| "interval_rows e s tmp (i # is) = do {
     (row, tmp) \<leftarrow> interval_row e s tmp i;
     rows \<leftarrow> interval_rows e s tmp is;
     Some (row # rows) }"

text \<open>What is cleared: number of the meter, how many registers, from which address.\<close>

definition clear_table :: "(nat \<times> nat \<times> nat) list" where
  "clear_table =
     [(OIL_PRESSURE_NO, 2, OIL_PRESSURE_RTDATA_ADDR),
      (CASING_PRESSURE_NO, 2, OIL_PRESSURE_RTDATA_ADDR + OIL_PRESSURE_SIZE),
      (BACK_PRESSURE_NO, 2, OIL_PRESSURE_RTDATA_ADDR + 2 * OIL_PRESSURE_SIZE),
      (TEMPERATURE_NO, 2, TEMPERATURE_RTDATA_ADDR),
      (LOAD_NO, 4, LOAD_LOAD_RTDATA_ADDR),
      (ELECTRICAL_PARAMETER_NO, 24, ELEC_CURRENT_RTDATA_ADDR),
      (STL_NO, 6, STL_SPEED_RTDATA_ADDR),
      (ACTUATOR_NO1, 11, ACTUATOR_TOTAL_FLOW_ADDR),
      (ACTUATOR_NO2, 11, ACTUATOR2_TOTAL_FLOW_ADDR)]"

text \<open>Times are signed; ten intervals after the last sample the value is stale.\<close>

definition stale :: "env \<Rightarrow> u16 \<Rightarrow> u32 \<Rightarrow> bool" where
  "stale e interval sampled \<longleftrightarrow> sint (time_now e) > sint (ucast interval * CLEAR_RTDATA_CNT + sampled)"

definition clear_meter :: "env \<Rightarrow> u16 list \<Rightarrow> nat \<Rightarrow> nat \<times> nat \<times> nat \<Rightarrow> rtu \<Rightarrow> rtu" where
  "clear_meter e row i = (\<lambda>(no, len, addr) s.
     if stale e (row ! no) (meter_sample_time s i no)
     then snd (zigbee_write_registers_mset 0xFFFF (int len) (int i + 1) (int addr) (set_sample_time e i no s))
     else s)"

fun clear_rows :: "env \<Rightarrow> u16 list list \<Rightarrow> nat \<Rightarrow> rtu \<Rightarrow> rtu" where
  "clear_rows e [] i s = s"
| "clear_rows e (row # rows) i s = clear_rows e rows (Suc i) (fold (clear_meter e row i) clear_table s)"

definition clear_meter_rtdata :: "env \<Rightarrow> rtu \<Rightarrow> rtu option" where
  "clear_meter_rtdata e s = do {
     rows \<leftarrow> interval_rows e s 0 [0..<RTU_MAX_WELL_NUM];
     Some (clear_rows e rows 0 s) }"

end
