(* ===== verification/Meter_Facts.thy ===== *)
theory Meter_Facts
  imports Meter
begin

text \<open>
  Writing several blocks of registers of one well, as the meters do, and reading one; the daily
  request; the clearing of stale values.
\<close>

section \<open>Reading in a well-formed map\<close>

lemma read_total:
  assumes "map_wf (mp s)" "nat len \<le> length buf"
  shows "\<exists>rc vs. zigbee_read_registers e s buf len well addr = Some (rc, vs) \<and> length vs = length buf"
proof (cases "args_ok (x_max (mp s)) len well addr")
  case True
  note a = args_okD [OF True]
  show ?thesis using read_loop_total [OF assms(1) a(1-3) assms(2), of e] True by (auto simp: zigbee_read_registers_def)
qed (simp add: zigbee_read_registers_def)

lemma read_register_total: "map_wf (mp s) \<Longrightarrow> \<exists>v. read_register e s old w a = Some v"
  using read_total [of s 1 "[old]" e "int w" "int a"] by (auto simp: read_register_def)

section \<open>Blocks of registers\<close>

text \<open>A register write leaves everything but the map, the flash files and the counter alone.\<close>

definition same_rest :: "rtu \<Rightarrow> rtu \<Rightarrow> bool" where
  "same_rest s t \<longleftrightarrow>
     t\<lparr>mp := mp s, disk1 := disk1 s, disk2 := disk2 s, syncs := syncs s\<rparr> = s"

lemma same_rest_refl [simp]: "same_rest s s"
  by (simp add: same_rest_def)

lemma same_rest_fields:
  assumes "same_rest s t"
  shows "out t = out s" "meter_sample_time t = meter_sample_time s"
    "equ_meter_para_time t = equ_meter_para_time s" "elec_param_meter_mac t = elec_param_meter_mac s"
proof -
  note eq = assms [unfolded same_rest_def]
  show "out t = out s" using arg_cong [OF eq, of out] by simp
  show "meter_sample_time t = meter_sample_time s" using arg_cong [OF eq, of meter_sample_time] by simp
  show "equ_meter_para_time t = equ_meter_para_time s" using arg_cong [OF eq, of equ_meter_para_time] by simp
  show "elec_param_meter_mac t = elec_param_meter_mac s" using arg_cong [OF eq, of elec_param_meter_mac] by simp
qed

lemma same_rest_trans:
  assumes "same_rest s t" "same_rest t u"
  shows "same_rest s u"
proof -
  have "u\<lparr>mp := mp s, disk1 := disk1 s, disk2 := disk2 s, syncs := syncs s\<rparr> =
      (u\<lparr>mp := mp t, disk1 := disk1 t, disk2 := disk2 t, syncs := syncs t\<rparr>)
        \<lparr>mp := mp s, disk1 := disk1 s, disk2 := disk2 s, syncs := syncs s\<rparr>"
    by simp
  also have "\<dots> = s" using assms by (simp only: same_rest_def)
  finally show ?thesis by (simp only: same_rest_def)
qed

lemma write_cell_same_rest:
  assumes "kind_at (mp s) w i \<noteq> MAP_SYS" "write_cell e w i v s = Some (rc, v', t)"
  shows "same_rest s t"
  using assms
  by (cases "kind_at (mp s) w i")
    (auto simp: same_rest_def write_cell_def Let_def msync1_def msync2_def rd_eq_Some wr_eq_Some
      split: bind_splits if_splits)

lemma write_loop_same_rest:
  assumes "map_wf (mp s)" "1 \<le> w" "w \<le> 8" "i + n \<le> x_max (mp s)" "plain (mp s) w i n"
    "n \<le> length buf" "\<forall>k. msync_ok e k"
  shows "\<exists>t. write_loop e w i n buf s = Some (0, t) \<and> same_rest s t"
  using assms(1,4-6)
proof (induction n arbitrary: i buf s)
  case 0
  then show ?case by simp
next
  case (Suc n)
  then obtain b bs where buf: "buf = b # bs" by (cases buf) auto
  have i: "i < x_max (mp s)" and k: "kind_at (mp s) w i \<noteq> MAP_SYS" "plain (mp s) w (Suc i) n"
    using Suc.prems by (simp_all add: plain_Suc)
  from Suc.prems(1) assms(2,3) i k(1) show ?case
  proof (cases rule: write_cell_plain [where e = e and v = b])
    case (stored u)
    have "same_rest s u" by (rule write_cell_same_rest [OF k(1) stored(1)])
    moreover have "\<exists>t. write_loop e w (Suc i) n bs u = Some (0, t) \<and> same_rest u t"
      using Suc.IH [of u "Suc i" bs] Suc.prems k(2) buf stored(2) store_at_wf [of "mp s"]
        plain_cong [of "mp u" "mp s"] by simp
    ultimately show ?thesis using stored(1) buf same_rest_trans by auto
  next
    case failed
    then show ?thesis using assms(7) by blast
  qed
qed

lemma write_registers_plain:
  assumes "reg_inv e w s" "a + length vs \<le> x_max (mp s)" "plain (mp s) w a (length vs)" "vs \<noteq> []"
  shows "\<exists>t. write_registers e vs w a s = Some t \<and> mp t = store_run w a vs (mp s) \<and> same_rest s t"
proof -
  have iv: "map_wf (mp s)" "1 \<le> w" "w \<le> 8" "\<forall>k. msync_ok e k"
    using assms(1) by (auto simp: reg_inv_def)
  obtain t where t: "write_loop e w a (length vs) vs s = Some (0, t)" "same_rest s t"
    using write_loop_same_rest [OF iv(1-3) assms(2,3) order_refl iv(4)] by blast
  have "mp t = store_run w a vs (mp s)"
    using write_loop_stored(1) [OF iv(1-3) assms(2,3) order_refl t(1)] by simp
  moreover have "args_ok (x_max (mp s)) (int (length vs)) (int w) (int a)"
    using assms(2,4) iv(2,3) by (cases vs) (auto simp: args_ok_def map_sizes)
  ultimately show ?thesis
    using t by (simp add: write_registers_def zigbee_write_registers_def)
qed

lemma read_register_plain:
  assumes "reg_inv e w s" "a < x_max (mp s)" "kind_at (mp s) w a \<noteq> MAP_SYS"
  shows "read_register e' s old w a = Some (reg (mp s) w a)"
proof -
  have iv: "map_wf (mp s)" "1 \<le> w" "w \<le> 8"
    using assms(1) by (auto simp: reg_inv_def)
  then show ?thesis
    using read_cell_plain [OF iv assms(2,3)] args_ok_one [OF iv(2,3) assms(2)]
    by (simp add: read_register_def zigbee_read_registers_def)
qed

lemma reg_inv_write:
  "reg_inv e w s \<Longrightarrow> mp t = store_run w' a vs (mp s) \<Longrightarrow> reg_inv e w t"
  by (simp add: reg_inv_def store_run_wf)

text \<open>
  What registers of a well hold after the blocks were written in their order: the last block that
  covers a register decides.
\<close>

fun block_value :: "(nat \<times> u16 list) list \<Rightarrow> nat \<Rightarrow> u16 option" where
  "block_value [] j = None"
| "block_value ((a, vs) # bs) j =
     (case block_value bs j of
        Some v \<Rightarrow> Some v
      | None \<Rightarrow> if a \<le> j \<and> j < a + length vs then Some (vs ! (j - a)) else None)"

fun store_blocks :: "nat \<Rightarrow> (nat \<times> u16 list) list \<Rightarrow> map_t \<Rightarrow> map_t" where
  "store_blocks w [] m = m"
| "store_blocks w ((a, vs) # bs) m = store_blocks w bs (store_run w a vs m)"

text \<open>The blocks lie in the well's registers and touch no function register.\<close>

definition blocks_plain :: "map_t \<Rightarrow> nat \<Rightarrow> (nat \<times> u16 list) list \<Rightarrow> bool" where
  "blocks_plain m w bs \<longleftrightarrow>
     (\<forall>(a, vs)\<in>set bs. vs \<noteq> [] \<and> a + length vs \<le> x_max m \<and> plain m w a (length vs))"

lemma blocks_plain_Cons:
  "blocks_plain m w ((a, vs) # bs) \<longleftrightarrow>
     vs \<noteq> [] \<and> a + length vs \<le> x_max m \<and> plain m w a (length vs) \<and> blocks_plain m w bs"
  by (auto simp: blocks_plain_def)

lemma blocks_plain_store [simp]: "blocks_plain (store_run w' a vs m) w bs = blocks_plain m w bs"
  using plain_cong [of "store_run w' a vs m" m] by (simp add: blocks_plain_def)

lemma store_blocks_frame [simp]:
  "x_max (store_blocks w bs m) = x_max m" "ram_x_map_type (store_blocks w bs m) = ram_x_map_type m"
  "ram_y (store_blocks w bs m) = ram_y m" "ram_y_map_type (store_blocks w bs m) = ram_y_map_type m"
  by (induction w bs m rule: store_blocks.induct) simp_all

lemma store_blocks_wf [wf_intros]: "map_wf m \<Longrightarrow> map_wf (store_blocks w bs m)"
  by (rule map_wf_cong) simp_all

lemma store_blocks_append: "store_blocks w (bs @ cs) m = store_blocks w cs (store_blocks w bs m)"
  by (induction w bs m rule: store_blocks.induct) simp_all

lemma reg_store_blocks:
  assumes "1 \<le> w" "blocks_plain m w bs" "j < x_max m"
  shows "reg (store_blocks w bs m) w j = (case block_value bs j of Some v \<Rightarrow> v | None \<Rightarrow> reg m w j)"
  using assms(2,3)
proof (induction bs arbitrary: m)
  case (Cons b bs)
  obtain a vs where b: "b = (a, vs)" by (cases b)
  show ?case
    using Cons.IH [of "store_run w a vs m"] Cons.prems reg_store_run [OF assms(1,1), of a vs m j] b
    by (auto simp: blocks_plain_Cons split: option.splits)
qed simp

text \<open>Registers of another well change only through the shared flash1.\<close>

lemma reg_store_blocks_other:
  assumes "1 \<le> w" "1 \<le> w'" "w' \<noteq> w" "blocks_plain m w bs" "j < x_max m"
    "\<not> (kind_at m w j = MAP_FLASH1 \<and> kind_at m w' j = MAP_FLASH1)"
  shows "reg (store_blocks w bs m) w' j = reg m w' j"
  using assms(4-6)
proof (induction bs arbitrary: m)
  case (Cons b bs)
  obtain a vs where b: "b = (a, vs)" by (cases b)
  have "reg (store_run w a vs m) w' j = reg m w' j"
    using reg_store_run [of w w' a vs m j] Cons.prems assms(1-3) b by (auto simp: blocks_plain_Cons)
  then show ?case
    using Cons.IH [of "store_run w a vs m"] Cons.prems b by (simp add: blocks_plain_Cons)
qed simp

section \<open>The daily request\<close>

text \<open>When the parameters of a meter are asked for.\<close>

definition asked :: "env \<Rightarrow> nat \<Rightarrow> nat \<Rightarrow> rtu \<Rightarrow> bool" where
  "asked e well no s \<longleftrightarrow>
     1 \<le> well \<and> well < 8 \<and> no < 10 \<and> time_now e - equ_meter_para_time s (well - 1) no > 86400"

lemma judge_asked:
  "judge_eq_meter_para e (int well) no s =
     (if asked e well no s
      then (0, s\<lparr>equ_meter_para_time := (equ_meter_para_time s)
                (well - 1 := (equ_meter_para_time s (well - 1))(no := time_now e))\<rparr>)
      else (-1, s))"
  by (auto simp: judge_eq_meter_para_def asked_def RTU_MAX_WELL_NUM_def MAX_NUM_METER_TYPE_def
      PER_DAY_SECONDS_def Let_def nat_diff_distrib)

text \<open>
  The daily request. \<^verbatim>\<open>judge_eq_meter_para\<close> asks for the parameters of a meter
  exactly if more than a day has passed since it last did, as an unsigned difference, so that a
  clock set back asks too; after a request it stays silent for that meter for the next 86400
  seconds; other meters keep their times. Well 8, the last one, is never asked.
\<close>

theorem judge_once_a_day:
  assumes "judge_eq_meter_para e (int well) no s = (rc, t)"
  shows "(rc = 0 \<longleftrightarrow> 1 \<le> well \<and> well \<le> 7 \<and> no < 10 \<and>
      time_now e - equ_meter_para_time s (well - 1) no > 86400) \<and>
    (rc = 0 \<longrightarrow> (\<forall>e'. time_now e' - time_now e \<le> 86400 \<longrightarrow>
      judge_eq_meter_para e' (int well) no t = (-1, t))) \<and>
    (\<forall>w' n'. (w', n') \<noteq> (well - 1, no) \<longrightarrow> equ_meter_para_time t w' n' = equ_meter_para_time s w' n') \<and>
    (rc \<noteq> 0 \<longrightarrow> rc = -1 \<and> t = s) \<and> (well = 8 \<longrightarrow> rc = -1)"
proof (cases "asked e well no s")
  case True
  then have "rc = 0" and t: "t = s\<lparr>equ_meter_para_time := (equ_meter_para_time s)
      (well - 1 := (equ_meter_para_time s (well - 1))(no := time_now e))\<rparr>"
    using assms by (simp_all add: judge_asked)
  moreover have "\<not> asked e' well no t" if "time_now e' - time_now e \<le> 86400" for e'
    using that by (simp add: asked_def t leD)
  ultimately show ?thesis
    using True by (auto simp: judge_asked asked_def)
next
  case False
  then have "rc = -1" "t = s" using assms by (simp_all add: judge_asked)
  then show ?thesis using False by (auto simp: asked_def)
qed

theorem judge_once_a_day_witness:
  "\<exists>t. judge_eq_meter_para (env_demo\<lparr>time_now := 86401\<rparr>) (int 1) 3 rtu_demo = (0, t) \<and>
    judge_eq_meter_para (env_demo\<lparr>time_now := 172801\<rparr>) (int 1) 3 t = (-1, t)"
proof -
  obtain rc t where t: "judge_eq_meter_para (env_demo\<lparr>time_now := 86401\<rparr>) (int 1) 3 rtu_demo = (rc, t)"
    by (cases "judge_eq_meter_para (env_demo\<lparr>time_now := 86401\<rparr>) (int 1) 3 rtu_demo") auto
  have rc: "rc = 0" using judge_once_a_day [OF t] by (simp add: rtu_demo_eval)
  have "judge_eq_meter_para (env_demo\<lparr>time_now := 172801\<rparr>) (int 1) 3 t = (-1, t)"
    using judge_once_a_day [OF t] rc by auto
  then show ?thesis using t rc by blast
qed

end
