(* ===== verification/Stale_Values.thy ===== *)
theory Stale_Values
  imports Meter_Facts
begin

text \<open>
  What \<^verbatim>\<open>clear_meter_rtdata\<close> does to the registers and to the table of sample times:
  every stale value, and nothing else, becomes 0xFFFF in every register.
\<close>

section \<open>The intervals\<close>

text \<open>
  The register of an interval as it is read: the two intervals with a hook are function registers
  whose value is kept in flash2.
\<close>

definition interval_value :: "map_t \<Rightarrow> nat \<Rightarrow> nat \<Rightarrow> u16" where
  "interval_value m w a = (if kind_at m w a = MAP_SYS then flash2 m (x_max m * (w - 1) + a) else reg m w a)"

definition intervals_of :: "map_t \<Rightarrow> nat \<Rightarrow> u16 list" where
  "intervals_of m w =
     [interval_value m w 322, interval_value m w 394, interval_value m w 466, interval_value m w 538,
      interval_value m w 688 * 60, interval_value m w 1796, interval_value m w 614,
      interval_value m w 1870, interval_value m w 1870]"

text \<open>The tables may make only the two hooked intervals function registers.\<close>

definition intervals_plain :: "map_t \<Rightarrow> nat \<Rightarrow> bool" where
  "intervals_plain m w \<longleftrightarrow> (\<forall>a\<in>{322, 394, 466, 538, 688, 614}. kind_at m w a \<noteq> MAP_SYS)"

lemma read_cell_interval:
  assumes "map_wf (mp s)" "1 \<le> w" "w \<le> 8" "a < x_max (mp s)"
    "kind_at (mp s) w a \<noteq> MAP_SYS \<or> a = 1796 \<or> a = 1870"
  shows "read_cell e s w a b = Some (interval_value (mp s) w a)"
proof (cases "kind_at (mp s) w a = MAP_SYS")
  case True
  have "x_max (mp s) * (w - 1) + a < x_size (mp s)" using assms(2-4) by simp
  moreover have "(w - 1) * x_max (mp s) + a < x_size (mp s)" using assms(2-4) by simp
  ultimately have "map_map_fun_read e s b w a = Some (0, flash2 (mp s) ((w - 1) * x_max (mp s) + a))"
    using True assms(5) by (auto simp: map_map_fun_read_def Let_def reg_addrs time_addr_def)
  then show ?thesis
    using True \<open>x_max (mp s) * (w - 1) + a < x_size (mp s)\<close>
    by (simp add: read_cell_def Let_def interval_value_def mult.commute)
next
  case False
  then show ?thesis using read_cell_plain [OF assms(1-4) False] by (simp add: interval_value_def)
qed

lemma read_interval:
  assumes "map_wf (mp s)" "1 \<le> w" "w \<le> 8" "a < x_max (mp s)"
    "kind_at (mp s) w a \<noteq> MAP_SYS \<or> a = 1796 \<or> a = 1870"
  shows "read_register e s b w a = Some (interval_value (mp s) w a)"
  using read_cell_interval [OF assms] args_ok_one [OF assms(2-4)]
  by (simp add: read_register_def zigbee_read_registers_def)

lemma interval_row_inside:
  assumes "map_wf (mp s)" "i < 8" "1870 < x_max (mp s)" "intervals_plain (mp s) (i + 1)"
  shows "interval_row e s tmp i = Some (intervals_of (mp s) (i + 1), interval_value (mp s) (i + 1) 1870)"
proof -
  have r: "read_register e s b (Suc i) a = Some (interval_value (mp s) (Suc i) a)"
    if "a \<in> {322, 394, 466, 538, 688, 614, 1796, 1870}" for a b
    by (rule read_interval [OF assms(1)]) (use assms(2-4) that in \<open>auto simp: intervals_plain_def\<close>)
  show ?thesis
    by (simp add: interval_row_def r pressure_addrs temperature_addrs load_addrs elec_addrs stl_addrs
        actuator_addrs intervals_of_def)
qed

text \<open>Past the last well nothing can be read, and the value of the last read is used.\<close>

lemma interval_row_outside:
  "interval_row e s tmp 8 = Some ([tmp, tmp, tmp, tmp, tmp * 60, tmp, tmp, tmp, tmp], tmp)"
proof -
  have "read_register e s b 9 a = Some b" for a b
    by (simp add: read_register_def zigbee_read_registers_def args_ok_def map_sizes)
  then show ?thesis by (simp add: interval_row_def)
qed

lemma interval_rows_inside:
  assumes "map_wf (mp s)" "1870 < x_max (mp s)" "\<forall>i\<in>set is. i < 8 \<and> intervals_plain (mp s) (i + 1)"
  shows "interval_rows e s tmp (is @ [8]) =
    Some (map (\<lambda>i. intervals_of (mp s) (i + 1)) is @
      [let v = (if is = [] then tmp else interval_value (mp s) (last is + 1) 1870)
       in [v, v, v, v, v * 60, v, v, v, v]])"
  using assms(3)
  by (induction "is" arbitrary: tmp)
    (simp_all add: interval_row_outside interval_row_inside [OF assms(1) _ assms(2), simplified])

section \<open>The clearing pass\<close>

text \<open>The ranges of a table that are stale in a row of intervals, with the sample times \<open>f\<close>.\<close>

definition stale_at :: "env \<Rightarrow> (nat \<times> nat \<times> nat) list \<Rightarrow> u16 list \<Rightarrow> (nat \<Rightarrow> u32) \<Rightarrow> nat \<Rightarrow> bool" where
  "stale_at e tbl row f j \<longleftrightarrow> (\<exists>(no, n, a)\<in>set tbl. a \<le> j \<and> j < a + n \<and> stale e (row ! no) (f no))"

lemma stale_at_simps:
  "stale_at e [] row f j \<longleftrightarrow> False"
  "stale_at e ((no, n, a) # tbl) row f j \<longleftrightarrow>
     a \<le> j \<and> j < a + n \<and> stale e (row ! no) (f no) \<or> stale_at e tbl row f j"
  by (simp_all add: stale_at_def)

text \<open>Staleness decides before the pass: the step of one meter does not move the others.\<close>

definition cleared ::
  "env \<Rightarrow> (nat \<times> nat \<times> nat) list \<Rightarrow> u16 list \<Rightarrow> nat \<Rightarrow> rtu \<Rightarrow> rtu \<Rightarrow> bool" where
  "cleared e tbl row i s t \<longleftrightarrow>
     (\<exists>rx. mp t = (mp s)\<lparr>ram_x := rx\<rparr> \<and>
       (\<forall>w j. 1 \<le> w \<and> j < x_max (mp s) \<longrightarrow> rx (x_max (mp s) * (w - 1) + j) =
          (if w = i + 1 \<and> i < 8 \<and> stale_at e tbl row (meter_sample_time s i) j then 0xFFFF
           else ram_x (mp s) (x_max (mp s) * (w - 1) + j)))) \<and>
     (\<forall>k no. meter_sample_time t k no =
        (if k = i \<and> no \<in> fst ` set tbl \<and> stale e (row ! no) (meter_sample_time s i no) then time_now e
         else meter_sample_time s k no))"

lemma bytes_FFFF: "bytes_u16 (0xFFFF :: u8) (0xFFFF :: u8) = 0xFFFF"
  by (simp add: bytes_u16_def)

lemma clear_meter_cleared:
  assumes "1 \<le> n" "a + n \<le> x_max (mp s)"
  shows "cleared e [(no, n, a)] row i s (clear_meter e row i (no, n, a) s)"
proof (cases "stale e (row ! no) (meter_sample_time s i no)")
  case st: True
  show ?thesis
  proof (cases "i < 8")
    case True
    let ?s = "set_sample_time e i no s"
    define rx where "rx = put (ram_x (mp s)) (x_max (mp s) * (Suc i - 1) + a) (replicate n 0xFFFF)"
    have "args_ok (x_max (mp ?s)) (int n) (int i + 1) (int a)"
      using assms True by (simp add: args_ok_def map_sizes set_sample_time_def)
    then have c: "clear_meter e row i (no, n, a) s = ?s\<lparr>mp := (mp s)\<lparr>ram_x := rx\<rparr>\<rparr>"
      using st by (simp add: clear_meter_def zigbee_write_registers_mset_def Let_def rx_def bytes_FFFF
          set_sample_time_def nat_add_distrib)
    have "rx (x_max (mp s) * (w - 1) + j) =
        (if w = Suc i \<and> a \<le> j \<and> j < a + n then 0xFFFF else ram_x (mp s) (x_max (mp s) * (w - 1) + j))"
      if "1 \<le> w" "j < x_max (mp s)" for w j
      unfolding rx_def by (rule put_well_cells [OF that _ assms(2)]) simp
    then show ?thesis
      unfolding cleared_def c using st True
      by (intro conjI exI [of _ rx]) (auto simp: stale_at_def set_sample_time_def)
  next
    case False
    then have "\<not> args_ok X (int n) (int i + 1) (int a)" for X
      by (simp add: args_ok_def map_sizes)
    then have c: "clear_meter e row i (no, n, a) s = set_sample_time e i no s"
      using st by (simp add: clear_meter_def zigbee_write_registers_mset_def Let_def)
    show ?thesis
      unfolding cleared_def c using st False
      by (intro conjI exI [of _ "ram_x (mp s)"]) (auto simp: set_sample_time_def)
  qed
next
  case False
  then have c: "clear_meter e row i (no, n, a) s = s" by (simp add: clear_meter_def)
  show ?thesis
    unfolding cleared_def c using False
    by (intro conjI exI [of _ "ram_x (mp s)"]) (auto simp: stale_at_def)
qed

lemma cleared_frame:
  assumes "cleared e tbl row i s t"
  shows "x_max (mp t) = x_max (mp s)"
  using assms by (auto simp: cleared_def)

lemma cleared_Cons:
  assumes "cleared e [(no, n, a)] row i s u" "cleared e tbl row i u t" "no \<notin> fst ` set tbl"
  shows "cleared e ((no, n, a) # tbl) row i s t"
proof -
  obtain rx where u: "mp u = (mp s)\<lparr>ram_x := rx\<rparr>"
      "\<And>w j. 1 \<le> w \<Longrightarrow> j < x_max (mp s) \<Longrightarrow> rx (x_max (mp s) * (w - 1) + j) =
          (if w = i + 1 \<and> i < 8 \<and> stale_at e [(no, n, a)] row (meter_sample_time s i) j then 0xFFFF
           else ram_x (mp s) (x_max (mp s) * (w - 1) + j))"
      "\<And>k no'. meter_sample_time u k no' =
        (if k = i \<and> no' = no \<and> stale e (row ! no') (meter_sample_time s i no') then time_now e
         else meter_sample_time s k no')"
    using assms(1) by (auto simp: cleared_def)
  obtain ry where t: "mp t = (mp u)\<lparr>ram_x := ry\<rparr>"
      "\<And>w j. 1 \<le> w \<Longrightarrow> j < x_max (mp u) \<Longrightarrow> ry (x_max (mp u) * (w - 1) + j) =
          (if w = i + 1 \<and> i < 8 \<and> stale_at e tbl row (meter_sample_time u i) j then 0xFFFF
           else ram_x (mp u) (x_max (mp u) * (w - 1) + j))"
      "\<And>k no'. meter_sample_time t k no' =
        (if k = i \<and> no' \<in> fst ` set tbl \<and> stale e (row ! no') (meter_sample_time u i no') then time_now e
         else meter_sample_time u k no')"
    using assms(2) by (auto simp: cleared_def)
  have same: "meter_sample_time u i no' = meter_sample_time s i no'" if "no' \<in> fst ` set tbl" for no'
    using that assms(3) by (auto simp: u(3))
  have st: "stale_at e tbl row (meter_sample_time u i) j = stale_at e tbl row (meter_sample_time s i) j" for j
    unfolding stale_at_def case_prod_beta by (rule bex_cong [OF refl]) (simp only: same [OF imageI])
  have "ry (x_max (mp s) * (w - 1) + j) =
      (if w = i + 1 \<and> i < 8 \<and> stale_at e ((no, n, a) # tbl) row (meter_sample_time s i) j then 0xFFFF
       else ram_x (mp s) (x_max (mp s) * (w - 1) + j))" if "1 \<le> w" "j < x_max (mp s)" for w j
    using t(2) [of w j] u(2) [of w j] that by (auto simp: u(1) st stale_at_simps)
  moreover have "meter_sample_time t k no' =
      (if k = i \<and> no' \<in> fst ` set ((no, n, a) # tbl) \<and> stale e (row ! no') (meter_sample_time s i no')
       then time_now e else meter_sample_time s k no')" for k no'
    using t(3) [of k no'] u(3) [of k no'] u(3) [of i no'] same [of no'] by auto
  ultimately show ?thesis
    unfolding cleared_def using u(1) t(1) by (intro conjI exI [of _ ry]) auto
qed

lemma clear_row_cleared:
  assumes "distinct (map fst tbl)" "\<forall>(no, n, a)\<in>set tbl. 1 \<le> n \<and> a + n \<le> x_max (mp s)"
  shows "cleared e tbl row i s (fold (clear_meter e row i) tbl s)"
  using assms
proof (induction tbl arbitrary: s)
  case Nil
  show ?case by (auto simp: cleared_def stale_at_def intro: exI [of _ "ram_x (mp s)"])
next
  case (Cons x tbl)
  obtain no n a where x: "x = (no, n, a)" by (cases x)
  have "cleared e [(no, n, a)] row i s (clear_meter e row i (no, n, a) s)"
    using Cons.prems(2) x by (intro clear_meter_cleared) auto
  moreover from cleared_frame [OF this]
  have "cleared e tbl row i (clear_meter e row i x s) (fold (clear_meter e row i) tbl (clear_meter e row i x s))"
    using Cons.prems x by (intro Cons.IH) auto
  moreover have "no \<notin> fst ` set tbl" using Cons.prems(1) x by auto
  ultimately show ?case unfolding x by (simp add: cleared_Cons)
qed

lemma clear_table_ok:
  "distinct (map fst clear_table)" "fst ` set clear_table = {..<9}"
  "1901 \<le> X \<Longrightarrow> \<forall>(no, n, a)\<in>set clear_table. 1 \<le> n \<and> a + n \<le> X"
  by (auto simp: clear_table_def meter_numbers pressure_addrs temperature_addrs load_addrs elec_addrs
      stl_addrs actuator_addrs)

lemma clear_rows_cleared:
  assumes "1901 \<le> x_max (mp s)"
  shows "(\<exists>rx. mp (clear_rows e rows i s) = (mp s)\<lparr>ram_x := rx\<rparr> \<and>
      (\<forall>w j. 1 \<le> w \<and> j < x_max (mp s) \<longrightarrow> rx (x_max (mp s) * (w - 1) + j) =
        (if i < w \<and> w \<le> i + length rows \<and> w \<le> 8 \<and>
            stale_at e clear_table (rows ! (w - 1 - i)) (meter_sample_time s (w - 1)) j then 0xFFFF
         else ram_x (mp s) (x_max (mp s) * (w - 1) + j)))) \<and>
    (\<forall>k no. meter_sample_time (clear_rows e rows i s) k no =
      (if i \<le> k \<and> k < i + length rows \<and> no < 9 \<and> stale e (rows ! (k - i) ! no) (meter_sample_time s k no)
       then time_now e else meter_sample_time s k no))"
  using assms
proof (induction rows arbitrary: i s)
  case Nil
  then show ?case by (auto intro: exI [of _ "ram_x (mp s)"])
next
  case (Cons row rows)
  define u where "u = fold (clear_meter e row i) clear_table s"
  have "cleared e clear_table row i s u"
    unfolding u_def using clear_row_cleared [OF clear_table_ok(1) clear_table_ok(3) [OF Cons.prems]] .
  then obtain rx where u: "mp u = (mp s)\<lparr>ram_x := rx\<rparr>"
      "\<And>w j. 1 \<le> w \<Longrightarrow> j < x_max (mp s) \<Longrightarrow> rx (x_max (mp s) * (w - 1) + j) =
          (if w = i + 1 \<and> i < 8 \<and> stale_at e clear_table row (meter_sample_time s i) j then 0xFFFF
           else ram_x (mp s) (x_max (mp s) * (w - 1) + j))"
      "\<And>k no. meter_sample_time u k no =
        (if k = i \<and> no < 9 \<and> stale e (row ! no) (meter_sample_time s i no) then time_now e
         else meter_sample_time s k no)"
    by (auto simp: cleared_def clear_table_ok(2))
  have x: "x_max (mp u) = x_max (mp s)" by (simp add: u(1))
  obtain ry where t: "mp (clear_rows e rows (Suc i) u) = (mp u)\<lparr>ram_x := ry\<rparr>"
      "\<And>w j. 1 \<le> w \<Longrightarrow> j < x_max (mp s) \<Longrightarrow> ry (x_max (mp s) * (w - 1) + j) =
        (if Suc i < w \<and> w \<le> Suc i + length rows \<and> w \<le> 8 \<and>
            stale_at e clear_table (rows ! (w - 1 - Suc i)) (meter_sample_time u (w - 1)) j then 0xFFFF
         else ram_x (mp u) (x_max (mp s) * (w - 1) + j))"
      "\<And>k no. meter_sample_time (clear_rows e rows (Suc i) u) k no =
      (if Suc i \<le> k \<and> k < Suc i + length rows \<and> no < 9 \<and>
          stale e (rows ! (k - Suc i) ! no) (meter_sample_time u k no)
       then time_now e else meter_sample_time u k no)"
    using Cons.IH [of u "Suc i"] Cons.prems x by auto
  have later: "meter_sample_time u k = meter_sample_time s k" if "k \<noteq> i" for k
    using that by (intro ext) (simp add: u(3))
  have nth: "(row # rows) ! (k - i) = (if k = i then row else rows ! (k - Suc i))" if "i \<le> k" for k
    using that by (auto simp: nth_Cons')
  have "ry (x_max (mp s) * (w - 1) + j) =
      (if i < w \<and> w \<le> i + length (row # rows) \<and> w \<le> 8 \<and>
          stale_at e clear_table ((row # rows) ! (w - 1 - i)) (meter_sample_time s (w - 1)) j then 0xFFFF
       else ram_x (mp s) (x_max (mp s) * (w - 1) + j))" if "1 \<le> w" "j < x_max (mp s)" for w j
  proof (cases "w = Suc i")
    case True
    then show ?thesis using t(2) [OF that] u(2) [OF that] by (simp add: u(1))
  next
    case False
    then have "w - 1 \<noteq> i" using that(1) by linarith
    then show ?thesis
      using t(2) [OF that] u(2) [OF that] False nth [of "w - 1"] later [of "w - 1"] by (auto simp: u(1))
  qed
  moreover have "meter_sample_time (clear_rows e rows (Suc i) u) k no =
      (if i \<le> k \<and> k < i + length (row # rows) \<and> no < 9 \<and>
          stale e ((row # rows) ! (k - i) ! no) (meter_sample_time s k no)
       then time_now e else meter_sample_time s k no)" for k no
    using t(3) [of k no] u(3) [of k no] nth [of k] later [of k] by (cases "k = i") auto
  ultimately show ?case
    unfolding clear_rows.simps u_def [symmetric] using t(1) u(1) by (intro conjI exI [of _ ry]) auto
qed

lemma all_wells_split: "[0..<RTU_MAX_WELL_NUM] = [0..<8] @ [8]"
  by (simp add: RTU_MAX_WELL_NUM_def upt_rec)

text \<open>
  C35. Clearing of stale values. With tables that leave the interval registers readable
  \<^verbatim>\<open>clear_meter_rtdata\<close> always returns, and in every well exactly the value registers of
  the meters whose last sample is more than ten intervals old (the load interval counts minutes)
  read 0xFFFF in their ram copy; no other register, no flash register and no other sample time
  changes, and the cleared meters count as sampled now.
\<close>

theorem clear_stale_values:
  assumes "map_wf (mp s)" "1901 \<le> x_max (mp s)" "\<forall>w. 1 \<le> w \<and> w \<le> 8 \<longrightarrow> intervals_plain (mp s) w"
  shows "\<exists>t. clear_meter_rtdata e s = Some t \<and>
    flash1 (mp t) = flash1 (mp s) \<and> flash2 (mp t) = flash2 (mp s) \<and>
    (\<forall>w j. 1 \<le> w \<and> w \<le> 8 \<and> j < x_max (mp s) \<longrightarrow> ram_x (mp t) (x_max (mp s) * (w - 1) + j) =
      (if stale_at e clear_table (intervals_of (mp s) w) (meter_sample_time s (w - 1)) j then 0xFFFF
       else ram_x (mp s) (x_max (mp s) * (w - 1) + j))) \<and>
    (\<forall>w no. 1 \<le> w \<and> w \<le> 8 \<longrightarrow> meter_sample_time t (w - 1) no =
      (if no < 9 \<and> stale e (intervals_of (mp s) w ! no) (meter_sample_time s (w - 1) no) then time_now e
       else meter_sample_time s (w - 1) no))"
proof -
  define last_row where "last_row = (let v = (if [0..<8] = ([] :: nat list) then 0
      else interval_value (mp s) (last [0..<8] + 1) 1870) in [v, v, v, v, v * 60, v, v, v, v])"
  define rows where "rows = map (\<lambda>i. intervals_of (mp s) (i + 1)) [0..<8] @ [last_row]"
  have "interval_rows e s 0 [0..<RTU_MAX_WELL_NUM] = Some rows"
    unfolding all_wells_split rows_def last_row_def
    by (rule interval_rows_inside [OF assms(1)]) (use assms(2,3) in auto)
  then have t: "clear_meter_rtdata e s = Some (clear_rows e rows 0 s)"
    by (simp add: clear_meter_rtdata_def)
  have l: "length rows = 9" by (simp add: rows_def)
  have r: "rows ! (w - 1) = intervals_of (mp s) w" if "1 \<le> w" "w \<le> 8" for w
  proof -
    have "w - 1 < 8" using that by linarith
    then show ?thesis using that(1) by (simp add: rows_def nth_append)
  qed
  note c = clear_rows_cleared [OF assms(2), of e rows 0, unfolded l]
  obtain rx where m: "mp (clear_rows e rows 0 s) = (mp s)\<lparr>ram_x := rx\<rparr>"
    and rx: "\<And>w j. 1 \<le> w \<Longrightarrow> j < x_max (mp s) \<Longrightarrow> rx (x_max (mp s) * (w - 1) + j) =
        (if 0 < w \<and> w \<le> 0 + 9 \<and> w \<le> 8 \<and>
            stale_at e clear_table (rows ! (w - 1 - 0)) (meter_sample_time s (w - 1)) j then 0xFFFF
         else ram_x (mp s) (x_max (mp s) * (w - 1) + j))"
    using c by blast
  have "ram_x (mp (clear_rows e rows 0 s)) (x_max (mp s) * (w - 1) + j) =
      (if stale_at e clear_table (intervals_of (mp s) w) (meter_sample_time s (w - 1)) j then 0xFFFF
       else ram_x (mp s) (x_max (mp s) * (w - 1) + j))" if "1 \<le> w" "w \<le> 8" "j < x_max (mp s)" for w j
    using rx [OF that(1,3)] r [OF that(1,2)] that by (simp add: m)
  moreover have "meter_sample_time (clear_rows e rows 0 s) (w - 1) no =
      (if no < 9 \<and> stale e (intervals_of (mp s) w ! no) (meter_sample_time s (w - 1) no) then time_now e
       else meter_sample_time s (w - 1) no)" if "1 \<le> w" "w \<le> 8" for w no
    using conjunct2 [OF c, rule_format, of "w - 1" no] r [OF that] that by auto
  ultimately show ?thesis using t m by auto
qed

definition rtu_meters :: rtu where
  "rtu_meters = rtu_demo\<lparr>mp := map_demo\<lparr>x_max := 2000, ram_x_map_type := \<lambda>_. MAP_RAM, ram_x := \<lambda>k. 1\<rparr>\<rparr>"

lemma rtu_meters_wf: "map_wf (mp rtu_meters)" "x_max (mp rtu_meters) = 2000"
  "\<forall>k. ram_x_map_type (mp rtu_meters) k = MAP_RAM" "ram_x (mp rtu_meters) k = 1"
  by (simp_all add: rtu_meters_def rtu_demo_eval map_wf_def map_sizes)

theorem clear_stale_values_witness:
  "\<exists>t. clear_meter_rtdata (env_demo\<lparr>time_now := 600\<rparr>) rtu_meters = Some t \<and>
    ram_x (mp t) 300 = 0xFFFF \<and> ram_x (mp t) 302 = 1 \<and> ram_x (mp t) 664 = 1"
proof -
  have p: "\<forall>w. 1 \<le> w \<and> w \<le> 8 \<longrightarrow> intervals_plain (mp rtu_meters) w"
    by (simp add: intervals_plain_def rtu_meters_wf)
  have x: "1901 \<le> x_max (mp rtu_meters)" by (simp add: rtu_meters_wf)
  have i: "intervals_of (mp rtu_meters) 1 = [1, 1, 1, 1, 60, 1, 1, 1, 1]"
    by (simp add: intervals_of_def interval_value_def reg_def rtu_meters_wf)
  have m: "meter_sample_time rtu_meters 0 = (\<lambda>_. 0)" by (simp add: rtu_meters_def rtu_demo_eval)
  have s: "stale_at (env_demo\<lparr>time_now := 600\<rparr>) clear_table [1, 1, 1, 1, 60, 1, 1, 1, 1] (\<lambda>_. 0) 300"
    "\<not> stale_at (env_demo\<lparr>time_now := 600\<rparr>) clear_table [1, 1, 1, 1, 60, 1, 1, 1, 1] (\<lambda>_. 0) 302"
    "\<not> stale_at (env_demo\<lparr>time_now := 600\<rparr>) clear_table [1, 1, 1, 1, 60, 1, 1, 1, 1] (\<lambda>_. 0) 664"
    by (simp_all add: clear_table_def stale_at_simps stale_def meter_numbers pressure_addrs
        temperature_addrs load_addrs elec_addrs stl_addrs actuator_addrs CLEAR_RTDATA_CNT_def)
  obtain t where "clear_meter_rtdata (env_demo\<lparr>time_now := 600\<rparr>) rtu_meters = Some t"
    and "\<forall>w j. 1 \<le> w \<and> w \<le> 8 \<and> j < x_max (mp rtu_meters) \<longrightarrow>
      ram_x (mp t) (x_max (mp rtu_meters) * (w - 1) + j) =
      (if stale_at (env_demo\<lparr>time_now := 600\<rparr>) clear_table (intervals_of (mp rtu_meters) w)
            (meter_sample_time rtu_meters (w - 1)) j then 0xFFFF
       else ram_x (mp rtu_meters) (x_max (mp rtu_meters) * (w - 1) + j))"
    using clear_stale_values [OF rtu_meters_wf(1) x p] by blast
  moreover from this(2) [rule_format, of 1 300] this(2) [rule_format, of 1 302]
    this(2) [rule_format, of 1 664]
  have "ram_x (mp t) 300 = 0xFFFF \<and> ram_x (mp t) 302 = 1 \<and> ram_x (mp t) 664 = 1"
    by (simp add: rtu_meters_wf i [unfolded One_nat_def] m s)
  ultimately show ?thesis by blast
qed

end
