(* ===== verification/Sensors.thy ===== *)
theory Sensors
  imports Meter
begin

text \<open>
  The analysers of \<^verbatim>\<open>meter/pressure_meter_analysis.c\<close>: pressure, temperature, flow and
  torque meters. Each looks at a received packet, answers through the send function it is given
  and stores values, meter state and times in the registers of the well.
\<close>

section \<open>The caller's frame\<close>

text \<open>
  The send callback: address, buffer and number of bytes. Its result is never looked at.
\<close>

type_synonym send_func = "u8 list \<Rightarrow> u8 list \<Rightarrow> u8 \<Rightarrow> rtu \<Rightarrow> rtu option"

text \<open>
  \<open>tmp_buff\<close> is what the local array of 160 bytes happens to hold at the call, and
  \<open>p_addr\<close> the address of the packet, the value of the pointer \<^verbatim>\<open>sensor_param\<close>.
\<close>

record analyser_frame =
  tmp_buff :: "u8 list"
  p_addr :: u32

definition put_u16 :: "u8 list \<Rightarrow> nat \<Rightarrow> u16 \<Rightarrow> u8 list" where
  "put_u16 b i w = b[i := ucast w, Suc i := ucast (drop_bit 8 w)]"

text \<open>
  The answer to a routine packet: the acknowledgement with the sampling interval, or once a day
  the request for the meter's parameters. \<open>addr\<close> is the register of the interval.
\<close>

definition routine_reply ::
  "env \<Rightarrow> analyser_frame \<Rightarrow> send_func \<Rightarrow> u8 list \<Rightarrow> u8 \<Rightarrow> u8 \<Rightarrow> nat \<Rightarrow> nat \<Rightarrow> rtu \<Rightarrow> rtu option" where
  "routine_reply e fr func p_mac grp num meter_type addr s =
     (case judge_eq_meter_para e (int (unat grp)) meter_type s of (rc, s) \<Rightarrow>
        if rc = -1 then
          (let buf = packet_a11_rtu_header (tmp_buff fr) grp num DATA_TYPE_RTU_ACK_ROUTINE in
           do { sleep \<leftarrow> read_register e s 10 (unat grp) addr;
                let sleep = (if sleep > 1800 then 1800 else sleep);
                func p_mac (put_u16 buf 10 (swap_int16 sleep)) 12 s })
        else func p_mac (packet_a11_rtu_header (tmp_buff fr) grp num DATA_TYPE_RTU_EQU_METER_PARA) 10 s)"

text \<open>
  Saving a parameter packet. The address handed over is that of the pointer variable, so the
  buffer has two halfwords; 43 are written.
\<close>

definition write_param :: "env \<Rightarrow> analyser_frame \<Rightarrow> nat \<Rightarrow> nat \<Rightarrow> rtu \<Rightarrow> rtu option" where
  "write_param e fr well_no addr s =
     do { (_, s) \<leftarrow> zigbee_write_registers e (u32_u16s (p_addr fr)) (int (METER_PARAM_SIZE div 2))
            (int well_no) (int addr) s;
          Some s }"

definition stored_float :: "u32 \<Rightarrow> u16 list" where
  "stored_float v = u32_u16s (swap_stor_float_seq (swap_rcv_float_seq v))"

definition group_ok :: "u8 \<Rightarrow> bool" where
  "group_ok g \<longleftrightarrow> g > 0 \<and> unat g < MAX_WELL_NUM + 1"

section \<open>The analysers\<close>

text \<open>Results: -1 not for this meter (or a wrong number), 0 and 1 as the code returns them.\<close>

definition analysis_pressure ::
  "env \<Rightarrow> analyser_frame \<Rightarrow> u8 list \<Rightarrow> u8 list \<Rightarrow> send_func \<Rightarrow> rtu \<Rightarrow> (int \<times> rtu) option" where
  "analysis_pressure e fr p_mac p_buff func s =
     (if length p_buff < 20 then None
      else (let p = normal_packet p_buff; grp = unat (sensor_group p); num = unat (sensor_num p) in
        if sensor_type p \<noteq> swap_int16 METER_TYPE_WL_PRESSURE \<or> protocol_type p \<noteq> swap_int16 PROTOCOL_TYPE
        then Some (-1, s)
        else if data_typed p = swap_int16 DATA_TYPE_ROUTINE_DATA then
          (if \<not> group_ok (sensor_group p) then Some (0, s)
           else if num = 0 \<or> num > 3 then Some (0, s)
           else do {
             s \<leftarrow> routine_reply e fr func p_mac (sensor_group p) (sensor_num p) (num - 1)
                   (OIL_PRESSURE_INTERVAL_ADDR + (num - 1) * OIL_PRESSURE_SIZE) s;
             s \<leftarrow> save_meter_info e p grp (OIL_PRESSURE_METER_INFO_ADDR + (num - 1) * OIL_PRESSURE_SIZE) s;
             let s = set_sample_time e (grp - 1) (num - 1) s;
             s \<leftarrow> write_registers e (stored_float (sensor_valve p)) grp
                   (OIL_PRESSURE_RTDATA_ADDR + (num - 1) * OIL_PRESSURE_SIZE) s;
             s \<leftarrow> save_time_register e grp (OIL_PRESSURE_TIME_ADDR + (num - 1) * OIL_PRESSURE_SIZE) s;
             Some (1, s) })
        else if data_typed p = swap_int16 DATA_TYPE_METER_PARA then
          (if \<not> group_ok (sensor_group p) then Some (0, s)
           else if num = 0 \<or> num > 3 then Some (0, s)
           else do {
             s \<leftarrow> write_param e fr grp (OIL_PRESSURE_METER_PARA_ADDR + (num - 1) * OIL_PRESSURE_SIZE) s;
             Some (1, s) })
        else Some (0, s)))"

text \<open>The next three answer before they look at group and number.\<close>

definition analysis_temperature ::
  "env \<Rightarrow> analyser_frame \<Rightarrow> u8 list \<Rightarrow> u8 list \<Rightarrow> send_func \<Rightarrow> rtu \<Rightarrow> (int \<times> rtu) option" where
  "analysis_temperature e fr p_mac p_buff func s =
     (if length p_buff < 20 then None
      else (let p = normal_packet p_buff; grp = unat (sensor_group p) in
        if sensor_type p \<noteq> swap_int16 METER_TYPE_WL_TEMPERATURE \<or> protocol_type p \<noteq> swap_int16 PROTOCOL_TYPE
        then Some (-1, s)
        else if data_typed p = swap_int16 DATA_TYPE_ROUTINE_DATA then do {
          s \<leftarrow> routine_reply e fr func p_mac (sensor_group p) (sensor_num p) TEMPERATURE_NO
                TEMPERATURE_INTERVAL_ADDR s;
          if \<not> group_ok (sensor_group p) then Some (-1, s)
          else if sensor_num p \<noteq> 1 then Some (-1, s)
          else do {
            let s = set_sample_time e (grp - 1) TEMPERATURE_NO s;
            s \<leftarrow> save_meter_info e p grp TEMPERATURE_METER_INFO_ADDR s;
            s \<leftarrow> write_registers e (stored_float (sensor_valve p)) grp TEMPERATURE_RTDATA_ADDR s;
            s \<leftarrow> save_time_register e grp TEMPERATURE_TIME_ADDR s;
            Some (0, s) } }
        else if data_typed p = swap_int16 DATA_TYPE_METER_PARA then
          (if \<not> group_ok (sensor_group p) then Some (-1, s)
           else do { s \<leftarrow> write_param e fr grp TEMPERATURE_METER_PARA_ADDR s; Some (0, s) })
        else Some (-1, s)))"

definition analysis_flow_meter ::
  "env \<Rightarrow> analyser_frame \<Rightarrow> u8 list \<Rightarrow> u8 list \<Rightarrow> send_func \<Rightarrow> rtu \<Rightarrow> (int \<times> rtu) option" where
  "analysis_flow_meter e fr p_mac p_buff func s =
     (if length p_buff < 24 then None
      else (let p = flow_packet p_buff; grp = unat (sensor_group p); num = unat (sensor_num p) in
        if sensor_type p \<noteq> swap_int16 METER_TYPE_WL_FLOW_METER \<or> protocol_type p \<noteq> swap_int16 PROTOCOL_TYPE
        then Some (-1, s)
        else if data_typed p = swap_int16 DATA_TYPE_ROUTINE_DATA then do {
          s \<leftarrow> routine_reply e fr func p_mac (sensor_group p) (sensor_num p) WL_FLOW_METER_NO
                ACTUATOR_INTERVAL_ADDR s;
          if \<not> group_ok (sensor_group p) then Some (-1, s)
          else if num \<noteq> 1 \<and> num \<noteq> 2 then Some (-1, s)
          else do {
            let s = set_sample_time e (grp - 1) WL_FLOW_METER_NO s;
            s \<leftarrow> write_registers e (stored_float (total_flow_valve p)) grp
                  (ACTUATOR_TOTAL_FLOW_ADDR + 15 * (num - 1)) s;
            s \<leftarrow> write_registers e (stored_float (current_flow_valve p)) grp
                  (ACTUATOR_FLOW_RATE_ADDR + 15 * (num - 1)) s;
            Some (0, s) } }
        else if data_typed p = swap_int16 DATA_TYPE_METER_PARA then
          (if \<not> group_ok (sensor_group p) then Some (-1, s) else Some (0, s))
        else Some (-1, s)))"

definition analysis_torque_speed_load ::
  "env \<Rightarrow> analyser_frame \<Rightarrow> u8 list \<Rightarrow> u8 list \<Rightarrow> send_func \<Rightarrow> rtu \<Rightarrow> (int \<times> rtu) option" where
  "analysis_torque_speed_load e fr p_mac p_buff func s =
     (if length p_buff < 28 then None
      else (let p = torque_speed_load_packet p_buff; grp = unat (sensor_group p) in
        if sensor_type p \<noteq> swap_int16 METER_TYPE_WL_INTERGRATION_SPEED_TORQUE \<or>
           protocol_type p \<noteq> swap_int16 PROTOCOL_TYPE
        then Some (-1, s)
        else if data_typed p = swap_int16 DATA_TYPE_ROUTINE_DATA then do {
          s \<leftarrow> routine_reply e fr func p_mac (sensor_group p) (sensor_num p) STL_NO STL_INTERVAL_ADDR s;
          if \<not> group_ok (sensor_group p) then Some (-1, s)
          else if sensor_num p \<noteq> 1 then Some (-1, s)
          else do {
            let s = set_sample_time e (grp - 1) STL_NO s;
            s \<leftarrow> save_meter_info e p grp STL_METER_INFO_ADDR s;
            s \<leftarrow> write_registers e (stored_float (speed_valve p) @ stored_float (torque_valve p) @
                  stored_float (load_valve p)) grp STL_SPEED_RTDATA_ADDR s;
            s \<leftarrow> save_time_register e grp STL_TIME_ADDR s;
            Some (0, s) } }
        else if data_typed p = swap_int16 DATA_TYPE_METER_PARA then
          (if \<not> group_ok (sensor_group p) then Some (-1, s)
           else do { s \<leftarrow> write_param e fr grp STL_METER_PARA_ADDR s; Some (0, s) })
        else Some (-1, s)))"

end
