(* ===== verification/Floats.thy ===== *)
theory Floats
  imports Prelude Complex_Main
begin

text \<open>
  The floating-point arithmetic of the C language on the target: IEEE single and double precision
  with rounding to nearest, ties to even. A number is a sign, a mantissa and an exponent; only
  single precision numbers are stored, as bit patterns.
\<close>

section \<open>Numbers\<close>

datatype fp = Fin bool nat int | Inf bool | NaN u32

fun fval :: "fp \<Rightarrow> real" where
  "fval (Fin s m e) = (if s then - 1 else 1) * real m * 2 powi e"
| "fval _ = 0"

fun is_finite :: "fp \<Rightarrow> bool" where
  "is_finite (Fin s m e) = True"
| "is_finite _ = False"

text \<open>The number of binary digits.\<close>

fun digits :: "nat \<Rightarrow> nat" where
  "digits n = (if n = 0 then 0 else Suc (digits (n div 2)))"

declare digits.simps [simp del]

text \<open>Quotient to the nearest integer, ties to even.\<close>

definition rne :: "nat \<Rightarrow> nat \<Rightarrow> nat" where
  "rne a b = (let q = a div b; r = a mod b in
     if 2 * r < b \<or> 2 * r = b \<and> even q then q else q + 1)"

text \<open>
  The quotient \<open>n / d\<close> rounded to \<open>p\<close> digits with no exponent below \<open>emin\<close> and none above \<open>emax\<close>:
  \<open>x\<close> is the exponent with \<open>2 powi x \<le> n / d < 2 powi (x + 1)\<close>.
\<close>

definition lead :: "nat \<Rightarrow> nat \<Rightarrow> int" where
  "lead n d = (let x = int (digits n) - int (digits d) in
     if n * 2 ^ nat (- x) \<ge> d * 2 ^ nat x then x else x - 1)"

definition fround :: "nat \<Rightarrow> int \<Rightarrow> int \<Rightarrow> bool \<Rightarrow> nat \<Rightarrow> nat \<Rightarrow> fp" where
  "fround p emin emax s n d =
     (if n = 0 then Fin s 0 emin
      else let e = max emin (lead n d - int p + 1);
               m = rne (n * 2 ^ nat (- e)) (d * 2 ^ nat e);
               (m, e) = (if m = 2 ^ p then (2 ^ (p - 1), e + 1) else (m, e))
           in if e > emax then Inf s else Fin s m e)"

definition round32 :: "bool \<Rightarrow> nat \<Rightarrow> nat \<Rightarrow> fp" where "round32 = fround 24 (-149) 104"
definition round64 :: "bool \<Rightarrow> nat \<Rightarrow> nat \<Rightarrow> fp" where "round64 = fround 53 (-1074) 971"

section \<open>Bit patterns of single precision\<close>

definition decode32 :: "u32 \<Rightarrow> fp" where
  "decode32 w = (let s = bit w 31; ex = unat (drop_bit 23 w AND 0xFF); frac = unat (w AND 0x7FFFFF) in
     if ex = 255 then (if frac = 0 then Inf s else NaN w)
     else if ex = 0 then Fin s frac (-149)
     else Fin s (frac + 2 ^ 23) (int ex - 150))"

fun encode32 :: "fp \<Rightarrow> u32" where
  "encode32 (Fin s m e) =
     (if s then 0x80000000 else 0) + of_nat (if m < 2 ^ 23 then m else nat (e + 149) * 2 ^ 23 + m)"
| "encode32 (Inf s) = (if s then 0xFF800000 else 0x7F800000)"
| "encode32 (NaN w) = w"

section \<open>Operations\<close>

text \<open>
  The operations take the rounding of their type. A NaN is passed on as the processor does it: the
  first signalling operand, else the first quiet one, as a quiet NaN.
\<close>

definition quiet :: "u32 \<Rightarrow> u32" where "quiet w = w OR 0x400000"

definition default_NaN :: fp where "default_NaN = NaN 0x7FC00000"

fun signalling :: "fp \<Rightarrow> bool" where
  "signalling (NaN w) = (\<not> bit w 22)"
| "signalling _ = False"

fun pass_NaN :: "fp \<Rightarrow> fp \<Rightarrow> fp" where
  "pass_NaN (NaN a) (NaN b) = NaN (quiet (if bit a 22 \<and> \<not> bit b 22 then b else a))"
| "pass_NaN (NaN a) y = NaN (quiet a)"
| "pass_NaN x (NaN b) = NaN (quiet b)"
| "pass_NaN x y = default_NaN"

type_synonym rounding = "bool \<Rightarrow> nat \<Rightarrow> nat \<Rightarrow> fp"

text \<open>The quotient of integers \<open>n\<close> and \<open>d\<close> times a power of two.\<close>

definition scaled :: "rounding \<Rightarrow> bool \<Rightarrow> nat \<Rightarrow> nat \<Rightarrow> int \<Rightarrow> fp" where
  "scaled r s n d e = r s (n * 2 ^ nat e) (d * 2 ^ nat (- e))"

fun fp_mul :: "rounding \<Rightarrow> fp \<Rightarrow> fp \<Rightarrow> fp" where
  "fp_mul r (Fin s m e) (Fin t k f) = scaled r (s \<noteq> t) (m * k) 1 (e + f)"
| "fp_mul r (Fin s m e) (Inf t) = (if m = 0 then default_NaN else Inf (s \<noteq> t))"
| "fp_mul r (Inf s) (Fin t k f) = (if k = 0 then default_NaN else Inf (s \<noteq> t))"
| "fp_mul r (Inf s) (Inf t) = Inf (s \<noteq> t)"
| "fp_mul r x y = pass_NaN x y"

fun fp_div :: "rounding \<Rightarrow> fp \<Rightarrow> fp \<Rightarrow> fp" where
  "fp_div r (Fin s m e) (Fin t k f) =
     (if k = 0 then (if m = 0 then default_NaN else Inf (s \<noteq> t)) else scaled r (s \<noteq> t) m k (e - f))"
| "fp_div r (Fin s m e) (Inf t) = r (s \<noteq> t) 0 1"
| "fp_div r (Inf s) (Fin t k f) = Inf (s \<noteq> t)"
| "fp_div r (Inf s) (Inf t) = default_NaN"
| "fp_div r x y = pass_NaN x y"

text \<open>A sum of two numbers, over their smaller exponent; a sum that is exactly zero is positive
  unless both are negative.\<close>

fun fp_sum :: "rounding \<Rightarrow> fp \<Rightarrow> fp \<Rightarrow> fp" where
  "fp_sum r (Fin s m e) (Fin t k f) =
     (let g = min e f; a = int (m * 2 ^ nat (e - g)) * (if s then - 1 else 1);
          b = int (k * 2 ^ nat (f - g)) * (if t then - 1 else 1); c = a + b in
      if c = 0 then r (s \<and> t) 0 1 else scaled r (c < 0) (nat \<bar>c\<bar>) 1 g)"
| "fp_sum r (Fin s m e) (Inf t) = Inf t"
| "fp_sum r (Inf s) (Fin t k f) = Inf s"
| "fp_sum r (Inf s) (Inf t) = (if s = t then Inf s else default_NaN)"
| "fp_sum r x y = pass_NaN x y"

text \<open>Conversion between the precisions.\<close>

fun fp_conv :: "rounding \<Rightarrow> fp \<Rightarrow> fp" where
  "fp_conv r (Fin s m e) = scaled r s m 1 e"
| "fp_conv r (Inf s) = Inf s"
| "fp_conv r (NaN w) = NaN (quiet w)"

text \<open>An integer; up to 53 digits it is a double as it is, else it has to be converted.\<close>

definition fp_of_int :: "int \<Rightarrow> fp" where
  "fp_of_int k = Fin (k < 0) (nat \<bar>k\<bar>) 0"


section \<open>How exact the rounding is\<close>

lemma digits_bounds:
  "0 < n \<Longrightarrow> 2 ^ digits n \<le> 2 * n \<and> n < 2 ^ digits n"
proof (induction n rule: digits.induct)
  case (1 n)
  show ?case
  proof (cases "n = 1")
    case True
    then show ?thesis by (simp add: digits.simps [of "Suc 0"] digits.simps [of 0])
  next
    case False
    then have "2 ^ digits (n div 2) \<le> 2 * (n div 2) \<and> n div 2 < 2 ^ digits (n div 2)"
      using 1 by auto
    then show ?thesis using 1(2) by (subst (1 2) digits.simps) auto
  qed
qed

lemma digits_real:
  assumes "0 < n"
  shows "2 ^ digits n \<le> 2 * real n" "real n < 2 ^ digits n"
proof -
  have "real (2 ^ digits n) \<le> real (2 * n)" "real n < real (2 ^ digits n)"
    using digits_bounds [OF assms] by (simp_all only: of_nat_le_iff of_nat_less_iff)
  then show "2 ^ digits n \<le> 2 * real n" "real n < 2 ^ digits n" by simp_all
qed

lemma rne_error:
  assumes "0 < b"
  shows "\<bar>real (rne a b) - real a / real b\<bar> \<le> 1 / 2"
proof -
  have a: "real a / real b = real (a div b) + real (a mod b) / real b"
    using assms by (simp add: real_of_nat_div field_simps) (simp flip: of_nat_mult of_nat_add)
  have r: "real (a mod b) / real b < 1" using assms by simp
  show ?thesis
    unfolding a rne_def Let_def using r assms by (auto simp: field_simps)
qed

lemma rne_le: "0 < b \<Longrightarrow> real a / real b < real k \<Longrightarrow> rne a b \<le> k"
  using rne_error [of b a] by linarith

lemma rne_ge: "0 < b \<Longrightarrow> real k \<le> real a / real b \<Longrightarrow> k \<le> rne a b"
  using rne_error [of b a] by linarith

lemma shift_quotient: "real (n * 2 ^ nat (- e)) / real (d * 2 ^ nat e) = real n / real d / 2 powi e"
  by (cases "e \<ge> 0") (auto simp: power_int_def field_simps)

lemma lead_bounds:
  assumes "0 < n" "0 < d"
  shows "2 powi lead n d \<le> real n / real d" "real n / real d < 2 powi (lead n d + 1)"
proof -
  let ?x = "int (digits n) - int (digits d)"
  note n = digits_real [OF assms(1)]
  note d = digits_real [OF assms(2)]
  have x: "2 powi ?x = (2 ^ digits n / 2 ^ digits d :: real)"
    by (simp add: power_int_diff)
  have up: "real n / real d < 2 * 2 powi ?x"
  proof -
    have "real n / real d < 2 ^ digits n / real d" using n(2) assms(2) by (simp add: divide_strict_right_mono)
    also have "\<dots> \<le> 2 ^ digits n / (2 ^ digits d / 2)" using d(1) assms(2) by (intro divide_left_mono) auto
    finally show ?thesis by (simp add: x mult.commute)
  qed
  have lo: "2 powi ?x / 2 \<le> real n / real d"
  proof -
    have "2 powi ?x / 2 = (2 ^ digits n / 2 / 2 ^ digits d :: real)" by (simp add: x)
    also have "\<dots> \<le> real n / 2 ^ digits d" using n(1) by (intro divide_right_mono) auto
    also have "\<dots> \<le> real n / real d" using d(2) assms(2) by (intro divide_left_mono) auto
    finally show ?thesis .
  qed
  have t: "d * 2 ^ nat ?x \<le> n * 2 ^ nat (- ?x) \<longleftrightarrow> 2 powi ?x \<le> real n / real d"
  proof -
    have "d * 2 ^ nat ?x \<le> n * 2 ^ nat (- ?x) \<longleftrightarrow> 1 \<le> real (n * 2 ^ nat (- ?x)) / real (d * 2 ^ nat ?x)"
    proof -
      have "0 < real (d * 2 ^ nat ?x)" using assms(2) by simp
      then show ?thesis by (simp only: le_divide_eq if_True mult_1 of_nat_le_iff)
    qed
    also have "\<dots> \<longleftrightarrow> 1 \<le> real n / real d / 2 powi ?x"
      unfolding shift_quotient ..
    also have "\<dots> \<longleftrightarrow> 2 powi ?x \<le> real n / real d" using assms(2) by (simp add: le_divide_eq mult.commute)
    finally show ?thesis .
  qed
  have "2 powi (?x - 1) = (2 powi ?x / 2 :: real)" "2 powi (?x + 1) = (2 * 2 powi ?x :: real)"
    by (simp_all add: power_int_diff power_int_add)
  moreover have "lead n d = (if 2 powi ?x \<le> real n / real d then ?x else ?x - 1)"
    unfolding lead_def Let_def t ..
  ultimately show "2 powi lead n d \<le> real n / real d" "real n / real d < 2 powi (lead n d + 1)"
    using up lo by (cases "2 powi ?x \<le> real n / real d"; simp only: if_True if_False diff_add_cancel)+
qed

text \<open>
  A rounded quotient is sign, mantissa and exponent of the format; it is half a unit of its last
  digit off at most, and above the subnormal numbers one part in \<open>2 ^ p\<close>.
\<close>

lemma fround_correct:
  assumes f: "fround p emin emax s n d = Fin t m e" and pos: "0 < n" "0 < d" "0 < p"
  shows "t = s" "m < 2 ^ p" "emin \<le> e" "e \<le> emax" "2 ^ (p - 1) \<le> m \<or> e = emin"
    "2 powi (emin + int p - 1) \<le> real n / real d \<Longrightarrow>
     \<bar>real m * 2 powi e - real n / real d\<bar> \<le> real n / real d / 2 ^ p"
proof -
  define x where "x = lead n d"
  define e0 where "e0 = max emin (x - int p + 1)"
  define a where "a = n * 2 ^ nat (- e0)"
  define b where "b = d * 2 ^ nat e0"
  define m0 where "m0 = rne a b"
  have me: "t = s" "e \<le> emax" and me': "(m, e) = (if m0 = 2 ^ p then (2 ^ (p - 1), e0 + 1) else (m0, e0))"
    using f pos(1) by (auto simp: fround_def Let_def x_def [symmetric] e0_def [symmetric] a_def [symmetric]
        b_def [symmetric] m0_def [symmetric] split: if_splits)
  have b: "0 < b" using pos by (simp add: b_def)
  have ab: "real a / real b = real n / real d / 2 powi e0"
    unfolding a_def b_def shift_quotient ..
  have x: "2 powi x \<le> real n / real d" "real n / real d < 2 powi (x + 1)"
    using lead_bounds [OF pos(1,2)] by (simp_all add: x_def)
  have p: "2 ^ p = (2 powi int p :: real)" by simp
  have up: "real a / real b < 2 ^ p"
  proof -
    have "real n / real d < 2 powi (e0 + int p)"
      using x(2) by (rule less_le_trans) (simp add: e0_def power_int_increasing)
    then have "real n / real d < 2 ^ p * 2 powi e0" by (simp add: power_int_add mult.commute)
    then show ?thesis unfolding ab by (simp only: divide_less_eq zero_less_power_int) simp
  qed
  have m0: "m0 \<le> 2 ^ p" using rne_le [OF b, of a "2 ^ p"] up by (simp add: m0_def)
  have p1: "2 ^ p = 2 * (2 ^ (p - 1) :: nat)" using pos(3) by (cases p) auto
  show "t = s" "e \<le> emax" by (fact me)+
  show "m < 2 ^ p" using me' m0 p1 by (auto split: if_splits)
  show "emin \<le> e" using me' by (auto simp: e0_def split: if_splits)
  have lo': "real (2 ^ (p - 1)) \<le> real a / real b" if "e0 \<noteq> emin \<or> 2 powi (emin + int p - 1) \<le> real n / real d"
  proof -
    have "2 powi (e0 + (int p - 1)) \<le> real n / real d"
    proof (cases "e0 = x - int p + 1")
      case True then show ?thesis using x(1) by simp
    next
      case False then show ?thesis using that by (simp add: e0_def max_def add_diff_eq split: if_splits)
    qed
    then have "2 powi (int p - 1) * 2 powi e0 \<le> real n / real d"
      by (subst (asm) power_int_add) (simp_all add: mult.commute)
    then have "2 powi (int p - 1) \<le> real a / real b"
      unfolding ab by (simp only: le_divide_eq zero_less_power_int) simp
    moreover have "2 powi (int p - 1) = real (2 ^ (p - 1))"
      using pos(3) by (simp add: power_int_def nat_diff_distrib)
    ultimately show ?thesis by simp
  qed
  have "2 ^ (p - 1) \<le> m0" if "e0 \<noteq> emin"
    using lo' that rne_ge [OF b, of "2 ^ (p - 1)" a] by (simp add: m0_def)
  then show "2 ^ (p - 1) \<le> m \<or> e = emin" using me' by (auto split: if_splits)
  assume n: "2 powi (emin + int p - 1) \<le> real n / real d"
  have v: "real m * 2 powi e = real m0 * 2 powi e0"
    using me' p1 by (auto simp: power_int_add split: if_splits)
  have nd: "real n / real d = real a / real b * 2 powi e0" by (simp add: ab)
  have "\<bar>real m * 2 powi e - real n / real d\<bar> = \<bar>real m0 - real a / real b\<bar> * 2 powi e0"
    unfolding v nd left_diff_distrib [symmetric] by (simp add: abs_mult)
  also have "\<dots> \<le> 1 / 2 * 2 powi e0"
    using rne_error [OF b, of a] by (intro mult_right_mono) (simp_all add: m0_def)
  also have "\<dots> = real (2 ^ (p - 1)) * 2 powi e0 / 2 ^ p"
    using pos(3) by (cases p) (simp_all add: field_simps)
  also have "\<dots> \<le> real n / real d / 2 ^ p"
    unfolding nd using lo' n by (intro divide_right_mono mult_right_mono) auto
  finally show "\<bar>real m * 2 powi e - real n / real d\<bar> \<le> real n / real d / 2 ^ p" .
qed

lemma fround_finite:
  assumes "0 < d" "0 < p" "real n / real d < 2 powi (emax + int p - 1)" "emin < emax"
  shows "is_finite (fround p emin emax s n d)"
proof (cases "n = 0")
  case False
  then have "2 powi lead n d < (2 powi (emax + int p - 1) :: real)"
    using lead_bounds(1) [of n d] assms(1,3) by simp
  then have "lead n d < emax + int p - 1"
    using power_int_increasing [of "emax + int p - 1" "lead n d" "2 :: real"] by linarith
  then have e: "max emin (lead n d - int p + 1) < emax" using assms(4) by simp
  have r: "is_finite (let (m, e) = (if b then (k, e + 1) else (m, e)) in if e > emax then Inf s else Fin s m e)"
    if "e < emax" for b k e m using that by simp
  show ?thesis unfolding fround_def using False r [OF e] by (simp only: if_False Let_def)
qed (simp add: fround_def)

definition near :: "nat \<Rightarrow> fp \<Rightarrow> real \<Rightarrow> bool" where
  "near k x y \<longleftrightarrow> is_finite x \<and> \<bar>fval x - y\<bar> \<le> \<bar>y\<bar> / 2 ^ k"

lemma fround_near:
  assumes "0 < d" "0 < p" "emin < emax" "real n / real d < 2 powi (emax + int p - 1)"
    and "n = 0 \<or> 2 powi (emin + int p - 1) \<le> real n / real d"
  shows "near p (fround p emin emax s n d) ((if s then - 1 else 1) * (real n / real d))"
proof (cases "n = 0")
  case True
  then show ?thesis by (simp add: near_def fround_def)
next
  case False
  obtain t m e where f: "fround p emin emax s n d = Fin t m e"
    using fround_finite [OF assms(1,2,4,3), of s] by (cases "fround p emin emax s n d") auto
  have c: "t = s" "\<bar>real m * 2 powi e - real n / real d\<bar> \<le> real n / real d / 2 ^ p"
    using fround_correct [OF f] False assms by auto
  then show ?thesis by (auto simp: near_def f)
qed

lemma near_scaled:
  assumes "0 < d" "0 < p" "emin < emax" "q = real n / real d * 2 powi e" "q < 2 powi (emax + int p - 1)"
    and "n = 0 \<or> 2 powi (emin + int p - 1) \<le> q"
  shows "near p (scaled (fround p emin emax) s n d e) ((if s then - 1 else 1) * q)"
proof -
  have q: "real (n * 2 ^ nat e) / real (d * 2 ^ nat (- e)) = q"
    using shift_quotient [of n "- e" d] by (simp add: assms(4) power_int_minus field_simps)
  show ?thesis
    unfolding scaled_def q [symmetric]
    by (rule fround_near) (use assms(1,2,3,5,6) in \<open>simp_all only: q\<close>, simp_all)
qed


text \<open>The numbers single precision has, and their bit patterns.\<close>

fun fmt32 :: "fp \<Rightarrow> bool" where
  "fmt32 (Fin s m e) \<longleftrightarrow> m < 2 ^ 24 \<and> (if m < 2 ^ 23 then e = - 149 else - 149 \<le> e \<and> e \<le> 104)"
| "fmt32 _ \<longleftrightarrow> True"

lemma field_unat:
  "unat (drop_bit 23 w AND 0xFF) = unat (w :: u32) div 2 ^ 23 mod 2 ^ 8"
  "unat (w AND 0x7FFFFF) = unat w mod 2 ^ 23"
proof -
  have m: "(0xFF :: u32) = mask 8" "(0x7FFFFF :: u32) = mask 23" by (simp_all add: mask_eq_exp_minus_1)
  show "unat (drop_bit 23 w AND 0xFF) = unat w div 2 ^ 23 mod 2 ^ 8"
    unfolding m by (simp add: unat_mod unat_drop_bit_eq drop_bit_eq_div take_bit_eq_mod unat_div flip: take_bit_eq_mask) 
  show "unat (w AND 0x7FFFFF) = unat w mod 2 ^ 23"
    unfolding m by (simp add: unat_mod take_bit_eq_mod flip: take_bit_eq_mask)
qed

lemma decode_encode:
  assumes "fmt32 (Fin s m e)"
  shows "decode32 (encode32 (Fin s m e)) = Fin s m e"
proof -
  define k where "k = (if m < 2 ^ 23 then m else nat (e + 149) * 2 ^ 23 + m)"
  have m: "m < 2 ^ 24" using assms by simp
  have k: "k < 2 ^ 31" "k div 2 ^ 23 = (if m < 2 ^ 23 then 0 else nat (e + 150))" "k mod 2 ^ 23 = m mod 2 ^ 23"
    using assms by (auto simp: k_def split: if_splits)
  define w :: u32 where "w = (if s then 0x80000000 else 0) + of_nat k"
  have w: "unat w = (if s then 2 ^ 31 else 0) + k"
    using k(1) by (simp add: w_def unat_word_ariths unat_of_nat take_bit_eq_mod)
  have b: "bit w 31 = s"
  proof -
    have "bit w 31 = bit (unat w) 31" by (simp add: bit_unsigned_iff)
    also have "\<dots> = s" using k(1) by (simp add: bit_iff_odd w div_add1_eq)
    finally show ?thesis .
  qed
  have d: "unat w div 2 ^ 23 mod 2 ^ 8 = k div 2 ^ 23" "unat w mod 2 ^ 23 = k mod 2 ^ 23"
    using k(1) unfolding w by (auto simp: div_add1_eq [of "2147483648" k] mod_add_eq [of "2147483648" _ k, symmetric])
  have "m mod 2 ^ 23 + 2 ^ 23 = m" if "\<not> m < 2 ^ 23"
    using m that by (simp add: mod_if [of m])
  moreover have "encode32 (Fin s m e) = w" by (simp add: w_def k_def)
  ultimately show ?thesis
    unfolding decode32_def Let_def field_unat
    using assms m k(2,3) by (simp only: d b) (auto split: if_splits)
qed

lemma round32_fmt: "round32 s n d = x \<Longrightarrow> 0 < d \<Longrightarrow> fmt32 x"
proof (cases x)
  case (Fin t m e)
  assume r: "round32 s n d = x" "0 < d"
  show "fmt32 x"
  proof (cases "n = 0")
    case True then show ?thesis using r by (auto simp: round32_def fround_def)
  next
    case False
    then show ?thesis
      using fround_correct [of 24 "- 149" 104 s n d t m e] r Fin by (auto simp: round32_def)
  qed
qed simp_all

lemma encode32_Inf: "decode32 (encode32 (Inf s)) = Inf s"
  by (cases s) (simp_all add: decode32_def Let_def bit_iff_odd drop_bit_eq_div field_unat)

lemma stored_value: "fmt32 x \<Longrightarrow> is_finite x \<Longrightarrow> decode32 (encode32 x) = x"
  by (cases x) (simp_all only: decode_encode is_finite.simps)

text \<open>Rounding to double and then to single precision.\<close>

lemma near_conv:
  assumes x: "near 52 x y" and y: "y = 0 \<or> 2 powi (- 125) \<le> \<bar>y\<bar> \<and> \<bar>y\<bar> < 2 powi 126"
  shows "near 23 (fp_conv round32 x) y"
proof -
  obtain s m e where f: "x = Fin s m e" using x by (cases x) (auto simp: near_def)
  define q where "q = real m / real (1 :: nat) * 2 powi e"
  have v: "fval x = (if s then - 1 else 1) * q" "\<bar>fval x\<bar> = q" by (simp_all add: f q_def abs_mult)
  have e: "\<bar>fval x - y\<bar> \<le> \<bar>y\<bar> / 2 ^ 52" using x by (simp add: near_def)
  have "\<bar>y\<bar> / 2 ^ 52 \<le> \<bar>y\<bar> / 2" by (intro divide_left_mono) auto
  then have q: "\<bar>y\<bar> / 2 \<le> q" "q \<le> 2 * \<bar>y\<bar>" using e unfolding v(2) [symmetric] by linarith+
  have q0: "q = 0 \<longleftrightarrow> m = 0" by (simp add: q_def)
  have "near 24 (scaled (fround 24 (- 149) 104) s m 1 e) ((if s then - 1 else 1) * q)"
  proof (rule near_scaled)
    have "2 powi 127 = (2 * 2 powi 126 :: real)" "2 powi (- 126) = (2 powi (- 125) / 2 :: real)"
      using power_int_add [of "2 :: real" 1 126] power_int_diff [of "2 :: real" "- 125" 1] by simp_all
    then show "q < 2 powi (104 + int 24 - 1)" "m = 0 \<or> 2 powi (- 149 + int 24 - 1) \<le> q"
      using y q q0 by auto
  qed (simp_all add: q_def)
  then have n: "is_finite (fp_conv round32 x)" "\<bar>fval (fp_conv round32 x) - fval x\<bar> \<le> \<bar>fval x\<bar> / 2 ^ 24"
    unfolding f fp_conv.simps round32_def near_def v(1) [unfolded f, symmetric] by simp_all
  have "\<bar>fval x\<bar> \<le> \<bar>y\<bar> + \<bar>y\<bar> / 2 ^ 52" using e by linarith
  then have "\<bar>fval x\<bar> / 2 ^ 24 \<le> (\<bar>y\<bar> + \<bar>y\<bar> / 2 ^ 52) / 2 ^ 24" by (rule divide_right_mono) simp
  then have "\<bar>fval (fp_conv round32 x) - y\<bar> \<le> (\<bar>y\<bar> + \<bar>y\<bar> / 2 ^ 52) / 2 ^ 24 + \<bar>y\<bar> / 2 ^ 52"
    using n(2) e by linarith
  also have "\<dots> \<le> \<bar>y\<bar> / 2 ^ 23" by (simp add: field_simps)
  finally show ?thesis using n(1) by (simp add: near_def)
qed

text \<open>Numbers far from overflow and from the subnormal numbers of both types.\<close>

definition tame :: "real \<Rightarrow> bool" where
  "tame y \<longleftrightarrow> y = 0 \<or> 2 powi (- 100) \<le> \<bar>y\<bar> \<and> \<bar>y\<bar> \<le> 2 powi 100"

lemma near_weaken: "near k x y \<Longrightarrow> j \<le> k \<Longrightarrow> near j x y"
  using divide_left_mono [of "2 ^ j" "2 ^ k" "\<bar>y\<bar>"] power_increasing [of j k "2 :: real"]
  by (auto simp: near_def)

lemma near_single: "near 52 x y \<Longrightarrow> tame y \<Longrightarrow> near 23 (fp_conv round32 x) y"
  by (rule near_conv)
    (use power_int_increasing [of "- 125" "- 100" "2 :: real"] power_int_strict_increasing [of 100 126 "2 :: real"]
      in \<open>auto simp: tame_def\<close>)

lemma near_double:
  assumes "0 < d" "q = real n / real d * 2 powi e" "tame q"
  shows "near 53 (scaled round64 s n d e) ((if s then - 1 else 1) * q)"
  unfolding round64_def
proof (rule near_scaled)
  have "2 powi 100 < (2 powi (971 + int 53 - 1) :: real)" "2 powi (- 1074 + int 53 - 1) < (2 powi (- 100) :: real)"
    by (rule power_int_strict_increasing; simp)+
  then show "q < 2 powi (971 + int 53 - 1)" "n = 0 \<or> 2 powi (- 1074 + int 53 - 1) \<le> q"
    using assms by (auto simp: tame_def)
qed (use assms in simp_all)

lemma near_div:
  assumes "is_finite x" "is_finite y" "fval y \<noteq> 0" "tame (fval x / fval y)"
  shows "near 53 (fp_div round64 x y) (fval x / fval y)"
proof -
  obtain s m e t k f where xy: "x = Fin s m e" "y = Fin t k f"
    using assms(1,2) by (cases x; cases y) auto
  then have k: "0 < k" using assms(3) by simp
  define q where "q = real m / real k * 2 powi (e - f)"
  have v: "fval x / fval y = (if s \<noteq> t then - 1 else 1) * q"
    by (simp add: xy q_def power_int_diff)
  then have "tame q" using assms(4) by (simp add: tame_def abs_mult split: if_splits)
  then show ?thesis
    using near_double [OF k q_def, of "s \<noteq> t"] k unfolding v by (simp add: xy)
qed

lemma near_mul:
  assumes "is_finite x" "is_finite y" "tame (fval x * fval y)"
  shows "near 53 (fp_mul round64 x y) (fval x * fval y)"
proof -
  obtain s m e t k f where xy: "x = Fin s m e" "y = Fin t k f"
    using assms(1,2) by (cases x; cases y) auto
  define q where "q = real (m * k) / real (1 :: nat) * 2 powi (e + f)"
  have v: "fval x * fval y = (if s \<noteq> t then - 1 else 1) * q"
    by (simp add: xy q_def power_int_add)
  then have "tame q" using assms(3) by (simp add: tame_def abs_mult split: if_splits)
  then show ?thesis
    using near_double [OF _ q_def, of "s \<noteq> t"] unfolding v by (simp add: xy)
qed

lemma fp_of_int_value [simp]: "is_finite (fp_of_int k)" "fval (fp_of_int k) = of_int k"
  by (simp_all add: fp_of_int_def)

text \<open>What is stored after a calculation in double precision.\<close>

lemma conv_fmt: "is_finite x \<Longrightarrow> fmt32 (fp_conv round32 x)"
  by (cases x) (auto simp: scaled_def intro: round32_fmt [OF refl])

lemma near_stored:
  assumes "near 52 x y" "tame y"
  shows "near 23 (decode32 (encode32 (fp_conv round32 x))) y"
proof -
  have n: "near 23 (fp_conv round32 x) y" by (rule near_single [OF assms])
  have "fmt32 (fp_conv round32 x)" using assms(1) by (intro conv_fmt) (simp add: near_def)
  then show ?thesis using n by (simp add: stored_value near_def)
qed

lemma tame_bounds: "1 / 2 ^ 100 \<le> y \<Longrightarrow> y \<le> 2 ^ 100 \<Longrightarrow> tame y"
  by (simp add: tame_def power_int_def inverse_eq_divide power_divide)

lemma u16_real: "w \<noteq> 0 \<Longrightarrow> 1 \<le> real (unat (w :: u16))" "real (unat w) \<le> 65536"
proof -
  show "w \<noteq> 0 \<Longrightarrow> 1 \<le> real (unat w)"
    using unat_gt_0 [of w] of_nat_mono [of 1 "unat w", where 'a = real] by simp
  have "unat w \<le> 65536" using unat_lt_u16 [of w] by (rule less_imp_le)
  then show "real (unat w) \<le> 65536" using of_nat_mono [of "unat w" 65536, where 'a = real] by simp
qed

lemma tame_u16:
  assumes "1 / 2 ^ 30 \<le> r" "r \<le> 2 ^ 30"
  shows "tame (real (unat (w :: u16)) * r)"
proof (cases "w = 0")
  case False
  have "1 * r \<le> real (unat w) * r" "real (unat w) * r \<le> 65536 * 2 ^ 30"
    using u16_real(1) [OF False] u16_real(2) [of w] assms by (intro mult_mono; simp)+
  moreover have "1 / 2 ^ 100 \<le> (1 / 2 ^ 30 :: real)" "65536 * 2 ^ 30 \<le> (2 ^ 100 :: real)" by simp_all
  ultimately show ?thesis using assms(1) by (intro tame_bounds) linarith+
qed (simp add: tame_def)

lemma near_shift:
  assumes "near 53 x (y + y * d)" "0 \<le> y" "0 \<le> d" "d \<le> 1 / 2 ^ 54"
  shows "near 52 x y"
proof -
  have "0 \<le> y * d" "y * d \<le> y * (1 / 2 ^ 54)" using assms by (simp, intro mult_left_mono)
  moreover have "\<bar>fval x - y\<bar> \<le> \<bar>fval x - (y + y * d)\<bar> + y * d" using calculation(1) by linarith
  ultimately show ?thesis using assms(1,2) by (simp add: near_def)
qed

text \<open>One rounding after another.\<close>

lemma near_range:
  assumes "near k x y" "1 \<le> k"
  shows "\<bar>y\<bar> / 2 \<le> \<bar>fval x\<bar>" "\<bar>fval x\<bar> \<le> 2 * \<bar>y\<bar>"
proof -
  have "\<bar>y\<bar> / 2 ^ k \<le> \<bar>y\<bar> / 2" using assms(2) power_increasing [of 1 k "2 :: real"] by (intro divide_left_mono) auto
  moreover have "\<bar>fval x - y\<bar> \<le> \<bar>y\<bar> / 2 ^ k" using assms(1) by (simp add: near_def)
  ultimately show "\<bar>y\<bar> / 2 \<le> \<bar>fval x\<bar>" "\<bar>fval x\<bar> \<le> 2 * \<bar>y\<bar>" by linarith+
qed

lemma near_trans:
  assumes "near j x c" "\<bar>c - z\<bar> \<le> \<bar>z\<bar> / 2 ^ k" "k + 1 \<le> j" "1 \<le> k"
  shows "near (k - 1) x z"
proof -
  have "\<bar>z\<bar> / 2 ^ k \<le> \<bar>z\<bar> / 2"
    using assms(4) power_increasing [of 1 k "2 :: real"] by (intro divide_left_mono) auto
  then have c: "\<bar>c\<bar> \<le> 2 * \<bar>z\<bar>" using assms(2) by linarith
  have "\<bar>fval x - z\<bar> \<le> \<bar>c\<bar> / 2 ^ j + \<bar>z\<bar> / 2 ^ k" using assms(1,2) by (auto simp: near_def)
  also have "\<dots> \<le> 2 * \<bar>z\<bar> / 2 ^ (k + 1) + \<bar>z\<bar> / 2 ^ k"
    using c power_increasing [of "k + 1" j "2 :: real"] assms(3)
    by (intro add_right_mono frac_le) auto
  also have "\<dots> = \<bar>z\<bar> / 2 ^ (k - 1)" using assms(4) by (cases k) (simp_all add: field_simps)
  finally show ?thesis using assms(1) by (simp add: near_def)
qed

lemma tame_range: "1 / 2 ^ 50 \<le> \<bar>y\<bar> \<Longrightarrow> \<bar>y\<bar> \<le> 2 ^ 100 \<Longrightarrow> tame y"
  using tame_bounds [of "\<bar>y\<bar>"] by (simp add: tame_def)

lemma near_self: "is_finite x \<Longrightarrow> near k x (fval x)"
  by (simp add: near_def)

text \<open>
  Relative errors that add up: \<open>close k\<close> is the error of \<open>k\<close> roundings to single precision.
\<close>

definition ulp :: real where "ulp = 1 / 2 ^ 24"

definition close :: "nat \<Rightarrow> real \<Rightarrow> real \<Rightarrow> bool" where
  "close k a y \<longleftrightarrow> \<bar>a - y\<bar> \<le> ((1 + ulp) ^ k - 1) * \<bar>y\<bar>"

lemma ulp_pos: "0 \<le> ulp" "1 \<le> 1 + ulp" "1 \<le> (1 + ulp) ^ k"
  by (simp_all add: ulp_def)

lemma close_self [simp]: "close k y y"
  using ulp_pos(3) [of k] by (simp add: close_def)

lemma close_abs: "close k a y \<Longrightarrow> \<bar>a\<bar> \<le> (1 + ulp) ^ k * \<bar>y\<bar>"
  by (auto simp: close_def left_diff_distrib)

lemma close_trans:
  assumes "close j a b" "close k b y" shows "close (j + k) a y"
proof -
  have "\<bar>a - b\<bar> \<le> ((1 + ulp) ^ j - 1) * ((1 + ulp) ^ k * \<bar>y\<bar>)"
    using assms(1) mult_left_mono [OF close_abs [OF assms(2)], of "(1 + ulp) ^ j - 1"] ulp_pos(3) [of j]
    by (simp add: close_def)
  then show ?thesis
    using assms(2) by (auto simp: close_def power_add algebra_simps)
qed

lemma close_mult:
  assumes "close j a y" "close k b z" shows "close (j + k) (a * b) (y * z)"
proof -
  have "\<bar>a * b - y * z\<bar> \<le> \<bar>a\<bar> * \<bar>b - z\<bar> + \<bar>z\<bar> * \<bar>a - y\<bar>"
  proof -
    have "a * b - y * z = a * (b - z) + z * (a - y)" by (simp add: algebra_simps)
    then show ?thesis by (metis abs_mult abs_triangle_ineq)
  qed
  also have "\<dots> \<le> ((1 + ulp) ^ j * \<bar>y\<bar>) * (((1 + ulp) ^ k - 1) * \<bar>z\<bar>) + \<bar>z\<bar> * (((1 + ulp) ^ j - 1) * \<bar>y\<bar>)"
    using assms close_abs [OF assms(1)] ulp_pos(3) [of j]
    by (intro add_mono mult_mono) (auto simp: close_def)
  also have "\<dots> = ((1 + ulp) ^ (j + k) - 1) * \<bar>y * z\<bar>"
    by (simp add: abs_mult power_add algebra_simps)
  finally show ?thesis by (simp add: close_def)
qed

lemma close_div: "close k a y \<Longrightarrow> close k (a / d) (y / d)"
  by (simp add: close_def abs_divide divide_right_mono flip: diff_divide_distrib)

lemma near_close: "24 \<le> k \<Longrightarrow> near k x y \<Longrightarrow> close 1 (fval x) y"
  using near_weaken [of k x y 24] by (simp add: near_def close_def ulp_def)

lemma close_near: "close k (fval x) y \<Longrightarrow> k \<le> 15 \<Longrightarrow> is_finite x \<Longrightarrow> near 20 x y"
proof -
  assume c: "close k (fval x) y" "k \<le> 15" "is_finite x"
  have "(1 + ulp) ^ k \<le> (1 + ulp) ^ 15" using c(2) ulp_pos(2) by (rule power_increasing)
  also have "\<dots> \<le> 1 + 1 / 2 ^ 20" by (simp add: ulp_def power_divide)
  finally have "((1 + ulp) ^ k - 1) * \<bar>y\<bar> \<le> 1 / 2 ^ 20 * \<bar>y\<bar>" by (intro mult_right_mono) simp_all
  then show ?thesis using c(1,3) by (simp add: near_def close_def)
qed

text \<open>Numbers that single precision holds with room to spare.\<close>

definition sized :: "real \<Rightarrow> bool" where
  "sized y \<longleftrightarrow> y = 0 \<or> 1 / 2 ^ 40 \<le> \<bar>y\<bar> \<and> \<bar>y\<bar> \<le> 2 ^ 99"

lemma close_tame:
  assumes "close k a y" "k \<le> 15" "sized y" shows "tame a"
proof -
  have "(1 + ulp) ^ k \<le> (1 + ulp) ^ 15" using assms(2) ulp_pos(2) by (rule power_increasing)
  also have "\<dots> \<le> 3 / 2" by (simp add: ulp_def power_divide)
  finally have "((1 + ulp) ^ k - 1) * \<bar>y\<bar> \<le> 1 / 2 * \<bar>y\<bar>" by (intro mult_right_mono) simp_all
  then have a: "\<bar>a - y\<bar> \<le> 1 / 2 * \<bar>y\<bar>" using assms(1) by (simp add: close_def)
  show ?thesis
  proof (cases "y = 0")
    case True then show ?thesis using a by (simp add: tame_def)
  next
    case False
    then have "1 / 2 ^ 40 \<le> \<bar>y\<bar>" "\<bar>y\<bar> \<le> 2 ^ 99" using assms(3) by (auto simp: sized_def)
    moreover have "\<bar>y\<bar> / 2 \<le> \<bar>a\<bar>" "\<bar>a\<bar> \<le> 2 * \<bar>y\<bar>" using a by linarith+
    moreover have "1 / 2 ^ 50 \<le> \<bar>y\<bar> / 2" "2 * \<bar>y\<bar> \<le> 2 ^ 100"
      using calculation(1,2) by (auto intro: order_trans [of _ "1 / 2 ^ 40 / 2"])
    ultimately show ?thesis by (intro tame_range) (erule (1) order_trans)+
  qed
qed

lemma near_scaled32:
  assumes "0 < d" "q = real n / real d * 2 powi e" "tame q"
  shows "near 24 (scaled round32 s n d e) ((if s then - 1 else 1) * q)"
  unfolding round32_def
proof (rule near_scaled)
  have "2 powi 100 < (2 powi (104 + int 24 - 1) :: real)" "2 powi (- 149 + int 24 - 1) < (2 powi (- 100) :: real)"
    by (rule power_int_strict_increasing; simp)+
  then show "q < 2 powi (104 + int 24 - 1)" "n = 0 \<or> 2 powi (- 149 + int 24 - 1) \<le> q"
    using assms by (auto simp: tame_def)
qed (use assms in simp_all)

lemma near_conv32:
  assumes "is_finite x" "tame (fval x)" shows "near 24 (fp_conv round32 x) (fval x)"
proof -
  obtain s m e where x: "x = Fin s m e" using assms(1) by (cases x) auto
  have "tame (real m / real (1 :: nat) * 2 powi e)" using assms(2) by (simp add: x tame_def abs_mult split: if_splits)
  from near_scaled32 [OF _ refl this, of s] show ?thesis by (cases s) (simp_all add: x)
qed

lemma near_mul32:
  assumes "is_finite x" "is_finite y" "tame (fval x * fval y)"
  shows "near 24 (fp_mul round32 x y) (fval x * fval y)"
proof -
  obtain s m e t k f where xy: "x = Fin s m e" "y = Fin t k f"
    using assms(1,2) by (cases x; cases y) auto
  define q where "q = real (m * k) / real (1 :: nat) * 2 powi (e + f)"
  have v: "fval x * fval y = (if s \<noteq> t then - 1 else 1) * q"
    by (simp add: xy q_def power_int_add)
  then have "tame q" using assms(3) by (simp add: tame_def abs_mult split: if_splits)
  then show ?thesis
    using near_scaled32 [OF _ q_def, of "s \<noteq> t"] unfolding v by (simp add: xy)
qed

text \<open>A calculated number with the number it stands for.\<close>

definition stands :: "nat \<Rightarrow> fp \<Rightarrow> real \<Rightarrow> bool" where
  "stands k x y \<longleftrightarrow> is_finite x \<and> close k (fval x) y"

lemma stands_near: "near j x v \<Longrightarrow> 24 \<le> j \<Longrightarrow> close k v y \<Longrightarrow> stands (Suc k) x y"
  using close_trans [OF near_close, of j x v k y] by (auto simp: stands_def near_def)

lemma stands_conv:
  "stands k x y \<Longrightarrow> k \<le> 15 \<Longrightarrow> sized y \<Longrightarrow> stands (Suc k) (fp_conv round32 x) y"
  by (rule stands_near [OF near_conv32]) (auto simp: stands_def intro: close_tame)

lemma stands_mul:
  assumes "stands j x y" "stands k a z" "j + k \<le> 15" "sized (y * z)"
  shows "stands (Suc (j + k)) (fp_mul round32 x a) (y * z)"
proof -
  have c: "close (j + k) (fval x * fval a) (y * z)" using close_mult assms(1,2) by (simp add: stands_def)
  show ?thesis
    by (rule stands_near [OF near_mul32 _ c]) (use assms close_tame [OF c] in \<open>auto simp: stands_def\<close>)
qed

lemma stands_div:
  assumes "stands k x y" "k \<le> 15" "d \<noteq> 0" "sized (y / of_int d)"
  shows "stands (Suc k) (fp_div round64 x (fp_of_int d)) (y / of_int d)"
proof -
  have c: "close k (fval x / of_int d) (y / of_int d)" using close_div assms(1) by (simp add: stands_def)
  have "near 53 (fp_div round64 x (fp_of_int d)) (fval x / fval (fp_of_int d))"
    by (rule near_div) (use assms close_tame [OF c] in \<open>auto simp: stands_def\<close>)
  then show ?thesis using stands_near [OF _ _ c] by simp
qed

lemma stands_int: "stands 0 (fp_of_int k) (of_int k)"
  by (simp add: stands_def)


text \<open>For evaluating concrete numbers.\<close>

lemma digits_eval: "digits 0 = 0" "digits (Suc 0) = 1" "digits 1 = 1"
  "digits (numeral k) = Suc (digits (numeral k div 2))"
  by (simp_all add: digits.simps)

lemmas float_eval = round32_def round64_def fround_def lead_def rne_def digits_eval scaled_def fp_of_int_def

end
