(* ===== verification/Diagrams.thy ===== *)
theory Diagrams
  imports Sensors Floats
begin

text \<open>
  The load meter (\<^verbatim>\<open>meter/load_meter_analysis.c\<close>) and the electricity meter
  (\<^verbatim>\<open>meter/electrical_param_analysis.c\<close>): routine values, and the diagrams that
  arrive in a first packet and fourteen follow-up packets; the request that makes the electricity
  meter record its diagram together with the load; and the dispatch of a received frame in
  \<^verbatim>\<open>zigbee/zigbee.c\<close>. The lines written to the log file are left out.
\<close>

section \<open>Packets\<close>

record st_load_normal_packet = st_sensor_info +
  accele_value :: u32
  load_value :: u32

record st_load_first_packet = st_a11_packet_header +
  packet_index :: u8
  synchron_time :: u16
  sample_points :: u16
  travel_length :: u16
  cycle_time :: u16

record st_elect_normal_packet = st_sensor_info +
  elect_values :: "u32 list"

definition load_normal_packet :: "u8 list \<Rightarrow> st_load_normal_packet" where
  "load_normal_packet b = st_sensor_info.extend (sensor_info b)
     (st_load_normal_packet.fields (u32_at b 16) (u32_at b 20))"

definition load_first_packet :: "u8 list \<Rightarrow> st_load_first_packet" where
  "load_first_packet b = st_a11_packet_header.extend (header_of b)
     (st_load_first_packet.fields (b ! 10) (u16_at b 14) (u16_at b 18) (u16_at b 20) (u16_at b 22))"

text \<open>The thirty halfwords of a follow-up packet, of either meter.\<close>

definition follow_up_data :: "u8 list \<Rightarrow> u16 list" where
  "follow_up_data b = map (\<lambda>k. u16_at b (12 + 2 * k)) [0..<30]"

text \<open>
  The eleven values in their order: three currents, three voltages, power factor, active and
  reactive power, quantity and the reserve.
\<close>

definition elect_normal_packet :: "u8 list \<Rightarrow> st_elect_normal_packet" where
  "elect_normal_packet b = st_sensor_info.extend (sensor_info b)
     (st_elect_normal_packet.fields (map (\<lambda>k. u32_at b (16 + 4 * k)) [0..<11]))"

section \<open>Calculations\<close>

text \<open>
  \<^verbatim>\<open>(float) (6000.0 / cycle_time)\<close>, \<^verbatim>\<open>(float) (travel_length * 0.001)\<close> and the sum of two
  floats as bit patterns. \<open>MILLI\<close> is the double nearest to 0.001.
\<close>

definition strokes_per_minute :: "u16 \<Rightarrow> fp" where
  "strokes_per_minute c = fp_conv round32 (fp_div round64 (fp_of_int 6000) (fp_of_int (uint c)))"

definition MILLI :: fp where "MILLI = Fin False 4611686018427388 (- 62)"

definition stroke_length :: "u16 \<Rightarrow> fp" where
  "stroke_length l = fp_conv round32 (fp_mul round64 (fp_of_int (uint l)) MILLI)"

definition float_add :: "u32 \<Rightarrow> u32 \<Rightarrow> u32" where
  "float_add a b = encode32 (fp_sum round32 (decode32 a) (decode32 b))"

section \<open>The load meter\<close>

text \<open>\<^verbatim>\<open>st_equ_measure_load_packet\<close>; the nine bytes at its end are not assigned.\<close>

definition measure_request :: "u8 list \<Rightarrow> u8 \<Rightarrow> u16 \<Rightarrow> u8 \<Rightarrow> u8 list" where
  "measure_request buf mode points interval =
     (put_u16 (put_u16 (put_u16 (buf[10 := mode]) 11 (swap_int16 points)) 13 0) 15 0)[17 := interval]"

definition judge_elec_param_wired_wireless :: "u8 list \<Rightarrow> u8" where
  "judge_elec_param_wired_wireless p_mac = (if list_ex (\<lambda>b. b \<noteq> 0) (take 10 p_mac) then 1 else 0)"

text \<open>The answer to a routine packet of the load meter asks for a measurement.\<close>

definition load_reply ::
  "env \<Rightarrow> analyser_frame \<Rightarrow> send_func \<Rightarrow> u8 list \<Rightarrow> u8 \<Rightarrow> u8 \<Rightarrow> rtu \<Rightarrow> rtu option" where
  "load_reply e fr func p_mac grp num s =
     (case judge_eq_meter_para e (int (unat grp)) LOAD_NO s of (rc, s) \<Rightarrow>
        if rc = -1 then
          (let buf = packet_a11_rtu_header (tmp_buff fr) grp num DATA_TYPE_RTU_EQU_INTERGRATION_DIAGRAM_DATA in
           do { r \<leftarrow> read_register e s 0 (unat grp) LOAD_SAMPLE_MODE_ADDR;
                let mode = (if r \<noteq> 0x01 \<and> r \<noteq> 0x10 then 0 else r);
                r \<leftarrow> read_register e s mode (unat grp) LOAD_SET_POINTS_ADDR;
                let points = (if r > 250 then 200 else r);
                r \<leftarrow> read_register e s points (unat grp) LOAD_INTERVAL_ADDR;
                let interval = (if r > 60 then 10 else r);
                func p_mac (measure_request buf (ucast mode) points (LO_UINT16 interval)) 27 s })
        else func p_mac (packet_a11_rtu_header (tmp_buff fr) grp num DATA_TYPE_RTU_EQU_METER_PARA) 10 s)"

definition diagram_ack :: "u8 list \<Rightarrow> u8 \<Rightarrow> u8 \<Rightarrow> u16 \<Rightarrow> u8 \<Rightarrow> u8 list" where
  "diagram_ack buf grp num data_type index = (packet_a11_rtu_header buf grp num data_type)[10 := index]"

text \<open>The message goes to the radio if a wireless electricity meter has reported, else to the wired one.\<close>

definition send_load_elec_sysn :: "st_load_first_packet \<Rightarrow> rtu \<Rightarrow> rtu" where
  "send_load_elec_sysn p s =
     (let q = (if judge_elec_param_wired_wireless (elec_param_meter_mac s (unat (sensor_group p) - 1)) = 1
               then Q_zigbee else Q_rtu_client)
      in emit (MsgSend q [MSG_LOAD_ELEC_SYSN, 0, swap_int16 (synchron_time p), swap_int16 (cycle_time p),
                swap_int16 (sample_points p), ucast (sensor_group p)]) s)"

text \<open>
  The swaps in the received packet are made on its values here; nothing reads the packet
  afterwards.
\<close>

definition analysis_load ::
  "env \<Rightarrow> analyser_frame \<Rightarrow> u8 list \<Rightarrow> u8 list \<Rightarrow> send_func \<Rightarrow> rtu \<Rightarrow> (int \<times> rtu) option" where
  "analysis_load e fr p_mac p_buff func s =
     (if length p_buff < 72 then None
      else (let p = load_normal_packet p_buff; first = load_first_packet p_buff;
                grp = unat (sensor_group p); index = packet_index first in
        if sensor_type p \<noteq> swap_int16 METER_TYPE_WL_INTERGRATION_LOAD \<or>
           protocol_type p \<noteq> swap_int16 PROTOCOL_TYPE
        then Some (-1, s)
        else if data_typed p = swap_int16 DATA_TYPE_ROUTINE_DATA then
          (if \<not> group_ok (sensor_group p) then Some (0, s)
           else if sensor_num p \<noteq> 1 then Some (0, s)
           else do {
             s \<leftarrow> load_reply e fr func p_mac (sensor_group p) (sensor_num p) s;
             let s = set_sample_time e (grp - 1) LOAD_NO s;
             s \<leftarrow> save_meter_info e p grp LOAD_METER_INFO_ADDR s;
             s \<leftarrow> write_registers e (stored_float (load_value p) @ stored_float (accele_value p)) grp
                   LOAD_LOAD_RTDATA_ADDR s;
             Some (1, s) })
        else if data_typed p = swap_int16 DATA_TYPE_METER_PARA \<or> data_typed p = swap_int16 0x0100 then
          (if \<not> group_ok (sensor_group p) then Some (0, s)
           else if sensor_num p \<noteq> 1 then Some (0, s)
           else do { s \<leftarrow> write_param e fr grp LOAD_METER_PARA_ADDR s; Some (1, s) })
        else if data_typed p = swap_int16 DATA_TYPE_INTERGRATION_LOAD_DIAGRAM \<and> index = 0 then
          (if \<not> group_ok (sensor_group p) then Some (0, s)
           else if sensor_num p \<noteq> 1 then Some (0, s)
           else do {
             let s = send_load_elec_sysn first s;
             s \<leftarrow> write_registers e [swap_int16 (sample_points first)] grp LOAD_SAMPLE_POINTS_ADDR s;
             s \<leftarrow> write_registers e (u32_u16s (swap_stor_float_seq (encode32 (strokes_per_minute (swap_int16 (cycle_time first))))) @
                   u32_u16s (swap_stor_float_seq (encode32 (stroke_length (swap_int16 (travel_length first))))))
                   grp LOAD_TRAVEL_CNT_ADDR s;
             s \<leftarrow> func p_mac (diagram_ack (tmp_buff fr) (sensor_group p) (sensor_num p)
                   DATA_TYPE_RTU_ACK_INTERGRATION_DIAGRAM_DATA index) 11 s;
             Some (1, s) })
        else if data_typed p = swap_int16 DATA_TYPE_INTERGRATION_LOAD_DIAGRAM \<and> index > 0 \<and> index < 15 then
          (let pos_load = map swap_int16 (follow_up_data p_buff); off = (unat index - 1) * 15 in
           do { s \<leftarrow> write_registers e (map (\<lambda>v. v div 10) (take 15 pos_load)) grp (LOAD_CYCLE_POS_ADDR + off) s;
                s \<leftarrow> write_registers e (drop 15 pos_load) grp (LOAD_CYCLE_LOAD_ADDR + off) s;
                s \<leftarrow> func p_mac (diagram_ack (tmp_buff fr) (sensor_group p) (sensor_num p)
                      DATA_TYPE_RTU_ACK_INTERGRATION_DIAGRAM_DATA index) 11 s;
                s \<leftarrow> (if index = 14 then save_time_register e grp LOAD_CYCLE_TIME_ADDR s else Some s);
                Some (1, s) })
        else Some (0, s)))"

section \<open>The electricity meter\<close>

text \<open>As \<^const>\<open>routine_reply\<close>, with the address of the meter kept for later requests.\<close>

definition elect_reply ::
  "env \<Rightarrow> analyser_frame \<Rightarrow> send_func \<Rightarrow> u8 list \<Rightarrow> u8 \<Rightarrow> u8 \<Rightarrow> rtu \<Rightarrow> rtu option" where
  "elect_reply e fr func p_mac grp num s =
     (case judge_eq_meter_para e (int (unat grp)) ELECTRICAL_PARAMETER_NO s of (rc, s) \<Rightarrow>
        if rc = -1 then
          (let buf = packet_a11_rtu_header (tmp_buff fr) grp num DATA_TYPE_RTU_ACK_ROUTINE in
           do { sleep \<leftarrow> read_register e s 0 (unat grp) ELEC_INTERVAL_ADDR;
                let sleep = (if sleep > 1800 then 1800 else sleep);
                let s = s\<lparr>elec_param_meter_mac := (elec_param_meter_mac s)(unat grp - 1 := take 10 p_mac)\<rparr>;
                if length p_mac < 10 then None
                else func p_mac (put_u16 buf 10 (swap_int16 sleep)) 12 s })
        else func p_mac (packet_a11_rtu_header (tmp_buff fr) grp num DATA_TYPE_RTU_EQU_METER_PARA) 10 s)"

text \<open>
  The values with their register addresses, in the order they are written. The reserve is the only
  value that does not get the register order of the halfwords.
\<close>

definition elect_blocks :: "u32 list \<Rightarrow> (nat \<times> u16 list) list" where
  "elect_blocks values =
     (let rcv = map swap_rcv_float_seq values;
          rcv = map swap_stor_float_seq (take 10 rcv) @ drop 10 rcv;
          total = float_add (rcv ! 9) (rcv ! 10)
      in [(ELEC_CURRENT_RTDATA_ADDR, concat (map u32_u16s (take 6 rcv))),
          (ELEC_POWER_FACTOR_RTDATA_ADDR, u32_u16s (rcv ! 6)),
          (ELEC_ACTIVE_POWER_RATE_RTDATA_ADDR, u32_u16s (rcv ! 7)),
          (ELEC_REACTIVE_POWER_RATE_RTDATA_ADDR, u32_u16s (rcv ! 8)),
          (ELEC_ACTIVE_POWER_RTDATA_ADDR, u32_u16s total),
          (ELEC_REACTIVE_POWER_RTDATA_ADDR, u32_u16s (rcv ! 10))])"

fun write_blocks :: "env \<Rightarrow> (nat \<times> u16 list) list \<Rightarrow> nat \<Rightarrow> rtu \<Rightarrow> rtu option" where
  "write_blocks e [] well_no s = Some s"
| "write_blocks e ((addr, vs) # blocks) well_no s =
     do { s \<leftarrow> write_registers e vs well_no addr s; write_blocks e blocks well_no s }"

definition analysis_electrical_param ::
  "env \<Rightarrow> analyser_frame \<Rightarrow> u8 list \<Rightarrow> u8 list \<Rightarrow> send_func \<Rightarrow> rtu \<Rightarrow> (int \<times> rtu) option" where
  "analysis_electrical_param e fr p_mac p_buff func s =
     (if length p_buff < 72 then None
      else (let p = elect_normal_packet p_buff; grp = unat (sensor_group p); index = p_buff ! 10 in
        if sensor_type p \<noteq> swap_int16 METER_TYPE_WL_ELECTRICITY \<or> protocol_type p \<noteq> swap_int16 PROTOCOL_TYPE
        then Some (-1, s)
        else if data_typed p = swap_int16 DATA_TYPE_ROUTINE_DATA then
          (if \<not> group_ok (sensor_group p) then Some (0, s)
           else if sensor_num p \<noteq> 1 then Some (0, s)
           else do {
             s \<leftarrow> elect_reply e fr func p_mac (sensor_group p) (sensor_num p) s;
             let s = set_sample_time e (grp - 1) ELECTRICAL_PARAMETER_NO s;
             s \<leftarrow> save_meter_info e p grp ELEC_METER_INFO_ADDR s;
             s \<leftarrow> write_blocks e (elect_blocks (elect_values p)) grp s;
             s \<leftarrow> save_time_register e grp ELEC_TIME_ADDR s;
             Some (1, s) })
        else if data_typed p = swap_int16 DATA_TYPE_METER_PARA then
          (if \<not> group_ok (sensor_group p) then Some (0, s)
           else if sensor_num p \<noteq> 1 then Some (0, s)
           else do { s \<leftarrow> write_param e fr grp ELEC_METER_PARA_ADDR s; Some (1, s) })
        else if data_typed p = swap_int16 DATA_TYPE_ELECTRICITY_DIAGRAM \<and> index = 0 then
          (if \<not> group_ok (sensor_group p) then Some (0, s)
           else if sensor_num p \<noteq> 1 then Some (0, s)
           else do {
             s \<leftarrow> func p_mac (diagram_ack (tmp_buff fr) (sensor_group p) (sensor_num p)
                   DATA_TYPE_RTU_ACK_WL_ELECTRICITY_DIAGRAM_DATA index) 11 s;
             Some (1, s) })
        else if data_typed p = swap_int16 DATA_TYPE_ELECTRICITY_DIAGRAM \<and> index > 0 \<and> index < 15 then
          (let rcv_data = map swap_int16 (follow_up_data p_buff); off = (unat index - 1) * 15 in
           do { s \<leftarrow> write_registers e (take 15 rcv_data) grp (ELEC_CYCLE_CURRENT_ADDR + off) s;
                s \<leftarrow> write_registers e (drop 15 rcv_data) grp (ELEC_CYCLE_POWER_ADDR + off) s;
                s \<leftarrow> func p_mac (diagram_ack (tmp_buff fr) (sensor_group p) (sensor_num p)
                      DATA_TYPE_RTU_ACK_WL_ELECTRICITY_DIAGRAM_DATA index) 11 s;
                s \<leftarrow> (if index = 14 then save_time_register e grp ELEC_CYCLE_TIME_ADDR s else Some s);
                Some (1, s) })
        else Some (0, s)))"

section \<open>Over the radio\<close>

text \<open>\<^verbatim>\<open>zigbee_send_packet\<close> as the callback.\<close>

definition zigbee_send :: send_func where
  "zigbee_send mac send_data len s =
     do { (_, sent) \<leftarrow> zigbee_send_packet mac send_data len 0;
          Some (case sent of None \<Rightarrow> s | Some f \<Rightarrow> emit (SerialWrite PORT_ZIGBEE f) s) }"

text \<open>
  \<^verbatim>\<open>send_sysn_electrical_param\<close>: \<open>info\<close> are synchronisation time, cycle time, points and
  well. The size of an interval divides by the points less one; with one point that is undefined.
  \<open>junk\<close> is the uninitialised \<^verbatim>\<open>tmp_read_register\<close>, \<open>buf\<close> the array.
\<close>

definition send_sysn_electrical_param ::
  "env \<Rightarrow> u8 list \<Rightarrow> u16 \<Rightarrow> u16 list \<Rightarrow> rtu \<Rightarrow> rtu option" where
  "send_sysn_electrical_param e buf junk info s =
     (let well = unat (info ! 3); points = int (unat (info ! 2)) in
      if well \<ge> RTU_MAX_WELL_NUM \<or> well < 1 then Some s
      else do {
        mode \<leftarrow> read_register e s junk well LOAD_SAMPLE_MODE_ADDR;
        let sync_time = (if info ! 0 > 12 then info ! 0 - 12 else info ! 0);
        if points - 1 = 0 then None
        else (let interval = of_int (int (unat (info ! 1)) * 10 div (points - 1)) :: u16;
                  b = packet_a11_rtu_header buf (ucast (info ! 3)) 1 DATA_TYPE_RTU_EQU_WL_ELECTRICITY_DIAGRAM_DATA;
                  b = put_u16 (b[10 := ucast (swap_int16 mode)]) 11 (swap_int16 (info ! 2));
                  b = put_u16 (put_u16 b 13 (swap_int16 sync_time)) 15 (swap_int16 interval)
              in zigbee_send (elec_param_meter_mac s (well - 1)) (b[17 := 0]) 28 s) })"

definition ZIGBEE_RCV_DATA_FRAMID :: u8 where "ZIGBEE_RCV_DATA_FRAMID = 0x91"

text \<open>
  \<^verbatim>\<open>analysis_zigbee_rcv_data\<close> of \<^verbatim>\<open>zigbee/zigbee.c\<close>. Each analyser has its own
  frame; the results are not looked at.
\<close>

definition analysis_zigbee_rcv_data ::
  "env \<Rightarrow> (nat \<Rightarrow> analyser_frame) \<Rightarrow> u8 list \<Rightarrow> rtu \<Rightarrow> (int \<times> rtu) option" where
  "analysis_zigbee_rcv_data e fr rec s =
     (if length rec < 4 then None
      else if rec ! 3 \<noteq> ZIGBEE_RCV_DATA_FRAMID then Some (-1, s)
      else (let mac = take 10 (drop 4 rec); data = drop 21 rec in do {
        (_, s) \<leftarrow> analysis_pressure e (fr 0) mac data zigbee_send s;
        (_, s) \<leftarrow> analysis_temperature e (fr 1) mac data zigbee_send s;
        (_, s) \<leftarrow> analysis_torque_speed_load e (fr 2) mac data zigbee_send s;
        (_, s) \<leftarrow> analysis_flow_meter e (fr 3) mac data zigbee_send s;
        (_, s) \<leftarrow> analysis_load e (fr 4) mac data zigbee_send s;
        (_, s) \<leftarrow> analysis_electrical_param e (fr 5) mac data zigbee_send s;
        Some (0, s) }))"

end
