(* ===== verification/Sensor_Facts.thy ===== *)
theory Sensor_Facts
  imports Stale_Values Diagrams
begin

text \<open>
  What the analysers do with a packet, stated on the bytes of the packet: the answer they send and
  the registers they fill. They are proved for any send function that meets the contract
  \<open>sender\<close>; \<^verbatim>\<open>zigbee_send_packet\<close> meets it.
\<close>

section \<open>Values on the wire\<close>

text \<open>Two bytes in the order of the sender, most significant first.\<close>

definition be16_at :: "u8 list \<Rightarrow> nat \<Rightarrow> u16" where
  "be16_at b i = bytes_u16 (b ! (i + 1)) (b ! i)"

definition be16 :: "u16 \<Rightarrow> u8 list" where
  "be16 w = [ucast (drop_bit 8 w), ucast w]"

lemma swap_int16_bytes: "swap_int16 (bytes_u16 a b) = bytes_u16 b a"
  by (rule bit_word_eqI) (auto simp: bit_swap_int16 bytes_u16_def bit_simps)

lemma swap_u16_at [simp]: "swap_int16 (u16_at b i) = be16_at b i"
  by (simp add: u16_at_def be16_at_def swap_int16_bytes)

lemma u16_at_eq_swap: "u16_at b i = swap_int16 v \<longleftrightarrow> be16_at b i = v"
  using int16.swap_eq_move [of "u16_at b i" v] by auto

lemma be16_swap: "u16_bytes (swap_int16 w) = be16 w"
proof -
  have "w = bytes_u16 (ucast w) (ucast (drop_bit 8 w))" by simp
  then have "swap_int16 w = bytes_u16 (ucast (drop_bit 8 w)) (ucast w)"
    by (metis swap_int16_bytes)
  then show ?thesis by (simp add: be16_def)
qed

lemma put_swap: "put_u16 b i (swap_int16 w) = b[i := ucast (drop_bit 8 w), Suc i := ucast w]"
  using be16_swap [of w] by (simp add: put_u16_def u16_bytes_def be16_def)

lemma u32_u16s_bytes: "u32_u16s (bytes_u32 a b c d) = [bytes_u16 a b, bytes_u16 c d]"
  by (auto simp: u32_u16s_def bytes_u32_def bytes_u16_def bit_simps intro!: bit_word_eqI)

text \<open>A float ends up in its two registers as it came: the first byte is the top of the first register.\<close>

lemma stored_float_bytes: "stored_float (u32_at b i) = [be16_at b i, be16_at b (i + 2)]"
  by (simp add: stored_float_def u32_at_def swap_rcv_float_bytes swap_stor_float_bytes u32_u16s_bytes
      be16_at_def numeral_eq_Suc)

section \<open>Answers\<close>

text \<open>The frame of an answer: protocol 0, vendor 6, type 0x1F10, group, number, data type.\<close>

definition a11_header :: "u8 \<Rightarrow> u8 \<Rightarrow> u16 \<Rightarrow> u8 list" where
  "a11_header grp num data_type = [0, 0, 0, 6, 0x1F, 0x10, grp, num] @ be16 data_type"

definition a11_answer :: "u8 \<Rightarrow> u8 \<Rightarrow> u16 \<Rightarrow> u8 list \<Rightarrow> u8 list" where
  "a11_answer grp num data_type d = a11_header grp num data_type @ d"

lemma length_a11_header [simp]: "length (a11_header grp num dt) = 10"
  by (simp add: a11_header_def be16_def)

lemma length_a11_answer [simp]: "length (a11_answer grp num dt d) = 10 + length d"
  by (simp add: a11_answer_def)

lemma packet_a11_answer: "packet_a11_rtu_header buf grp num dt = a11_answer grp num dt (drop 10 buf)"
  by (simp add: packet_a11_rtu_header_def be16_swap a11_answer_def a11_header_def PROTOCOL_TYPE_def
      VENDER_CODE_TJWZ_def METER_TYPE_WL_RTU_def) (simp add: be16_def)

lemma take_a11_answer:
  "n \<ge> 10 \<Longrightarrow> take n (a11_answer grp num dt d) = a11_answer grp num dt (take (n - 10) d)"
  "n \<ge> 10 \<Longrightarrow> (a11_answer grp num dt d)[n := x] = a11_answer grp num dt (d[n - 10 := x])"
  by (simp_all add: a11_answer_def list_update_append)

text \<open>The interval announced to the meter: at most 1800 seconds; 10 where there is no such well.\<close>

definition sleep_of :: "map_t \<Rightarrow> nat \<Rightarrow> nat \<Rightarrow> u16" where
  "sleep_of m w a = (if 1 \<le> w \<and> w \<le> 8 then min 1800 (interval_value m w a) else 10)"

definition routine_answer :: "env \<Rightarrow> u8 \<Rightarrow> u8 \<Rightarrow> nat \<Rightarrow> nat \<Rightarrow> rtu \<Rightarrow> u8 list" where
  "routine_answer e grp num no a s =
     (if asked e (unat grp) no s then a11_answer grp num 0x0101 []
      else a11_answer grp num 0x0100 (be16 (sleep_of (mp s) (unat grp) a)))"

lemma judge_asked_uint:
  "judge_eq_meter_para e (uint grp) no s =
     (if asked e (unat grp) no s
      then (0, s\<lparr>equ_meter_para_time := (equ_meter_para_time s)
                (unat grp - 1 := (equ_meter_para_time s (unat grp - 1))(no := time_now e))\<rparr>)
      else (-1, s))"
  using judge_asked [of e "unat grp"] by simp

text \<open>The contract of the callback.\<close>

locale sender =
  fixes func :: send_func and sent :: "u8 list \<Rightarrow> u8 list \<Rightarrow> event"
  assumes sends: "10 \<le> length mac \<Longrightarrow> unat len \<le> 80 \<Longrightarrow> unat len \<le> length d \<Longrightarrow>
    func mac d len s = Some (emit (sent mac (take (unat len) d)) s)"
begin

lemma send_header:
  assumes "10 \<le> length mac"
  shows "func mac (packet_a11_rtu_header buf grp num dt) 10 s =
    Some (emit (sent mac (a11_answer grp num dt [])) s)"
  using sends [OF assms, of 10] by (simp add: packet_a11_answer take_a11_answer)

lemma routine_reply_answers:
  assumes "10 \<le> length mac" "12 \<le> length (tmp_buff fr)"
    and "group_ok grp \<Longrightarrow> map_wf (mp s) \<and> a < x_max (mp s) \<and>
      (kind_at (mp s) (unat grp) a \<noteq> MAP_SYS \<or> a = 1796 \<or> a = 1870)"
  shows "routine_reply e fr func mac grp num no a s =
    Some (emit (sent mac (routine_answer e grp num no a s)) (snd (judge_eq_meter_para e (int (unat grp)) no s)))"
proof (cases "asked e (unat grp) no s")
  case True
  then show ?thesis
    using send_header [OF assms(1)]
    by (simp add: routine_reply_def judge_asked_uint routine_answer_def data_types)
next
  case False
  define v where "v = (if 1 \<le> unat grp \<and> unat grp \<le> 8 then interval_value (mp s) (unat grp) a else 10)"
  have r: "read_register e s 10 (unat grp) a = Some v"
  proof (cases "group_ok grp")
    case True
    then have w: "1 \<le> unat grp" "unat grp \<le> 8"
      by (auto simp: group_ok_def map_sizes word_less_nat_alt)
    then show ?thesis using read_interval [of s "unat grp" a e 10] assms(3) True by (simp add: v_def)
  next
    case False
    then have w: "\<not> (1 \<le> unat grp \<and> unat grp \<le> 8)"
      by (auto simp: group_ok_def map_sizes word_less_nat_alt)
    then have "\<not> args_ok (x_max (mp s)) 1 (int (unat grp)) (int a)"
      unfolding args_ok_def map_sizes by linarith
    then show ?thesis using w by (auto simp: read_register_def zigbee_read_registers_def v_def)
  qed
  have m: "(if v > 1800 then 1800 else v) = sleep_of (mp s) (unat grp) a"
    by (auto simp: sleep_of_def v_def min_def)
  have "Suc (Suc 0) \<le> length (drop 10 (tmp_buff fr))" using assms(2) by simp
  then obtain x y d where d: "drop 10 (tmp_buff fr) = x # y # d"
    unfolding Suc_le_length_iff by blast
  have "func mac (put_u16 (packet_a11_rtu_header (tmp_buff fr) grp num 0x0100) 10
      (swap_int16 (sleep_of (mp s) (unat grp) a))) 12 s =
      Some (emit (sent mac (a11_answer grp num 0x0100 (be16 (sleep_of (mp s) (unat grp) a)))) s)"
    using sends [OF assms(1), of 12]
    by (simp add: packet_a11_answer put_swap take_a11_answer d be16_def)
  then show ?thesis
    using False r m by (simp add: routine_reply_def judge_asked_uint routine_answer_def data_types Let_def)
qed

end

lemma zigbee_send_frame:
  assumes "10 \<le> length mac" "unat len \<le> 80" "unat len \<le> length d"
  shows "zigbee_send mac d len s =
    Some (emit (SerialWrite PORT_ZIGBEE (zigbee_seal (transmit_payload mac (take (unat len) d)))) s)"
proof -
  have "\<not> 80 < unat len" using assms(2) by simp
  then show ?thesis
    using zigbee_packet_seal [OF assms]
    by (simp add: zigbee_send_def zigbee_send_packet_def A11_ZIGBEE_SND_DATA_LEN_def)
qed

interpretation zb: sender zigbee_send "\<lambda>mac d. SerialWrite PORT_ZIGBEE (zigbee_seal (transmit_payload mac d))"
  by unfold_locales (rule zigbee_send_frame)

section \<open>Routine packets\<close>

lemma judge_frame [frame_simps]:
  "mp (snd (judge_eq_meter_para e (int w) no s)) = mp s"
  "out (snd (judge_eq_meter_para e (int w) no s)) = out s"
  "meter_sample_time (snd (judge_eq_meter_para e (int w) no s)) = meter_sample_time s"
  "elec_param_meter_mac (snd (judge_eq_meter_para e (int w) no s)) = elec_param_meter_mac s"
  by (simp_all add: judge_asked)

lemma sample_frame [frame_simps]:
  "mp (set_sample_time e w no s) = mp s" "out (set_sample_time e w no s) = out s"
  "equ_meter_para_time (set_sample_time e w no s) = equ_meter_para_time s"
  "elec_param_meter_mac (set_sample_time e w no s) = elec_param_meter_mac s"
  "meter_sample_time (set_sample_time e w no s) =
    (meter_sample_time s)(w := (meter_sample_time s w)(no := time_now e))"
  by (simp_all add: set_sample_time_def)

text \<open>What a routine packet of meter \<open>no\<close> of a well leaves behind.\<close>

definition reported :: "env \<Rightarrow> nat \<Rightarrow> nat \<Rightarrow> event \<Rightarrow> (nat \<times> u16 list) list \<Rightarrow> rtu \<Rightarrow> rtu \<Rightarrow> bool" where
  "reported e w no ev bs s t \<longleftrightarrow>
     out t = out s @ [ev] \<and> mp t = store_blocks w bs (mp s) \<and>
     meter_sample_time t = (meter_sample_time s)(w - 1 := (meter_sample_time s (w - 1))(no := time_now e)) \<and>
     equ_meter_para_time t = equ_meter_para_time (snd (judge_eq_meter_para e (int w) no s)) \<and>
     elec_param_meter_mac t = elec_param_meter_mac s"

definition ready :: "env \<Rightarrow> nat \<Rightarrow> (nat \<times> u16 list) list \<Rightarrow> rtu \<Rightarrow> bool" where
  "ready e w bs s \<longleftrightarrow> reg_inv e w s \<and> blocks_plain (mp s) w bs"

lemma ready_Cons:
  assumes "ready e w ((a, vs) # bs) s"
  obtains t where "write_registers e vs w a s = Some t" "mp t = store_run w a vs (mp s)" "same_rest s t"
    "ready e w bs t"
proof -
  have r: "reg_inv e w s" "a + length vs \<le> x_max (mp s)" "plain (mp s) w a (length vs)" "vs \<noteq> []"
    "blocks_plain (mp s) w bs"
    using assms by (auto simp: ready_def blocks_plain_Cons)
  obtain t where t: "write_registers e vs w a s = Some t" "mp t = store_run w a vs (mp s)" "same_rest s t"
    using write_registers_plain [OF r(1-4)] by blast
  have "ready e w bs t"
    using r reg_inv_write [OF r(1) t(2)] by (simp add: ready_def t(2))
  with t show ?thesis by (rule that)
qed

lemma ready_same_map: "mp t = mp s \<Longrightarrow> ready e w bs t = ready e w bs s"
  by (simp add: ready_def reg_inv_def)

lemma write_blocks_ready:
  assumes "ready e w bs s"
  shows "\<exists>t. write_blocks e bs w s = Some t \<and> mp t = store_blocks w bs (mp s) \<and> same_rest s t \<and> ready e w [] t"
  using assms
proof (induction bs arbitrary: s)
  case (Cons b bs)
  obtain a vs where b: "b = (a, vs)" by (cases b)
  from Cons.prems [unfolded b] show ?case
  proof (cases rule: ready_Cons)
    case (1 u)
    then show ?thesis using Cons.IH [of u] b same_rest_trans by auto
  qed
qed simp

text \<open>The bytes that the registers of a meter's state get.\<close>

definition info_block :: "u8 list \<Rightarrow> u16 list" where
  "info_block b = [be16_at b 2, be16_at b 4, ucast (b ! 6), ucast (b ! 7), ucast (b ! 10), ucast (b ! 11),
     be16_at b 12, be16_at b 14, 0, 0]"

lemma packet_fields [simp]:
  "sensor_type (normal_packet b) = u16_at b 4" "protocol_type (normal_packet b) = u16_at b 0"
  "data_typed (normal_packet b) = u16_at b 8" "sensor_group (normal_packet b) = b ! 6"
  "sensor_num (normal_packet b) = b ! 7" "sensor_valve (normal_packet b) = u32_at b 16"
  "meter_info (normal_packet b) = info_block b"
  "sensor_type (flow_packet b) = u16_at b 4" "protocol_type (flow_packet b) = u16_at b 0"
  "data_typed (flow_packet b) = u16_at b 8" "sensor_group (flow_packet b) = b ! 6"
  "sensor_num (flow_packet b) = b ! 7" "total_flow_valve (flow_packet b) = u32_at b 16"
  "current_flow_valve (flow_packet b) = u32_at b 20"
  "sensor_type (torque_speed_load_packet b) = u16_at b 4"
  "protocol_type (torque_speed_load_packet b) = u16_at b 0"
  "data_typed (torque_speed_load_packet b) = u16_at b 8" "sensor_group (torque_speed_load_packet b) = b ! 6"
  "sensor_num (torque_speed_load_packet b) = b ! 7" "torque_valve (torque_speed_load_packet b) = u32_at b 16"
  "load_valve (torque_speed_load_packet b) = u32_at b 20" "speed_valve (torque_speed_load_packet b) = u32_at b 24"
  "meter_info (torque_speed_load_packet b) = info_block b"
  "sensor_type (load_normal_packet b) = u16_at b 4" "protocol_type (load_normal_packet b) = u16_at b 0"
  "data_typed (load_normal_packet b) = u16_at b 8" "sensor_group (load_normal_packet b) = b ! 6"
  "sensor_num (load_normal_packet b) = b ! 7" "accele_value (load_normal_packet b) = u32_at b 16"
  "load_value (load_normal_packet b) = u32_at b 20" "meter_info (load_normal_packet b) = info_block b"
  "sensor_type (elect_normal_packet b) = u16_at b 4" "protocol_type (elect_normal_packet b) = u16_at b 0"
  "data_typed (elect_normal_packet b) = u16_at b 8" "sensor_group (elect_normal_packet b) = b ! 6"
  "sensor_num (elect_normal_packet b) = b ! 7" "meter_info (elect_normal_packet b) = info_block b"
  "elect_values (elect_normal_packet b) = map (\<lambda>k. u32_at b (16 + 4 * k)) [0..<11]"
  "sensor_group (load_first_packet b) = b ! 6" "packet_index (load_first_packet b) = b ! 10"
  "synchron_time (load_first_packet b) = u16_at b 14" "sample_points (load_first_packet b) = u16_at b 18"
  "travel_length (load_first_packet b) = u16_at b 20" "cycle_time (load_first_packet b) = u16_at b 22"
  by (simp_all add: normal_packet_def flow_packet_def torque_speed_load_packet_def load_normal_packet_def
      elect_normal_packet_def load_first_packet_def sensor_info_def header_of_def meter_info_def info_block_def
      st_a11_packet_header.defs st_sensor_info.defs st_sensor_normal_packet.defs st_sensor_flow_packet.defs
      st_torque_speed_load_normal_packet.defs st_load_normal_packet.defs st_elect_normal_packet.defs
      st_load_first_packet.defs)

text \<open>Is it a packet of type \<open>ty\<close> with data of kind \<open>dt\<close>?\<close>

definition packet_of :: "u16 \<Rightarrow> u16 \<Rightarrow> u8 list \<Rightarrow> bool" where
  "packet_of ty dt b \<longleftrightarrow> be16_at b 0 = 0 \<and> be16_at b 4 = ty \<and> be16_at b 8 = dt"

lemma packet_ofD:
  assumes "packet_of ty dt b"
  shows "u16_at b 4 = swap_int16 v \<longleftrightarrow> ty = v" "u16_at b 0 = swap_int16 PROTOCOL_TYPE"
    "u16_at b 8 = swap_int16 v \<longleftrightarrow> dt = v"
  using assms by (auto simp: packet_of_def u16_at_eq_swap PROTOCOL_TYPE_def)

text \<open>The registers a routine packet \<open>b\<close> fills, for each kind of meter.\<close>

definition pressure_blocks :: "env \<Rightarrow> u8 list \<Rightarrow> nat \<Rightarrow> (nat \<times> u16 list) list" where
  "pressure_blocks e b n =
     [(302 + (n - 1) * 72, info_block b), (300 + (n - 1) * 72, [be16_at b 16, be16_at b 18]),
      (323 + (n - 1) * 72, time_registers e)]"

definition temperature_blocks :: "env \<Rightarrow> u8 list \<Rightarrow> (nat \<times> u16 list) list" where
  "temperature_blocks e b =
     [(518, info_block b), (516, [be16_at b 16, be16_at b 18]), (539, time_registers e)]"

definition torque_blocks :: "env \<Rightarrow> u8 list \<Rightarrow> (nat \<times> u16 list) list" where
  "torque_blocks e b =
     [(594, info_block b),
      (588, [be16_at b 24, be16_at b 26, be16_at b 16, be16_at b 18, be16_at b 20, be16_at b 22]),
      (615, time_registers e)]"

definition flow_blocks :: "u8 list \<Rightarrow> nat \<Rightarrow> (nat \<times> u16 list) list" where
  "flow_blocks b n =
     [(1875 + 15 * (n - 1), [be16_at b 16, be16_at b 18]), (1877 + 15 * (n - 1), [be16_at b 20, be16_at b 22])]"

lemma group_ok_ready: "ready e (unat g) bs s \<Longrightarrow> group_ok g"
  by (auto simp: ready_def reg_inv_def group_ok_def map_sizes word_less_nat_alt)

text \<open>The state after the answer, on which the writes go on.\<close>

definition answered :: "env \<Rightarrow> nat \<Rightarrow> nat \<Rightarrow> event \<Rightarrow> rtu \<Rightarrow> rtu" where
  "answered e w no ev s = emit ev (snd (judge_eq_meter_para e (int w) no s))"

lemma answered_frame [frame_simps]:
  "mp (answered e w no ev s) = mp s" "out (answered e w no ev s) = out s @ [ev]"
  "meter_sample_time (answered e w no ev s) = meter_sample_time s"
  "elec_param_meter_mac (answered e w no ev s) = elec_param_meter_mac s"
  "equ_meter_para_time (answered e w no ev s) = equ_meter_para_time (snd (judge_eq_meter_para e (int w) no s))"
  by (simp_all add: answered_def frame_simps) (simp_all add: judge_asked emit_def)

lemma reportedI:
  assumes "mp t = store_blocks w bs (mp s)" "same_rest (set_sample_time e (w - 1) no (answered e w no ev s)) t"
  shows "reported e w no ev bs s t"
  using assms same_rest_fields [OF assms(2)] by (simp add: reported_def frame_simps)

text \<open>Writes before the sample time is set commute with it.\<close>

lemma sample_same_rest:
  assumes "same_rest s t"
  shows "same_rest (set_sample_time e k no s) (set_sample_time e k no t)"
proof -
  have "t\<lparr>mp := mp s, disk1 := disk1 s, disk2 := disk2 s, syncs := syncs s\<rparr> = s"
    using assms by (simp only: same_rest_def)
  moreover have "(set_sample_time e k no t)
      \<lparr>mp := mp s, disk1 := disk1 s, disk2 := disk2 s, syncs := syncs s\<rparr> =
      set_sample_time e k no (t\<lparr>mp := mp s, disk1 := disk1 s, disk2 := disk2 s, syncs := syncs s\<rparr>)"
    by (rule rtu.equality) (simp_all add: set_sample_time_def)
  ultimately show ?thesis
    by (simp add: same_rest_def set_sample_time_def)
qed

context sender
begin

lemma pressure_routine:
  assumes "packet_of 2 0 b" "20 \<le> length b" "w = unat (b ! 6)" "n = unat (b ! 7)" "1 \<le> n" "n \<le> 3"
    and "ready e w (pressure_blocks e b n) s" "322 + (n - 1) * 72 < x_max (mp s)"
    and "kind_at (mp s) w (322 + (n - 1) * 72) \<noteq> MAP_SYS" "10 \<le> length mac" "12 \<le> length (tmp_buff fr)"
  shows "\<exists>t. analysis_pressure e fr mac b func s = Some (1, t) \<and>
    reported e w (n - 1) (sent mac (routine_answer e (b ! 6) (b ! 7) (n - 1) (322 + (n - 1) * 72) s))
      (pressure_blocks e b n) s t"
proof -
  define ev where "ev = sent mac (routine_answer e (b ! 6) (b ! 7) (n - 1) (322 + (n - 1) * 72) s)"
  define s0 where "s0 = answered e w (n - 1) ev s"
  have g: "group_ok (b ! 6)" using group_ok_ready assms(3,7) by blast
  have wf: "map_wf (mp s)" using assms(7) by (simp add: ready_def reg_inv_def)
  have a: "routine_reply e fr func mac (b ! 6) (b ! 7) (n - 1) (322 + (n - 1) * 72) s = Some s0"
    unfolding s0_def answered_def ev_def assms(3)
    by (rule routine_reply_answers) (use assms(3,8-11) wf in auto)
  have "ready e w (pressure_blocks e b n) s0"
    using assms(7) ready_same_map [of s0 s] by (simp add: s0_def frame_simps)
  then obtain t1 where t1: "write_registers e (info_block b) w (302 + (n - 1) * 72) s0 = Some t1"
      "mp t1 = store_run w (302 + (n - 1) * 72) (info_block b) (mp s0)" "same_rest s0 t1"
      "ready e w [(300 + (n - 1) * 72, [be16_at b 16, be16_at b 18]), (323 + (n - 1) * 72, time_registers e)] t1"
    unfolding pressure_blocks_def by (rule ready_Cons)
  define u where "u = set_sample_time e (w - 1) (n - 1) t1"
  have "ready e w [(300 + (n - 1) * 72, [be16_at b 16, be16_at b 18]), (323 + (n - 1) * 72, time_registers e)] u"
    using t1(4) ready_same_map [of u t1] by (simp add: u_def frame_simps)
  from write_blocks_ready [OF this] obtain t where t: "write_blocks e
      [(300 + (n - 1) * 72, [be16_at b 16, be16_at b 18]), (323 + (n - 1) * 72, time_registers e)] w u = Some t"
      "mp t = store_blocks w [(300 + (n - 1) * 72, [be16_at b 16, be16_at b 18]), (323 + (n - 1) * 72, time_registers e)] (mp u)"
      "same_rest u t"
    by blast
  have "analysis_pressure e fr mac b func s = Some (1, t)"
    using a t1(1) t(1) assms(1-6) g packet_ofD [OF assms(1)]
    by (auto simp: analysis_pressure_def Let_def u_def meter_types data_types pressure_addrs
        save_meter_info_def save_time_register_def stored_float_bytes split: bind_splits)
  moreover have "reported e w (n - 1) ev (pressure_blocks e b n) s t"
    using t(2) t1(2) same_rest_trans [OF sample_same_rest [OF t1(3), of e "w - 1" "n - 1"] t(3) [unfolded u_def]]
    by (intro reportedI) (simp_all add: s0_def u_def pressure_blocks_def frame_simps)
  ultimately show ?thesis unfolding ev_def by blast
qed

end

text \<open>When the sample time is set right after the answer, the blocks follow in one go.\<close>

lemma answered_blocks:
  assumes "ready e w bs s" "u = set_sample_time e (w - 1) no (answered e w no ev s)"
  obtains t where "write_blocks e bs w u = Some t" "reported e w no ev bs s t"
proof -
  have "mp u = mp s" by (simp add: assms(2) frame_simps)
  with assms(1) have "ready e w bs u" by (simp only: ready_same_map [of u s])
  from write_blocks_ready [OF this] obtain t where
    t: "write_blocks e bs w u = Some t" "mp t = store_blocks w bs (mp u)" "same_rest u t"
    by blast
  have "reported e w no ev bs s t"
    by (rule reportedI [OF t(2) [unfolded \<open>mp u = mp s\<close>] t(3) [unfolded assms(2)]])
  with t(1) show ?thesis by (rule that)
qed

context sender
begin

lemma temperature_routine:
  assumes "packet_of 3 0 b" "20 \<le> length b" "w = unat (b ! 6)" "b ! 7 = 1"
    and "ready e w (temperature_blocks e b) s" "538 < x_max (mp s)"
    and "kind_at (mp s) w 538 \<noteq> MAP_SYS" "10 \<le> length mac" "12 \<le> length (tmp_buff fr)"
  shows "\<exists>t. analysis_temperature e fr mac b func s = Some (0, t) \<and>
    reported e w 3 (sent mac (routine_answer e (b ! 6) 1 3 538 s)) (temperature_blocks e b) s t"
proof -
  define ev where "ev = sent mac (routine_answer e (b ! 6) 1 3 538 s)"
  define u where "u = set_sample_time e (w - 1) 3 (answered e w 3 ev s)"
  have g: "group_ok (b ! 6)" using group_ok_ready assms(3,5) by blast
  have wf: "map_wf (mp s)" using assms(5) by (simp add: ready_def reg_inv_def)
  have a: "routine_reply e fr func mac (b ! 6) 1 3 538 s = Some (answered e w 3 ev s)"
    unfolding answered_def ev_def assms(3)
    by (rule routine_reply_answers) (use assms(3,6-9) wf in auto)
  from assms(5) u_def obtain t where t: "write_blocks e (temperature_blocks e b) w u = Some t"
      "reported e w 3 ev (temperature_blocks e b) s t"
    by (rule answered_blocks)
  have "analysis_temperature e fr mac b func s = Some (0, t)"
    using a t(1) assms(1-4) g packet_ofD [OF assms(1)]
    by (simp add: analysis_temperature_def Let_def u_def meter_types data_types temperature_addrs
        TEMPERATURE_NO_def temperature_blocks_def save_meter_info_def save_time_register_def
        stored_float_bytes bind_eq_Some_conv)
  then show ?thesis using t(2) unfolding ev_def by blast
qed

lemma torque_routine:
  assumes "packet_of 9 0 b" "28 \<le> length b" "w = unat (b ! 6)" "b ! 7 = 1"
    and "ready e w (torque_blocks e b) s" "614 < x_max (mp s)"
    and "kind_at (mp s) w 614 \<noteq> MAP_SYS" "10 \<le> length mac" "12 \<le> length (tmp_buff fr)"
  shows "\<exists>t. analysis_torque_speed_load e fr mac b func s = Some (0, t) \<and>
    reported e w 6 (sent mac (routine_answer e (b ! 6) 1 6 614 s)) (torque_blocks e b) s t"
proof -
  define ev where "ev = sent mac (routine_answer e (b ! 6) 1 6 614 s)"
  define u where "u = set_sample_time e (w - 1) 6 (answered e w 6 ev s)"
  have g: "group_ok (b ! 6)" using group_ok_ready assms(3,5) by blast
  have wf: "map_wf (mp s)" using assms(5) by (simp add: ready_def reg_inv_def)
  have a: "routine_reply e fr func mac (b ! 6) 1 6 614 s = Some (answered e w 6 ev s)"
    unfolding answered_def ev_def assms(3)
    by (rule routine_reply_answers) (use assms(3,6-9) wf in auto)
  from assms(5) u_def obtain t where t: "write_blocks e (torque_blocks e b) w u = Some t"
      "reported e w 6 ev (torque_blocks e b) s t"
    by (rule answered_blocks)
  have "analysis_torque_speed_load e fr mac b func s = Some (0, t)"
    using a t(1) assms(1-4) g packet_ofD [OF assms(1)]
    by (simp add: analysis_torque_speed_load_def Let_def u_def meter_types data_types stl_addrs
        STL_NO_def torque_blocks_def save_meter_info_def save_time_register_def
        stored_float_bytes bind_eq_Some_conv)
  then show ?thesis using t(2) unfolding ev_def by blast
qed

lemma flow_routine:
  assumes "packet_of 10 0 b" "24 \<le> length b" "w = unat (b ! 6)" "n = unat (b ! 7)" "n = 1 \<or> n = 2"
    and "ready e w (flow_blocks b n) s" "1870 < x_max (mp s)" "10 \<le> length mac" "12 \<le> length (tmp_buff fr)"
  shows "\<exists>t. analysis_flow_meter e fr mac b func s = Some (0, t) \<and>
    reported e w 9 (sent mac (routine_answer e (b ! 6) (b ! 7) 9 1870 s)) (flow_blocks b n) s t"
proof -
  define ev where "ev = sent mac (routine_answer e (b ! 6) (b ! 7) 9 1870 s)"
  define u where "u = set_sample_time e (w - 1) 9 (answered e w 9 ev s)"
  have g: "group_ok (b ! 6)" using group_ok_ready assms(3,6) by blast
  have wf: "map_wf (mp s)" using assms(6) by (simp add: ready_def reg_inv_def)
  have a: "routine_reply e fr func mac (b ! 6) (b ! 7) 9 1870 s = Some (answered e w 9 ev s)"
    unfolding answered_def ev_def assms(3)
    by (rule routine_reply_answers) (use assms(3,7-9) wf in auto)
  from assms(6) u_def obtain t where t: "write_blocks e (flow_blocks b n) w u = Some t"
      "reported e w 9 ev (flow_blocks b n) s t"
    by (rule answered_blocks)
  have "analysis_flow_meter e fr mac b func s = Some (0, t)"
    using a t(1) assms(1-5) g packet_ofD [OF assms(1)]
    by (simp add: analysis_flow_meter_def Let_def u_def meter_types data_types actuator_addrs
        WL_FLOW_METER_NO_def flow_blocks_def stored_float_bytes bind_eq_Some_conv)
  then show ?thesis using t(2) unfolding ev_def by blast
qed

text \<open>The three that answer first: a packet with a wrong group is answered and then dropped.\<close>

lemma early_answer:
  fixes e :: env and s :: rtu
  assumes "packet_of ty 0 b" "28 \<le> length b" "\<not> group_ok (b ! 6)" "10 \<le> length mac" "12 \<le> length (tmp_buff fr)"
  defines "u \<equiv> \<lambda>no a. emit (sent mac (routine_answer e (b ! 6) (b ! 7) no a s))
      (snd (judge_eq_meter_para e (int (unat (b ! 6))) no s))"
  shows "ty = 3 \<Longrightarrow> analysis_temperature e fr mac b func s = Some (-1, u 3 538)"
    and "ty = 9 \<Longrightarrow> analysis_torque_speed_load e fr mac b func s = Some (-1, u 6 614)"
    and "ty = 10 \<Longrightarrow> analysis_flow_meter e fr mac b func s = Some (-1, u 9 1870)"
proof -
  have a: "routine_reply e fr func mac (b ! 6) (b ! 7) no a s = Some (u no a)" for no a
    unfolding u_def by (rule routine_reply_answers [OF assms(4,5)]) (use assms(3) in simp)
  note d = packet_ofD [OF assms(1)]
  show "ty = 3 \<Longrightarrow> analysis_temperature e fr mac b func s = Some (-1, u 3 538)"
    using a d assms(2,3) by (simp add: analysis_temperature_def Let_def meter_types data_types
        temperature_addrs TEMPERATURE_NO_def)
  show "ty = 9 \<Longrightarrow> analysis_torque_speed_load e fr mac b func s = Some (-1, u 6 614)"
    using a d assms(2,3) by (simp add: analysis_torque_speed_load_def Let_def meter_types data_types
        stl_addrs STL_NO_def)
  show "ty = 10 \<Longrightarrow> analysis_flow_meter e fr mac b func s = Some (-1, u 9 1870)"
    using a d assms(2,3) by (simp add: analysis_flow_meter_def Let_def meter_types data_types
        actuator_addrs WL_FLOW_METER_NO_def)
qed

end

section \<open>Over the radio\<close>

abbreviation radio :: "u8 list \<Rightarrow> u8 list \<Rightarrow> event" where
  "radio mac d \<equiv> SerialWrite PORT_ZIGBEE (zigbee_seal (transmit_payload mac d))"

text \<open>The registers, the sample time and the output after a routine packet.\<close>

definition stored :: "env \<Rightarrow> nat \<Rightarrow> nat \<Rightarrow> event \<Rightarrow> (nat \<times> u16 list) list \<Rightarrow> rtu \<Rightarrow> rtu \<Rightarrow> bool" where
  "stored e w no ev bs s t \<longleftrightarrow>
     map_wf (mp t) \<and> out t = out s @ [ev] \<and>
     (\<forall>j<x_max (mp s). reg (mp t) w j =
        (case block_value bs j of Some v \<Rightarrow> v | None \<Rightarrow> reg (mp s) w j)) \<and>
     (\<forall>k no'. meter_sample_time t k no' =
        (if k = w - 1 \<and> no' = no then time_now e else meter_sample_time s k no'))"

lemma reported_stored:
  assumes "reported e w no ev bs s t" "ready e w bs s"
  shows "stored e w no ev bs s t"
proof -
  have r: "map_wf (mp s)" "1 \<le> w" "blocks_plain (mp s) w bs"
    using assms(2) by (auto simp: ready_def reg_inv_def)
  have m: "mp t = store_blocks w bs (mp s)" using assms(1) by (simp add: reported_def)
  have "reg (mp t) w j = (case block_value bs j of Some v \<Rightarrow> v | None \<Rightarrow> reg (mp s) w j)"
    if "j < x_max (mp s)" for j
    unfolding m by (rule reg_store_blocks [OF r(2,3) that])
  then show ?thesis
    using assms(1) r(1) by (simp add: stored_def reported_def store_blocks_wf)
qed


definition pressure_demo :: "u8 list" where
  "pressure_demo = [0, 0, 0, 6, 0, 2, 1, 1, 0, 0, 100, 50, 0, 60, 0, 0, 0x41, 0x20, 0, 0]"

definition frame_demo :: analyser_frame where
  "frame_demo = \<lparr>tmp_buff = replicate 160 0, p_addr = 0\<rparr>"

lemma rtu_meters_plain: "plain (mp rtu_meters) w a n"
  by (simp add: plain_def rtu_meters_wf)

lemma rtu_meters_inv: "1 \<le> w \<Longrightarrow> w \<le> 8 \<Longrightarrow> reg_inv env_demo w rtu_meters"
  by (simp add: reg_inv_def rtu_meters_wf env_demo_def)

lemma length_blocks [simp]: "length (info_block b) = 10" "length (time_registers e) = 6"
  by (simp_all add: info_block_def time_registers_def Let_def)

lemma be16_at_bytes: "be16_at b i = ucast (b ! (i + 1)) OR push_bit 8 (ucast (b ! i))"
  by (simp add: be16_at_def bytes_u16_def)


text \<open>
  The meters with one register block per well: temperature (type 3), torque, speed and load in
  one (type 9, the registers in the order speed, torque, load) and flow (type 10, number 1 or 2,
  total and momentary flow fifteen registers apart, no state and no time). A routine packet is
  answered like that of a pressure meter and fills exactly its registers.
\<close>

theorem meter_packets_stored:
  assumes "packet_of ty 0 b" "28 \<le> length b" "w = unat (b ! 6)" "n = unat (b ! 7)" "reg_inv e w s"
    and "1870 < x_max (mp s)" "intervals_plain (mp s) w" "10 \<le> length mac" "12 \<le> length (tmp_buff fr)"
  shows "(ty = 3 \<and> b ! 7 = 1 \<and> blocks_plain (mp s) w (temperature_blocks e b) \<longrightarrow>
      (\<exists>t. analysis_temperature e fr mac b zigbee_send s = Some (0, t) \<and>
        stored e w 3 (radio mac (routine_answer e (b ! 6) 1 3 538 s)) (temperature_blocks e b) s t)) \<and>
    (ty = 9 \<and> b ! 7 = 1 \<and> blocks_plain (mp s) w (torque_blocks e b) \<longrightarrow>
      (\<exists>t. analysis_torque_speed_load e fr mac b zigbee_send s = Some (0, t) \<and>
        stored e w 6 (radio mac (routine_answer e (b ! 6) 1 6 614 s)) (torque_blocks e b) s t)) \<and>
    (ty = 10 \<and> (n = 1 \<or> n = 2) \<and> blocks_plain (mp s) w (flow_blocks b n) \<longrightarrow>
      (\<exists>t. analysis_flow_meter e fr mac b zigbee_send s = Some (0, t) \<and>
        stored e w 9 (radio mac (routine_answer e (b ! 6) (b ! 7) 9 1870 s)) (flow_blocks b n) s t))"
proof (intro conjI impI)
  have l: "20 \<le> length b" "24 \<le> length b" "538 < x_max (mp s)" "614 < x_max (mp s)"
    using assms(2,6) by simp_all
  have k: "kind_at (mp s) w 538 \<noteq> MAP_SYS" "kind_at (mp s) w 614 \<noteq> MAP_SYS"
    using assms(7) by (simp_all add: intervals_plain_def)
  {
    assume a: "ty = 3 \<and> b ! 7 = 1 \<and> blocks_plain (mp s) w (temperature_blocks e b)"
    then have r: "packet_of 3 0 b" "b ! 7 = 1" "ready e w (temperature_blocks e b) s"
      using assms(1,5) by (simp_all add: ready_def)
    from zb.temperature_routine [OF r(1) l(1) assms(3) r(2,3) l(3) k(1) assms(8,9)]
    show "\<exists>t. analysis_temperature e fr mac b zigbee_send s = Some (0, t) \<and>
        stored e w 3 (radio mac (routine_answer e (b ! 6) 1 3 538 s)) (temperature_blocks e b) s t"
      using reported_stored [OF _ r(3)] by blast
  next
    assume a: "ty = 9 \<and> b ! 7 = 1 \<and> blocks_plain (mp s) w (torque_blocks e b)"
    then have r: "packet_of 9 0 b" "b ! 7 = 1" "ready e w (torque_blocks e b) s"
      using assms(1,5) by (simp_all add: ready_def)
    from zb.torque_routine [OF r(1) assms(2,3) r(2,3) l(4) k(2) assms(8,9)]
    show "\<exists>t. analysis_torque_speed_load e fr mac b zigbee_send s = Some (0, t) \<and>
        stored e w 6 (radio mac (routine_answer e (b ! 6) 1 6 614 s)) (torque_blocks e b) s t"
      using reported_stored [OF _ r(3)] by blast
  next
    assume a: "ty = 10 \<and> (n = 1 \<or> n = 2) \<and> blocks_plain (mp s) w (flow_blocks b n)"
    then have r: "packet_of 10 0 b" "n = 1 \<or> n = 2" "ready e w (flow_blocks b n) s"
      using assms(1,5) by (simp_all add: ready_def)
    from zb.flow_routine [OF r(1) l(2) assms(3,4) r(2,3) assms(6,8,9)]
    show "\<exists>t. analysis_flow_meter e fr mac b zigbee_send s = Some (0, t) \<and>
        stored e w 9 (radio mac (routine_answer e (b ! 6) (b ! 7) 9 1870 s)) (flow_blocks b n) s t"
      using reported_stored [OF _ r(3)] by blast
  }
qed

definition torque_demo :: "u8 list" where
  "torque_demo = [0, 0, 0, 6, 0, 9, 2, 1, 0, 0, 100, 50, 0, 60, 0, 0, 0x41, 0x20, 0, 0, 0x42, 0x48, 0, 0, 0x40, 0x40, 0, 0]"

theorem meter_packets_stored_witness:
  "\<exists>t. analysis_torque_speed_load env_demo frame_demo (replicate 10 1) torque_demo zigbee_send rtu_meters = Some (0, t) \<and>
    reg (mp t) 2 588 = 0x4040"
proof -
  have p: "packet_of 9 0 torque_demo" "28 \<le> length torque_demo" "2 = unat (torque_demo ! 6)"
    "unat (torque_demo ! 7) = unat (torque_demo ! 7)" "torque_demo ! 7 = 1"
    by (simp_all add: packet_of_def be16_at_bytes torque_demo_def)
  have b: "blocks_plain (mp rtu_meters) 2 (torque_blocks env_demo torque_demo)"
    by (simp add: blocks_plain_def torque_blocks_def rtu_meters_plain rtu_meters_wf(2))
      (simp add: info_block_def time_registers_def Let_def)
  have k: "1870 < x_max (mp rtu_meters)" "intervals_plain (mp rtu_meters) 2"
    by (simp_all add: rtu_meters_wf intervals_plain_def)
  have l: "10 \<le> length (replicate 10 (1 :: u8))" "12 \<le> length (tmp_buff frame_demo)"
    by (simp_all add: frame_demo_def)
  have i: "reg_inv env_demo 2 rtu_meters" by (rule rtu_meters_inv) simp_all
  from meter_packets_stored [OF p(1-4) i k l] p(5) b obtain t where
    t: "analysis_torque_speed_load env_demo frame_demo (replicate 10 1) torque_demo zigbee_send rtu_meters = Some (0, t)"
    and r: "\<forall>j<x_max (mp rtu_meters). reg (mp t) 2 j =
        (case block_value (torque_blocks env_demo torque_demo) j of Some v \<Rightarrow> v | None \<Rightarrow> reg (mp rtu_meters) 2 j)"
    unfolding stored_def by auto
  have "block_value (torque_blocks env_demo torque_demo) 588 = Some 0x4040"
    by (simp add: torque_blocks_def) (simp add: be16_at_bytes torque_demo_def)
  with r [rule_format, of 588] have "reg (mp t) 2 588 = 0x4040" by (simp add: rtu_meters_wf)
  with t show ?thesis by blast
qed

lemma wrong_group_answer:
  assumes "\<not> group_ok g"
  shows "routine_answer e g num no a s = a11_answer g num 0x0100 [0, 10]"
    "snd (judge_eq_meter_para e (int (unat g)) no s) = s"
proof -
  have w: "\<not> (1 \<le> unat g \<and> unat g \<le> 8)"
    using assms by (auto simp: group_ok_def map_sizes word_less_nat_alt)
  then have "\<not> asked e (unat g) no s" by (auto simp: asked_def)
  moreover have "sleep_of (mp s) (unat g) a = 10" using w by (simp only: sleep_of_def if_False)
  ultimately show "routine_answer e g num no a s = a11_answer g num 0x0100 [0, 10]"
    "snd (judge_eq_meter_para e (int (unat g)) no s) = s"
    by (simp_all add: routine_answer_def be16_def judge_asked_uint)
qed

text \<open>
  Temperature, torque and flow meters are answered before the group number is looked at: a
  routine packet for a well that does not exist is acknowledged with an interval of ten seconds,
  as if its data had been taken, and then dropped with result -1.
\<close>

theorem wrong_group_acknowledged:
  assumes "packet_of ty 0 b" "28 \<le> length b" "b ! 6 = 0 \<or> 8 < b ! 6" "ty \<in> {3, 9, 10}"
    and "10 \<le> length mac" "12 \<le> length (tmp_buff fr)"
  shows "(if ty = 3 then analysis_temperature e fr mac b zigbee_send s
      else if ty = 9 then analysis_torque_speed_load e fr mac b zigbee_send s
      else analysis_flow_meter e fr mac b zigbee_send s) =
    Some (-1, emit (radio mac (a11_answer (b ! 6) (b ! 7) 0x0100 [0, 10])) s)"
proof -
  have g: "\<not> group_ok (b ! 6)"
    using assms(3) by (auto simp: group_ok_def map_sizes word_less_nat_alt)
  note ea = zb.early_answer [OF assms(1,2) g assms(5,6), of e s, unfolded wrong_group_answer [OF g]]
  show ?thesis using ea assms(4) by auto
qed

theorem wrong_group_acknowledged_witness:
  "analysis_torque_speed_load env_demo frame_demo (replicate 10 1) (torque_demo[6 := 9]) zigbee_send rtu_meters =
    Some (-1, emit (radio (replicate 10 1) (a11_answer 9 1 0x0100 [0, 10])) rtu_meters)"
proof -
  have p: "packet_of 9 0 (torque_demo[6 := 9])" "28 \<le> length (torque_demo[6 := 9])"
    "(torque_demo[6 := 9]) ! 6 = 0 \<or> 8 < (torque_demo[6 := 9]) ! 6"
    by (simp_all add: packet_of_def be16_at_bytes torque_demo_def)
  have l: "10 \<le> length (replicate 10 (1 :: u8))" "12 \<le> length (tmp_buff frame_demo)"
    by (simp_all add: frame_demo_def)
  from wrong_group_acknowledged [OF p _ l, of env_demo rtu_meters] show ?thesis
    by (simp add: torque_demo_def)
qed

end
