(* ===== verification/Diagram_Facts.thy ===== *)
theory Diagram_Facts
  imports Sensor_Facts
begin

text \<open>
  Facts on the load and electricity meters and on the dispatch of received frames: the
  parameter packets, which analyser a frame reaches, the diagrams collected from follow-up packets
  and the request for a diagram of the electricity meter.
\<close>

section \<open>Parameter packets\<close>

lemma write_cell_ok:
  assumes "\<forall>k. msync_ok e k" "write_cell e w i v s = Some (rc, v', t)"
  shows "rc = 0"
  using assms
  by (auto simp: write_cell_def Let_def msync1_def msync2_def split: bind_splits map_kind.splits)

text \<open>The two halfwords of the pointer are used up after two registers.\<close>

lemma write_param_undefined:
  assumes "\<forall>k. msync_ok e k" "1 \<le> w" "w \<le> 8" "a + 43 \<le> x_max (mp s)"
  shows "write_param e fr w a s = None"
proof -
  have short: "write_loop e w i n buf s = None" if "length buf < n" for i n buf s
    using that
  proof (induction n arbitrary: i buf s)
    case (Suc n)
    show ?case
    proof (cases buf)
      case (Cons b bs)
      have ih: "write_loop e w (Suc i) n bs t = None" for t
        using Suc Cons by simp
      show ?thesis
      proof (cases "write_cell e w i b s")
        case (Some r)
        obtain rc v t where r: "r = (rc, v, t)" by (cases r)
        have "rc = 0" using write_cell_ok [OF assms(1)] Some r by blast
        then show ?thesis using Cons Some r ih by simp
      qed (simp add: Cons)
    qed simp
  qed simp
  have "args_ok (x_max (mp s)) (int 43) (int w) (int a)"
    using assms(2-4) by (simp add: args_ok_def map_sizes)
  moreover have "write_loop e w a 43 (u32_u16s (p_addr fr)) s = None"
    by (rule short) (simp add: u32_u16s_def)
  ultimately show ?thesis
    by (simp add: write_param_def METER_PARAM_SIZE_def zigbee_write_registers_def)
qed

lemma group_okD: "group_ok g \<Longrightarrow> 1 \<le> unat g \<and> unat g \<le> 8"
  by (auto simp: group_ok_def map_sizes word_less_nat_alt)

text \<open>
  Parameter packets. The analysers pass the address of the pointer to the packet instead of
  the packet: where flash synchronisation works, storing the 43 registers of the parameters reads
  past that variable in every analyser that stores them, whatever the packet says.
\<close>

theorem meter_parameters_undefined:
  assumes "packet_of ty 0x10 b" "72 \<le> length b" "group_ok (b ! 6)" "b ! 7 = 1"
    and "\<forall>k. msync_ok e k" "1854 \<le> x_max (mp s)"
  shows "(ty = 2 \<longrightarrow> analysis_pressure e fr mac b func s = None) \<and>
    (ty = 3 \<longrightarrow> analysis_temperature e fr mac b func s = None) \<and>
    (ty = 9 \<longrightarrow> analysis_torque_speed_load e fr mac b func s = None) \<and>
    (ty = 1 \<longrightarrow> analysis_load e fr mac b func s = None) \<and>
    (ty = 4 \<longrightarrow> analysis_electrical_param e fr mac b func s = None)"
proof -
  note d = packet_ofD [OF assms(1)] and w = conjunct1 [OF group_okD [OF assms(3)]] conjunct2 [OF group_okD [OF assms(3)]]
  have p: "write_param e fr (unat (b ! 6)) a s = None" if "a + 43 \<le> 1854" for a
    using that assms(6) by (intro write_param_undefined [OF assms(5) w]) simp
  have l: "\<not> length b < 20" "\<not> length b < 28" "\<not> length b < 72" using assms(2) by simp_all
  show ?thesis
    using d assms(3,4) l
    by (simp add: analysis_pressure_def analysis_temperature_def analysis_torque_speed_load_def
        analysis_load_def analysis_electrical_param_def Let_def meter_types data_types
        pressure_addrs temperature_addrs stl_addrs load_addrs elec_addrs p)
qed

definition param_demo :: "u8 list" where
  "param_demo = [0, 0, 0, 6, 0, 2, 1, 1, 0, 0x10] @ replicate 76 7"

theorem meter_parameters_undefined_witness:
  "analysis_pressure env_demo frame_demo (replicate 10 1) param_demo zigbee_send rtu_meters = None"
proof -
  have "packet_of 2 0x10 param_demo" "72 \<le> length param_demo" "group_ok (param_demo ! 6)" "param_demo ! 7 = 1"
    by (simp_all add: packet_of_def be16_at_bytes param_demo_def group_ok_def map_sizes)
  moreover have "\<forall>k. msync_ok env_demo k" "1854 \<le> x_max (mp rtu_meters)"
    by (simp_all add: env_demo_def rtu_meters_wf)
  ultimately show ?thesis
    using meter_parameters_undefined [of 2 param_demo env_demo rtu_meters] by simp
qed

section \<open>Dispatch\<close>

lemma not_mine:
  assumes "72 \<le> length b" "be16_at b 4 = ty"
  shows "ty \<noteq> 2 \<Longrightarrow> analysis_pressure e fr mac b func s = Some (-1, s)"
    and "ty \<noteq> 3 \<Longrightarrow> analysis_temperature e fr mac b func s = Some (-1, s)"
    and "ty \<noteq> 9 \<Longrightarrow> analysis_torque_speed_load e fr mac b func s = Some (-1, s)"
    and "ty \<noteq> 10 \<Longrightarrow> analysis_flow_meter e fr mac b func s = Some (-1, s)"
    and "ty \<noteq> 1 \<Longrightarrow> analysis_load e fr mac b func s = Some (-1, s)"
    and "ty \<noteq> 4 \<Longrightarrow> analysis_electrical_param e fr mac b func s = Some (-1, s)"
proof -
  have l: "\<not> length b < 20" "\<not> length b < 24" "\<not> length b < 28" "\<not> length b < 72"
    using assms(1) by simp_all
  show "ty \<noteq> 2 \<Longrightarrow> analysis_pressure e fr mac b func s = Some (-1, s)"
    using assms(2) l by (simp add: analysis_pressure_def Let_def u16_at_eq_swap meter_types)
  show "ty \<noteq> 3 \<Longrightarrow> analysis_temperature e fr mac b func s = Some (-1, s)"
    using assms(2) l by (simp add: analysis_temperature_def Let_def u16_at_eq_swap meter_types)
  show "ty \<noteq> 9 \<Longrightarrow> analysis_torque_speed_load e fr mac b func s = Some (-1, s)"
    using assms(2) l by (simp add: analysis_torque_speed_load_def Let_def u16_at_eq_swap meter_types)
  show "ty \<noteq> 10 \<Longrightarrow> analysis_flow_meter e fr mac b func s = Some (-1, s)"
    using assms(2) l by (simp add: analysis_flow_meter_def Let_def u16_at_eq_swap meter_types)
  show "ty \<noteq> 1 \<Longrightarrow> analysis_load e fr mac b func s = Some (-1, s)"
    using assms(2) l by (simp add: analysis_load_def Let_def u16_at_eq_swap meter_types)
  show "ty \<noteq> 4 \<Longrightarrow> analysis_electrical_param e fr mac b func s = Some (-1, s)"
    using assms(2) l by (simp add: analysis_electrical_param_def Let_def u16_at_eq_swap meter_types)
qed

lemma result_dropped: "x \<bind> (\<lambda>(_, t). Some (0 :: int, t)) = map_option (\<lambda>(_, t). (0, t)) x"
  by (cases x) auto

text \<open>The analyser a meter type belongs to.\<close>

definition analyser_of ::
  "u16 \<Rightarrow> env \<Rightarrow> (nat \<Rightarrow> analyser_frame) \<Rightarrow> u8 list \<Rightarrow> u8 list \<Rightarrow> rtu \<Rightarrow> (int \<times> rtu) option" where
  "analyser_of ty e fr mac b s =
     (if ty = 2 then analysis_pressure e (fr 0) mac b zigbee_send s
      else if ty = 3 then analysis_temperature e (fr 1) mac b zigbee_send s
      else if ty = 9 then analysis_torque_speed_load e (fr 2) mac b zigbee_send s
      else if ty = 10 then analysis_flow_meter e (fr 3) mac b zigbee_send s
      else if ty = 1 then analysis_load e (fr 4) mac b zigbee_send s
      else if ty = 4 then analysis_electrical_param e (fr 5) mac b zigbee_send s
      else Some (-1, s))"

text \<open>
  Dispatch. A received data frame goes through all six analysers, but the meter type in it
  selects the one that acts; the others leave the device as it is. Frames of another kind and
  types without an analyser change nothing.
\<close>

theorem dispatch_by_type:
  assumes "93 \<le> length rec"
  shows "analysis_zigbee_rcv_data e fr rec s =
    (if rec ! 3 = 0x91
     then map_option (\<lambda>(_, t). (0, t))
       (analyser_of (be16_at (drop 21 rec) 4) e fr (take 10 (drop 4 rec)) (drop 21 rec) s)
     else Some (-1, s))"
proof (cases "rec ! 3 = 0x91")
  case True
  define b where "b = drop 21 rec"
  define mac where "mac = take 10 (drop 4 rec)"
  have l: "72 \<le> length b" "\<not> length rec < 4" using assms by (simp_all add: b_def)
  note n = not_mine [OF l(1) refl]
  have "analysis_zigbee_rcv_data e fr rec s =
      do { (_, s) \<leftarrow> analysis_pressure e (fr 0) mac b zigbee_send s;
           (_, s) \<leftarrow> analysis_temperature e (fr 1) mac b zigbee_send s;
           (_, s) \<leftarrow> analysis_torque_speed_load e (fr 2) mac b zigbee_send s;
           (_, s) \<leftarrow> analysis_flow_meter e (fr 3) mac b zigbee_send s;
           (_, s) \<leftarrow> analysis_load e (fr 4) mac b zigbee_send s;
           (_, s) \<leftarrow> analysis_electrical_param e (fr 5) mac b zigbee_send s;
           Some (0, s) }"
    using True l(2) by (simp add: analysis_zigbee_rcv_data_def ZIGBEE_RCV_DATA_FRAMID_def b_def mac_def Let_def)
  also have "\<dots> = map_option (\<lambda>(_, t). (0, t)) (analyser_of (be16_at b 4) e fr mac b s)"
  proof -
    consider "be16_at b 4 = 2" | "be16_at b 4 = 3" | "be16_at b 4 = 9" | "be16_at b 4 = 10"
      | "be16_at b 4 = 1" | "be16_at b 4 = 4" | "be16_at b 4 \<notin> {2, 3, 9, 10, 1, 4}" by auto
    then show ?thesis
      by cases (simp_all add: n analyser_of_def result_dropped)
  qed
  finally show ?thesis using True by (simp add: b_def mac_def)
next
  case False
  then show ?thesis
    using assms by (simp add: analysis_zigbee_rcv_data_def ZIGBEE_RCV_DATA_FRAMID_def)
qed

theorem dispatch_by_type_witness:
  "analysis_zigbee_rcv_data env_demo (\<lambda>_. frame_demo) (replicate 3 0 @ [0x91] @ replicate 17 0 @ param_demo[5 := 7]) rtu_meters =
    Some (0, rtu_meters)"
  using dispatch_by_type [of "replicate 3 0 @ [0x91] @ replicate 17 0 @ param_demo[5 := 7]" env_demo "\<lambda>_. frame_demo" rtu_meters]
  by (simp add: analyser_of_def be16_at_bytes param_demo_def nth_append)

section \<open>Diagrams\<close>

lemma block_value_None: "block_value bs j = None \<longleftrightarrow> (\<forall>(a, vs)\<in>set bs. \<not> (a \<le> j \<and> j < a + length vs))"
  by (induction bs) (auto split: option.splits)

lemma block_value_append:
  "block_value (bs @ cs) j = (case block_value cs j of Some v \<Rightarrow> Some v | None \<Rightarrow> block_value bs j)"
  by (induction bs) (auto split: option.splits)

lemma blocks_plain_append: "blocks_plain m w (bs @ cs) \<longleftrightarrow> blocks_plain m w bs \<and> blocks_plain m w cs"
  by (auto simp: blocks_plain_def)

lemma plain_part: "plain m w a n \<Longrightarrow> a \<le> a' \<Longrightarrow> a' + n' \<le> a + n \<Longrightarrow> plain m w a' n'"
  by (auto simp: plain_def)

text \<open>Follow-up packet \<open>k\<close> carries the points \<open>15 (k - 1) ..< 15 k\<close> of both curves.\<close>

definition load_blocks :: "env \<Rightarrow> u8 list \<Rightarrow> (nat \<times> u16 list) list" where
  "load_blocks e b =
     [(697 + (unat (b ! 10) - 1) * 15, map (\<lambda>i. be16_at b (12 + 2 * i) div 10) [0..<15]),
      (947 + (unat (b ! 10) - 1) * 15, map (\<lambda>i. be16_at b (42 + 2 * i)) [0..<15])] @
     (if b ! 10 = 14 then [(1203, time_registers e)] else [])"

definition follow_up :: "u16 \<Rightarrow> u16 \<Rightarrow> nat \<Rightarrow> u8 list \<Rightarrow> bool" where
  "follow_up ty dt w b \<longleftrightarrow> packet_of ty dt b \<and> 72 \<le> length b \<and> unat (b ! 6) = w \<and> 0 < b ! 10 \<and> b ! 10 < 15"

lemma follow_up_points:
  "take 15 (map swap_int16 (follow_up_data b)) = map (\<lambda>i. be16_at b (12 + 2 * i)) [0..<15]"
  "drop 15 (map swap_int16 (follow_up_data b)) = map (\<lambda>i. be16_at b (42 + 2 * i)) [0..<15]"
  by (simp_all add: follow_up_data_def take_map drop_map comp_def upt_rec)

lemma follow_up_index: "follow_up ty dt w b \<Longrightarrow> 1 \<le> unat (b ! 10) \<and> unat (b ! 10) \<le> 14"
  by (auto simp: follow_up_def word_less_nat_alt)

lemma load_blocks_ready:
  assumes "follow_up 1 0x20 w b" "reg_inv e w s" "1209 \<le> x_max (mp s)" "plain (mp s) w 697 512"
  shows "ready e w (load_blocks e b) s"
proof -
  note k = follow_up_index [OF assms(1)]
  have p: "plain (mp s) w a n" if "697 \<le> a" "a + n \<le> 1209" for a n
    by (rule plain_part [OF assms(4)]) (use that in simp_all)
  have "(unat (b ! 10) - 1) * 15 \<le> 195" using k by linarith
  then show ?thesis
    using assms(2,3) by (auto simp: ready_def load_blocks_def blocks_plain_def p
      simp flip: length_greater_0_conv)
qed

text \<open>The acknowledgement of a diagram packet.\<close>

definition diagram_answer :: "u16 \<Rightarrow> u8 list \<Rightarrow> u8 list" where
  "diagram_answer dt b = a11_answer (b ! 6) (b ! 7) dt [b ! 10]"

context sender
begin

lemma ack_sent:
  assumes "10 \<le> length mac" "11 \<le> length buf"
  shows "func mac (diagram_ack buf (b ! 6) (b ! 7) dt (b ! 10)) 11 s = Some (emit (sent mac (diagram_answer dt b)) s)"
proof -
  have "Suc 0 \<le> length (drop 10 buf)" using assms(2) by simp
  then obtain x d where "drop 10 buf = x # d"
    unfolding Suc_le_length_iff by blast
  then show ?thesis
    using sends [OF assms(1), of 11]
    by (simp add: diagram_ack_def packet_a11_answer take_a11_answer diagram_answer_def)
qed

lemma load_follow_up:
  assumes "follow_up 1 0x20 w b" "ready e w (load_blocks e b) s" "10 \<le> length mac" "11 \<le> length (tmp_buff fr)"
  shows "\<exists>t. analysis_load e fr mac b func s = Some (1, t) \<and>
    mp t = store_blocks w (load_blocks e b) (mp s) \<and> out t = out s @ [sent mac (diagram_answer 0x0201 b)]"
proof -
  have f: "packet_of 1 0x20 b" "72 \<le> length b" "unat (b ! 6) = w" "b ! 10 \<noteq> 0" "b ! 10 < 15"
    using assms(1) by (auto simp: follow_up_def)
  have c: "analysis_load e fr mac b func s =
     do { s \<leftarrow> write_registers e (map (\<lambda>i. be16_at b (12 + 2 * i) div 10) [0..<15]) w
            (697 + (unat (b ! 10) - 1) * 15) s;
          s \<leftarrow> write_registers e (map (\<lambda>i. be16_at b (42 + 2 * i)) [0..<15]) w
            (947 + (unat (b ! 10) - 1) * 15) s;
          s \<leftarrow> Some (emit (sent mac (diagram_answer 0x0201 b)) s);
          s \<leftarrow> (if b ! 10 = 14 then save_time_register e w 1203 s else Some s);
          Some (1, s) }"
    using f(2-5) packet_ofD [OF f(1)] unfolding analysis_load_def Let_def follow_up_points(2)
    by (simp add: meter_types data_types load_addrs follow_up_points(1) take_map [symmetric]
        ack_sent [OF assms(3,4)] word_gt_0 comp_def cong: if_cong del: upt_Suc)
  obtain u where u: "write_registers e (map (\<lambda>i. be16_at b (12 + 2 * i) div 10) [0..<15]) w
        (697 + (unat (b ! 10) - 1) * 15) s = Some u"
      "mp u = store_run w (697 + (unat (b ! 10) - 1) * 15) (map (\<lambda>i. be16_at b (12 + 2 * i) div 10) [0..<15]) (mp s)"
      "same_rest s u"
      "ready e w ((947 + (unat (b ! 10) - 1) * 15, map (\<lambda>i. be16_at b (42 + 2 * i)) [0..<15]) #
        (if b ! 10 = 14 then [(1203, time_registers e)] else [])) u"
    using assms(2) unfolding load_blocks_def append_Cons append_Nil by (rule ready_Cons)
  obtain v where v: "write_registers e (map (\<lambda>i. be16_at b (42 + 2 * i)) [0..<15]) w
        (947 + (unat (b ! 10) - 1) * 15) u = Some v"
      "mp v = store_run w (947 + (unat (b ! 10) - 1) * 15) (map (\<lambda>i. be16_at b (42 + 2 * i)) [0..<15]) (mp u)"
      "same_rest u v" "ready e w (if b ! 10 = 14 then [(1203, time_registers e)] else []) v"
    using u(4) by (rule ready_Cons)
  define x where "x = emit (sent mac (diagram_answer 0x0201 b)) v"
  have x: "ready e w (if b ! 10 = 14 then [(1203, time_registers e)] else []) x"
    using v(4) ready_same_map [of x v] by (simp add: x_def frame_simps)
  have o: "out x = out s @ [sent mac (diagram_answer 0x0201 b)]"
    using same_rest_fields(1) [OF u(3)] same_rest_fields(1) [OF v(3)] by (simp add: x_def frame_simps)
  have m: "mp x = mp v" by (simp add: x_def frame_simps)
  show ?thesis
  proof (cases "b ! 10 = 14")
    case True
    then have "ready e w [(1203, time_registers e)] x" using x by simp
    then obtain t where "write_registers e (time_registers e) w 1203 x = Some t"
        "mp t = store_run w 1203 (time_registers e) (mp x)" "same_rest x t" "ready e w [] t"
      by (rule ready_Cons)
    then show ?thesis
      using True c u(1,2) v(1,2) o m same_rest_fields(1) [of x t]
      by (simp add: save_time_register_def load_blocks_def x_def [symmetric])
  next
    case False
    then show ?thesis using c u(1,2) v(1,2) o m by (simp add: load_blocks_def x_def [symmetric])
  qed
qed

end

text \<open>Packets handled one after the other, each in the environment of its moment.\<close>

fun load_packets ::
  "analyser_frame \<Rightarrow> u8 list \<Rightarrow> (env \<times> u8 list) list \<Rightarrow> rtu \<Rightarrow> rtu option" where
  "load_packets fr mac [] s = Some s"
| "load_packets fr mac ((e, b) # ps) s =
     do { (_, s) \<leftarrow> analysis_load e fr mac b zigbee_send s; load_packets fr mac ps s }"

definition blocks_of :: "(env \<times> u8 list) list \<Rightarrow> (nat \<times> u16 list) list" where
  "blocks_of ps = concat (map (\<lambda>(e, b). load_blocks e b) ps)"

lemma load_packets_blocks:
  assumes "\<forall>(e, b)\<in>set ps. follow_up 1 0x20 w b \<and> reg_inv e w s" "1209 \<le> x_max (mp s)"
    "plain (mp s) w 697 512" "10 \<le> length mac" "11 \<le> length (tmp_buff fr)"
  shows "\<exists>t. load_packets fr mac ps s = Some t \<and> mp t = store_blocks w (blocks_of ps) (mp s) \<and>
    blocks_plain (mp s) w (blocks_of ps) \<and>
    out t = out s @ map (\<lambda>(e, b). radio mac (diagram_answer 0x0201 b)) ps"
  using assms(1-3)
proof (induction ps arbitrary: s)
  case Nil
  then show ?case by (simp add: blocks_of_def blocks_plain_def)
next
  case (Cons p ps)
  obtain e b where p: "p = (e, b)" by (cases p)
  then have f: "follow_up 1 0x20 w b" "reg_inv e w s" using Cons.prems(1) by auto
  have r: "ready e w (load_blocks e b) s"
    by (rule load_blocks_ready [OF f Cons.prems(2,3)])
  from zb.load_follow_up [OF f(1) r assms(4,5)] obtain u where
    u: "analysis_load e fr mac b zigbee_send s = Some (1, u)"
      "mp u = store_blocks w (load_blocks e b) (mp s)" "out u = out s @ [radio mac (diagram_answer 0x0201 b)]"
    by blast
  have i: "reg_inv e' w u = reg_inv e' w s" if "reg_inv e' w s" for e'
    using that u(2) by (simp add: reg_inv_def store_blocks_wf)
  have bp: "blocks_plain (mp u) w bs = blocks_plain (mp s) w bs" for bs
    using plain_cong [of "mp u" "mp s"] u(2) by (simp add: blocks_plain_def)
  have "\<forall>(e, b)\<in>set ps. follow_up 1 0x20 w b \<and> reg_inv e w u" "1209 \<le> x_max (mp u)" "plain (mp u) w 697 512"
    using Cons.prems i u(2) plain_cong [of "mp u" "mp s"] by auto
  from Cons.IH [OF this] obtain t where
    "load_packets fr mac ps u = Some t" "mp t = store_blocks w (blocks_of ps) (mp u)"
    "blocks_plain (mp u) w (blocks_of ps)"
    "out t = out u @ map (\<lambda>(e, b). radio mac (diagram_answer 0x0201 b)) ps" by blast
  then show ?case
    using p u r bp by (simp add: blocks_of_def store_blocks_append blocks_plain_append ready_def)
qed

lemma load_blocks_value:
  assumes "follow_up ty dt w b" "i < 15"
  shows "block_value (load_blocks e b) (697 + (unat (b ! 10) - 1) * 15 + i) = Some (be16_at b (12 + 2 * i) div 10)"
    and "block_value (load_blocks e b) (947 + (unat (b ! 10) - 1) * 15 + i) = Some (be16_at b (42 + 2 * i))"
proof -
  have "(unat (b ! 10) - 1) * 15 \<le> 195" using follow_up_index [OF assms(1)] by linarith
  moreover define k where "k = (unat (b ! 10) - 1) * 15"
  ultimately show "block_value (load_blocks e b) (697 + (unat (b ! 10) - 1) * 15 + i) = Some (be16_at b (12 + 2 * i) div 10)"
    "block_value (load_blocks e b) (947 + (unat (b ! 10) - 1) * 15 + i) = Some (be16_at b (42 + 2 * i))"
    using assms(2) unfolding load_blocks_def k_def [symmetric] by simp_all
qed

text \<open>Packets with another index leave the points of this one alone.\<close>

lemma other_points:
  assumes "follow_up ty dt w b" "follow_up ty dt w c" "c ! 10 \<noteq> b ! 10" "i < 15" "base = 697 \<or> base = 947"
  shows "block_value (load_blocks e c) (base + (unat (b ! 10) - 1) * 15 + i) = None"
proof -
  define k where "k = unat (b ! 10) - 1"
  define m where "m = unat (c ! 10) - 1"
  have "unat (c ! 10) \<noteq> unat (b ! 10)" using assms(3) by (simp add: word_unat_eq_iff)
  then have "k \<noteq> m" "k \<le> 13" "m \<le> 13"
    using follow_up_index [OF assms(1)] follow_up_index [OF assms(2)] by (auto simp: k_def m_def)
  then have "m * 15 + 15 \<le> k * 15 \<or> k * 15 + 15 \<le> m * 15" "m * 15 \<le> 195" "k * 15 \<le> 195"
    by (auto simp: neq_iff)
  then show ?thesis
    unfolding block_value_None load_blocks_def k_def [symmetric] m_def [symmetric]
    using assms(4,5) by auto
qed

text \<open>
  C8. Collecting the load diagram. The follow-up packets of a diagram may arrive in any order and
  again: each is acknowledged once, and in the end every point of both curves is the one of the
  last packet that carried it, the positions divided by ten. The points of a packet do not disturb
  those of another.
\<close>

theorem load_diagram_collected:
  assumes "\<forall>(e, b)\<in>set ps. follow_up 1 0x20 w b \<and> reg_inv e w s" "1209 \<le> x_max (mp s)"
    "plain (mp s) w 697 512" "10 \<le> length mac" "11 \<le> length (tmp_buff fr)" "1 \<le> w"
  shows "\<exists>t. load_packets fr mac ps s = Some t \<and>
    out t = out s @ map (\<lambda>(e, b). radio mac (diagram_answer 0x0201 b)) ps \<and>
    (\<forall>xs e b ys i. ps = xs @ (e, b) # ys \<and> (\<forall>(e', c)\<in>set ys. c ! 10 \<noteq> b ! 10) \<and> i < 15 \<longrightarrow>
      reg (mp t) w (697 + (unat (b ! 10) - 1) * 15 + i) = be16_at b (12 + 2 * i) div 10 \<and>
      reg (mp t) w (947 + (unat (b ! 10) - 1) * 15 + i) = be16_at b (42 + 2 * i))"
proof -
  from load_packets_blocks [OF assms(1-5)] obtain t where t: "load_packets fr mac ps s = Some t"
      "mp t = store_blocks w (blocks_of ps) (mp s)" "blocks_plain (mp s) w (blocks_of ps)"
      "out t = out s @ map (\<lambda>(e, b). radio mac (diagram_answer 0x0201 b)) ps" by blast
  have "reg (mp t) w (697 + (unat (b ! 10) - 1) * 15 + i) = be16_at b (12 + 2 * i) div 10 \<and>
      reg (mp t) w (947 + (unat (b ! 10) - 1) * 15 + i) = be16_at b (42 + 2 * i)"
    if ps: "ps = xs @ (e, b) # ys" and ys: "\<forall>(e', c)\<in>set ys. c ! 10 \<noteq> b ! 10" and i: "i < 15"
    for xs e b ys i
  proof -
    have f: "follow_up 1 0x20 w b" "\<forall>(e', c)\<in>set ys. follow_up 1 0x20 w c" using assms(1) ps by auto
    have none: "block_value (blocks_of ys) (base + (unat (b ! 10) - 1) * 15 + i) = None"
      if base: "base = 697 \<or> base = 947" for base
    proof -
      have "block_value (load_blocks e' c) (base + (unat (b ! 10) - 1) * 15 + i) = None"
        if "(e', c) \<in> set ys" for e' c
        using other_points [OF f(1) _ _ i base, of c e'] f(2) ys that by auto
      then show ?thesis unfolding block_value_None blocks_of_def by fastforce
    qed
    have "(unat (b ! 10) - 1) * 15 \<le> 195" using follow_up_index [OF f(1)] by linarith
    then have x: "697 + (unat (b ! 10) - 1) * 15 + i < x_max (mp s)" "947 + (unat (b ! 10) - 1) * 15 + i < x_max (mp s)"
      using assms(2) i by linarith+
    have split: "blocks_of ps = (blocks_of xs @ load_blocks e b) @ blocks_of ys"
      by (simp add: ps blocks_of_def)
    show ?thesis
      unfolding t(2) reg_store_blocks [OF assms(6) t(3) x(1)] reg_store_blocks [OF assms(6) t(3) x(2)]
      unfolding split block_value_append none [OF disjI1 [OF refl]] none [OF disjI2 [OF refl]]
        load_blocks_value [OF f(1) i]
      by simp
  qed
  then show ?thesis using t(1,4) by auto
qed


definition diagram_demo :: "u8 \<Rightarrow> u8 list" where
  "diagram_demo k = [0, 0, 0, 6, 0, 1, 1, 1, 0, 0x20, k, 0] @ replicate 60 k"

theorem load_diagram_collected_witness:
  "\<exists>t. load_packets frame_demo (replicate 10 1)
      [(env_demo, diagram_demo 14), (env_demo, diagram_demo 1), (env_demo, diagram_demo 14)] rtu_meters = Some t \<and>
    reg (mp t) 1 947 = 0x0101"
proof -
  let ?ps = "[(env_demo, diagram_demo 14), (env_demo, diagram_demo 1), (env_demo, diagram_demo 14)]"
  have "reg_inv env_demo 1 rtu_meters" by (rule rtu_meters_inv) simp_all
  then have f: "\<forall>(e, b)\<in>set ?ps. follow_up 1 0x20 1 b \<and> reg_inv e 1 rtu_meters"
    by (simp add: follow_up_def packet_of_def be16_at_bytes diagram_demo_def)
  have k: "1209 \<le> x_max (mp rtu_meters)" by (simp add: rtu_meters_wf)
  have l: "10 \<le> length (replicate 10 (1 :: u8))" "11 \<le> length (tmp_buff frame_demo)"
    by (simp_all add: frame_demo_def)
  from load_diagram_collected [OF f k rtu_meters_plain l] obtain t where
    t: "load_packets frame_demo (replicate 10 1) ?ps rtu_meters = Some t"
    and r: "\<And>xs e b ys i. ?ps = xs @ (e, b) # ys \<and> (\<forall>(e', c)\<in>set ys. c ! 10 \<noteq> b ! 10) \<and> i < 15 \<longrightarrow>
      reg (mp t) 1 (697 + (unat (b ! 10) - 1) * 15 + i) = be16_at b (12 + 2 * i) div 10 \<and>
      reg (mp t) 1 (947 + (unat (b ! 10) - 1) * 15 + i) = be16_at b (42 + 2 * i)"
    by auto
  have "?ps = [(env_demo, diagram_demo 14)] @ (env_demo, diagram_demo 1) # [(env_demo, diagram_demo 14)] \<and>
      (\<forall>(e', c)\<in>set [(env_demo, diagram_demo 14)]. c ! 10 \<noteq> diagram_demo 1 ! 10) \<and> (0 :: nat) < 15"
    by (simp add: diagram_demo_def)
  from r [rule_format, OF this]
  have "reg (mp t) 1 (947 + (unat (diagram_demo 1 ! 10) - 1) * 15 + 0) = be16_at (diagram_demo 1) (42 + 2 * 0)"
    by (rule conjunct2)
  then have "reg (mp t) 1 947 = 0x0101"
    by (simp add: be16_at_bytes diagram_demo_def nth_append)
  with t show ?thesis by blast
qed


section \<open>The request for the electricity diagram\<close>

text \<open>Register blocks of a first diagram packet of the load meter.\<close>

definition first_blocks :: "u8 list \<Rightarrow> (nat \<times> u16 list) list" where
  "first_blocks b =
     [(691, [be16_at b 18]),
      (693, u32_u16s (swap_stor_float_seq (encode32 (strokes_per_minute (be16_at b 22)))) @
            u32_u16s (swap_stor_float_seq (encode32 (stroke_length (be16_at b 20)))))]"

text \<open>Who is told, and what: synchronisation time, cycle time, points and well.\<close>

definition sysn_message :: "u8 list \<Rightarrow> u8 list \<Rightarrow> event" where
  "sysn_message meter_mac b =
     MsgSend (if list_ex (\<lambda>x. x \<noteq> 0) (take 10 meter_mac) then Q_zigbee else Q_rtu_client)
       [5, 0, be16_at b 14, be16_at b 22, be16_at b 18, ucast (b ! 6)]"

context sender
begin

lemma load_first:
  assumes "packet_of 1 0x20 b" "72 \<le> length b" "w = unat (b ! 6)" "b ! 7 = 1" "b ! 10 = 0"
    and "ready e w (first_blocks b) s" "10 \<le> length mac" "11 \<le> length (tmp_buff fr)"
  shows "\<exists>t. analysis_load e fr mac b func s = Some (1, t) \<and>
    mp t = store_blocks w (first_blocks b) (mp s) \<and>
    out t = out s @ [sysn_message (elec_param_meter_mac s (w - 1)) b, sent mac (diagram_answer 0x0201 b)]"
proof -
  define x where "x = emit (sysn_message (elec_param_meter_mac s (w - 1)) b) s"
  have g: "group_ok (b ! 6)" using group_ok_ready assms(3,6) by blast
  have m: "send_load_elec_sysn (load_first_packet b) s = x"
    by (simp add: send_load_elec_sysn_def Let_def judge_elec_param_wired_wireless_def x_def sysn_message_def
        MSG_LOAD_ELEC_SYSN_def assms(3))
  have "ready e w (first_blocks b) x"
    using assms(6) ready_same_map [of x s] by (simp add: x_def frame_simps)
  from write_blocks_ready [OF this] obtain t where t: "write_blocks e (first_blocks b) w x = Some t"
    "mp t = store_blocks w (first_blocks b) (mp x)" "same_rest x t" by blast
  have "analysis_load e fr mac b func s = Some (1, emit (sent mac (diagram_answer 0x0201 b)) t)"
    using t(1) m g assms(2-5) packet_ofD [OF assms(1)] ack_sent [OF assms(7,8), of b]
    by (simp add: analysis_load_def Let_def meter_types data_types load_addrs first_blocks_def
        bind_eq_Some_conv) blast
  then show ?thesis
    using t(2) same_rest_fields(1) [OF t(3)] by (simp add: x_def frame_simps)
qed

end

text \<open>
  The load meter's first diagram packet. It is acknowledged, its values are stored, and the
  other meter is told to record: by radio if the well's electricity meter has reported by radio
  before, else over the wire.
\<close>

theorem first_packet_announced:
  assumes "packet_of 1 0x20 b" "72 \<le> length b" "w = unat (b ! 6)" "b ! 7 = 1" "b ! 10 = 0"
    and "reg_inv e w s" "blocks_plain (mp s) w (first_blocks b)" "10 \<le> length mac" "11 \<le> length (tmp_buff fr)"
  shows "\<exists>t. analysis_load e fr mac b zigbee_send s = Some (1, t) \<and>
    out t = out s @ [sysn_message (elec_param_meter_mac s (w - 1)) b, radio mac (diagram_answer 0x0201 b)] \<and>
    (\<forall>j<x_max (mp s). reg (mp t) w j =
      (case block_value (first_blocks b) j of Some v \<Rightarrow> v | None \<Rightarrow> reg (mp s) w j))"
proof -
  have r: "ready e w (first_blocks b) s" and w: "1 \<le> w" using assms(6,7) by (auto simp: ready_def reg_inv_def)
  from zb.load_first [OF assms(1-5) r assms(8,9)] obtain t where
    "analysis_load e fr mac b zigbee_send s = Some (1, t)" "mp t = store_blocks w (first_blocks b) (mp s)"
    "out t = out s @ [sysn_message (elec_param_meter_mac s (w - 1)) b, radio mac (diagram_answer 0x0201 b)]"
    by blast
  then show ?thesis using reg_store_blocks [OF w assms(7)] by simp
qed

definition first_demo :: "u8 \<Rightarrow> u8 list" where
  "first_demo points =
     [0, 0, 0, 6, 0, 1, 1, 1, 0, 0x20, 0, 0, 0, 0, 0, 20, 0, 0, 0, points, 8, 0, 4, 0] @ replicate 48 0"

theorem first_packet_announced_witness:
  "\<exists>t. analysis_load env_demo frame_demo (replicate 10 1) (first_demo 200) zigbee_send rtu_meters = Some (1, t) \<and>
    MsgSend Q_rtu_client [5, 0, 20, 1024, 200, 1] \<in> set (out t)"
proof -
  have p: "packet_of 1 0x20 (first_demo 200)" "72 \<le> length (first_demo 200)" "1 = unat (first_demo 200 ! 6)"
    "first_demo 200 ! 7 = 1" "first_demo 200 ! 10 = 0"
    by (simp_all add: packet_of_def be16_at_bytes first_demo_def)
  have b: "blocks_plain (mp rtu_meters) 1 (first_blocks (first_demo 200))"
    by (simp add: blocks_plain_def first_blocks_def rtu_meters_plain rtu_meters_wf(2) u32_u16s_def)
  have l: "10 \<le> length (replicate 10 (1 :: u8))" "11 \<le> length (tmp_buff frame_demo)"
    by (simp_all add: frame_demo_def)
  have i: "reg_inv env_demo 1 rtu_meters" by (rule rtu_meters_inv) simp_all
  have m: "sysn_message (elec_param_meter_mac rtu_meters (1 - 1)) (first_demo 200) =
      MsgSend Q_rtu_client [5, 0, 20, 1024, 200, 1]"
    by (simp add: sysn_message_def be16_at_bytes first_demo_def rtu_meters_def rtu_demo_eval)
  from first_packet_announced [OF p i b l] show ?thesis unfolding m by auto
qed

lemma low_of_swap: "(ucast (swap_int16 v) :: u8) = ucast (drop_bit 8 v)"
  by (rule bit_word_eqI) (auto simp: bit_simps bit_swap_int16 add.commute)

lemma update_Cons_numeral: "(x # xs)[numeral k := y] = x # xs[pred_numeral k := y]"
  by (simp add: numeral_eq_Suc)

text \<open>
  The frame that asks for the diagram: mode, points, time shifted by 12 units, interval and a zero,
  then ten bytes of the array that were never assigned.
\<close>

definition diagram_request :: "u8 list \<Rightarrow> u16 \<Rightarrow> u16 \<Rightarrow> u16 \<Rightarrow> u16 \<Rightarrow> u8 list" where
  "diagram_request buf mode sync cycle points =
     [ucast (drop_bit 8 mode)] @ be16 points @ be16 (if sync > 12 then sync - 12 else sync) @
     be16 (of_int (int (unat cycle) * 10 div (int (unat points) - 1))) @ [0] @ take 10 (drop 18 buf)"

text \<open>
  The request to the electricity meter. For an existing well with a known meter the message of
  a first load packet becomes one frame; its mode is the high byte of the mode register, so every
  mode below 256 is sent as 0. If the load meter announced a single point, the interval is divided
  by zero.
\<close>

theorem diagram_request_sent:
  assumes "reg_inv e w s" "692 < x_max (mp s)" "kind_at (mp s) w 692 \<noteq> MAP_SYS"
    and "10 \<le> length (elec_param_meter_mac s (w - 1))" "28 \<le> length buf" "g = of_nat w"
  shows "send_sysn_electrical_param e buf junk [sync, cycle, points, g] s =
    (if points = 1 then None
     else Some (emit (radio (elec_param_meter_mac s (w - 1))
       (a11_answer (of_nat w) 1 0x0210 (diagram_request buf (reg (mp s) w 692) sync cycle points))) s))"
proof -
  have w: "1 \<le> w" "w \<le> 8" using assms(1) by (auto simp: reg_inv_def)
  then have ug: "unat g = w" by (simp add: assms(6) unat_of_nat)
  have cg: "(ucast g :: u8) = of_nat w"
    using w by (simp add: assms(6) word_unat_eq_iff unat_ops unat_of_nat)
  have r: "read_register e s junk w 692 = Some (reg (mp s) w 692)"
    by (rule read_register_plain [OF assms(1-3)])
  have p1: "int (unat points) - 1 = 0 \<longleftrightarrow> points = 1"
    unfolding word_unat_eq_iff unsigned_1 by linarith
  obtain x0 x1 x2 x3 x4 x5 x6 x7 d where d: "drop 10 buf = x0 # x1 # x2 # x3 # x4 # x5 # x6 # x7 # d"
    and dl: "length d = length buf - 18" "d = drop 18 buf"
  proof -
    have s: "drop k buf = buf ! k # drop (k + 1) buf" if "k < 28" for k
      using Cons_nth_drop_Suc [of k buf] assms(5) that by simp
    show ?thesis
      by (rule that [of "buf ! 10" "buf ! 11" "buf ! 12" "buf ! 13" "buf ! 14" "buf ! 15" "buf ! 16" "buf ! 17" "drop 18 buf"])
        (use s [of 10] s [of 11] s [of 12] s [of 13] s [of 14] s [of 15] s [of 16] s [of 17] in simp_all)
  qed
  show ?thesis
  proof (cases "points = 1")
    case True
    then show ?thesis using w r p1 ug
      by (simp add: send_sysn_electrical_param_def Let_def RTU_MAX_WELL_NUM_def load_addrs)
  next
    case False
    then show ?thesis
      using w r p1 ug cg zb.sends [OF assms(4), of 28] dl assms(5)
      by (simp add: send_sysn_electrical_param_def Let_def RTU_MAX_WELL_NUM_def load_addrs data_types
          packet_a11_answer put_swap d take_a11_answer diagram_request_def be16_def update_Cons_numeral low_of_swap)
  qed
qed


theorem diagram_request_sent_witness:
  "send_sysn_electrical_param env_demo (replicate 128 7) 0 [20, 1024, 1, 1]
     (rtu_meters\<lparr>elec_param_meter_mac := \<lambda>_. replicate 10 1\<rparr>) = None"
proof -
  let ?s = "rtu_meters\<lparr>elec_param_meter_mac := \<lambda>_. replicate 10 1\<rparr>"
  have i: "reg_inv env_demo 1 ?s" using rtu_meters_inv [of 1] by (simp add: reg_inv_def)
  have k: "692 < x_max (mp ?s)" "kind_at (mp ?s) 1 692 \<noteq> MAP_SYS" by (simp_all add: rtu_meters_wf)
  have l: "10 \<le> length (elec_param_meter_mac ?s (1 - 1))" "28 \<le> length (replicate 128 (7 :: u8))"
    "(1 :: u16) = of_nat 1" by simp_all
  show ?thesis using diagram_request_sent [OF i k l, of 0 20 1024 1] by simp
qed


section \<open>The electricity meter\<close>

text \<open>A value of the packet as the number it is, and with its halfwords exchanged.\<close>

definition float_at :: "u8 list \<Rightarrow> nat \<Rightarrow> u32" where
  "float_at b i = bytes_u32 (b ! (i + 3)) (b ! (i + 2)) (b ! (i + 1)) (b ! i)"

definition crossed_at :: "u8 list \<Rightarrow> nat \<Rightarrow> u32" where
  "crossed_at b i = bytes_u32 (b ! (i + 1)) (b ! i) (b ! (i + 3)) (b ! (i + 2))"

text \<open>
  The registers of a routine packet: nine of the eleven values as they came, the sum of the
  crossed tenth and the eleventh, and the eleventh with its registers in the other order.
\<close>

definition elect_spec :: "env \<Rightarrow> u8 list \<Rightarrow> (nat \<times> u16 list) list" where
  "elect_spec e b =
     [(1776, info_block b),
      (1252, map (\<lambda>i. be16_at b (16 + 2 * i)) [0..<12]),
      (1274, [be16_at b 40, be16_at b 42]), (1268, [be16_at b 44, be16_at b 46]),
      (1270, [be16_at b 48, be16_at b 50]),
      (1264, u32_u16s (float_add (crossed_at b 52) (float_at b 56))),
      (1266, [be16_at b 58, be16_at b 56]), (1799, time_registers e)]"

lemma rcv_float_at: "swap_rcv_float_seq (u32_at b i) = float_at b i"
  by (simp add: u32_at_def float_at_def swap_rcv_float_bytes)

lemma stor_float_at: "swap_stor_float_seq (float_at b i) = crossed_at b i"
  by (simp add: crossed_at_def float_at_def swap_stor_float_bytes)

lemma crossed_halves:
  "u32_u16s (crossed_at b i) = [be16_at b i, be16_at b (i + 2)]"
  "u32_u16s (float_at b i) = [be16_at b (i + 2), be16_at b i]"
  by (simp_all add: crossed_at_def float_at_def u32_u16s_bytes be16_at_def numeral_eq_Suc)

lemma elect_blocks_spec:
  "(1776, info_block b) # elect_blocks (map (\<lambda>k. u32_at b (16 + 4 * k)) [0..<11]) @ [(1799, time_registers e)] =
   elect_spec e b"
proof -
  have u: "[0..<11] = [0, 1, 2, 3, 4, 5, 6, 7, 8, 9, 10 :: nat]"
    "[0..<12] = [0, 1, 2, 3, 4, 5, 6, 7, 8, 9, 10, 11 :: nat]" by (simp_all add: upt_rec)
  show ?thesis
    by (simp add: elect_blocks_def elect_spec_def elec_addrs u rcv_float_at stor_float_at crossed_halves)
qed


text \<open>The state after the answer: unless the parameters were asked for, the address is kept.\<close>

definition elect_answered :: "env \<Rightarrow> u8 list \<Rightarrow> nat \<Rightarrow> event \<Rightarrow> rtu \<Rightarrow> rtu" where
  "elect_answered e mac w ev s =
     (if asked e w 5 s then answered e w 5 ev s
      else emit ev (s\<lparr>elec_param_meter_mac := (elec_param_meter_mac s)(w - 1 := take 10 mac)\<rparr>))"

lemma write_blocks_append:
  "write_blocks e (bs @ cs) w s = do { s \<leftarrow> write_blocks e bs w s; write_blocks e cs w s }"
proof (induction bs arbitrary: s)
  case (Cons b bs)
  obtain a vs where b: "b = (a, vs)" by (cases b)
  show ?case by (cases "write_registers e vs w a s") (simp_all add: b Cons.IH)
qed simp

context sender
begin

lemma elect_reply_answers:
  assumes "10 \<le> length mac" "12 \<le> length (tmp_buff fr)" "group_ok grp" "map_wf (mp s)" "1796 < x_max (mp s)"
  shows "elect_reply e fr func mac grp num s =
    Some (elect_answered e mac (unat grp) (sent mac (routine_answer e grp num 5 1796 s)) s)"
proof (cases "asked e (unat grp) 5 s")
  case True
  then show ?thesis
    using send_header [OF assms(1)]
    by (simp add: elect_reply_def judge_asked_uint routine_answer_def data_types elect_answered_def
        answered_def ELECTRICAL_PARAMETER_NO_def)
next
  case False
  have w: "1 \<le> unat grp" "unat grp \<le> 8" using group_okD [OF assms(3)] by auto
  have r: "read_register e s 0 (unat grp) 1796 = Some (interval_value (mp s) (unat grp) 1796)"
    by (rule read_interval [OF assms(4) w assms(5)]) simp
  have m: "(if interval_value (mp s) (unat grp) 1796 > 1800 then 1800 else interval_value (mp s) (unat grp) 1796) =
      sleep_of (mp s) (unat grp) 1796"
    using w by (auto simp: sleep_of_def min_def)
  have "Suc (Suc 0) \<le> length (drop 10 (tmp_buff fr))" using assms(2) by simp
  then obtain x y d where d: "drop 10 (tmp_buff fr) = x # y # d"
    unfolding Suc_le_length_iff by blast
  have "func mac (put_u16 (packet_a11_rtu_header (tmp_buff fr) grp num 0x0100) 10
      (swap_int16 (sleep_of (mp s) (unat grp) 1796))) 12 t =
      Some (emit (sent mac (a11_answer grp num 0x0100 (be16 (sleep_of (mp s) (unat grp) 1796)))) t)" for t
    using sends [OF assms(1), of 12]
    by (simp add: packet_a11_answer put_swap take_a11_answer d be16_def)
  then show ?thesis
    using False r m assms(1)
    by (simp add: elect_reply_def judge_asked_uint routine_answer_def data_types Let_def elec_addrs
        elect_answered_def ELECTRICAL_PARAMETER_NO_def)
qed

lemma elect_routine:
  assumes "packet_of 4 0 b" "72 \<le> length b" "w = unat (b ! 6)" "b ! 7 = 1"
    and "ready e w (elect_spec e b) s" "1796 < x_max (mp s)" "10 \<le> length mac" "12 \<le> length (tmp_buff fr)"
  shows "\<exists>t. analysis_electrical_param e fr mac b func s = Some (1, t) \<and>
    mp t = store_blocks w (elect_spec e b) (mp s) \<and>
    out t = out s @ [sent mac (routine_answer e (b ! 6) 1 5 1796 s)] \<and>
    elec_param_meter_mac t =
      (if asked e w 5 s then elec_param_meter_mac s else (elec_param_meter_mac s)(w - 1 := take 10 mac))"
proof -
  define ev where "ev = sent mac (routine_answer e (b ! 6) 1 5 1796 s)"
  define u where "u = set_sample_time e (w - 1) 5 (elect_answered e mac w ev s)"
  have g: "group_ok (b ! 6)" using group_ok_ready assms(3,5) by blast
  have wf: "map_wf (mp s)" using assms(5) by (simp add: ready_def reg_inv_def)
  have a: "elect_reply e fr func mac (b ! 6) 1 s = Some (elect_answered e mac w ev s)"
    unfolding ev_def assms(3) by (rule elect_reply_answers [OF assms(7,8) g wf assms(6)])
  have m: "mp u = mp s" "out u = out s @ [ev]" "elec_param_meter_mac u =
      (if asked e w 5 s then elec_param_meter_mac s else (elec_param_meter_mac s)(w - 1 := take 10 mac))"
    by (simp_all add: u_def elect_answered_def frame_simps) (simp add: emit_def)
  have "ready e w (elect_spec e b) u" using assms(5) ready_same_map [of u s] m(1) by simp
  from write_blocks_ready [OF this] obtain t where t: "write_blocks e (elect_spec e b) w u = Some t"
    "mp t = store_blocks w (elect_spec e b) (mp u)" "same_rest u t" by blast
  have c: "write_blocks e ((1776, info_block b) # elect_blocks (map (\<lambda>k. u32_at b (16 + 4 * k)) [0..<11]) @
      [(1799, time_registers e)]) w u = Some t"
    using t(1) by (simp only: elect_blocks_spec)
  have "analysis_electrical_param e fr mac b func s = Some (1, t)"
    using a c g assms(2-4) packet_ofD [OF assms(1)]
    by (simp add: analysis_electrical_param_def Let_def meter_types data_types elec_addrs u_def
        ELECTRICAL_PARAMETER_NO_def save_meter_info_def save_time_register_def write_blocks_append
        bind_eq_Some_conv)
  then show ?thesis
    using t(2) m same_rest_fields(1,4) [OF t(3)] unfolding ev_def by auto
qed

end

text \<open>
  C10. A routine packet of the electricity meter. Currents, voltages, factor and powers land in
  their registers as they came. The two energy registers do not: the sum is formed after the tenth
  value has been prepared for the registers and the eleventh has not, and the eleventh is stored
  with its two registers exchanged. The meter's address is remembered exactly when it was not asked
  for its parameters.
\<close>

theorem elect_packet_stored:
  assumes "packet_of 4 0 b" "72 \<le> length b" "w = unat (b ! 6)" "b ! 7 = 1"
    and "reg_inv e w s" "blocks_plain (mp s) w (elect_spec e b)" "1796 < x_max (mp s)"
    and "10 \<le> length mac" "12 \<le> length (tmp_buff fr)"
  shows "\<exists>t. analysis_electrical_param e fr mac b zigbee_send s = Some (1, t) \<and>
    out t = out s @ [radio mac (routine_answer e (b ! 6) 1 5 1796 s)] \<and>
    (\<forall>j<x_max (mp s). reg (mp t) w j =
      (case block_value (elect_spec e b) j of Some v \<Rightarrow> v | None \<Rightarrow> reg (mp s) w j)) \<and>
    elec_param_meter_mac t (w - 1) = (if asked e w 5 s then elec_param_meter_mac s (w - 1) else take 10 mac)"
proof -
  have r: "ready e w (elect_spec e b) s" and w: "1 \<le> w" using assms(5,6) by (auto simp: ready_def reg_inv_def)
  from zb.elect_routine [OF assms(1-4) r assms(7-9)] obtain t where
    "analysis_electrical_param e fr mac b zigbee_send s = Some (1, t)"
    "mp t = store_blocks w (elect_spec e b) (mp s)"
    "out t = out s @ [radio mac (routine_answer e (b ! 6) 1 5 1796 s)]"
    "elec_param_meter_mac t =
      (if asked e w 5 s then elec_param_meter_mac s else (elec_param_meter_mac s)(w - 1 := take 10 mac))" by blast
  then show ?thesis using reg_store_blocks [OF w assms(6)] by simp
qed

definition elect_demo :: "u8 list" where
  "elect_demo = [0, 0, 0, 6, 0, 4, 1, 1, 0, 0, 100, 50, 0, 60, 0, 0] @ replicate 40 0 @ [0x3F, 0x80, 0, 0] @ replicate 12 0"

theorem elect_packet_stored_witness:
  "\<exists>t. analysis_electrical_param env_demo frame_demo (replicate 10 1) elect_demo zigbee_send rtu_meters = Some (1, t) \<and>
    reg (mp t) 1 1266 = 0 \<and> reg (mp t) 1 1267 = 0x3F80 \<and> elec_param_meter_mac t 0 = replicate 10 1"
proof -
  have p: "packet_of 4 0 elect_demo" "72 \<le> length elect_demo" "1 = unat (elect_demo ! 6)" "elect_demo ! 7 = 1"
    by (simp_all add: packet_of_def be16_at_bytes elect_demo_def)
  have b: "blocks_plain (mp rtu_meters) 1 (elect_spec env_demo elect_demo)"
    by (simp add: blocks_plain_def elect_spec_def rtu_meters_plain rtu_meters_wf(2) u32_u16s_def)
      (simp add: info_block_def time_registers_def Let_def upt_rec)
  have l: "1796 < x_max (mp rtu_meters)" "10 \<le> length (replicate 10 (1 :: u8))" "12 \<le> length (tmp_buff frame_demo)"
    by (simp_all add: frame_demo_def rtu_meters_wf)
  have i: "reg_inv env_demo 1 rtu_meters" by (rule rtu_meters_inv) simp_all
  have a: "\<not> asked env_demo 1 5 rtu_meters" by (simp add: asked_def env_demo_def rtu_meters_def rtu_demo_eval)
  have v: "block_value (elect_spec env_demo elect_demo) 1266 = Some 0"
    "block_value (elect_spec env_demo elect_demo) 1267 = Some 0x3F80"
    by (simp_all add: elect_spec_def u32_u16s_def) (simp_all add: be16_at_bytes elect_demo_def nth_append)
  from elect_packet_stored [OF p i b l] obtain t where
    "analysis_electrical_param env_demo frame_demo (replicate 10 1) elect_demo zigbee_send rtu_meters = Some (1, t)"
    "elec_param_meter_mac t (1 - 1) = take 10 (replicate 10 1)"
    "\<forall>j<x_max (mp rtu_meters). reg (mp t) 1 j =
      (case block_value (elect_spec env_demo elect_demo) j of Some v \<Rightarrow> v | None \<Rightarrow> reg (mp rtu_meters) 1 j)"
    using a by auto
  moreover from this(3) [rule_format, of 1266] this(3) [rule_format, of 1267]
  have "reg (mp t) 1 1266 = 0" "reg (mp t) 1 1267 = 0x3F80" by (simp_all add: v rtu_meters_wf)
  ultimately show ?thesis by auto
qed

section \<open>The numbers of a first diagram packet\<close>

text \<open>
  The strokes per minute and the stroke length that a first diagram packet leaves in the registers
  are those of the packet (6000 divided by the cycle time, and a thousandth of the travel) up to one
  part in 2 to the 23, two roundings of a double and a float included; a cycle time of zero is
  stored as infinity.
\<close>

theorem diagram_numbers_close:
  "(if c = 0 then encode32 (strokes_per_minute c) = 0x7F800000
    else near 23 (decode32 (encode32 (strokes_per_minute c))) (6000 / real (unat c))) \<and>
   near 23 (decode32 (encode32 (stroke_length l))) (real (unat l) / 1000)"
proof (rule conjI)
  show "if c = 0 then encode32 (strokes_per_minute c) = 0x7F800000
    else near 23 (decode32 (encode32 (strokes_per_minute c))) (6000 / real (unat c))"
  proof (cases "c = 0")
    case True
    then show ?thesis by (simp add: strokes_per_minute_def fp_of_int_def)
  next
    case False
    have t: "tame (6000 / real (unat c))"
      using u16_real(1) [OF False] u16_real(2) [of c] by (intro tame_bounds) (simp_all add: field_simps)
    have "near 53 (fp_div round64 (fp_of_int 6000) (fp_of_int (uint c))) (6000 / real (unat c))"
      using near_div [of "fp_of_int 6000" "fp_of_int (uint c)"] u16_real(1) [OF False] t by simp
    then show ?thesis
      using False near_stored [OF near_weaken t, of 53] by (simp add: strokes_per_minute_def)
  qed
  define r :: real where "r = 4611686018427388 / 4611686018427387904"
  have v: "fval (fp_of_int (uint l)) * fval MILLI = real (unat l) * r"
    by (simp add: MILLI_def power_int_minus r_def)
  have "near 53 (fp_mul round64 (fp_of_int (uint l)) MILLI) (real (unat l) * r)"
    using near_mul [of "fp_of_int (uint l)" MILLI] tame_u16 [of r l] unfolding v by (simp add: MILLI_def r_def)
  moreover have "real (unat l) * r = real (unat l) / 1000 + real (unat l) / 1000 * (96 / 4611686018427387904)"
    by (simp add: r_def)
  ultimately have "near 52 (fp_mul round64 (fp_of_int (uint l)) MILLI) (real (unat l) / 1000)"
    by (intro near_shift [of _ _ "96 / 4611686018427387904"]) (simp_all only: of_nat_0_le_iff divide_nonneg_nonneg, simp_all)
  then show "near 23 (decode32 (encode32 (stroke_length l))) (real (unat l) / 1000)"
    using near_stored tame_u16 [of "1 / 1000" l] by (simp add: stroke_length_def)
qed

end
