(* ===== verification/Threads.thy ===== *)
theory Threads
  imports Device
begin

text \<open>
  The times of life that \<^verbatim>\<open>common/thread.c\<close> keeps for the threads: each thread notes
  when it last ran and when it last communicated, and the main thread reports the slow ones.
\<close>

definition THREAD_TCP_SERVER :: nat where "THREAD_TCP_SERVER = 0"
definition THREAD_TCP_CLIENT :: nat where "THREAD_TCP_CLIENT = 1"
definition THREAD_UDP_SERVER :: nat where "THREAD_UDP_SERVER = 2"
definition THREAD_RS485_MASTER :: nat where "THREAD_RS485_MASTER = 3"
definition THREAD_RS485_SLAVE :: nat where "THREAD_RS485_SLAVE = 4"
definition THREAD_RS232_SERVER :: nat where "THREAD_RS232_SERVER = 5"
definition THREAD_RS232_ZIGBEE :: nat where "THREAD_RS232_ZIGBEE = 6"
definition THREAD_GPIO_LED :: nat where "THREAD_GPIO_LED = 7"
definition THREAD_GPIO_IRQ :: nat where "THREAD_GPIO_IRQ = 8"
definition THREAD_DATA_SERVER :: nat where "THREAD_DATA_SERVER = 9"
definition THREAD_MAX_THREAD_NUM :: nat where "THREAD_MAX_THREAD_NUM = 10"
definition THREAD_MAX_DELAY_TIME :: u32 where "THREAD_MAX_DELAY_TIME = 1200"
definition THREAD_MAX_COM_DELAY_TIME :: u32 where "THREAD_MAX_COM_DELAY_TIME = 1200"

definition update_thread_time :: "env \<Rightarrow> int \<Rightarrow> rtu \<Rightarrow> rtu" where
  "update_thread_time e n s =
     (if n < 0 \<or> n \<ge> int THREAD_MAX_THREAD_NUM then s
      else s\<lparr>thread_time := (thread_time s)(nat n := time_now e)\<rparr>)"

definition update_thread_com_time :: "env \<Rightarrow> int \<Rightarrow> rtu \<Rightarrow> rtu" where
  "update_thread_com_time e n s =
     (if n < 0 \<or> n \<ge> int THREAD_MAX_THREAD_NUM then s
      else s\<lparr>thread_com_time := (thread_com_time s)(nat n := time_now e)\<rparr>)"

text \<open>Entry \<open>i\<close> of both tables, for all threads.\<close>

definition thread_time_init :: "env \<Rightarrow> rtu \<Rightarrow> rtu" where
  "thread_time_init e s =
     s\<lparr>thread_time := (\<lambda>i. if i < THREAD_MAX_THREAD_NUM then time_now e else thread_time s i),
       thread_com_time := (\<lambda>i. if i < THREAD_MAX_THREAD_NUM then time_now e else thread_com_time s i)\<rparr>"

text \<open>Has more than the allowed time passed, as signed seconds?\<close>

definition late :: "u32 \<Rightarrow> u32 \<Rightarrow> u32 \<Rightarrow> bool" where
  "late limit now t \<longleftrightarrow> sint (now - t) > sint limit"

text \<open>
  \<^verbatim>\<open>sprintf("%d ")\<close> of a thread number, which has one digit; the buffer of 512 bytes takes
  all ten.
\<close>

definition thread_text :: "nat \<Rightarrow> string" where
  "thread_text i = [char_of (48 + i), CHR '' '']"

definition slow_threads :: "env \<Rightarrow> rtu \<Rightarrow> nat list" where
  "slow_threads e s =
     filter (\<lambda>i. late THREAD_MAX_DELAY_TIME (time_now e) (thread_time s i)) [0..<THREAD_MAX_THREAD_NUM]"

definition test_thread_time :: "env \<Rightarrow> rtu \<Rightarrow> rtu" where
  "test_thread_time e s =
     (let buf = concat (map thread_text (slow_threads e s)) in
      if buf = [] then s else emit (LogMsg (''thread slow '' @ buf @ [CHR 0x0A])) s)"

lemma thread_time_frame [frame_simps]:
  "mp (update_thread_time e i s) = mp s" "mp (update_thread_com_time e i s) = mp s"
  "out (update_thread_time e i s) = out s" "out (update_thread_com_time e i s) = out s"
  "elec_param_meter_mac (update_thread_time e i s) = elec_param_meter_mac s"
  "elec_param_meter_mac (update_thread_com_time e i s) = elec_param_meter_mac s"
  by (simp_all add: update_thread_time_def update_thread_com_time_def)

end
