(* ===== verification/Network.thy ===== *)
theory Network
  imports Device Checksum
begin

text \<open>
  The network addresses of \<^verbatim>\<open>network/network.c\<close>: the texts of the commands that set
  them, the ports and server addresses of the servers as text, and the check of a heart beat
  packet. The numbers of \<^verbatim>\<open>printf\<close> are written as in C.
\<close>

section \<open>Numbers as text\<close>

definition digit_char :: "nat \<Rightarrow> char" where
  "digit_char d = (if d < 10 then char_of (48 + d) else char_of (87 + d))"

text \<open>A number in the base \<open>b\<close>, at least 2, without leading zeros.\<close>

function base_text :: "nat \<Rightarrow> nat \<Rightarrow> string" where
  "base_text b n =
     (if b < 2 \<or> n < b then [digit_char n] else base_text b (n div b) @ [digit_char (n mod b)])"
  by pat_completeness auto
termination by (relation "measure snd") auto

declare base_text.simps [simp del]

text \<open>\<^verbatim>\<open>%hd\<close> and \<^verbatim>\<open>%hx\<close>; \<^verbatim>\<open>atoi\<close>.\<close>

definition hd_text :: "u16 \<Rightarrow> string" where
  "hd_text v = (if sint v < 0 then CHR ''-'' # base_text 10 (nat (- sint v)) else base_text 10 (nat (sint v)))"

definition hx_text :: "u16 \<Rightarrow> string" where
  "hx_text v = base_text 16 (unat v)"

definition atoi :: "string \<Rightarrow> int" where
  "atoi text =
     (let (sg, t) = sign_of (dropWhile is_space text)
      in max (- LONG_MAX - 1) (min LONG_MAX (sg * int (number 10 digit_val (takeWhile is_digit t)))))"

text \<open>Texts with a separator between them.\<close>

fun joined :: "char \<Rightarrow> string list \<Rightarrow> string" where
  "joined c [] = []"
| "joined c [x] = x"
| "joined c (x # y # xs) = x @ c # joined c (y # xs)"

definition ip4_text :: "u16 list \<Rightarrow> string" where
  "ip4_text a = joined (CHR ''.'') (map hd_text (take 4 a))"

definition ip6_text :: "u16 list \<Rightarrow> string" where
  "ip6_text a = joined (CHR '':'') (map hx_text (take 8 a))"

section \<open>Commands\<close>

text \<open>The result of \<^verbatim>\<open>system\<close> is not looked at by the callers.\<close>

definition ipv4_command :: "u16 list \<Rightarrow> u16 list \<Rightarrow> u16 list \<Rightarrow> string" where
  "ipv4_command ip netmask gateway =
     ''ifconfig eth1 '' @ ip4_text ip @ '' netmask '' @ ip4_text netmask @ '';route add default gw '' @ ip4_text gateway"

definition ipv6_command :: "u16 list \<Rightarrow> u16 list \<Rightarrow> u16 list \<Rightarrow> string" where
  "ipv6_command ip netmask gateway =
     ''ip -f inet6 address add '' @ ip6_text ip @ ''/'' @ hd_text (netmask ! 0) @
     '' dev eth1;route -A inet6 add default gw '' @ ip6_text gateway"

definition set_ipv4_config_bin :: "u16 list \<Rightarrow> u16 list \<Rightarrow> u16 list \<Rightarrow> rtu \<Rightarrow> rtu option" where
  "set_ipv4_config_bin ip netmask gateway s =
     (let buf = ipv4_command ip netmask gateway in
      if length buf \<ge> 512 then None else Some (emit (SystemCall buf) s))"

definition set_ipv6_config_bin :: "u16 list \<Rightarrow> u16 list \<Rightarrow> u16 list \<Rightarrow> rtu \<Rightarrow> rtu option" where
  "set_ipv6_config_bin ip netmask gateway s =
     (let buf = ipv6_command ip netmask gateway in
      if length buf \<ge> 512 then None else Some (emit (SystemCall buf) s))"

definition set_tcp_port :: "u16 \<Rightarrow> rtu \<Rightarrow> rtu" where
  "set_tcp_port port s = send_int Q_zigbee MSG_NETWORK_SET_IP s"

section \<open>Heart beats\<close>

text \<open>The checksum stands in front of what it covers; -1 or the checksum.\<close>

definition udp_heart_pack_check_integrity :: "u8 list \<Rightarrow> nat \<Rightarrow> int option" where
  "udp_heart_pack_check_integrity buffer buffer_length = do {
     crc_calculated \<leftarrow> crc16 (drop 2 buffer) (of_int (int buffer_length - 2));
     let crc_received = (push_bit 8 (ucast (buffer ! 0)) OR ucast (buffer ! 1) :: u16);
     Some (if crc_calculated = crc_received then uint crc_received else -1) }"

section \<open>The texts are numbers and points\<close>

lemma code_char [simp]: "n < 256 \<Longrightarrow> code (char_of n) = n"
  by (simp add: code_def)

lemma digit_char_code: "d < 16 \<Longrightarrow> code (digit_char d) = (if d < 10 then 48 + d else 87 + d)"
  by (simp add: digit_char_def)

lemma base_text_digits:
  assumes "2 \<le> b" "b \<le> 16"
  shows "\<forall>c\<in>set (base_text b n). \<exists>d<b. c = digit_char d"
proof (induction n rule: less_induct)
  case (less n)
  show ?case
  proof (cases "n < b")
    case True
    then show ?thesis by (auto simp: base_text.simps [of b n])
  next
    case False
    then have "n div b < n" using assms(1) by simp
    with less have "\<forall>c\<in>set (base_text b (n div b)). \<exists>d<b. c = digit_char d" by blast
    moreover have "n mod b < b" using assms(1) by simp
    then have "\<exists>d<b. digit_char (n mod b) = digit_char d" by blast
    ultimately show ?thesis using False assms(1) by (auto simp: base_text.simps [of b n])
  qed
qed

lemma base_text_length:
  assumes "2 \<le> b" "n < b ^ k" "0 < k"
  shows "length (base_text b n) \<le> k"
  using assms(2,3)
proof (induction k arbitrary: n)
  case (Suc k)
  show ?case
  proof (cases "n < b")
    case True
    then show ?thesis by (simp add: base_text.simps [of b n])
  next
    case False
    have "n div b < b ^ k" using Suc.prems(1) assms(1) by (simp add: less_mult_imp_div_less mult.commute)
    moreover have "0 < k"
      using False Suc.prems(1) by (cases k) auto
    ultimately show ?thesis
      using Suc.IH [of "n div b"] False assms(1) by (simp add: base_text.simps [of b n])
  qed
qed simp

lemma base_text_ne [simp]: "base_text b n \<noteq> []"
  by (subst base_text.simps) simp

section \<open>Reading the texts back\<close>

lemma number_snoc: "number b val (xs @ [c]) = b * number b val xs + val c"
  by (simp add: number_def)

lemma number_base_text:
  assumes "2 \<le> b" "\<And>d. d < b \<Longrightarrow> val (digit_char d) = d"
  shows "number b val (base_text b n) = n"
proof (induction n rule: less_induct)
  case (less n)
  show ?case
  proof (cases "n < b")
    case True
    then show ?thesis using assms(2) by (simp add: base_text.simps [of b n] number_def)
  next
    case False
    then have "number b val (base_text b (n div b)) = n div b" using assms(1) by (intro less) simp
    moreover have "val (digit_char (n mod b)) = n mod b" using assms by simp
    ultimately show ?thesis
      using False assms(1) by (simp add: base_text.simps [of b n] number_snoc)
  qed
qed

lemma is_space_code: "is_space c \<Longrightarrow> code c \<le> 32"
  by (auto simp: is_space_def code_def)

lemma digit_char_10: "d < 10 \<Longrightarrow> is_digit (digit_char d) \<and> digit_val (digit_char d) = d"
  by (simp add: is_digit_def digit_val_def digit_char_code)

lemma digit_char_16: "d < 16 \<Longrightarrow> is_xdigit (digit_char d) \<and> xdigit_val (digit_char d) = d"
  by (simp add: is_xdigit_def xdigit_val_def is_digit_def digit_char_code)

lemma base_text_all:
  "c \<in> set (base_text 10 n) \<Longrightarrow> is_digit c"
  "c \<in> set (base_text 16 n) \<Longrightarrow> is_xdigit c"
  using base_text_digits [of 10 n] base_text_digits [of 16 n] digit_char_10 digit_char_16 by auto

lemma base_text_hd:
  "2 \<le> b \<Longrightarrow> b \<le> 16 \<Longrightarrow> \<exists>c cs. base_text b n = c # cs \<and> 48 \<le> code c"
  using base_text_digits [of b n] by (cases "base_text b n") (auto simp: digit_char_code)

lemma is_digit_code: "is_digit c \<Longrightarrow> 48 \<le> code c \<and> code c \<le> 57" by (simp add: is_digit_def)

lemma sign_of_text:
  assumes "2 \<le> b" "b \<le> 16"
  shows "dropWhile is_space (base_text b n @ r) = base_text b n @ r" "sign_of (base_text b n @ r) = (1, base_text b n @ r)"
proof -
  obtain c cs where c: "base_text b n = c # cs" "48 \<le> code c" using base_text_hd [OF assms] by blast
  then have "\<not> is_space c" "c \<noteq> CHR ''-''" "c \<noteq> CHR ''+''" using is_space_code [of c] by (auto simp: code_def)
  then show "dropWhile is_space (base_text b n @ r) = base_text b n @ r" "sign_of (base_text b n @ r) = (1, base_text b n @ r)"
    by (simp_all add: c(1))
qed

lemma take_digits: "takeWhile is_digit (base_text 10 n) = base_text 10 n"
  "takeWhile is_xdigit (base_text 16 n) = base_text 16 n" "dropWhile is_xdigit (base_text 16 n) = []"
  by (auto simp: base_text_all intro!: takeWhile_eq_all_conv [THEN iffD2])

lemma number_texts: "number 10 digit_val (base_text 10 n) = n" "number 16 xdigit_val (base_text 16 n) = n"
  using digit_char_10 digit_char_16 by (simp_all add: number_base_text)

lemma atoi_base_text: "n \<le> 65536 \<Longrightarrow> atoi (base_text 10 n) = int n"
  using sign_of_text [of 10 n "[]"] by (simp add: atoi_def take_digits number_texts LONG_MAX_def)

lemma atoi_minus_text: "n \<le> 65536 \<Longrightarrow> atoi (CHR ''-'' # base_text 10 n) = - int n"
  by (simp add: atoi_def is_space_def take_digits number_texts LONG_MAX_def)

lemma sint_u16: "- 32768 \<le> sint (v :: u16) \<and> sint v < 32768"
  using sint_range_size [of v] by (simp add: word_size)

text \<open>A counter of 32 bits far from its limit.\<close>

lemma sint_counter:
  fixes t :: u32
  assumes "0 \<le> sint t" "sint t < 2 ^ 31 - 65536" "n < 65536"
  shows "sint (t + of_nat n) = sint t + int n"
proof -
  have t: "uint t = sint t"
    using assms uint_sint [of t] by (simp add: take_bit_int_eq_self)
  have sum: "0 \<le> uint t + int n" "uint t + int n < 2 ^ 31" using assms t by linarith+
  moreover have "uint (of_nat n :: u32) = int n"
    using assms(3) by (simp add: unsigned_of_nat take_bit_nat_eq_self)
  ultimately have u: "uint (t + of_nat n) = uint t + int n"
    by (simp add: uint_word_ariths mod_pos_pos_trivial)
  have "- (2 ^ 31) \<le> uint t + int n" by (rule order_trans [OF _ sum(1)]) simp
  from signed_take_bit_int_eq_self [OF this sum(2)] have "sint (t + of_nat n) = uint t + int n"
    unfolding sint_uint [of "t + of_nat n"] u by simp
  then show ?thesis using t by simp
qed

lemma sint_later:
  fixes t :: u32 and i :: u16
  assumes "0 \<le> sint t" "sint t < 2 ^ 31 - 65536"
  shows "sint (t + ucast i) = sint t + int (unat i)"
proof -
  have "(of_nat (unat i) :: u32) = ucast i" by simp
  then show ?thesis using sint_counter [OF assms unat_lt_u16 [of i]] by (simp only:)
qed

lemma no_0x: "\<not> is_prefix ''0x'' (base_text 16 n)" "\<not> is_prefix ''0X'' (base_text 16 n)"
  using base_text_all(2) [of "CHR ''x''" n] base_text_all(2) [of "CHR ''X''" n]
  by (auto simp: is_prefix_append is_xdigit_def is_digit_def code_def)

text \<open>
  The texts of halfwords are read back as what was written: \<^verbatim>\<open>atoi\<close> of the
  text of a port is the port as a signed number, so a server sees whether its port has changed, and
  the hexadecimal text of a group of an IPv6 address is read by \<^verbatim>\<open>%hx\<close> to its end.
\<close>

theorem texts_read_back:
  "atoi (hd_text v) = sint v \<and> scan_hx (hx_text v) = Some (v, []) \<and> (hd_text v = hd_text v' \<longleftrightarrow> v = v')"
proof (intro conjI)
  have hd: "atoi (hd_text v) = sint v" for v :: u16
    using sint_u16 [of v] by (auto simp: hd_text_def atoi_base_text atoi_minus_text)
  then show "atoi (hd_text v) = sint v" .
  show "hd_text v = hd_text v' \<longleftrightarrow> v = v'" using hd [of v] hd [of v'] by (metis signed_word_eqI)
  have "int (unat v) \<le> ULONG_MAX" using unat_lt_u16 [of v] by (simp add: ULONG_MAX_def del: of_nat_unat unat_lt_u16)
  then show "scan_hx (hx_text v) = Some (v, [])"
    using sign_of_text [of 16 "unat v" "[]"]
    by (simp add: scan_hx_def hx_text_def Let_def no_0x take_digits number_texts)
qed

section \<open>The commands\<close>

definition address_char :: "char \<Rightarrow> bool" where
  "address_char c \<longleftrightarrow> is_xdigit c \<or> c = CHR ''.'' \<or> c = CHR '':'' \<or> c = CHR ''-''"

lemma hd_text_chars: "c \<in> set (hd_text v) \<Longrightarrow> address_char c"
  using base_text_all(1) [of c] by (auto simp: hd_text_def address_char_def is_xdigit_def split: if_splits)

lemma hx_text_chars: "c \<in> set (hx_text v) \<Longrightarrow> address_char c"
  using base_text_all(2) [of c "unat v"] by (simp add: hx_text_def address_char_def)

lemma joined_chars: "c \<in> set (joined d xs) \<Longrightarrow> c = d \<or> (\<exists>x\<in>set xs. c \<in> set x)"
  by (induction d xs rule: joined.induct) auto

lemma ip_text_chars: "c \<in> set (ip4_text a) \<Longrightarrow> address_char c" "c \<in> set (ip6_text a) \<Longrightarrow> address_char c"
  by (auto simp: ip4_text_def ip6_text_def dest!: joined_chars hd_text_chars hx_text_chars)
    (auto simp: address_char_def)

lemma hd_text_length: "length (hd_text v) \<le> 6"
proof -
  have "length (base_text 10 n) \<le> 5" if "n \<le> 32768" for n
    by (rule base_text_length) (use that in simp_all)
  moreover have "nat (sint v) \<le> 32768" "nat (- sint v) \<le> 32768" using sint_u16 [of v] by linarith+
  ultimately have "length (base_text 10 (nat (sint v))) \<le> 5" "length (base_text 10 (nat (- sint v))) \<le> 5" by blast+
  then show ?thesis by (simp add: hd_text_def)
qed

lemma hx_text_length: "length (hx_text v) \<le> 4"
  unfolding hx_text_def by (rule base_text_length) simp_all

lemma joined_length: "\<forall>x\<in>set xs. length x \<le> k \<Longrightarrow> length (joined d xs) \<le> Suc k * length xs"
  by (induction d xs rule: joined.induct) auto

lemma ip_text_length: "length (ip4_text a) \<le> 28" "length (ip6_text a) \<le> 40"
proof -
  have "length (ip4_text a) \<le> Suc 6 * length (map hd_text (take 4 a))"
    unfolding ip4_text_def by (rule joined_length) (simp add: hd_text_length)
  then show "length (ip4_text a) \<le> 28" by simp
  have "length (ip6_text a) \<le> Suc 4 * length (map hx_text (take 8 a))"
    unfolding ip6_text_def by (rule joined_length) (simp add: hx_text_length)
  then show "length (ip6_text a) \<le> 40" by simp
qed

text \<open>Characters with no meaning to a shell, apart from those that separate words.\<close>

definition plain_char :: "char \<Rightarrow> bool" where
  "plain_char c \<longleftrightarrow> address_char c \<or> (65 \<le> code c \<and> code c \<le> 90) \<or> (97 \<le> code c \<and> code c \<le> 122) \<or>
     c = CHR '' '' \<or> c = CHR ''/''"

definition safe_command :: "string \<Rightarrow> bool" where
  "safe_command t \<longleftrightarrow> length t < 512 \<and> filter (\<lambda>c. \<not> plain_char c) t = '';''"

lemma commands_safe:
  "set_ipv4_config_bin ip netmask gateway s = Some (emit (SystemCall (ipv4_command ip netmask gateway)) s) \<and>
   set_ipv6_config_bin ip netmask gateway s = Some (emit (SystemCall (ipv6_command ip netmask gateway)) s) \<and>
   safe_command (ipv4_command ip netmask gateway) \<and> safe_command (ipv6_command ip netmask gateway)"
proof -
  have "length (ipv4_command ip netmask gateway) < 512"
    using ip_text_length(1) [of ip] ip_text_length(1) [of netmask] ip_text_length(1) [of gateway]
    by (simp add: ipv4_command_def)
  moreover have "length (ipv6_command ip netmask gateway) < 512"
    using ip_text_length(2) [of ip] hd_text_length [of "netmask ! 0"] ip_text_length(2) [of gateway]
    by (simp add: ipv6_command_def)
  moreover have "filter (\<lambda>c. \<not> plain_char c) (ip4_text a) = []" "filter (\<lambda>c. \<not> plain_char c) (ip6_text a) = []"
    "filter (\<lambda>c. \<not> plain_char c) (hd_text v) = []" for a v
    using ip_text_chars [of _ a] hd_text_chars [of _ v] by (auto simp: filter_empty_conv plain_char_def)
  ultimately show ?thesis
    by (simp add: safe_command_def set_ipv4_config_bin_def set_ipv6_config_bin_def ipv4_command_def ipv6_command_def)
     (simp add: plain_char_def address_char_def is_xdigit_def is_digit_def code_def)
qed

lemma commands_fit:
  "set_ipv4_config_bin ip netmask gateway s = Some (emit (SystemCall (ipv4_command ip netmask gateway)) s)"
  "set_ipv6_config_bin ip netmask gateway s = Some (emit (SystemCall (ipv6_command ip netmask gateway)) s)"
  using commands_safe [of ip netmask gateway s] by simp_all

text \<open>
  C33. Whatever the registers hold, the text of the command that sets the network addresses fits the
  buffer of 512 bytes and is one line with two commands: apart from the semicolon between them it
  holds letters, digits, blanks, points, colons, minus signs and slashes only. So no value that a
  host stores in the registers makes the shell run anything else.
\<close>

theorem address_commands_safe:
  "set_ipv4_config_bin ip netmask gateway s = Some (emit (SystemCall (ipv4_command ip netmask gateway)) s) \<and>
   set_ipv6_config_bin ip netmask gateway s = Some (emit (SystemCall (ipv6_command ip netmask gateway)) s) \<and>
   safe_command (ipv4_command ip netmask gateway) \<and> safe_command (ipv6_command ip netmask gateway)"
  by (rule commands_safe)

lemma one_text: "hd_text 1 = ''1''"
  using char_of_char [of "CHR ''1''", where 'a = nat] by (simp add: hd_text_def base_text.simps digit_char_def)

end
