(* ===== verification/Zigbee_Server.thy ===== *)
theory Zigbee_Server
  imports Diagram_Facts Threads Network
begin

text \<open>
  The ZigBee thread of \<^verbatim>\<open>zigbee/zigbee_tty_server.c\<close> as a step relation: rounds of its
  receive loop, the messages that ask for an electricity diagram, and the configuration messages,
  which set the network addresses and run the dialogue of theory \<open>Zigbee\<close>. The invariant that
  keeps it inside its arrays is proved over all runs.
\<close>

section \<open>The rounds\<close>

text \<open>
  A round with a received frame: \<open>query\<close> is the array of 260 bytes as reception left it. A round
  without a frame only notes the time.
\<close>

definition zigbee_frame_round ::
  "env \<Rightarrow> (nat \<Rightarrow> analyser_frame) \<Rightarrow> u8 list \<Rightarrow> rtu \<Rightarrow> rtu option" where
  "zigbee_frame_round e fr query s =
     (let s = update_thread_time e (int THREAD_RS232_ZIGBEE) s in
      do { (_, s) \<leftarrow> analysis_zigbee_rcv_data e fr query s;
           let s = s\<lparr>led_status := (led_status s)(0 := led_status s 0 + 1)\<rparr>;
           Some (update_thread_com_time e (int THREAD_RS232_ZIGBEE) s) })"

definition zigbee_idle_round :: "env \<Rightarrow> rtu \<Rightarrow> rtu" where
  "zigbee_idle_round e s = update_thread_time e (int THREAD_RS232_ZIGBEE) s"

text \<open>The handler of \<^verbatim>\<open>MSG_LOAD_ELEC_SYSN\<close>; \<open>msg\<close> are the halfwords of the message.\<close>

definition zigbee_sysn_message :: "env \<Rightarrow> u8 list \<Rightarrow> u16 \<Rightarrow> u16 list \<Rightarrow> rtu \<Rightarrow> rtu option" where
  "zigbee_sysn_message e buf junk msg s =
     (if length msg < 6 \<or> msg ! 0 \<noteq> MSG_LOAD_ELEC_SYSN \<or> msg ! 1 \<noteq> 0 then Some s
      else send_sysn_electrical_param e buf junk (take 4 (drop 2 msg)) s)"

section \<open>Configurations\<close>

definition MAP_ADDR_IPV4_ADDR :: nat where "MAP_ADDR_IPV4_ADDR = 38"
definition MAP_ADDR_IPV6_ADDR :: nat where "MAP_ADDR_IPV6_ADDR = 66"
definition MAP_ADDR_ZIGBEE_PID :: nat where "MAP_ADDR_ZIGBEE_PID = 99"

lemmas zigbee_addrs = MAP_ADDR_IPV4_ADDR_def MAP_ADDR_IPV6_ADDR_def MAP_ADDR_ZIGBEE_PID_def FLASH1_MAX_LEN_def

text \<open>Nine halfwords as the parameters of the radio, and where they are in the registers.\<close>

definition para_of :: "u16 list \<Rightarrow> st_zigbee_para_option" where
  "para_of r =
     \<lparr>panid = ucast (r ! 0) OR push_bit 16 (ucast (r ! 1)), auto_or_handle_flag = r ! 2, ch = r ! 3,
      enable_or_disable_password_flag = r ! 4,
      key = ucast (r ! 5) OR push_bit 16 (ucast (r ! 6)) OR push_bit 32 (ucast (r ! 7)) OR push_bit 48 (ucast (r ! 8))\<rparr>"

definition zigbee_conf :: "u16 list \<Rightarrow> u16 list" where
  "zigbee_conf buf = take 9 (drop MAP_ADDR_ZIGBEE_PID buf)"

definition set_addresses :: "u16 list \<Rightarrow> rtu \<Rightarrow> rtu option" where
  "set_addresses buf s = do {
     s \<leftarrow> set_ipv4_config_bin (drop MAP_ADDR_IPV4_ADDR buf) (drop (MAP_ADDR_IPV4_ADDR + 4) buf)
           (drop (MAP_ADDR_IPV4_ADDR + 8) buf) s;
     set_ipv6_config_bin (drop MAP_ADDR_IPV6_ADDR buf) (drop (MAP_ADDR_IPV6_ADDR + 8) buf)
           (drop (MAP_ADDR_IPV6_ADDR + 9) buf) s }"

text \<open>
  The handler of \<^verbatim>\<open>MSG_CONFIG_START\<close> keeps the parameters last given to the radio. \<open>old\<close> is
  what the array of 300 registers held.
\<close>

definition zigbee_config_message ::
  "env \<Rightarrow> u16 list \<Rightarrow> u16 list \<Rightarrow> u16 list \<times> rtu \<times> zport \<Rightarrow> (u16 list \<times> rtu \<times> zport) option" where
  "zigbee_config_message e old msg = (\<lambda>(conf, s, p).
     if msg ! 0 \<noteq> MSG_CONFIG_START \<or> msg ! 1 \<noteq> 0 then Some (conf, s, p)
     else do {
       (_, buf) \<leftarrow> zigbee_read_registers e s old (int FLASH1_MAX_LEN) 1 0;
       s \<leftarrow> set_addresses buf s;
       if conf = zigbee_conf buf then Some (conf, s, p)
       else do { (_, p) \<leftarrow> set_zigbee_para (para_of (zigbee_conf buf)) p; Some (zigbee_conf buf, s, p) } })"

text \<open>The start sets everything.\<close>

definition zigbee_start :: "env \<Rightarrow> u16 list \<Rightarrow> rtu \<Rightarrow> zport \<Rightarrow> (u16 list \<times> rtu \<times> zport) option" where
  "zigbee_start e old s p = do {
     (_, buf) \<leftarrow> zigbee_read_registers e s old (int FLASH1_MAX_LEN) 1 0;
     s \<leftarrow> set_addresses buf s;
     (_, p) \<leftarrow> set_zigbee_para (para_of (zigbee_conf buf)) p;
     Some (zigbee_conf buf, s, p) }"

section \<open>What a configuration does\<close>

text \<open>The registers of a well as a list.\<close>

definition regs :: "map_t \<Rightarrow> nat \<Rightarrow> nat \<Rightarrow> nat \<Rightarrow> u16 list" where
  "regs m w k n = map (reg m w) [k..<k + n]"

lemma read_loop_nth:
  assumes "map_wf (mp s)" "1 \<le> w" "w \<le> 8" "i + n \<le> x_max (mp s)" "read_loop e s w i n buf = Some vs" "k < n" "kind_at (mp s) w (i + k) \<noteq> MAP_SYS"
  shows "vs ! k = reg (mp s) w (i + k)"
  using assms(4-7)
proof (induction n arbitrary: i buf vs k)
  case (Suc n)
  then obtain b bs v us where buf: "buf = b # bs" "read_cell e s w i b = Some v" "read_loop e s w (Suc i) n bs = Some us" "vs = v # us"
    by (cases buf) (auto split: bind_splits)
  show ?case
  proof (cases k)
    case 0
    then show ?thesis using Suc.prems buf read_cell_plain [OF assms(1-3), of i e b] by simp
  next
    case (Suc j)
    then show ?thesis using Suc.IH [of "Suc i" bs us j] Suc.prems buf by simp
  qed
qed simp

text \<open>Registers of the configuration that are plain memory.\<close>

definition config_plain :: "env \<Rightarrow> rtu \<Rightarrow> bool" where
  "config_plain e s \<longleftrightarrow> map_wf (mp s) \<and> 300 \<le> x_max (mp s) \<and> plain (mp s) 1 38 12 \<and> plain (mp s) 1 66 17 \<and> plain (mp s) 1 99 9"

definition ipv4_asked :: "map_t \<Rightarrow> string" where
  "ipv4_asked m = ipv4_command (regs m 1 38 4) (regs m 1 42 4) (regs m 1 46 4)"

definition ipv6_asked :: "map_t \<Rightarrow> string" where
  "ipv6_asked m = ipv6_command (regs m 1 66 8) (regs m 1 74 1) (regs m 1 75 8)"

lemma take_regs:
  assumes "length buf = 300" "\<And>i. k \<le> i \<Longrightarrow> i < k + n \<Longrightarrow> buf ! i = reg m 1 i" "k + n \<le> 300"
  shows "take n (drop k buf) = regs m 1 k n"
  using assms by (intro nth_equalityI) (simp_all add: regs_def)

lemma address_texts:
  "ipv4_command (take 4 a) (take 4 b) (take 4 c) = ipv4_command a b c"
  "d \<noteq> [] \<Longrightarrow> ipv6_command (take 8 a) (take 1 d) (take 8 c) = ipv6_command a d c"
  by (cases d; simp add: ipv4_command_def ipv6_command_def ip4_text_def ip6_text_def take_take)+

lemma set_addresses_total:
  "set_addresses buf s = Some (emit (SystemCall (ipv6_command (drop 66 buf) (drop 74 buf) (drop 75 buf)))
     (emit (SystemCall (ipv4_command (drop 38 buf) (drop 42 buf) (drop 46 buf))) s))"
  by (simp add: set_addresses_def zigbee_addrs commands_fit)

lemma config_read:
  assumes "config_plain e s" "length old = 300"
  shows "\<exists>buf. zigbee_read_registers e' s old (int FLASH1_MAX_LEN) 1 0 = Some (0, buf) \<and> zigbee_conf buf = regs (mp s) 1 99 9 \<and>
    (\<forall>t. set_addresses buf t = Some (emit (SystemCall (ipv6_asked (mp s))) (emit (SystemCall (ipv4_asked (mp s))) t)))"
proof -
  have wf: "map_wf (mp s)" "300 \<le> x_max (mp s)" using assms(1) by (simp_all add: config_plain_def)
  then obtain buf where buf: "read_loop e' s 1 0 300 old = Some buf" "length buf = 300"
    using read_loop_total [of s 1 0 300 old e'] assms(2) by auto
  have n: "buf ! k = reg (mp s) 1 k" if "k < 300" "kind_at (mp s) 1 k \<noteq> MAP_SYS" for k
    using read_loop_nth [OF wf(1) _ _ _ buf(1), of k] wf(2) that by simp
  have t: "take m (drop k buf) = regs (mp s) 1 k m"
    if "38 \<le> k \<and> k + m \<le> 50 \<or> 66 \<le> k \<and> k + m \<le> 83 \<or> 99 \<le> k \<and> k + m \<le> 108" for k m
    by (rule take_regs [OF buf(2)], rule n) (use assms(1) that in \<open>auto simp: config_plain_def plain_def\<close>)
  have r: "take 4 (drop 38 buf) = regs (mp s) 1 38 4" "take 4 (drop 42 buf) = regs (mp s) 1 42 4" "take 4 (drop 46 buf) = regs (mp s) 1 46 4"
    "take 8 (drop 66 buf) = regs (mp s) 1 66 8" "take 1 (drop 74 buf) = regs (mp s) 1 74 1" "take 8 (drop 75 buf) = regs (mp s) 1 75 8"
    "take 9 (drop 99 buf) = regs (mp s) 1 99 9"
    by (rule t, simp)+
  have d: "drop 74 buf \<noteq> []" using buf(2) by simp
  have "ipv4_command (drop 38 buf) (drop 42 buf) (drop 46 buf) = ipv4_asked (mp s)"
    unfolding ipv4_asked_def r [symmetric] by (rule address_texts(1) [symmetric])
  moreover have "ipv6_command (drop 66 buf) (drop 74 buf) (drop 75 buf) = ipv6_asked (mp s)"
    unfolding ipv6_asked_def r [symmetric] by (rule address_texts(2) [OF d, symmetric])
  moreover have "zigbee_read_registers e' s old (int FLASH1_MAX_LEN) 1 0 = Some (0, buf)"
    using buf(1) wf(2) by (simp add: zigbee_read_registers_def args_ok_def map_sizes FLASH1_MAX_LEN_def)
  ultimately show ?thesis using r(7) by (intro exI [of _ buf]) (simp add: zigbee_conf_def zigbee_addrs set_addresses_total)
qed

text \<open>
  C18. A configuration message sets the addresses that the registers hold, first those of IPv4, then
  those of IPv6. The radio is configured, with the parameters from register 99 on, only when these
  are not the ones it was given last; so a second message with unchanged registers sets the addresses
  again and sends nothing to the radio. No register changes.
\<close>

theorem zigbee_configured:
  assumes "config_plain e s" "length old = 300" "length old' = 300"
  shows "\<exists>q t. zigbee_config_message e' old [MSG_CONFIG_START, 0] (conf, s, p) = Some (regs (mp s) 1 99 9, t, q) \<and>
    mp t = mp s \<and> out t = out s @ [SystemCall (ipv4_asked (mp s)), SystemCall (ipv6_asked (mp s))] \<and>
    (if conf = regs (mp s) 1 99 9 then q = p
     else \<exists>ns. length ns = 15 \<and> set ns \<subseteq> {1..10} \<and> written q = written p @ concat (map2 copies ns (dialogue (para_of (regs (mp s) 1 99 9))))) \<and>
    (\<exists>u. zigbee_config_message e' old' [MSG_CONFIG_START, 0] (regs (mp s) 1 99 9, t, q) = Some (regs (mp s) 1 99 9, u, q))"
proof -
  let ?conf = "regs (mp s) 1 99 9"
  let ?t = "emit (SystemCall (ipv6_asked (mp s))) (emit (SystemCall (ipv4_asked (mp s))) s)"
  obtain buf where buf: "zigbee_read_registers e' s old (int FLASH1_MAX_LEN) 1 0 = Some (0, buf)" "zigbee_conf buf = ?conf"
    "\<And>t. set_addresses buf t = Some (emit (SystemCall (ipv6_asked (mp s))) (emit (SystemCall (ipv4_asked (mp s))) t))"
    using config_read [OF assms(1,2), of e'] by blast
  obtain ns q r where q: "length ns = 15" "set ns \<subseteq> {1..10}" "set_zigbee_para (para_of ?conf) p = Some (r, q)"
    "written q = written p @ concat (map2 copies ns (dialogue (para_of ?conf)))"
    using para_dialogue by blast
  let ?q = "if conf = ?conf then p else q"
  have "config_plain e ?t" using assms(1) by (simp add: config_plain_def emit_def)
  from config_read [OF this assms(3), of e'] obtain buf' where
    "zigbee_read_registers e' ?t old' (int FLASH1_MAX_LEN) 1 0 = Some (0, buf')" "zigbee_conf buf' = ?conf" "\<exists>u. set_addresses buf' ?t = Some u"
    by (auto simp: emit_def)
  then have "\<exists>u. zigbee_config_message e' old' [MSG_CONFIG_START, 0] (?conf, ?t, ?q) = Some (?conf, u, ?q)"
    by (auto simp: zigbee_config_message_def)
  moreover have "zigbee_config_message e' old [MSG_CONFIG_START, 0] (conf, s, p) = Some (?conf, ?t, ?q)"
    using buf q(3) by (simp add: zigbee_config_message_def)
  ultimately show ?thesis using q(1,2,4) by (intro exI [of _ ?q] exI [of _ ?t]) (auto simp: emit_def)
qed

section \<open>Staying inside the arrays\<close>

text \<open>The kept addresses have ten bytes, and no operation of the registers touches them.\<close>

lemma value_elec_mac: "elec_param_meter_mac (do_pulse a b v s) = elec_param_meter_mac s"
  "elec_param_meter_mac (ioctl_set p l s) = elec_param_meter_mac s"
  by (simp_all add: do_pulse_def ioctl_set_def emit_def Let_def)

lemma map_map_fun_write_mac:
  assumes "map_map_fun_write e b w i s = Some (rc, v, t)"
  shows "elec_param_meter_mac t = elec_param_meter_mac s"
  using assms
  by (auto simp: map_map_fun_write_def Let_def map_item_remap_def map_settime_def rtu_reset_flash1_def
      rtu_conf_elect_interval_def rtu_conf_act_interval_def set_history_data_def store_sys_def send_int_def
      emit_def msync2_def gpio_set_do_def value_elec_mac split: if_splits bind_splits option.splits)

lemma write_cell_mac:
  assumes "write_cell e w i v s = Some (rc, v', t)"
  shows "elec_param_meter_mac t = elec_param_meter_mac s"
proof (cases "kind_at (mp s) w i = MAP_SYS")
  case True
  then obtain r v'' u where u: "map_map_fun_write e v w i s = Some (r, v'', u)"
    using assms by (auto simp: write_cell_def Let_def rd_def split: bind_splits if_splits)
  have "elec_param_meter_mac t = elec_param_meter_mac u"
    using assms True u by (auto simp: write_cell_def Let_def rd_def split: bind_splits if_splits)
  then show ?thesis using map_map_fun_write_mac [OF u] by (rule trans)
next
  case False
  then show ?thesis using same_rest_fields(4) [OF write_cell_same_rest [OF False assms]] by simp
qed

lemma write_loop_mac:
  "write_loop e w i n buf s = Some (rc, t) \<Longrightarrow> elec_param_meter_mac t = elec_param_meter_mac s"
proof (induction n arbitrary: i buf s)
  case (Suc n)
  then obtain b bs where buf: "buf = b # bs" by (cases buf) auto
  then obtain rc' v u where u: "write_cell e w i b s = Some (rc', v, u)"
    and l: "(if rc' = -1 then Some (-1, u) else write_loop e w (Suc i) n bs u) = Some (rc, t)"
    using Suc.prems by (auto split: bind_splits)
  have "elec_param_meter_mac t = elec_param_meter_mac u"
    using l Suc.IH [of "Suc i" bs u] by (cases "rc' = -1") simp_all
  then show ?case using write_cell_mac [OF u] by (rule trans)
qed simp

text \<open>The invariant of the thread: \<open>X\<close> registers per well, and ten bytes per address.\<close>

definition inside :: "nat \<Rightarrow> rtu \<Rightarrow> bool" where
  "inside X s \<longleftrightarrow> map_wf (mp s) \<and> x_max (mp s) = X \<and> (\<forall>w. length (elec_param_meter_mac s w) = 10)"

definition stays :: "nat \<Rightarrow> rtu option \<Rightarrow> bool" where
  "stays X r \<longleftrightarrow> (\<exists>t. r = Some t \<and> inside X t)"

definition stays_rc :: "nat \<Rightarrow> (int \<times> rtu) option \<Rightarrow> bool" where
  "stays_rc X r \<longleftrightarrow> (\<exists>rc t. r = Some (rc, t) \<and> inside X t)"

lemma inside_wf: "inside X s \<Longrightarrow> map_wf (mp s)"
  by (simp add: inside_def)

lemma stays_Some [simp]: "stays X (Some s) = inside X s" "stays_rc X (Some (rc, s)) = inside X s"
  by (simp_all add: stays_def stays_rc_def)

lemma stays_bind:
  assumes "stays X r"
  shows "(\<And>t. inside X t \<Longrightarrow> stays X (f t)) \<Longrightarrow> stays X (r \<bind> f)"
    "(\<And>t. inside X t \<Longrightarrow> stays_rc X (g t)) \<Longrightarrow> stays_rc X (r \<bind> g)"
  using assms by (auto simp: stays_def)

lemma stays_rc_bind:
  assumes "stays_rc X r" "\<And>rc t. inside X t \<Longrightarrow> stays X (f rc t)"
  shows "stays X (r \<bind> (\<lambda>(rc, t). f rc t))"
  using assms by (auto simp: stays_rc_def)

lemma inside_frame:
  "inside X s \<Longrightarrow> inside X (emit ev s)"
  "inside X s \<Longrightarrow> inside X (set_sample_time e w no s)"
  "inside X s \<Longrightarrow> inside X (update_thread_time e i s)"
  "inside X s \<Longrightarrow> inside X (update_thread_com_time e i s)"
  "inside X s \<Longrightarrow> inside X (s\<lparr>led_status := l\<rparr>)"
  "inside X s \<Longrightarrow> 10 \<le> length mac \<Longrightarrow>
    inside X (s\<lparr>elec_param_meter_mac := (elec_param_meter_mac s)(w := take 10 mac)\<rparr>)"
  by (simp_all add: inside_def frame_simps) (simp add: emit_def)

lemma inside_judge: "inside X s \<Longrightarrow> inside X (snd (judge_eq_meter_para e (int w) no s))"
  by (simp add: inside_def frame_simps)

lemma stays_write:
  assumes "tables_fit e X" "inside X s"
  shows "stays X (write_registers e vs w a s)"
proof -
  have s: "map_wf (mp s)" "x_max (mp s) = X" using assms(2) by (simp_all add: inside_def)
  obtain rc t where t: "zigbee_write_registers e vs (int (length vs)) (int w) (int a) s = Some (rc, t)"
      "map_wf (mp t)" "x_max (mp t) = x_max (mp s)"
    using zigbee_write_wf [of s e "int (length vs)" vs "int w" "int a"] s assms(1) by auto
  have "elec_param_meter_mac t = elec_param_meter_mac s"
    using t(1) write_loop_mac by (auto simp: zigbee_write_registers_def split: if_splits)
  then show ?thesis
    using t assms(2) by (simp add: write_registers_def stays_def inside_def)
qed

lemma stays_write_blocks:
  assumes "tables_fit e X"
  shows "inside X s \<Longrightarrow> stays X (write_blocks e bs w s)"
proof (induction bs arbitrary: s)
  case (Cons b bs)
  then show ?case
    using stays_bind(1) [OF stays_write [OF assms Cons.prems]] by (cases b) auto
qed simp

definition param_packet :: "u8 list \<Rightarrow> bool" where
  "param_packet b \<longleftrightarrow> be16_at b 8 = 0x10 \<or> be16_at b 4 = 1 \<and> be16_at b 8 = 0x0100"

lemma length_put_u16 [simp]: "length (put_u16 b i w) = length b"
  by (simp add: put_u16_def)

lemma length_header [simp]: "10 \<le> length buf \<Longrightarrow> length (packet_a11_rtu_header buf g n dt) = length buf"
  by (simp add: packet_a11_answer)

context sender
begin

lemma stays_func:
  assumes "inside X s" "10 \<le> length mac" "unat len \<le> 80" "unat len \<le> length d"
  shows "stays X (func mac d len s)"
  using sends [OF assms(2-4)] inside_frame(1) [OF assms(1)] by simp

lemma stays_routine_reply:
  assumes "inside X s" "10 \<le> length mac" "12 \<le> length (tmp_buff fr)"
  shows "stays X (routine_reply e fr func mac grp num no a s)"
proof -
  obtain rc u where u: "judge_eq_meter_para e (int (unat grp)) no s = (rc, u)"
    by (cases "judge_eq_meter_para e (int (unat grp)) no s")
  then have i: "inside X u" using inside_judge [OF assms(1), of e "unat grp" no] by simp
  obtain v where "read_register e u 10 (unat grp) a = Some v"
    using read_register_total [OF inside_wf [OF i]] by blast
  then show ?thesis
    using u assms(2,3) by (auto simp: routine_reply_def Let_def intro!: stays_func [OF i])
qed

lemma stays_load_reply:
  assumes "inside X s" "10 \<le> length mac" "27 \<le> length (tmp_buff fr)"
  shows "stays X (load_reply e fr func mac grp num s)"
proof -
  obtain rc u where u: "judge_eq_meter_para e (int (unat grp)) LOAD_NO s = (rc, u)"
    by (cases "judge_eq_meter_para e (int (unat grp)) LOAD_NO s")
  then have i: "inside X u" using inside_judge [OF assms(1), of e "unat grp" LOAD_NO] by simp
  have r: "stays X (read_register e u old (unat grp) a \<bind> f)" if "\<And>v. stays X (f v)" for old a f
    using read_register_total [OF inside_wf [OF i], of e old "unat grp" a] that by auto
  show ?thesis
    using u assms(2,3)
    by (auto simp: load_reply_def Let_def measure_request_def intro!: r stays_func [OF i])
qed

lemma stays_elect_reply:
  assumes "inside X s" "10 \<le> length mac" "12 \<le> length (tmp_buff fr)"
  shows "stays X (elect_reply e fr func mac grp num s)"
proof -
  obtain rc u where u: "judge_eq_meter_para e (int (unat grp)) ELECTRICAL_PARAMETER_NO s = (rc, u)"
    by (cases "judge_eq_meter_para e (int (unat grp)) ELECTRICAL_PARAMETER_NO s")
  then have i: "inside X u" using inside_judge [OF assms(1), of e "unat grp" ELECTRICAL_PARAMETER_NO] by simp
  obtain v where "read_register e u 0 (unat grp) ELEC_INTERVAL_ADDR = Some v"
    using read_register_total [OF inside_wf [OF i]] by blast
  then show ?thesis
    using u assms(2,3)
    by (auto simp: elect_reply_def Let_def not_less intro!: stays_func i inside_frame(6) [OF i])
qed

lemma stays_sensors:
  assumes "tables_fit e X" "inside X s" "10 \<le> length mac" "28 \<le> length (tmp_buff fr)" "72 \<le> length b"
    "\<not> param_packet b"
  shows "stays_rc X (analysis_pressure e fr mac b func s)"
    and "stays_rc X (analysis_temperature e fr mac b func s)"
    and "stays_rc X (analysis_flow_meter e fr mac b func s)"
    and "stays_rc X (analysis_torque_speed_load e fr mac b func s)"
proof -
  have l: "\<not> length b < 20" "\<not> length b < 24" "\<not> length b < 28" "12 \<le> length (tmp_buff fr)" using assms(4,5) by auto
  have p: "u16_at b 8 \<noteq> swap_int16 DATA_TYPE_METER_PARA"
    using assms(6) by (simp add: param_packet_def u16_at_eq_swap data_types)
  note i = stays_bind(2) [OF stays_routine_reply [OF _ assms(3) l(4)]] stays_bind(2) [OF stays_write [OF assms(1)]]
    inside_frame(2) assms(2)
  show "stays_rc X (analysis_pressure e fr mac b func s)"
    using l p by (auto simp: analysis_pressure_def Let_def save_meter_info_def save_time_register_def intro!: i)
  show "stays_rc X (analysis_temperature e fr mac b func s)"
    using l p by (auto simp: analysis_temperature_def Let_def save_meter_info_def save_time_register_def intro!: i)
  show "stays_rc X (analysis_flow_meter e fr mac b func s)"
    using l p by (auto simp: analysis_flow_meter_def Let_def intro!: i)
  show "stays_rc X (analysis_torque_speed_load e fr mac b func s)"
    using l p by (auto simp: analysis_torque_speed_load_def Let_def save_meter_info_def save_time_register_def intro!: i)
qed

lemma stays_diagrams:
  assumes "tables_fit e X" "inside X s" "10 \<le> length mac" "28 \<le> length (tmp_buff fr)" "72 \<le> length b"
    "\<not> param_packet b"
  shows "stays_rc X (analysis_load e fr mac b func s)"
    and "stays_rc X (analysis_electrical_param e fr mac b func s)"
proof -
  have l: "\<not> length b < 72" "12 \<le> length (tmp_buff fr)" "27 \<le> length (tmp_buff fr)" using assms(4,5) by auto
  have a: "stays X (func mac (diagram_ack (tmp_buff fr) g n dt k) 11 t)" if "inside X t" for t g n dt k
    using assms(3,4) by (intro stays_func that) (simp_all add: diagram_ack_def)
  have m: "inside X (send_load_elec_sysn q t)" if "inside X t" for q t
    using that by (simp add: send_load_elec_sysn_def Let_def inside_frame)
  have p: "u16_at b 8 \<noteq> swap_int16 DATA_TYPE_METER_PARA"
    using assms(6) by (simp add: param_packet_def u16_at_eq_swap data_types)
  have p1: "u16_at b 8 \<noteq> swap_int16 0x0100" if "u16_at b 4 = swap_int16 METER_TYPE_WL_INTERGRATION_LOAD"
    using assms(6) that by (simp add: param_packet_def u16_at_eq_swap meter_types)
  note i = stays_bind(2) [OF stays_load_reply [OF _ assms(3) l(3)]] stays_bind(2) [OF stays_elect_reply [OF _ assms(3) l(2)]]
    stays_bind(2) [OF stays_write [OF assms(1)]] stays_bind(2) [OF stays_write_blocks [OF assms(1)]]
    stays_bind(2) [OF a] inside_frame(2) assms(2) m
  show "stays_rc X (analysis_load e fr mac b func s)"
    using l p p1 by (auto simp: analysis_load_def Let_def save_meter_info_def save_time_register_def intro!: i)
  show "stays_rc X (analysis_electrical_param e fr mac b func s)"
    using l p by (auto simp: analysis_electrical_param_def Let_def save_meter_info_def save_time_register_def intro!: i)
qed

end


section \<open>Runs of the thread\<close>

lemma analysis_stays:
  assumes "tables_fit e X" "inside X s" "93 \<le> length rec" "\<forall>k. length (tmp_buff (fr k)) = 160"
    "\<not> param_packet (drop 21 rec)"
  shows "stays_rc X (analysis_zigbee_rcv_data e fr rec s)"
proof -
  define mac where "mac = take 10 (drop 4 rec)"
  define b where "b = drop 21 rec"
  have l: "10 \<le> length mac" "72 \<le> length b" "28 \<le> length (tmp_buff (fr k))" "\<not> param_packet b" for k
    using assms(3-5) by (simp_all add: mac_def b_def)
  have seq: "stays_rc X (r \<bind> (\<lambda>(_, t). f t))" if "stays_rc X r" "\<And>t. inside X t \<Longrightarrow> stays_rc X (f t)" for r f
    using that by (auto simp: stays_rc_def)
  note i = seq [OF zb.stays_sensors(1) [OF assms(1) _ l(1,3,2,4)]]
    seq [OF zb.stays_sensors(2) [OF assms(1) _ l(1,3,2,4)]]
    seq [OF zb.stays_sensors(3) [OF assms(1) _ l(1,3,2,4)]]
    seq [OF zb.stays_sensors(4) [OF assms(1) _ l(1,3,2,4)]]
    seq [OF zb.stays_diagrams(1) [OF assms(1) _ l(1,3,2,4)]]
    seq [OF zb.stays_diagrams(2) [OF assms(1) _ l(1,3,2,4)]]
  show ?thesis
    using assms(2,3) unfolding analysis_zigbee_rcv_data_def Let_def mac_def [symmetric] b_def [symmetric]
    by (auto intro!: i)
qed

lemma frame_round_stays:
  assumes "tables_fit e X" "inside X s" "length query = 260" "\<forall>k. length (tmp_buff (fr k)) = 160"
    "\<not> param_packet (drop 21 query)"
  shows "stays X (zigbee_frame_round e fr query s)"
proof -
  have i: "inside X (update_thread_time e (int THREAD_RS232_ZIGBEE) s)" by (rule inside_frame(3) [OF assms(2)])
  have q: "93 \<le> length query" using assms(3) by simp
  show ?thesis
    unfolding zigbee_frame_round_def Let_def
    by (rule stays_rc_bind [OF analysis_stays [OF assms(1) i q assms(4,5)]])
      (simp add: inside_frame)
qed

lemma sysn_message_stays:
  assumes "inside X s" "length buf = 128" "msg ! 4 \<noteq> 1"
  shows "stays X (zigbee_sysn_message e buf junk msg s)"
proof (cases "length msg < 6 \<or> msg ! 0 \<noteq> MSG_LOAD_ELEC_SYSN \<or> msg ! 1 \<noteq> 0")
  case True
  then show ?thesis using assms(1) by (simp add: zigbee_sysn_message_def)
next
  case False
  define info where "info = take 4 (drop 2 msg)"
  define well where "well = unat (info ! 3)"
  have p: "int (unat (info ! 2)) - 1 \<noteq> 0"
  proof -
    have "info ! 2 = msg ! 4" using False by (simp add: info_def)
    then have "unat (info ! 2) \<noteq> 1" using assms(3) by (simp add: word_unat_eq_iff)
    then show ?thesis by linarith
  qed
  have m: "length (elec_param_meter_mac s k) = 10" for k using assms(1) by (simp add: inside_def)
  have h: "28 \<le> length (packet_a11_rtu_header buf g 1 dt)" for g dt using assms(2) by simp
  obtain v where v: "read_register e s junk well LOAD_SAMPLE_MODE_ADDR = Some v"
    using read_register_total [OF inside_wf [OF assms(1)]] by blast
  have "stays X (send_sysn_electrical_param e buf junk info s)"
    using v p h assms(1) m
    by (auto simp: send_sysn_electrical_param_def Let_def well_def [symmetric] intro!: zb.stays_func)
  then show ?thesis using False by (simp add: zigbee_sysn_message_def info_def)
qed

lemma config_stays:
  assumes "inside X s" "length old = 300"
  shows "\<exists>c t q. zigbee_config_message e old msg (conf, s, p) = Some (c, t, q) \<and> inside X t"
proof -
  have "\<exists>rc buf. zigbee_read_registers e s old (int FLASH1_MAX_LEN) 1 0 = Some (rc, buf)"
  proof (cases "300 \<le> x_max (mp s)")
    case True
    then show ?thesis
      using assms read_loop_total [of s 1 0 300 old e] by (auto simp: inside_def zigbee_read_registers_def FLASH1_MAX_LEN_def)
  next
    case False
    then show ?thesis by (simp add: zigbee_read_registers_def args_ok_def FLASH1_MAX_LEN_def)
  qed
  then obtain rc buf where buf: "zigbee_read_registers e s old (int FLASH1_MAX_LEN) 1 0 = Some (rc, buf)" by blast
  obtain r q where q: "set_zigbee_para (para_of (zigbee_conf buf)) p = Some (r, q)" using para_dialogue by blast
  obtain t where t: "set_addresses buf s = Some t" "inside X t"
    using assms(1) by (simp add: set_addresses_total inside_frame)
  show ?thesis
    using assms(1) t buf q by (simp add: zigbee_config_message_def)
qed

text \<open>
  What the thread can do, from the state \<open>s0\<close>, in any environment and whatever the arrays on the
  stack held, as long as no parameter packet comes in.
\<close>

inductive zigbee_reach :: "nat \<Rightarrow> rtu \<Rightarrow> rtu \<Rightarrow> bool" for X s0 where
  start: "zigbee_reach X s0 s0"
| frame: "zigbee_reach X s0 s \<Longrightarrow> tables_fit e X \<Longrightarrow> length query = 260 \<Longrightarrow>
    \<forall>k. length (tmp_buff (fr k)) = 160 \<Longrightarrow> \<not> param_packet (drop 21 query) \<Longrightarrow>
    zigbee_frame_round e fr query s = Some t \<Longrightarrow> zigbee_reach X s0 t"
| idle: "zigbee_reach X s0 s \<Longrightarrow> zigbee_reach X s0 (zigbee_idle_round e s)"
| message: "zigbee_reach X s0 s \<Longrightarrow> length buf = 128 \<Longrightarrow> msg ! 4 \<noteq> 1 \<Longrightarrow>
    zigbee_sysn_message e buf junk msg s = Some t \<Longrightarrow> zigbee_reach X s0 t"
| config: "zigbee_reach X s0 s \<Longrightarrow> length old = 300 \<Longrightarrow>
    zigbee_config_message e old msg (conf, s, p) = Some (conf', t, q) \<Longrightarrow> zigbee_reach X s0 t"

inductive_cases zigbee_reachE: "zigbee_reach X s0 s"

lemma zigbee_reach_inside:
  assumes "zigbee_reach X s0 s" "inside X s0"
  shows "inside X s"
  using assms
proof (induction rule: zigbee_reach.induct)
  case (frame s e query fr t)
  then show ?case using frame_round_stays [of e X s query fr] by simp
next
  case (idle s e)
  then show ?case by (simp add: zigbee_idle_round_def inside_frame)
next
  case (message s buf msg e junk t)
  then show ?case using sysn_message_stays [of X s buf msg e junk] by simp
next
  case (config s old e msg conf p conf' t q)
  then show ?case using config_stays [of X s old e msg conf p] by simp
qed

text \<open>
  C11. The ZigBee thread stays inside its arrays. In every run without parameter packets, over any
  tables, clock, flash errors and garbage on the stack, the register map stays well formed with
  its size and the address table keeps ten bytes per well, so that the next frame, whatever it
  holds, the next diagram message not naming a single point and the next configuration message,
  whatever the registers hold, are handled to the end.
\<close>

theorem zigbee_thread_safe:
  assumes "zigbee_reach X s0 s" "inside X s0"
  shows "map_wf (mp s) \<and> x_max (mp s) = X \<and> (\<forall>w. length (elec_param_meter_mac s w) = 10) \<and>
    (\<forall>e fr query. tables_fit e X \<and> length query = 260 \<and> (\<forall>k. length (tmp_buff (fr k)) = 160) \<and>
        \<not> param_packet (drop 21 query) \<longrightarrow> (\<exists>t. zigbee_frame_round e fr query s = Some t)) \<and>
    (\<forall>e buf junk msg. length buf = 128 \<and> msg ! 4 \<noteq> 1 \<longrightarrow>
        (\<exists>t. zigbee_sysn_message e buf junk msg s = Some t)) \<and>
    (\<forall>e old msg conf p. length old = 300 \<longrightarrow> (\<exists>r. zigbee_config_message e old msg (conf, s, p) = Some r))"
proof -
  have i: "inside X s" by (rule zigbee_reach_inside [OF assms])
  have "\<exists>t. zigbee_frame_round e fr query s = Some t"
    if "tables_fit e X" "length query = 260" "\<forall>k. length (tmp_buff (fr k)) = 160" "\<not> param_packet (drop 21 query)"
    for e fr query
    using frame_round_stays [OF that(1) i that(2-4)] by (auto simp: stays_def)
  moreover have "\<exists>t. zigbee_sysn_message e buf junk msg s = Some t" if "length buf = 128" "msg ! 4 \<noteq> 1"
    for e buf junk msg
    using sysn_message_stays [OF i that] by (auto simp: stays_def)
  moreover have "\<exists>r. zigbee_config_message e old msg (conf, s, p) = Some r" if "length old = 300" for e old msg conf p
    using config_stays [OF i that, of e msg conf p] by blast
  ultimately show ?thesis using i by (simp add: inside_def)
qed

definition rtu_radio :: rtu where
  "rtu_radio = rtu_demo\<lparr>elec_param_meter_mac := \<lambda>_. replicate 10 0\<rparr>"

theorem zigbee_thread_safe_witness:
  "\<exists>t. zigbee_frame_round env_demo (\<lambda>_. frame_demo) (replicate 3 0 @ [0x91] @ replicate 17 0 @ param_demo[9 := 0] @ replicate 153 0)
      (zigbee_idle_round env_demo rtu_radio) = Some t"
proof -
  have i: "inside 311 rtu_radio"
    using map_demo_wf by (simp add: inside_def rtu_radio_def rtu_demo_def) (simp add: map_demo_def)
  have r: "zigbee_reach 311 rtu_radio (zigbee_idle_round env_demo rtu_radio)"
    by (rule idle [OF start])
  let ?q = "replicate 3 0 @ [0x91] @ replicate 17 0 @ param_demo[9 := 0] @ replicate 153 0"
  have q: "tables_fit env_demo 311 \<and> length ?q = 260 \<and>
      (\<forall>k. length (tmp_buff ((\<lambda>_ :: nat. frame_demo) k)) = 160) \<and> \<not> param_packet (drop 21 ?q)"
    using tables_demo_fit by (simp add: frame_demo_def param_packet_def be16_at_bytes param_demo_def nth_append)
  have "\<forall>e fr query. tables_fit e 311 \<and> length query = 260 \<and>
      (\<forall>k. length (tmp_buff ((fr :: nat \<Rightarrow> analyser_frame) k)) = 160) \<and> \<not> param_packet (drop 21 query) \<longrightarrow>
      (\<exists>t. zigbee_frame_round e fr query (zigbee_idle_round env_demo rtu_radio) = Some t)"
    using zigbee_thread_safe [OF r i] by (elim conjE)
  from this [rule_format, OF q] show ?thesis .
qed


theorem zigbee_configured_witness:
  "\<forall>p. \<exists>q t. zigbee_config_message env_demo (replicate 300 0) [MSG_CONFIG_START, 0] (replicate 9 0, rtu_meters, p) = Some (replicate 9 1, t, q) \<and>
    SystemCall ''ifconfig eth1 1.1.1.1 netmask 1.1.1.1;route add default gw 1.1.1.1'' \<in> set (out t)"
proof
  fix p
  have r: "regs (mp rtu_meters) 1 k n = replicate n 1" for k n
    by (intro nth_equalityI) (simp_all add: regs_def reg_def rtu_meters_wf)
  have "config_plain env_demo rtu_meters" by (simp add: config_plain_def rtu_meters_wf rtu_meters_plain)
  from zigbee_configured [OF this, of "replicate 300 0" "replicate 300 0" env_demo "replicate 9 0" p] obtain q t where
    "zigbee_config_message env_demo (replicate 300 0) [MSG_CONFIG_START, 0] (replicate 9 0, rtu_meters, p) = Some (replicate 9 1, t, q)"
    "SystemCall (ipv4_asked (mp rtu_meters)) \<in> set (out t)"
    by (auto simp: r [of 99 9] simp del: One_nat_def)
  moreover have "ipv4_asked (mp rtu_meters) = ''ifconfig eth1 1.1.1.1 netmask 1.1.1.1;route add default gw 1.1.1.1''"
    unfolding ipv4_asked_def r ipv4_command_def ip4_text_def by (simp add: one_text numeral_eq_Suc)
  ultimately show "\<exists>q t. zigbee_config_message env_demo (replicate 300 0) [MSG_CONFIG_START, 0] (replicate 9 0, rtu_meters, p) = Some (replicate 9 1, t, q) \<and>
    SystemCall ''ifconfig eth1 1.1.1.1 netmask 1.1.1.1;route add default gw 1.1.1.1'' \<in> set (out t)" by auto
qed

end
