(* ===== verification/Panel.thy ===== *)
theory Panel
  imports Register_Facts Threads
begin

text \<open>
  The lamp thread and the push button of \<^verbatim>\<open>gpio/leds.c\<close>: a round of
  \<^verbatim>\<open>thread_gpio_test\<close> every 0.4 seconds, the interrupt that notes the button, and the
  reset of the shared configuration when the button is held.
\<close>

section \<open>The thread\<close>

text \<open>
  The local variables of the thread. The round counter is an \<^verbatim>\<open>int\<close> that would overflow
  after 27 years; it is a natural number here. \<open>shown\<close> are the first two entries of the local
  \<^verbatim>\<open>led_status\<close>.
\<close>

record lamp_thread =
  round_no :: nat
  shown :: "nat \<Rightarrow> u8"
  time_seen :: u8
  reset_seen :: u8
  button_down_time :: nat

text \<open>Before the loop; the status bytes start at -1.\<close>

definition lamp_thread_start :: "rtu \<Rightarrow> lamp_thread \<times> rtu" where
  "lamp_thread_start s =
     (\<lparr>round_no = 0, shown = \<lambda>_. -1, time_seen = -1, reset_seen = -1, button_down_time = 0\<rparr>,
      gpio_restart_action (s\<lparr>time_set_status := -1, led_status := \<lambda>_. -1, flash1_reset_status := -1,
        flash1_reset_button := -1\<rparr>))"

text \<open>Has none of the threads communicated for too long?\<close>

definition all_silent :: "env \<Rightarrow> nat list \<Rightarrow> rtu \<Rightarrow> bool" where
  "all_silent e ids s =
     list_all (\<lambda>i. late THREAD_MAX_COM_DELAY_TIME (time_now e) (thread_com_time s i)) ids"

definition fault_lamp :: "env \<Rightarrow> nat list \<Rightarrow> nat \<Rightarrow> rtu \<Rightarrow> rtu" where
  "fault_lamp e ids pin s = gpio_set pin (if all_silent e ids s then LED_ON else LED_OFF) s"

definition fault_lamps :: "env \<Rightarrow> rtu \<Rightarrow> rtu" where
  "fault_lamps e s =
     (let s = fault_lamp e [THREAD_RS232_ZIGBEE, THREAD_RS485_MASTER] LED_F1 s;
          s = fault_lamp e [THREAD_TCP_SERVER, THREAD_TCP_CLIENT, THREAD_RS485_SLAVE, THREAD_UDP_SERVER,
                THREAD_RS232_SERVER] LED_F2 s
      in fault_lamp e [THREAD_DATA_SERVER] LED_F3 s)"

definition RESET_MSG :: string where "RESET_MSG = ''press reset button''"

text \<open>The button: at the third look in a row that finds it down, the configuration is reset.\<close>

definition button_check :: "env \<Rightarrow> lamp_thread \<Rightarrow> rtu \<Rightarrow> (lamp_thread \<times> rtu) option" where
  "button_check e l s =
     (if flash1_reset_button s = BUTTON_DOWN then
        (let l = l\<lparr>button_down_time := button_down_time l + 1\<rparr> in
         if button_down_time l = 3 then do {
           (_, s) \<leftarrow> reset_flash1_to_default e s;
           Some (l, emit (LogMsg RESET_MSG) s) }
         else Some (l, s))
      else Some (l\<lparr>button_down_time := 0\<rparr>, s))"

text \<open>What every fourth round does.\<close>

definition fourth_round :: "env \<Rightarrow> lamp_thread \<Rightarrow> rtu \<Rightarrow> (lamp_thread \<times> rtu) option" where
  "fourth_round e l s =
     (let s = gpio_set LED_RUN LED_ON (update_thread_time e (int THREAD_GPIO_LED) s);
          (l, s) = (if time_seen l \<noteq> time_set_status s
                    then (l\<lparr>time_seen := time_set_status s\<rparr>, emit Hwclock s) else (l, s));
          (l, s) = (if reset_seen l \<noteq> flash1_reset_status s
                    then (l\<lparr>reset_seen := flash1_reset_status s\<rparr>,
                          gpio_restart_action (emit (LogMsg (''30 reset'' @ [CHR 0x0A])) s))
                    else (l, s))
      in button_check e l s)"

text \<open>Lamp \<open>k\<close> flashes in its rounds when its counter has moved.\<close>

definition flash_lamp :: "nat \<Rightarrow> nat \<Rightarrow> nat \<Rightarrow> lamp_thread \<times> rtu \<Rightarrow> lamp_thread \<times> rtu" where
  "flash_lamp k period pin = (\<lambda>(l, s).
     if shown l k \<noteq> led_status s k \<and> round_no l mod period = 0
     then (l\<lparr>shown := (shown l)(k := led_status s k)\<rparr>, gpio_set pin LED_ON s)
     else (l, s))"

definition lamp_off :: "nat \<Rightarrow> nat \<Rightarrow> nat \<Rightarrow> rtu \<Rightarrow> rtu" where
  "lamp_off i period pin s = (if i mod period = 0 then gpio_set pin LED_OFF s else s)"

text \<open>One round; \<open>ipv6\<close> is what the array holds after \<^verbatim>\<open>get_ipv6_addr\<close>.\<close>

definition lamp_round :: "env \<Rightarrow> u16 list \<Rightarrow> lamp_thread \<Rightarrow> rtu \<Rightarrow> (lamp_thread \<times> rtu) option" where
  "lamp_round e ipv6 l s =
     (let i = round_no l in
      do { (_, s) \<leftarrow> (if i mod 90 = 0 then zigbee_write_registers e ipv6 9 1 144 s else Some (0, s));
           let s = (if i mod 20 = 0 then fault_lamps e s else s);
           (l, s) \<leftarrow> (if i mod 4 = 0 then fourth_round e l s else Some (l, s));
           let (l, s) = flash_lamp 1 2 LED_LINK (flash_lamp 0 3 LED_SEN (l, s));
           let s = lamp_off i 2 LED_LINK (lamp_off i 3 LED_SEN (lamp_off i 4 LED_RUN s));
           Some (l\<lparr>round_no := i + 1\<rparr>, s) })"

section \<open>The interrupt\<close>

definition RESET_PIN :: nat where "RESET_PIN = GPIO_TO_PIN 0 7"

text \<open>An event read from the interrupt device; the other pins are only looked up.\<close>

definition gpio_irq_event :: "nat \<Rightarrow> int \<Rightarrow> rtu \<Rightarrow> rtu" where
  "gpio_irq_event pin_num pin_status s =
     (if pin_num = RESET_PIN
      then s\<lparr>flash1_reset_button := (if pin_status = 1 then BUTTON_UP else BUTTON_DOWN)\<rparr>
      else s)"

section \<open>What is logged\<close>

definition is_reset :: "event \<Rightarrow> bool" where
  "is_reset ev \<longleftrightarrow> ev = LogMsg RESET_MSG"

text \<open>How often the configuration was reset by the button.\<close>

definition resets :: "rtu \<Rightarrow> nat" where
  "resets s = length (filter is_reset (out s))"

lemma resets_emit: "resets (emit ev s) = (if is_reset ev then Suc (resets s) else resets s)"
  by (simp add: resets_def emit_def)


text \<open>Operations that neither log a reset nor touch the button.\<close>

definition calm :: "rtu \<Rightarrow> rtu \<Rightarrow> bool" where
  "calm s t \<longleftrightarrow> resets t = resets s \<and> flash1_reset_button t = flash1_reset_button s"

lemma calm_refl [simp]: "calm s s"
  by (simp add: calm_def)

lemma calm_trans: "calm s t \<Longrightarrow> calm t u \<Longrightarrow> calm s u"
  by (simp add: calm_def)

lemma calm_emit: "calm s t \<Longrightarrow> \<not> is_reset ev \<Longrightarrow> calm s (emit ev t)"
  by (simp add: calm_def resets_emit) (simp add: emit_def)

lemma calm_fields:
  "out t = out s \<Longrightarrow> flash1_reset_button t = flash1_reset_button s \<Longrightarrow> calm s t"
  by (simp add: calm_def resets_def)

lemma calm_gpio: "calm s t \<Longrightarrow> calm s (ioctl_set p v t)" "calm s t \<Longrightarrow> calm s (gpio_set p v t)"
  by (simp_all add: ioctl_set_def gpio_set_def calm_emit is_reset_def)

lemma calm_gpio_sets: "calm s (gpio_sets ps s)"
proof (induction ps arbitrary: s)
  case (Cons p ps)
  obtain pin v where p: "p = (pin, v)" by (cases p)
  show ?case
    using calm_trans [OF calm_gpio(2) [OF calm_refl] Cons.IH] by (simp add: p)
qed simp

lemma calm_restart: "calm s (gpio_restart_action s)"
  by (simp add: gpio_restart_action_def Let_def calm_gpio_sets del: gpio_sets.simps)

lemma calm_send_int: "calm s t \<Longrightarrow> calm s (send_int q v t)"
  by (simp add: send_int_def calm_emit is_reset_def)

lemma calm_msync: "calm s t \<Longrightarrow> calm s (snd (msync1 e t))" "calm s t \<Longrightarrow> calm s (snd (msync2 e t))"
  by (auto simp: msync1_def msync2_def calm_def resets_def)

lemma calm_update:
  "calm s t \<Longrightarrow> calm s (t\<lparr>mp := m\<rparr>)" "calm s t \<Longrightarrow> calm s (t\<lparr>time_set_status := k\<rparr>)"
  "calm s t \<Longrightarrow> calm s (t\<lparr>flash1_reset_status := k\<rparr>)" "calm s t \<Longrightarrow> calm s (update_thread_time e n t)"
  by (simp_all add: calm_def resets_def update_thread_time_def)

lemma calm_rtu_reset: "calm s (snd (rtu_reset_flash1 v s))"
  by (simp add: rtu_reset_flash1_def Let_def calm_update calm_send_int)

lemma calm_store_sys: "store_sys e f r v s = Some t \<Longrightarrow> calm s t"
  by (auto simp: store_sys_def intro!: calm_msync calm_update split: bind_splits)

lemma calm_gpio_set_do: "gpio_set_do s i v = Some (rc, t) \<Longrightarrow> calm s t"
  by (auto simp: gpio_set_do_def do_pulse_def Let_def intro!: calm_gpio split: if_splits option.splits)

lemma calm_msync2_eq: "msync2 e t = (ok, u) \<Longrightarrow> calm s t \<Longrightarrow> calm s u"
  using calm_msync(2) [of s t e] by simp

lemma calm_remap: "map_item_remap e w v s = Some (rc, t) \<Longrightarrow> calm s t"
  by (auto simp: map_item_remap_def Let_def calm_update split: if_splits bind_splits prod.splits
      dest: calm_msync2_eq [where s = s])

lemma calm_fun_write:
  assumes "map_map_fun_write e b w i s = Some (rc, v, t)"
  shows "calm s t"
proof -
  have h: "calm s (set_history_data w (s\<lparr>mp := m\<rparr>))" for m
    by (simp add: set_history_data_def calm_emit is_reset_def calm_update)
  have m: "calm s (map_settime e i b s)"
    by (simp add: map_settime_def Let_def calm_update calm_emit is_reset_def)
  have c: "calm s (rtu_conf_elect_interval s)" "calm s (rtu_conf_act_interval s)"
    by (simp_all add: rtu_conf_elect_interval_def rtu_conf_act_interval_def calm_send_int)
  have r: "calm s u" if "rtu_reset_flash1 b s = (v', u)" for v' u
    using calm_rtu_reset [of s b] that by simp
  show ?thesis
    using assms h m calm_trans [OF c(1) calm_store_sys] calm_trans [OF c(2) calm_store_sys]
      calm_trans [OF calm_gpio_set_do calm_store_sys] calm_remap r
    by (auto simp: map_map_fun_write_def Let_def split: if_splits bind_splits prod.splits)
qed

lemma calm_write_cell:
  assumes "write_cell e w i v s = Some (rc, v', t)"
  shows "calm s t"
proof -
  have a: "calm s u" if "map_map_fun_write e v w i s = Some (r, v'', u)" for r v'' u
    using that by (rule calm_fun_write)
  have m1: "calm s u" if "msync1 e (s\<lparr>mp := m\<rparr>) = (ok, u)" for m ok u
    using calm_msync(1) [OF calm_update(1) [OF calm_refl], of s e m] that by simp
  have m2: "calm s u" if "msync2 e (s\<lparr>mp := m\<rparr>) = (ok, u)" for m ok u
    using calm_msync2_eq [OF that calm_update(1) [OF calm_refl]] by simp
  show ?thesis
    using assms
    by (cases "kind_at (mp s) w i")
      (auto simp: write_cell_def Let_def rd_def calm_update split: bind_splits if_splits prod.splits
        dest: a m1 m2)
qed

lemma calm_write_loop: "write_loop e w i n buf s = Some (rc, t) \<Longrightarrow> calm s t"
proof (induction n arbitrary: i buf s)
  case (Suc n)
  then obtain b bs where buf: "buf = b # bs" by (cases buf) auto
  then obtain rc' v u where u: "write_cell e w i b s = Some (rc', v, u)"
    and l: "(if rc' = -1 then Some (-1, u) else write_loop e w (Suc i) n bs u) = Some (rc, t)"
    using Suc.prems by (auto split: bind_splits)
  have "calm u t"
    using l Suc.IH [of "Suc i" bs u] by (cases "rc' = -1") simp_all
  then show ?case using calm_trans [OF calm_write_cell [OF u]] by blast
qed simp

lemma calm_write: "zigbee_write_registers e buf n w a s = Some (rc, t) \<Longrightarrow> calm s t"
  using calm_write_loop by (auto simp: zigbee_write_registers_def split: if_splits)

lemma calm_reset:
  assumes "reset_flash1_to_default e s = Some (rc, t)"
  shows "calm s t"
proof -
  obtain r m where m: "ram_map_flash1_value_init e 0 0 True False PATH_MAP1 False (mp s) = Some (r, m)"
    using assms by (auto simp: reset_flash1_to_default_def split: bind_splits)
  let ?u = "s\<lparr>mp := m\<rparr>"
  have "calm s (snd (rtu_reset_flash1 1 ?u))"
    by (rule calm_trans [OF calm_update(1) [OF calm_refl] calm_rtu_reset])
  then have "calm s (snd (msync1 e (snd (rtu_reset_flash1 1 ?u))))" by (rule calm_msync)
  moreover have "calm s ?u" by (rule calm_update) simp
  moreover have "t = ?u \<or> t = snd (msync1 e (snd (rtu_reset_flash1 1 ?u)))"
    using assms m by (auto simp: reset_flash1_to_default_def Let_def split: if_splits prod.splits)
  ultimately show ?thesis by auto
qed

lemma calm_fault_lamps: "calm s (fault_lamps e s)"
  by (simp add: fault_lamps_def fault_lamp_def Let_def calm_gpio)

section \<open>Safety of a round\<close>

text \<open>The state the thread needs: a well-formed map of \<open>X\<close> registers that the tables fit.\<close>

definition tables_ok :: "env \<Rightarrow> nat \<Rightarrow> bool" where
  "tables_ok e X \<longleftrightarrow> tables_fit e X \<and> table_fits e X True PATH_MAP1"

definition mapped :: "nat \<Rightarrow> rtu \<Rightarrow> bool" where
  "mapped X s \<longleftrightarrow> map_wf (mp s) \<and> x_max (mp s) = X"

lemma mapped_frame:
  "mapped X s \<Longrightarrow> mapped X (gpio_set p v s)" "mapped X s \<Longrightarrow> mapped X (emit ev s)"
  "mapped X s \<Longrightarrow> mapped X (update_thread_time e n s)"
  by (simp_all add: mapped_def frame_simps)

lemma mapped_gpio_sets: "mapped X s \<Longrightarrow> mapped X (gpio_sets ps s)"
  by (induction ps s rule: gpio_sets.induct) (simp_all add: mapped_frame)

lemma mapped_restart: "mapped X s \<Longrightarrow> mapped X (gpio_restart_action s)"
  by (simp add: gpio_restart_action_def Let_def mapped_gpio_sets del: gpio_sets.simps)

lemma mapped_reset:
  assumes "tables_ok e X" "mapped X s"
  shows "\<exists>rc t. reset_flash1_to_default e s = Some (rc, t) \<and> mapped X t"
proof -
  have s: "map_wf (mp s)" "x_max (mp s) = X" using assms(2) by (simp_all add: mapped_def)
  obtain rc m where m: "ram_map_flash1_value_init e 0 0 True False PATH_MAP1 False (mp s) = Some (rc, m)"
    "map_wf m" "x_max m = X"
    using value_init_wf [OF s(1), of 0 e True PATH_MAP1 False False] assms(1) s(2) by (auto simp: tables_ok_def)
  then show ?thesis
    by (auto simp: reset_flash1_to_default_def rtu_reset_flash1_def Let_def mapped_def msync1_def frame_simps)
qed

text \<open>The level of the button that a check sees, and what the check does to the count.\<close>

definition pressed :: "rtu \<Rightarrow> bool" where
  "pressed s \<longleftrightarrow> flash1_reset_button s = BUTTON_DOWN"

lemma button_check_result:
  assumes "tables_ok e X" "mapped X s"
  shows "\<exists>l' s'. button_check e l s = Some (l', s') \<and> mapped X s' \<and>
    round_no l' = round_no l \<and> flash1_reset_button s' = flash1_reset_button s \<and>
    button_down_time l' = (if pressed s then button_down_time l + 1 else 0) \<and>
    resets s' = resets s + (if pressed s \<and> button_down_time l = 2 then 1 else 0)"
proof -
  obtain rc t where t: "reset_flash1_to_default e s = Some (rc, t)" "mapped X t"
    using mapped_reset [OF assms] by blast
  then have "calm s t" by (simp add: calm_reset)
  then have c: "resets t = resets s" "flash1_reset_button t = flash1_reset_button s" by (simp_all add: calm_def)
  have "flash1_reset_button (emit ev t) = flash1_reset_button t" for ev by (simp add: emit_def)
  then show ?thesis
    using t assms(2) c
    by (auto simp: button_check_def Let_def pressed_def resets_emit is_reset_def mapped_frame)
qed

lemma fourth_round_result:
  assumes "tables_ok e X" "mapped X s"
  shows "\<exists>l' s'. fourth_round e l s = Some (l', s') \<and> mapped X s' \<and>
    round_no l' = round_no l \<and> flash1_reset_button s' = flash1_reset_button s \<and>
    button_down_time l' = (if pressed s then button_down_time l + 1 else 0) \<and>
    resets s' = resets s + (if pressed s \<and> button_down_time l = 2 then 1 else 0)"
proof -
  define s1 where "s1 = gpio_set LED_RUN LED_ON (update_thread_time e (int THREAD_GPIO_LED) s)"
  define p2 where "p2 = (if time_seen l \<noteq> time_set_status s1
      then (l\<lparr>time_seen := time_set_status s1\<rparr>, emit Hwclock s1) else (l, s1))"
  define p3 where "p3 = (if reset_seen (fst p2) \<noteq> flash1_reset_status (snd p2)
      then ((fst p2)\<lparr>reset_seen := flash1_reset_status (snd p2)\<rparr>,
            gpio_restart_action (emit (LogMsg (''30 reset'' @ [CHR 0x0A])) (snd p2)))
      else p2)"
  have n: "\<not> is_reset (LogMsg (''30 reset'' @ [CHR 0x0A]))" "\<not> is_reset Hwclock"
    by (simp_all add: is_reset_def RESET_MSG_def)
  have c1: "calm s s1" "mapped X s1"
    using assms(2) by (simp_all add: s1_def calm_gpio calm_update mapped_frame)
  have c2: "calm s (snd p2)" "mapped X (snd p2)" "round_no (fst p2) = round_no l"
    "button_down_time (fst p2) = button_down_time l"
    using c1 n by (simp_all add: p2_def calm_emit mapped_frame)
  have r: "calm s (gpio_restart_action t)" "mapped X (gpio_restart_action t)" if "calm s t" "mapped X t" for t
    using calm_trans [OF that(1) calm_restart] mapped_restart [OF that(2)] by simp_all
  have c3: "calm s (snd p3)" "mapped X (snd p3)" "round_no (fst p3) = round_no l"
    "button_down_time (fst p3) = button_down_time l"
    using c2 n by (simp_all add: p3_def r calm_emit mapped_frame)
  have f: "fourth_round e l s = button_check e (fst p3) (snd p3)"
    unfolding fourth_round_def Let_def s1_def [symmetric] p2_def [symmetric]
    by (simp add: p3_def case_prod_beta prod.case_distrib)
  have q: "pressed (snd p3) = pressed s" "resets (snd p3) = resets s"
    "flash1_reset_button (snd p3) = flash1_reset_button s"
    using c3(1) by (simp_all add: calm_def pressed_def)
  show ?thesis
    unfolding f using button_check_result [OF assms(1) c3(2), of "fst p3"] by (simp only: q c3(3,4))
qed


lemma flash_lamp_calm:
  "calm s (snd p) \<Longrightarrow> calm s (snd (flash_lamp k n pin p))" "mapped X (snd p) \<Longrightarrow> mapped X (snd (flash_lamp k n pin p))"
  "round_no (fst (flash_lamp k n pin p)) = round_no (fst p)"
  "button_down_time (fst (flash_lamp k n pin p)) = button_down_time (fst p)"
  by (cases p; simp add: flash_lamp_def calm_gpio mapped_frame)+

lemma lamp_off_calm: "calm s t \<Longrightarrow> calm s (lamp_off i n pin t)" "mapped X s \<Longrightarrow> mapped X (lamp_off i n pin s)"
  by (simp_all add: lamp_off_def calm_gpio mapped_frame)

lemma fault_lamps_mapped: "mapped X s \<Longrightarrow> mapped X (fault_lamps e s)"
  by (simp add: fault_lamps_def fault_lamp_def Let_def mapped_frame)

lemma lamp_round_result:
  assumes "tables_ok e X" "mapped X s" "9 \<le> length ipv6"
  shows "\<exists>l' s'. lamp_round e ipv6 l s = Some (l', s') \<and> mapped X s' \<and>
    round_no l' = round_no l + 1 \<and> flash1_reset_button s' = flash1_reset_button s \<and>
    button_down_time l' =
      (if round_no l mod 4 \<noteq> 0 then button_down_time l else if pressed s then button_down_time l + 1 else 0) \<and>
    resets s' = resets s + (if round_no l mod 4 = 0 \<and> pressed s \<and> button_down_time l = 2 then 1 else 0)"
proof -
  obtain rc s1 where s1: "(if round_no l mod 90 = 0 then zigbee_write_registers e ipv6 9 1 144 s else Some (0, s)) = Some (rc, s1)"
    "calm s s1" "mapped X s1"
  proof (cases "round_no l mod 90 = 0")
    case True
    have "map_wf (mp s)" "tables_fit e (x_max (mp s))" "nat 9 \<le> length ipv6"
      using assms by (simp_all add: mapped_def tables_ok_def)
    from zigbee_write_wf [OF this, of 1 144] obtain rc t where
      t: "zigbee_write_registers e ipv6 9 1 144 s = Some (rc, t)" "map_wf (mp t)" "x_max (mp t) = x_max (mp s)" by blast
    then show ?thesis using True that [of rc t] calm_write [OF t(1)] assms(2) by (simp add: mapped_def)
  next
    case False
    then show ?thesis using that [of 0 s] assms(2) by simp
  qed
  define s2 where "s2 = (if round_no l mod 20 = 0 then fault_lamps e s1 else s1)"
  have s2: "calm s s2" "mapped X s2"
    using s1(2,3) calm_trans [OF s1(2) calm_fault_lamps] by (simp_all add: s2_def fault_lamps_mapped)
  have q: "pressed s2 = pressed s" "resets s2 = resets s" "flash1_reset_button s2 = flash1_reset_button s"
    using s2(1) by (simp_all add: calm_def pressed_def)
  obtain l3 s3 where s3: "(if round_no l mod 4 = 0 then fourth_round e l s2 else Some (l, s2)) = Some (l3, s3)"
    "mapped X s3" "round_no l3 = round_no l" "flash1_reset_button s3 = flash1_reset_button s"
    "button_down_time l3 =
      (if round_no l mod 4 \<noteq> 0 then button_down_time l else if pressed s then button_down_time l + 1 else 0)"
    "resets s3 = resets s + (if round_no l mod 4 = 0 \<and> pressed s \<and> button_down_time l = 2 then 1 else 0)"
  proof (cases "round_no l mod 4 = 0")
    case True
    from fourth_round_result [OF assms(1) s2(2), of l, unfolded q] obtain l3 s3 where
      "fourth_round e l s2 = Some (l3, s3)" "mapped X s3" "round_no l3 = round_no l"
      "flash1_reset_button s3 = flash1_reset_button s"
      "button_down_time l3 = (if pressed s then button_down_time l + 1 else 0)"
      "resets s3 = resets s + (if pressed s \<and> button_down_time l = 2 then 1 else 0)" by blast
    then show ?thesis using True by (intro that [of l3 s3]) simp_all
  next
    case False
    then show ?thesis using that [of l s2] s2(2) q by simp
  qed
  define p4 where "p4 = flash_lamp 1 2 LED_LINK (flash_lamp 0 3 LED_SEN (l3, s3))"
  have p4: "calm s3 (snd p4)" "mapped X (snd p4)" "button_down_time (fst p4) = button_down_time l3"
    using s3(2) by (simp_all add: p4_def flash_lamp_calm)
  define s5 where "s5 = lamp_off (round_no l) 2 LED_LINK (lamp_off (round_no l) 3 LED_SEN (lamp_off (round_no l) 4 LED_RUN (snd p4)))"
  have s5: "calm s3 s5" "mapped X s5"
    using p4(1,2) by (simp_all add: s5_def lamp_off_calm)
  have "lamp_round e ipv6 l s = Some ((fst p4)\<lparr>round_no := round_no l + 1\<rparr>, s5)"
    unfolding lamp_round_def Let_def
    by (simp only: s1(1) bind.bind_lunit prod.case s2_def [symmetric] s3(1) case_prod_beta p4_def [symmetric]
        s5_def fst_conv snd_conv)
  then show ?thesis
    using s5 s3(4-6) p4(3) by (simp add: calm_def)
qed

section \<open>Runs\<close>

text \<open>
  Rounds with what happens before each: the interrupts, then the round in its environment.
\<close>

fun panel_run ::
  "(env \<times> u16 list \<times> (nat \<times> int) list) list \<Rightarrow> lamp_thread \<Rightarrow> rtu \<Rightarrow> (lamp_thread \<times> rtu) option" where
  "panel_run [] l s = Some (l, s)"
| "panel_run ((e, ipv6, irqs) # rs) l s =
     do { (l, s) \<leftarrow> lamp_round e ipv6 l (fold (\<lambda>(pin, st). gpio_irq_event pin st) irqs s);
          panel_run rs l s }"

text \<open>The levels seen: the button as the interrupts leave it, at every fourth round.\<close>

fun level_after :: "(nat \<times> int) list \<Rightarrow> bool \<Rightarrow> bool" where
  "level_after [] down = down"
| "level_after ((pin, st) # irqs) down = level_after irqs (if pin = RESET_PIN then st \<noteq> 1 else down)"

fun looks :: "nat \<Rightarrow> bool \<Rightarrow> (env \<times> u16 list \<times> (nat \<times> int) list) list \<Rightarrow> bool list" where
  "looks i down [] = []"
| "looks i down ((e, ipv6, irqs) # rs) =
     (let down = level_after irqs down in
      (if i mod 4 = 0 then [down] else []) @ looks (i + 1) down rs)"

text \<open>The specification: a reset at every third look in a row that finds the button down.\<close>

fun presses :: "nat \<Rightarrow> bool list \<Rightarrow> nat" where
  "presses c [] = 0"
| "presses c (True # ds) = (if c = 2 then 1 else 0) + presses (c + 1) ds"
| "presses c (False # ds) = presses 0 ds"

lemma irq_frame:
  "resets (gpio_irq_event p st s) = resets s" "mapped X (gpio_irq_event p st s) = mapped X s"
  "pressed (gpio_irq_event p st s) = (if p = RESET_PIN then st \<noteq> 1 else pressed s)"
  by (simp_all add: gpio_irq_event_def resets_def mapped_def pressed_def BUTTON_UP_def BUTTON_DOWN_def)

lemma irqs_frame:
  "resets (fold (\<lambda>(pin, st). gpio_irq_event pin st) irqs s) = resets s"
  "mapped X (fold (\<lambda>(pin, st). gpio_irq_event pin st) irqs s) = mapped X s"
  "pressed (fold (\<lambda>(pin, st). gpio_irq_event pin st) irqs s) = level_after irqs (pressed s)"
  by (induction irqs arbitrary: s) (auto simp: irq_frame)

lemma presses_beyond: "c \<ge> 3 \<Longrightarrow> presses c (replicate n True) = 0"
  by (induction n arbitrary: c) auto

lemma presses_held: "presses 0 (replicate n True) = (if n \<ge> 3 then 1 else 0)"
proof (cases n)
  case (Suc a)
  then show ?thesis
  proof (cases a)
    case (Suc b)
    then show ?thesis using \<open>n = Suc a\<close>
      by (cases b) (simp_all add: presses_beyond numeral_eq_Suc)
  qed simp
qed simp

lemma panel_run_result:
  assumes "mapped X s" "\<forall>(e, ipv6, irqs)\<in>set rs. tables_ok e X \<and> 9 \<le> length ipv6"
  shows "\<exists>l' s'. panel_run rs l s = Some (l', s') \<and> mapped X s' \<and>
    resets s' = resets s + presses (button_down_time l) (looks (round_no l) (pressed s) rs)"
  using assms
proof (induction rs arbitrary: l s)
  case Nil
  then show ?case by simp
next
  case (Cons r rs)
  obtain e ipv6 irqs where r: "r = (e, ipv6, irqs)" by (cases r)
  define u where "u = fold (\<lambda>(pin, st). gpio_irq_event pin st) irqs s"
  have u: "mapped X u" "resets u = resets s" "pressed u = level_after irqs (pressed s)"
    using Cons.prems(1) by (simp_all add: u_def irqs_frame)
  have ok: "tables_ok e X" "9 \<le> length ipv6" using Cons.prems(2) r by auto
  from lamp_round_result [OF ok(1) u(1) ok(2), of l] obtain l1 s1 where
    s1: "lamp_round e ipv6 l u = Some (l1, s1)" "mapped X s1" "round_no l1 = round_no l + 1"
    "flash1_reset_button s1 = flash1_reset_button u"
    "button_down_time l1 =
      (if round_no l mod 4 \<noteq> 0 then button_down_time l else if pressed u then button_down_time l + 1 else 0)"
    "resets s1 = resets u + (if round_no l mod 4 = 0 \<and> pressed u \<and> button_down_time l = 2 then 1 else 0)"
    by blast
  have p: "pressed s1 = pressed u" using s1(4) by (simp add: pressed_def)
  have "\<forall>(e, ipv6, irqs)\<in>set rs. tables_ok e X \<and> 9 \<le> length ipv6" using Cons.prems(2) by simp
  from Cons.IH [OF s1(2) this, of l1] obtain l' s' where
    "panel_run rs l1 s1 = Some (l', s')" "mapped X s'"
    "resets s' = resets s1 + presses (button_down_time l1) (looks (round_no l1) (pressed s1) rs)" by blast
  then show ?case
    using s1(1,3,5,6) u p r by (cases "pressed u") (auto simp: u_def [symmetric] Let_def)
qed




definition held_demo :: "(env \<times> u16 list \<times> (nat \<times> int) list) list" where
  "held_demo = (let r = (env_demo, replicate 9 0, []) in
     [(env_demo, replicate 9 0, [(RESET_PIN, 0)]), r, r, r, r, r, r, r, r])"

lemma tables_demo_ok: "tables_ok env_demo 311"
  using tables_demo_fit by (simp add: tables_ok_def table_fits_def line_fits_def fits_def env_demo_eval
      parse_line_def scan_ranges_def scan_dv_def modbus_to_y_def map_sizes)


end
