(* ===== verification/Actuator.thy ===== *)
theory Actuator
  imports Diagrams
begin

text \<open>
  The wired actuators of \<^verbatim>\<open>meter/wired_actuator.c\<close> on the RS485 master bus: the two command
  frames, the two dialogues with their resends and the registers that an answer fills. An
  operation sees one reading of the clock.
\<close>

section \<open>The bus\<close>

text \<open>
  The resend loop of theory \<open>Prelude\<close> for a body that can fault: \<open>n\<close> attempts at most, the last
  status and the last state.
\<close>

fun attempts :: "nat \<Rightarrow> ('s \<Rightarrow> (bool \<times> 's) option) \<Rightarrow> 's \<Rightarrow> (bool \<times> 's) option" where
  "attempts 0 body s = Some (False, s)"
| "attempts (Suc n) body s =
     do { (ok, s) \<leftarrow> body s; if ok then Some (True, s) else attempts n body s }"

text \<open>
  The device with what arrives on the bus: one entry for every call of a receive function, the
  chunks it gets until it returns.
\<close>

type_synonym bus = "rtu \<times> u8 list list list"

definition next_chunks :: "u8 list list list \<Rightarrow> u8 list list" where
  "next_chunks ins = (case ins of [] \<Rightarrow> [] | c # _ \<Rightarrow> c)"

section \<open>Constants\<close>

definition ACTUATOR_WELL_NO_ADDR :: nat where "ACTUATOR_WELL_NO_ADDR = 18"
definition ACTUATOR_BASE_ADDR :: nat where "ACTUATOR_BASE_ADDR = 1870"
definition ACTUATOR2_BASE_ADDR :: nat where "ACTUATOR2_BASE_ADDR = 1885"
definition RESEND_ACT_NUM :: nat where "RESEND_ACT_NUM = 3"

text \<open>The addresses of an actuator as offsets from its base, the same for both.\<close>

definition INJEC_PERDAY :: nat where "INJEC_PERDAY = 1"
definition ADJUST_ACCURENT :: nat where "ADJUST_ACCURENT = 3"
definition AUTO_FLAG :: nat where "AUTO_FLAG = 4"
definition TOTAL_FLOW :: nat where "TOTAL_FLOW = 5"
definition FLOW_RATE :: nat where "FLOW_RATE = 7"
definition FLOWER_STATE :: nat where "FLOWER_STATE = 9"
definition ANGLE :: nat where "ANGLE = 10"
definition ADJUST_CNT :: nat where "ADJUST_CNT = 11"
definition ADJUST_MODE :: nat where "ADJUST_MODE = 12"
definition FLOWER_MODEL :: nat where "FLOWER_MODEL = 13"
definition SOFTWARE_VERSION :: nat where "SOFTWARE_VERSION = 14"
definition HARDWARE_VERSION :: nat where "HARDWARE_VERSION = 15"

lemmas bus_addrs = ACTUATOR_WELL_NO_ADDR_def ACTUATOR_BASE_ADDR_def ACTUATOR2_BASE_ADDR_def
  INJEC_PERDAY_def ADJUST_ACCURENT_def AUTO_FLAG_def TOTAL_FLOW_def FLOW_RATE_def FLOWER_STATE_def
  ANGLE_def ADJUST_CNT_def ADJUST_MODE_def FLOWER_MODEL_def SOFTWARE_VERSION_def HARDWARE_VERSION_def

text \<open>What the uninitialised local variables of the functions hold.\<close>

record junk =
  junk_well :: u16
  junk_perday :: "u16 list"
  junk_value :: u16

text \<open>What the two functions \<^verbatim>\<open>deal_wired_actuator1\<close> and 2 differ in.\<close>

record actuator =
  slave_no :: u8
  meter_no :: nat
  base_addr :: nat

definition actuator1 :: actuator where
  "actuator1 = \<lparr>slave_no = 0x01, meter_no = ACTUATOR_NO1, base_addr = ACTUATOR_BASE_ADDR\<rparr>"

definition actuator2 :: actuator where
  "actuator2 = \<lparr>slave_no = 0x02, meter_no = ACTUATOR_NO2, base_addr = ACTUATOR2_BASE_ADDR\<rparr>"

section \<open>Commands\<close>

text \<open>
  A command: the bytes so far, their sum with the high byte first, the end byte. The length of the
  sum is given as in the code.
\<close>

definition sealed_command :: "u8 list \<Rightarrow> u8 \<Rightarrow> u8 list option" where
  "sealed_command buf len = do {
     checksum \<leftarrow> packet_sum_check buf len;
     Some (buf @ u16_bytes (swap_int16 checksum) @ [0xEE]) }"

definition rtu_equ_actuator_data :: "env \<Rightarrow> u8 \<Rightarrow> rtu \<Rightarrow> rtu option" where
  "rtu_equ_actuator_data e slave s =
     (if slave > 0x02 then Some s
      else do {
        f \<leftarrow> sealed_command ([0xCC, slave, 0x01] @ u32_bytes (swap_int32 (time_now e)) @ replicate 6 0) 13;
        Some (emit (SerialWrite PORT_RS485_MASTER f) s) })"

definition u16s_u32 :: "u16 list \<Rightarrow> u32" where
  "u16s_u32 vs = ucast (vs ! 0) OR push_bit 16 (ucast (vs ! 1))"

definition rtu_set_actuator_param :: "env \<Rightarrow> junk \<Rightarrow> u8 \<Rightarrow> rtu \<Rightarrow> rtu option" where
  "rtu_set_actuator_param e j slave s = do {
     well \<leftarrow> read_register e s (junk_well j) 1 ACTUATOR_WELL_NO_ADDR;
     let well_no = unat well;
     if slave \<noteq> 0x01 \<and> slave \<noteq> 0x02 then Some s
     else let base = (if slave = 0x01 then ACTUATOR_BASE_ADDR else ACTUATOR2_BASE_ADDR) in do {
       (_, perday) \<leftarrow> zigbee_read_registers e s (junk_perday j) 2 (int well_no) (int (base + INJEC_PERDAY));
       accuracy \<leftarrow> read_register e s (junk_value j) well_no (base + ADJUST_ACCURENT);
       auto_flag \<leftarrow> read_register e s accuracy well_no (base + AUTO_FLAG);
       let injec_alloc_perday = swap_int32 (1000 * swap_register32 (u16s_u32 perday));
       f \<leftarrow> sealed_command ([0xCC, slave, 0x02] @ u32_bytes injec_alloc_perday @
              [ucast accuracy, ucast auto_flag, 0x00]) 10;
       Some (emit (SerialWrite PORT_RS485_MASTER f) s) } }"

section \<open>Answers\<close>

text \<open>\<^verbatim>\<open>modbus_receive_actuator_timeout\<close>: its result and the message.\<close>

definition actuator_receive :: "u8 list list \<Rightarrow> (int \<times> u8 list) option" where
  "actuator_receive chunks = do {
     rc \<leftarrow> modbus_receive_actuator_timeout Backend_rtu chunks;
     Some (rc, case receive_msg_actuator Backend_rtu MSG_TIMEOUT chunks of Rx_done msg _ \<Rightarrow> msg | _ \<Rightarrow> []) }"

text \<open>The sizes are those of \<^verbatim>\<open>st_actuator_para_ack_rtu\<close> and \<^verbatim>\<open>st_actuator_ack_rtu\<close>.\<close>

definition para_accepted :: "u8 \<Rightarrow> int \<Rightarrow> u8 list \<Rightarrow> bool" where
  "para_accepted slave rc msg \<longleftrightarrow> rc = 10 \<and> msg ! 5 = 0x01 \<and> msg ! 1 = slave \<and> msg ! 2 = 0x02"

definition data_accepted :: "u8 \<Rightarrow> int \<Rightarrow> u8 list \<Rightarrow> bool" where
  "data_accepted slave rc msg \<longleftrightarrow>
     rc = 39 \<and> msg ! 2 = 0x01 \<and> swap_int16 (u16_at msg 3) = 0x1E \<and> msg ! 1 = slave"

definition u64_at :: "u8 list \<Rightarrow> nat \<Rightarrow> u64" where
  "u64_at b i = ucast (u32_at b i) OR push_bit 32 (ucast (u32_at b (i + 4)))"

text \<open>\<^verbatim>\<open>(float) n / 1000.0\<close> as a float.\<close>

definition thousandth :: "nat \<Rightarrow> fp" where
  "thousandth n = fp_conv round32 (fp_div round64 (fp_conv round32 (fp_of_int (int n))) (fp_of_int 1000))"

text \<open>The registers filled, in the order of the writes.\<close>

definition actuator_blocks :: "nat \<Rightarrow> u8 list \<Rightarrow> (nat \<times> u16 list) list" where
  "actuator_blocks base msg =
     [(base + TOTAL_FLOW,
        u32_u16s (swap_stor_float_seq (encode32 (thousandth (unat (swap_int64 (u64_at msg 5))))))),
      (base + FLOW_RATE,
        u32_u16s (swap_stor_float_seq (encode32 (thousandth (unat (swap_int32 (u32_at msg 13))))))),
      (base + FLOWER_STATE, [ucast (msg ! 18)]), (base + ANGLE, [ucast (msg ! 20)]),
      (base + ADJUST_CNT, [swap_int16 (u16_at msg 25)]), (base + ADJUST_MODE, [ucast (msg ! 27)]),
      (base + FLOWER_MODEL, [ucast (msg ! 19)]), (base + SOFTWARE_VERSION, [ucast (msg ! 23)]),
      (base + HARDWARE_VERSION, [ucast (msg ! 24)])]"

text \<open>
  The time is stored in row \<^verbatim>\<open>actuator_well_no - 1\<close> of a table of \<^verbatim>\<open>RTU_MAX_WELL_NUM\<close> rows,
  whatever the number.
\<close>

definition store_actuator :: "env \<Rightarrow> actuator \<Rightarrow> u16 \<Rightarrow> u8 list \<Rightarrow> rtu \<Rightarrow> rtu option" where
  "store_actuator e a well msg s =
     (let row = int (unat well) - 1 in
      if row < 0 \<or> row \<ge> int RTU_MAX_WELL_NUM then None
      else write_blocks e (actuator_blocks (base_addr a) msg) (unat well)
             (set_sample_time e (nat row) (meter_no a) s))"

section \<open>The dialogues\<close>

definition para_attempt :: "env \<Rightarrow> junk \<Rightarrow> u8 \<Rightarrow> bus \<Rightarrow> (bool \<times> bus) option" where
  "para_attempt e j slave = (\<lambda>(s, ins). do {
     s \<leftarrow> rtu_set_actuator_param e j slave s;
     (rc, msg) \<leftarrow> actuator_receive (next_chunks ins);
     Some (para_accepted slave rc msg, s, drop 1 ins) })"

definition data_attempt :: "env \<Rightarrow> actuator \<Rightarrow> u16 \<Rightarrow> bus \<Rightarrow> (bool \<times> bus) option" where
  "data_attempt e a well = (\<lambda>(s, ins). do {
     s \<leftarrow> rtu_equ_actuator_data e (slave_no a) s;
     (rc, msg) \<leftarrow> actuator_receive (next_chunks ins);
     if data_accepted (slave_no a) rc msg
     then do { s \<leftarrow> store_actuator e a well msg s; Some (True, s, drop 1 ins) }
     else Some (False, s, drop 1 ins) })"

definition deal_actuator :: "env \<Rightarrow> junk \<Rightarrow> actuator \<Rightarrow> bus \<Rightarrow> (int \<times> bus) option" where
  "deal_actuator e j a b = do {
     well \<leftarrow> read_register e (fst b) (junk_well j) 1 ACTUATOR_WELL_NO_ADDR;
     (ok, b) \<leftarrow> attempts RESEND_ACT_NUM (para_attempt e j (slave_no a)) b;
     if \<not> ok then Some (-1, b)
     else do {
       (ok, b) \<leftarrow> attempts RESEND_ACT_NUM (data_attempt e a well) b;
       Some (if ok then 0 else -1, b) } }"

definition deal_wired_actuator :: "env \<Rightarrow> junk \<Rightarrow> bus \<Rightarrow> (int \<times> bus) option" where
  "deal_wired_actuator e j b = do {
     (rc0, b) \<leftarrow> deal_actuator e j actuator1 b;
     (rc1, b) \<leftarrow> deal_actuator e j actuator2 b;
     Some (if rc0 = -1 \<and> rc1 = -1 then -1 else 0, b) }"

end
