(* ===== verification/Electrical.thy ===== *)
theory Electrical
  imports Actuator Modbus "HOL-Library.Signed_Division"
begin

text \<open>
  The wired electricity meter of \<^verbatim>\<open>meter/wired_electrical_param.c\<close>, which the RS485
  master polls over Modbus: four requests of three attempts each and the calculation of twelve
  values, and the sampling of currents and powers along one pump stroke. A call of
  \<^verbatim>\<open>gettimeofday\<close> takes the next reading of a list; when the list ends the program waits
  for ever. The lines written to the log are left out, and so are the pauses between the attempts.
\<close>

section \<open>Calls on the bus\<close>

definition ELEC_WELL_NO_ADDR :: nat where "ELEC_WELL_NO_ADDR = 17"
definition ELEC_VOLTAGE_RATE_ADDR :: nat where "ELEC_VOLTAGE_RATE_ADDR = 1797"
definition ELEC_CURRENT_RATE_ADDR :: nat where "ELEC_CURRENT_RATE_ADDR = 1798"
definition ADDR_ELECTRICAL_SET_SCALE :: int where "ADDR_ELECTRICAL_SET_SCALE = 2"
definition NUM_ELECTRICAL_SET_SCALE :: int where "NUM_ELECTRICAL_SET_SCALE = 2"
definition ADDR_ELECTRICAL_SET_RATIO :: int where "ADDR_ELECTRICAL_SET_RATIO = 5"
definition NUM_ELECTRICAL_SET_RATIO :: int where "NUM_ELECTRICAL_SET_RATIO = 2"
definition ADDR_ELECTRICAL_QUANTITY :: int where "ADDR_ELECTRICAL_QUANTITY = 12"
definition NUM_ELECTRICAL_QUANTITY :: int where "NUM_ELECTRICAL_QUANTITY = 4"
definition ADDR_ELECTRICAL_PARAM :: int where "ADDR_ELECTRICAL_PARAM = 64"
definition NUM_ELECTRICAL_PARAM :: int where "NUM_ELECTRICAL_PARAM = 10"
definition ADDR_ELECTRICAL_PARAM_SYNC :: int where "ADDR_ELECTRICAL_PARAM_SYNC = 67"
definition NUM_ELECTRICAL_PARAM_SYNC :: int where "NUM_ELECTRICAL_PARAM_SYNC = 4"

lemmas wired_elec_addrs = ELEC_WELL_NO_ADDR_def ELEC_VOLTAGE_RATE_ADDR_def ELEC_CURRENT_RATE_ADDR_def
lemmas wired_elec_requests = ADDR_ELECTRICAL_SET_SCALE_def NUM_ELECTRICAL_SET_SCALE_def
  ADDR_ELECTRICAL_SET_RATIO_def NUM_ELECTRICAL_SET_RATIO_def ADDR_ELECTRICAL_QUANTITY_def
  NUM_ELECTRICAL_QUANTITY_def ADDR_ELECTRICAL_PARAM_def NUM_ELECTRICAL_PARAM_def
  ADDR_ELECTRICAL_PARAM_SYNC_def NUM_ELECTRICAL_PARAM_SYNC_def

text \<open>\<^verbatim>\<open>_modbus_set_slave\<close> of the serial line keeps the old slave when it refuses.\<close>

definition modbus_set_slave :: "int \<Rightarrow> ctx \<Rightarrow> int \<times> ctx" where
  "modbus_set_slave slave c = (if 0 \<le> slave \<and> slave \<le> 247 then (0, c\<lparr>ctx_slave := slave\<rparr>) else (-1, c))"

text \<open>
  What the bus gives to one Modbus call: the results of \<^verbatim>\<open>send\<close> and the chunks received.
  A call for which there is nothing fails to send.
\<close>

type_synonym exchange = "int list \<times> u8 list list"

definition next_exchange :: "exchange list \<Rightarrow> exchange" where
  "next_exchange xs = (case xs of [] \<Rightarrow> ([-1], []) | x # _ \<Rightarrow> x)"

text \<open>The device, what the bus will give, and the buffer of the caller.\<close>

type_synonym wire = "u16 list \<times> rtu \<times> exchange list"

definition read_call :: "ctx \<Rightarrow> int \<Rightarrow> int \<Rightarrow> wire \<Rightarrow> (int \<times> wire) option" where
  "read_call c addr nb = (\<lambda>(buf, s, xs). do {
     let (sends, chunks) = next_exchange xs;
     (ans, buf, sent) \<leftarrow> modbus_read_registers c addr nb buf sends chunks;
     Some (answer_rc ans, buf, emit (SerialWrite PORT_RS485_MASTER sent) s, drop 1 xs) })"

definition write_call :: "ctx \<Rightarrow> int \<Rightarrow> int \<Rightarrow> wire \<Rightarrow> (int \<times> wire) option" where
  "write_call c addr nb = (\<lambda>(buf, s, xs). do {
     let (sends, chunks) = next_exchange xs;
     (ans, sent) \<leftarrow> modbus_write_registers c addr nb buf sends chunks;
     Some (answer_rc ans, buf, emit (SerialWrite PORT_RS485_MASTER sent) s, drop 1 xs) })"

text \<open>\<^verbatim>\<open>do ... while (-1 == rc \<and> read_cnt < n)\<close>\<close>

fun repeat_call :: "nat \<Rightarrow> ('s \<Rightarrow> (int \<times> 's) option) \<Rightarrow> 's \<Rightarrow> (int \<times> 's) option" where
  "repeat_call 0 call s = Some (-1, s)"
| "repeat_call (Suc n) call s =
     do { (rc, s) \<leftarrow> call s; if rc = -1 then repeat_call n call s else Some (rc, s) }"

section \<open>The values\<close>

text \<open>Integers as floats; products and quotients in single and double precision as in C.\<close>

definition float_of :: "int \<Rightarrow> fp" where "float_of k = fp_conv round32 (fp_of_int k)"

definition float_times :: "fp \<Rightarrow> int list \<Rightarrow> fp" where
  "float_times x ks = foldl (\<lambda>x k. fp_mul round32 x (float_of k)) x ks"

definition float_over :: "fp \<Rightarrow> int \<Rightarrow> fp" where
  "float_over x d = fp_conv round32 (fp_div round64 x (fp_of_int d))"

text \<open>What the four requests bring: scales, ratios, parameters, energies, and the last result.\<close>

record elec_reading =
  elec_u0 :: u16
  elec_i0 :: u16
  elec_upp :: u16
  elec_ipp :: u16
  elec_param :: "u16 list"
  elec_quantity :: "u16 list"
  elec_rc :: int

definition electrical_param_result :: "elec_reading \<Rightarrow> fp list" where
  "electrical_param_result r =
     (let p = (\<lambda>k. float_of (sint (elec_param r ! k))); quantity = elec_quantity r;
          voltage = [uint (elec_u0 r), uint (elec_upp r)]; current = [uint (elec_i0 r), uint (elec_ipp r)]
      in map (\<lambda>k. float_over (float_times (p (k + 3)) current) 10000) [0, 1, 2] @
         map (\<lambda>k. float_over (float_times (p k) voltage) 10000) [0, 1, 2] @
         map (\<lambda>w. float_over (float_times (float_of (uint w)) (voltage @ current)) 10800000)
           [BUILD_UINT322 (quantity ! 1) (quantity ! 0), BUILD_UINT322 (quantity ! 3) (quantity ! 2)] @
         map (\<lambda>k. float_over (float_over (float_times (p k) (voltage @ current @ [3])) 10000) 1000) [6, 7, 8] @
         [float_over (p 9) 10000])"

definition electrical_registers :: "fp list \<Rightarrow> u16 list" where
  "electrical_registers rs = concat (map (\<lambda>r. u32_u16s (swap_stor_float_seq (encode32 r))) rs)"

section \<open>Polling the meter\<close>

text \<open>What uninitialised locals hold.\<close>

record elec_junk =
  junk_elec_well :: u16
  junk_quantity :: "u16 list"
  junk_param :: "u16 list"

text \<open>The four requests; a ratio that is too large counts as 1.\<close>

definition sane_ratio :: "u16 \<Rightarrow> u16 \<Rightarrow> u16" where
  "sane_ratio limit v = (if v > limit then 1 else v)"

definition elec_requests ::
  "env \<Rightarrow> elec_junk \<Rightarrow> ctx \<Rightarrow> nat \<Rightarrow> rtu \<times> exchange list \<Rightarrow> (elec_reading option \<times> rtu \<times> exchange list) option" where
  "elec_requests e j c well_no = (\<lambda>(s, xs). do {
     (rc, q, s, xs) \<leftarrow> repeat_call 3 (read_call c ADDR_ELECTRICAL_SET_SCALE NUM_ELECTRICAL_SET_SCALE) (junk_quantity j, s, xs);
     if rc = -1 then Some (None, s, xs) else do {
     let u0 = q ! 0;
     let i0 = q ! 1 div 10;
     upp \<leftarrow> read_register e s 1 well_no ELEC_VOLTAGE_RATE_ADDR;
     ipp \<leftarrow> read_register e s 40 well_no ELEC_CURRENT_RATE_ADDR;
     let upp = sane_ratio 5000 upp;
     let ipp = sane_ratio 1000 ipp;
     (rc, q, s, xs) \<leftarrow> repeat_call 3 (write_call c ADDR_ELECTRICAL_SET_RATIO NUM_ELECTRICAL_SET_RATIO) (q[0 := upp, 1 := ipp], s, xs);
     if rc = -1 then Some (None, s, xs) else do {
     (rc, q, s, xs) \<leftarrow> repeat_call 3 (read_call c ADDR_ELECTRICAL_QUANTITY NUM_ELECTRICAL_QUANTITY) (q, s, xs);
     if rc = -1 then Some (None, s, xs) else do {
     (rc, p, s, xs) \<leftarrow> repeat_call 3 (read_call c ADDR_ELECTRICAL_PARAM NUM_ELECTRICAL_PARAM) (junk_param j, s, xs);
     if rc = -1 then Some (None, s, xs)
     else Some (Some \<lparr>elec_u0 = u0, elec_i0 = i0, elec_upp = upp, elec_ipp = ipp, elec_param = p,
                      elec_quantity = q, elec_rc = rc\<rparr>, s, xs) } } } })"

text \<open>
  The well number of register 17 reaches \<^verbatim>\<open>ctx->slave\<close> only up to 247; what is checked is
  the slave.
\<close>

definition deal_wired_electrical ::
  "env \<Rightarrow> elec_junk \<Rightarrow> ctx \<times> rtu \<times> exchange list \<Rightarrow> (int \<times> ctx \<times> rtu \<times> exchange list) option" where
  "deal_wired_electrical e j = (\<lambda>(c, s, xs). do {
     well \<leftarrow> read_register e s (junk_elec_well j) 1 ELEC_WELL_NO_ADDR;
     let well_no = unat well;
     let c = snd (modbus_set_slave (uint well) c);
     if ctx_slave c \<ge> int RTU_MAX_WELL_NUM \<or> ctx_slave c < 1 then Some (-1, c, s, xs)
     else do {
       (r, s, xs) \<leftarrow> elec_requests e j c well_no (s, xs);
       case r of
         None \<Rightarrow> Some (-1, c, s, xs)
       | Some r \<Rightarrow>
           if well_no < 1 \<or> well_no > RTU_MAX_WELL_NUM then None
           else do {
             let s = set_sample_time e (well_no - 1) ELECTRICAL_PARAMETER_NO s;
             s \<leftarrow> write_registers e (electrical_registers (electrical_param_result r)) well_no ELEC_CURRENT_RTDATA_ADDR s;
             s \<leftarrow> save_time_register e well_no ELEC_TIME_ADDR s;
             Some (elec_rc r, c, s\<lparr>elec_param_meter_mac := (elec_param_meter_mac s)(nat (ctx_slave c) - 1 := replicate 10 0)\<rparr>, xs) } } })"

section \<open>Sampling one stroke\<close>

text \<open>
  A time of \<^verbatim>\<open>struct timeval\<close>, not normalised. Times are compared in milliseconds, in
  the 32 bits of a \<^verbatim>\<open>long\<close> of the target, as the processor calculates them.
\<close>

type_synonym timeval = "int \<times> int"

definition milliseconds :: "timeval \<Rightarrow> int" where
  "milliseconds t = sint (word_of_int (fst t * 1000 + snd t div 1000) :: u32)"

definition later :: "nat \<Rightarrow> nat \<Rightarrow> timeval \<Rightarrow> timeval" where
  "later sec usec t = (fst t + int sec, snd t + int usec)"

fun timer_sleep :: "timeval \<Rightarrow> timeval list \<Rightarrow> timeval list option" where
  "timer_sleep t [] = None"
| "timer_sleep t (c # cs) = (if milliseconds c > milliseconds t then Some cs else timer_sleep t cs)"

text \<open>
  The state of the sampling loop: the 250 currents and 250 powers, the time of the next sample, the
  samples taken and the failures in a row.
\<close>

record sync =
  syn_data :: "u16 list"
  syn_t0 :: timeval
  syn_i :: nat
  read_cnt :: nat

definition store_sample :: "u16 list \<Rightarrow> nat \<Rightarrow> sync \<Rightarrow> sync" where
  "store_sample q step_tm y =
     y\<lparr>syn_data := (syn_data y)[syn_i y mod 250 := q ! 0, syn_i y mod 250 + 250 := q ! 3],
       syn_t0 := later (step_tm div 1000) (step_tm mod 1000 * 1000) (syn_t0 y),
       syn_i := Suc (syn_i y), read_cnt := 0\<rparr>"

text \<open>
  The loop: when the stroke is over it ends with the number of samples taken, unless they are less
  than half of the points; after the sixth failure in a row it gives up.
\<close>

type_synonym sync_world = "rtu \<times> exchange list \<times> timeval list"

function sync_loop ::
  "ctx \<Rightarrow> u16 list \<Rightarrow> nat \<Rightarrow> nat \<Rightarrow> nat \<Rightarrow> timeval \<Rightarrow> sync \<Rightarrow> sync_world \<Rightarrow> ((nat \<times> sync) option \<times> sync_world) option" where
  "sync_loop c junk n m step_tm t1 y (s, xs, ts) =
     (if syn_i y \<ge> n then Some (Some (n, y), s, xs, ts)
      else case ts of
        [] \<Rightarrow> None
      | now # ts \<Rightarrow>
          if milliseconds now > milliseconds t1
          then Some (if syn_i y < m div 2 then None else Some (syn_i y, y), s, xs, ts)
          else case read_call c ADDR_ELECTRICAL_PARAM_SYNC NUM_ELECTRICAL_PARAM_SYNC (junk, s, xs) of
            None \<Rightarrow> None
          | Some (rc, q, s, xs) \<Rightarrow>
              if rc = -1 then
                if Suc (read_cnt y) > 5 then Some (None, s, xs, ts)
                else sync_loop c q n m step_tm t1 (y\<lparr>read_cnt := Suc (read_cnt y)\<rparr>) (s, xs, ts)
              else case timer_sleep (syn_t0 (store_sample q step_tm y)) ts of
                None \<Rightarrow> None
              | Some ts \<Rightarrow> sync_loop c q n m step_tm t1 (store_sample q step_tm y) (s, xs, ts))"
  by pat_completeness auto

termination
  by (relation "measures [\<lambda>(c, junk, n, m, step_tm, t1, y, w). n - syn_i y,
        \<lambda>(c, junk, n, m, step_tm, t1, y, w). 6 - read_cnt y]")
    (auto simp: store_sample_def)

text \<open>
  Missing samples. \<^verbatim>\<open>buff_backward\<close> moves \<open>len\<close> halfwords from index \<open>k\<close> on by one; it
  writes index \<open>k + len\<close>.
\<close>

definition buff_backward :: "nat \<Rightarrow> nat \<Rightarrow> u16 list \<Rightarrow> u16 list option" where
  "buff_backward k len d =
     (if len \<le> 1 then Some d
      else if k + len \<ge> length d then None
      else Some (take (Suc k) d @ take len (drop k d) @ drop (Suc (k + len)) d))"

definition mean :: "u16 \<Rightarrow> u16 \<Rightarrow> u16" where
  "mean a b = word_of_int ((sint a + sint b) sdiv 2)"

text \<open>A sample at index \<open>k\<close> from its neighbours; the last one takes the first of its block.\<close>

definition interpolate :: "nat \<Rightarrow> nat \<Rightarrow> bool \<Rightarrow> u16 list \<Rightarrow> u16 list option" where
  "interpolate block pos last_one d =
     (let k = block + pos; right = (if last_one then block else k + 1) in
      if k < 1 \<or> right \<ge> length d then None else Some (d[k := mean (d ! (k - 1)) (d ! right)]))"

fun insert_samples :: "nat \<Rightarrow> nat \<Rightarrow> nat \<Rightarrow> nat \<Rightarrow> u16 list \<Rightarrow> u16 list option" where
  "insert_samples m insert_step move_pos 0 d = Some d"
| "insert_samples m insert_step move_pos (Suc r) d = do {
     let pos = move_pos mod 250;
     d \<leftarrow> buff_backward pos (m - move_pos) d;
     d \<leftarrow> buff_backward (pos + 250) (m - move_pos) d;
     d \<leftarrow> interpolate 0 pos (move_pos = m - 1) d;
     d \<leftarrow> interpolate 250 pos (move_pos = m - 1) d;
     insert_samples m insert_step (move_pos + insert_step) r d }"

text \<open>
  The points to take and the milliseconds between them, for a stroke of \<open>tm\<close> hundredths and \<open>n\<close>
  points, at most 250. The milliseconds are kept in 16 bits.
\<close>

definition sync_steps :: "nat \<Rightarrow> nat \<Rightarrow> nat \<times> nat" where
  "sync_steps tm n = (let step_tm = tm * 10 div n mod 65536 in if step_tm < 100 then (tm * 10 div 100, 100) else (n, step_tm))"

definition time_handle_fun ::
  "env \<Rightarrow> elec_junk \<Rightarrow> u16 list \<Rightarrow> ctx \<times> sync_world \<Rightarrow> (int \<times> ctx \<times> sync_world) option" where
  "time_handle_fun e j info = (\<lambda>(c, s, xs, ts). do {
     well \<leftarrow> read_register e s (junk_elec_well j) 1 ELEC_WELL_NO_ADDR;
     let c = snd (modbus_set_slave (uint well) c);
     let tm = unat (info ! 1);
     let tm_first = (tm div 2 + unat (info ! 0)) mod 65536;
     case ts of
       [] \<Rightarrow> None
     | now # ts \<Rightarrow>
         if tm < 1000 \<or> tm > 10000 then Some (-1, c, s, xs, ts)
         else do {
           let t0 = later (tm_first div 100) (tm_first * 10 mod 1000 * 1000) now;
           let m = min (unat (info ! 2)) 250;
           if m = 0 then None
           else do {
             let (n, step_tm) = sync_steps tm m;
             ts \<leftarrow> timer_sleep t0 ts;
             let t1 = later (tm div 100) (tm * 10 mod 1000 * 1000) t0;
             (r, s, xs, ts) \<leftarrow> sync_loop c (junk_quantity j) n m step_tm t1
               \<lparr>syn_data = replicate 500 0xFFFF, syn_t0 = t0, syn_i = 0, read_cnt = 0\<rparr> (s, xs, ts);
             case r of
               None \<Rightarrow> Some (-1, c, s, xs, ts)
             | Some (n, y) \<Rightarrow> do {
                 d \<leftarrow> (if n < m then insert_samples m (m div (m - n)) (m div (m - n) - 1) (m - n) (syn_data y)
                      else Some (syn_data y));
                 s \<leftarrow> write_registers e d (unat well) ELEC_CYCLE_CURRENT_ADDR s;
                 s \<leftarrow> save_time_register e (unat well) ELEC_CYCLE_TIME_ADDR s;
                 Some (0, c, s, xs, ts) } } } })"

end
