(* ===== verification/Master485.thy ===== *)
theory Master485
  imports Electrical Threads
begin

text \<open>
  The RS485 master of \<^verbatim>\<open>modbus_485/modbus485_master.c\<close>: its start, its message handler
  and the rounds of its loop, with the dispatcher of \<^verbatim>\<open>meter/wired_meter.c\<close>, which
  polls the electricity meter, the actuators, or samples a stroke. Reading the configuration text
  and opening the serial line are left out; what the text says is an argument.
\<close>

section \<open>Serial ports\<close>

record port =
  port_rate :: int
  data_flag :: int
  stop_flag :: int
  ver_flag :: char

definition DEFAULT_PORT :: "int \<Rightarrow> port" where
  "DEFAULT_PORT rate = \<lparr>port_rate = rate, data_flag = 8, stop_flag = 1, ver_flag = CHR ''N''\<rparr>"

text \<open>A value outside the cases of a \<^verbatim>\<open>switch\<close> leaves what was there.\<close>

definition port_case :: "(u16 \<times> 'a) list \<Rightarrow> u16 \<Rightarrow> 'a \<Rightarrow> 'a" where
  "port_case cases v old = (case map_of cases v of Some x \<Rightarrow> x | None \<Rightarrow> old)"

definition init_port_info :: "u16 list \<Rightarrow> port \<Rightarrow> port" where
  "init_port_info info p =
     p\<lparr>port_rate := port_case [(0, 1200), (1, 2400), (2, 4800), (3, 9600), (4, 19200), (5, 38400), (6, 57600)]
                     (info ! 0) (port_rate p),
       data_flag := port_case [(0, 7), (1, 8)] (info ! 1) (data_flag p),
       stop_flag := port_case [(0, 1), (1, 2)] (info ! 2) (stop_flag p),
       ver_flag := port_case [(0, CHR ''N''), (1, CHR ''E''), (2, CHR ''O'')] (info ! 3) (ver_flag p)\<rparr>"

definition modbus_new_rtu :: ctx where
  "modbus_new_rtu = \<lparr>backend_of = Backend_rtu, ctx_slave = -1, error_recovery_link = False, t_id = 0\<rparr>"

definition MAP_ADDR_RS485_MASTER_SERIAL_PORT :: nat where "MAP_ADDR_RS485_MASTER_SERIAL_PORT = 171"

section \<open>The state of the thread\<close>

definition MASTER_485_CTRL_DEFAULT :: u8 where "MASTER_485_CTRL_DEFAULT = 0"
definition MASTER_485_CTRL_ELECTRICAL :: u8 where "MASTER_485_CTRL_ELECTRICAL = 1"
definition MASTER_485_CTRL_ACTUATOR :: u8 where "MASTER_485_CTRL_ACTUATOR = 2"
definition MASTER_485_CTRL_ELECTRICAL_SYNC :: u8 where "MASTER_485_CTRL_ELECTRICAL_SYNC = 3"

lemmas ctrl_codes = MASTER_485_CTRL_DEFAULT_def MASTER_485_CTRL_ELECTRICAL_def
  MASTER_485_CTRL_ACTUATOR_def MASTER_485_CTRL_ELECTRICAL_SYNC_def

text \<open>
  The local variables. Messages are received into the buffer of the context while a function of
  libmodbus waits for the line, and into the one of the thread between the polls.
\<close>

record master =
  master_ctx :: ctx
  master_port :: port
  port_info :: "u16 list"
  master_485_ctrl :: u8
  elec_time :: u32
  elec_interval :: u16
  act_time :: u32
  act_interval :: u16
  syn_along_info :: "u16 list"
  ctx_msgbuf :: "u16 list"
  client_msgbuf :: "u16 list"

text \<open>What uninitialised memory holds.\<close>

record master_junk =
  junk_msgbuf :: "u16 list"
  junk_number :: u16
  junk_elec :: elec_junk
  junk_act :: junk

definition sane_interval :: "u16 \<Rightarrow> u16" where
  "sane_interval v = (if v > 600 \<or> v < 10 then 30 else v)"

definition read_intervals :: "env \<Rightarrow> master_junk \<Rightarrow> rtu \<Rightarrow> master \<Rightarrow> master option" where
  "read_intervals e j s m = do {
     actuator_well_no \<leftarrow> read_register e s (junk_number j) 1 ACTUATOR_WELL_NO_ADDR;
     electrical_well_no \<leftarrow> read_register e s (junk_number j) 1 ELEC_WELL_NO_ADDR;
     el \<leftarrow> read_register e s (elec_interval m) (unat electrical_well_no) ELEC_INTERVAL_ADDR;
     act \<leftarrow> read_register e s (act_interval m) (unat actuator_well_no) ACTUATOR_INTERVAL_ADDR;
     Some (m\<lparr>elec_interval := sane_interval el, act_interval := sane_interval act\<rparr>) }"

text \<open>A message overwrites the beginning of a buffer.\<close>

definition filled :: "u16 list \<Rightarrow> u16 list \<Rightarrow> u16 list" where
  "filled msg buf = msg @ drop (length msg) buf"

definition config_start :: "env \<Rightarrow> master_junk \<Rightarrow> rtu \<Rightarrow> master \<Rightarrow> (int \<times> master) option" where
  "config_start e j s m = do {
     (_, info) \<leftarrow> zigbee_read_registers e s (port_info m) 5 1 (int MAP_ADDR_RS485_MASTER_SERIAL_PORT);
     let p = init_port_info info (DEFAULT_PORT 9600);
     let m = m\<lparr>port_info := info\<rparr>;
     if p = master_port m then Some (-1, m)
     else Some (0, m\<lparr>master_port := p, master_ctx := snd (modbus_set_slave 1 modbus_new_rtu),
                     ctx_msgbuf := junk_msgbuf j\<rparr>) }"

text \<open>The command is the \<^verbatim>\<open>int\<close> of the first two halfwords.\<close>

definition msg_handler :: "env \<Rightarrow> master_junk \<Rightarrow> rtu \<Rightarrow> u16 list \<Rightarrow> master \<Rightarrow> (int \<times> master) option" where
  "msg_handler e j s buf m =
     (if buf ! 1 \<noteq> 0 then Some (0, m)
      else if buf ! 0 = MSG_CONFIG_START then config_start e j s m
      else if buf ! 0 = MSG_CONFIG2_START then do { m \<leftarrow> read_intervals e j s m; Some (0, m) }
      else if buf ! 0 = MSG_LOAD_ELEC_SYSN then
        Some (0, m\<lparr>master_485_ctrl := MASTER_485_CTRL_ELECTRICAL_SYNC, syn_along_info := take 3 (drop 2 buf)\<rparr>)
      else Some (0, m))"

section \<open>Polling\<close>

text \<open>
  What the outside does in one round: the message that is waiting between the polls, what the bus
  gives to the Modbus calls and to the actuators, the readings of the clock, and the messages that
  come while the line is being waited for.
\<close>

record turn =
  waiting :: "u16 list option"
  exchanges :: "exchange list"
  clock :: "timeval list"
  answers_of :: "u8 list list list"
  during :: "u16 list list"

text \<open>
  The messages during a poll are handled here when it is over: none of the polls reads again what
  the handler changes, apart from the context. A change of the port frees the context that the poll
  still uses, which is undefined.
\<close>

fun handle_during :: "env \<Rightarrow> master_junk \<Rightarrow> rtu \<Rightarrow> u16 list list \<Rightarrow> master \<Rightarrow> master option" where
  "handle_during e j s [] m = Some m"
| "handle_during e j s (msg # msgs) m = do {
     let buf = filled msg (ctx_msgbuf m);
     (_, m') \<leftarrow> msg_handler e j s buf (m\<lparr>ctx_msgbuf := buf\<rparr>);
     if master_port m' \<noteq> master_port m then None else handle_during e j s msgs m' }"

definition poll :: "env \<Rightarrow> master_junk \<Rightarrow> turn \<Rightarrow> master \<Rightarrow> rtu \<Rightarrow> (int \<times> master \<times> rtu) option" where
  "poll e j t m s =
     (if master_485_ctrl m = MASTER_485_CTRL_ELECTRICAL_SYNC then do {
        (rc, c, s, _) \<leftarrow> time_handle_fun e (junk_elec j) (syn_along_info m) (master_ctx m, s, exchanges t, clock t);
        Some (rc, m\<lparr>master_ctx := c\<rparr>, s) }
      else if master_485_ctrl m = MASTER_485_CTRL_ELECTRICAL then do {
        (rc, c, s, _) \<leftarrow> deal_wired_electrical e (junk_elec j) (master_ctx m, s, exchanges t);
        Some (rc, m\<lparr>master_ctx := c\<rparr>, s) }
      else do {
        (rc, s, _) \<leftarrow> deal_wired_actuator e (junk_act j) (s, answers_of t);
        Some (rc, m, s) })"

definition deal_master_485_packet ::
  "env \<Rightarrow> master_junk \<Rightarrow> turn \<Rightarrow> master \<Rightarrow> rtu \<Rightarrow> (int \<times> master \<times> rtu) option" where
  "deal_master_485_packet e j t m s =
     (let ctrl = master_485_ctrl m in
      if ctrl = MASTER_485_CTRL_ELECTRICAL_SYNC \<or> ctrl = MASTER_485_CTRL_ELECTRICAL \<or> ctrl = MASTER_485_CTRL_ACTUATOR
      then do {
        (rc, m, s) \<leftarrow> poll e j t m s;
        m \<leftarrow> handle_during e j s (during t) m;
        Some (rc, if master_485_ctrl m = ctrl then m\<lparr>master_485_ctrl := MASTER_485_CTRL_DEFAULT\<rparr> else m, s) }
      else Some (-1, m\<lparr>master_485_ctrl := MASTER_485_CTRL_DEFAULT\<rparr>, s))"

section \<open>The loop\<close>

text \<open>A message is waited for, at most five seconds, unless a stroke is to be sampled.\<close>

definition wait_message :: "env \<Rightarrow> master_junk \<Rightarrow> turn \<Rightarrow> rtu \<Rightarrow> master \<Rightarrow> master option" where
  "wait_message e j t s m =
     (if master_485_ctrl m = MASTER_485_CTRL_ELECTRICAL_SYNC then Some m
      else case waiting t of
        None \<Rightarrow> Some m
      | Some msg \<Rightarrow> do {
          let buf = filled msg (client_msgbuf m);
          (_, m) \<leftarrow> msg_handler e j s buf (m\<lparr>client_msgbuf := buf\<rparr>);
          Some m })"

text \<open>The difference of times is one of 32 bits without sign.\<close>

definition due :: "u32 \<Rightarrow> u32 \<Rightarrow> u16 \<Rightarrow> bool" where
  "due now last_time interval \<longleftrightarrow> unat (now - last_time) > unat interval"

definition choose_poll :: "u32 \<Rightarrow> master \<Rightarrow> master" where
  "choose_poll now m =
     (if due now (elec_time m) (elec_interval m) \<and> master_485_ctrl m = MASTER_485_CTRL_DEFAULT
      then m\<lparr>elec_time := now, master_485_ctrl := MASTER_485_CTRL_ELECTRICAL\<rparr>
      else if due now (act_time m) (act_interval m) \<and> master_485_ctrl m = MASTER_485_CTRL_DEFAULT
      then m\<lparr>act_time := now, master_485_ctrl := MASTER_485_CTRL_ACTUATOR\<rparr>
      else m)"

definition master_round :: "env \<Rightarrow> master_junk \<Rightarrow> turn \<Rightarrow> master \<times> rtu \<Rightarrow> (master \<times> rtu) option" where
  "master_round e j t = (\<lambda>(m, s). do {
     let s = update_thread_time e (int THREAD_RS485_MASTER) s;
     m \<leftarrow> wait_message e j t s m;
     (rc, m, s) \<leftarrow> deal_master_485_packet e j t (choose_poll (time_now e) m) s;
     Some (m, if rc = -1 then s else update_thread_com_time e (int THREAD_RS485_MASTER) s) })"

text \<open>The start, with the rate of the configuration text.\<close>

definition master_start :: "env \<Rightarrow> master_junk \<Rightarrow> u16 list \<Rightarrow> u16 list \<Rightarrow> int \<Rightarrow> rtu \<Rightarrow> master option" where
  "master_start e j old_info old_syn rate s = do {
     (_, info) \<leftarrow> zigbee_read_registers e s old_info 5 1 (int MAP_ADDR_RS485_MASTER_SERIAL_PORT);
     read_intervals e j s
       \<lparr>master_ctx = snd (modbus_set_slave 1 modbus_new_rtu), master_port = init_port_info info (DEFAULT_PORT rate),
        port_info = info, master_485_ctrl = 0, elec_time = 0, elec_interval = 0, act_time = 0, act_interval = 0,
        syn_along_info = old_syn, ctx_msgbuf = junk_msgbuf j, client_msgbuf = junk_msgbuf j\<rparr> }"

end
