(* ===== verification/Actuator_Facts.thy ===== *)
theory Actuator_Facts
  imports Diagram_Facts Actuator
begin

text \<open>
  What the dialogues of theory \<open>Actuator\<close> achieve: the messages that the receive routines of theory
  \<open>Receive\<close> deliver, the commands in bytes, the resends, the registers after an answer, and what
  happens when the well number is out of range.
\<close>

section \<open>The messages\<close>

text \<open>
  The message that a stream of bytes gives: five bytes with the length, the data, four bytes more;
  the sum of all but the last four is in the two before the last.
\<close>

definition actuator_message :: "u8 list \<Rightarrow> u8 list option" where
  "actuator_message bs =
     (let n = unat (bs ! 3) * 256 + unat (bs ! 4) + 9; m = take n bs in
      if length bs < 5 \<or> n > 256 \<or> length bs < n then None
      else if hd m = 0xCC \<and> sum_bytes (take (n - 4) m) = be16_at m (n - 4) then Some m else None)"

lemma be16_sum: "push_bit 8 (ucast a) + ucast b = (bytes_u16 b a :: u16)"
proof -
  have "push_bit 8 (ucast a) + ucast b = (push_bit 8 (ucast a) OR ucast b :: u16)"
    by (rule disjunctive_add) (auto simp: bit_simps)
  then show ?thesis by (simp add: bytes_u16_def or.commute)
qed

lemma actuator_receive_spec:
  "\<exists>rc msg. actuator_receive chunks = Some (rc, msg) \<and>
     (case actuator_message (stream_of chunks) of
        None \<Rightarrow> rc = -1
      | Some m \<Rightarrow> rc = int (length m) \<and> msg = m)"
proof -
  let ?bs = "stream_of chunks" and ?data = "compute_data_length_after_meta_actuator Backend_rtu MSG_TIMEOUT"
  define n where "n = unat (?bs ! 3) * 256 + unat (?bs ! 4) + 4"
  have r: "flatten (receive_msg_actuator Backend_rtu MSG_TIMEOUT chunks) =
      (if length ?bs < 5 \<or> n + 5 > 256 \<or> length ?bs < n + 5 then Flat_fail
       else Flat_done (take (n + 5) ?bs) (drop (n + 5) ?bs))"
  proof (cases "length ?bs < 5")
    case True
    then show ?thesis by (simp add: receive_msg_actuator_def receive_loop_flat flat_step_def)
  next
    case False
    then have "?data (take 5 ?bs) = Some n"
      by (simp add: compute_data_length_after_meta_actuator_def n_def min_def numeral_3_eq_3 [symmetric]
          eval_nat_numeral(2) [symmetric])
    moreover have "take (n + 5) ?bs = take 5 ?bs @ take n (drop 5 ?bs)"
      using take_add [of 5 n ?bs] by (simp add: add.commute)
    ultimately show ?thesis using False
      by (auto simp: receive_msg_actuator_def receive_loop_flat flat_step_def flat_data_def min_def)
  qed
  have c: "actuator_check_integrity (take (n + 5) ?bs) (n + 5) =
      Some (if sum_bytes (take (n + 1) ?bs) = be16_at ?bs (n + 1) \<and> hd ?bs = 0xCC then int (n + 5) else -1)"
    if "n + 5 \<le> 256" "n + 5 \<le> length ?bs"
  proof -
    have "unat (of_nat (n + 5 - 4) :: u16) = n + 1"
      using that by (subst unat_of_nat) (simp add: take_bit_nat_eq_self)
    then show ?thesis
      using that by (simp add: actuator_check_integrity_def sum16_def be16_sum be16_at_def min_def del: of_nat_Suc)
  qed
  have n: "unat (?bs ! 3) * 256 + unat (?bs ! 4) + 9 = n + 5" "n + 5 - 4 = n + 1" by (simp_all add: n_def)
  show ?thesis
  proof (cases "length ?bs < 5 \<or> n + 5 > 256 \<or> length ?bs < n + 5")
    case True
    then have "flatten (receive_msg_actuator Backend_rtu MSG_TIMEOUT chunks) = Flat_fail" unfolding r by simp
    then have "modbus_receive_actuator_timeout Backend_rtu chunks = Some (-1)"
      by (simp add: modbus_receive_actuator_timeout_def finish_flatten)
    then show ?thesis using True by (auto simp: actuator_receive_def actuator_message_def Let_def n)
  next
    case False
    let ?m = "take (n + 5) ?bs"
    have d: "flatten (receive_msg_actuator Backend_rtu MSG_TIMEOUT chunks) = Flat_done ?m (drop (n + 5) ?bs)"
      using False unfolding r by simp
    then obtain cs where "receive_msg_actuator Backend_rtu MSG_TIMEOUT chunks = Rx_done ?m cs"
      by (cases "receive_msg_actuator Backend_rtu MSG_TIMEOUT chunks") auto
    moreover have "modbus_receive_actuator_timeout Backend_rtu chunks =
        Some (if sum_bytes (take (n + 1) ?bs) = be16_at ?bs (n + 1) \<and> hd ?bs = 0xCC then int (n + 5) else -1)"
      using False c d by (simp add: modbus_receive_actuator_timeout_def finish_flatten)
    moreover have "be16_at ?m (n + 1) = be16_at ?bs (n + 1)" "hd ?m = hd ?bs" "length ?m = n + 5"
      using False by (auto simp: be16_at_def hd_conv_nth)
    ultimately show ?thesis
      using False by (auto simp: actuator_receive_def actuator_message_def Let_def n min_def)
  qed
qed

section \<open>Attempts\<close>

text \<open>
  What at most \<open>n\<close> attempts hear: how many it took, and the first message that fits.
\<close>

fun heard :: "nat \<Rightarrow> (u8 list \<Rightarrow> bool) \<Rightarrow> u8 list list list \<Rightarrow> nat \<times> u8 list option" where
  "heard 0 ok ins = (0, None)"
| "heard (Suc n) ok ins =
     (case actuator_message (stream_of (next_chunks ins)) of
        Some m \<Rightarrow> if ok m then (1, Some m) else map_prod Suc id (heard n ok (drop 1 ins))
      | None \<Rightarrow> map_prod Suc id (heard n ok (drop 1 ins)))"

definition sends :: "event \<Rightarrow> nat \<Rightarrow> rtu \<Rightarrow> rtu" where
  "sends ev k s = s\<lparr>out := out s @ replicate k ev\<rparr>"

lemma sends_simps [simp]:
  "sends ev 0 s = s" "sends ev k (emit ev s) = sends ev (Suc k) s" "mp (sends ev k s) = mp s"
  "out (sends ev k s) = out s @ replicate k ev"
  "meter_sample_time (sends ev k s) = meter_sample_time s" "sends ev (Suc 0) s = emit ev s"
  by (simp_all add: sends_def emit_def)

text \<open>
  A body that sends the same thing in every attempt, looks at one answer, and ends with \<open>g\<close> if
  it fits.
\<close>

lemma attempts_heard:
  assumes body: "\<And>s ins. mp s = m \<Longrightarrow> body (s, ins) =
      (case actuator_message (stream_of (next_chunks ins)) of
         Some msg \<Rightarrow> if ok msg then do { t \<leftarrow> g msg (emit ev s); Some (True, t, drop 1 ins) }
                    else Some (False, emit ev s, drop 1 ins)
       | None \<Rightarrow> Some (False, emit ev s, drop 1 ins))"
    and "mp s = m"
  shows "attempts n body (s, ins) =
    (case heard n ok ins of
       (k, None) \<Rightarrow> Some (False, sends ev k s, drop k ins)
     | (k, Some msg) \<Rightarrow> do { t \<leftarrow> g msg (sends ev k s); Some (True, t, drop k ins) })"
  using assms(2)
proof (induction n arbitrary: s ins)
  case (Suc n)
  have "mp (emit ev s) = m" using Suc.prems by (simp add: emit_def)
  note IH = Suc.IH [OF this, of "drop 1 ins"]
  show ?case
    using IH body [OF Suc.prems, of ins]
    by (cases "heard n ok (drop 1 ins)")
      (auto split: option.splits if_splits bind_splits simp: bind_eq_Some_conv)
qed simp

section \<open>The commands\<close>

definition be32 :: "u32 \<Rightarrow> u8 list" where
  "be32 w = [ucast (drop_bit 24 w), ucast (drop_bit 16 w), ucast (drop_bit 8 w), ucast w]"

definition command :: "u8 list \<Rightarrow> u8 list" where
  "command d = d @ be16 (sum_bytes d) @ [0xEE]"

lemma be32_swap: "u32_bytes (swap_int32 w) = be32 w"
proof -
  have "(ucast (swap_int32 w) :: u8) = ucast (drop_bit 24 w)"
    by (rule bit_word_eqI) (auto simp: bit_swap_int32 bit_simps add.commute)
  moreover have "(ucast (drop_bit 8 (swap_int32 w)) :: u8) = ucast (drop_bit 16 w)"
    by (rule bit_word_eqI) (auto simp: bit_swap_int32 bit_simps add.commute)
  moreover have "(ucast (drop_bit 16 (swap_int32 w)) :: u8) = ucast (drop_bit 8 w)"
    by (rule bit_word_eqI) (auto simp: bit_swap_int32 bit_simps add.commute)
  moreover have "(ucast (drop_bit 24 (swap_int32 w)) :: u8) = ucast w"
    by (rule bit_word_eqI) (auto simp: bit_swap_int32 bit_simps add.commute)
  ultimately show ?thesis by (simp add: be32_def u32_bytes_def)
qed

lemma sealed_command: "length d = unat len \<Longrightarrow> len \<noteq> 0 \<Longrightarrow> sealed_command d len = Some (command d)"
  by (simp add: sealed_command_def packet_sum_check_def command_def be16_swap)

lemma swap_register_u16s: "swap_register32 (u16s_u32 [a, b]) = u16s_u32 [b, a]"
  by (rule bit_word_eqI) (auto simp: u16s_u32_def bit_swap_register32 bit_simps)

text \<open>
  The command that sets the parameters: the daily quantity (two registers, high half first) in
  litres with the high byte first, accuracy and flag as bytes.
\<close>

definition para_command :: "map_t \<Rightarrow> nat \<Rightarrow> u8 \<Rightarrow> nat \<Rightarrow> u8 list" where
  "para_command m w slave base =
     command ([0xCC, slave, 2] @ be32 (1000 * u16s_u32 [reg m w (base + 2), reg m w (base + 1)]) @
       [ucast (reg m w (base + 3)), ucast (reg m w (base + 4)), 0])"

definition data_command :: "env \<Rightarrow> u8 \<Rightarrow> u8 list" where
  "data_command e slave = command ([0xCC, slave, 1] @ be32 (time_now e) @ replicate 6 0)"

lemma data_command_sent:
  "slave \<le> 2 \<Longrightarrow> rtu_equ_actuator_data e slave s =
     Some (emit (SerialWrite PORT_RS485_MASTER (data_command e slave)) s)"
  by (simp add: rtu_equ_actuator_data_def be32_swap sealed_command data_command_def linorder_not_less)
    (simp add: be32_def sealed_command)

text \<open>The wired well \<open>w\<close> is set, and the registers of the actuator are plain.\<close>

definition wired :: "env \<Rightarrow> nat \<Rightarrow> nat \<Rightarrow> rtu \<Rightarrow> bool" where
  "wired e w base s \<longleftrightarrow> reg_inv e w s \<and> 18 < x_max (mp s) \<and> kind_at (mp s) 1 18 \<noteq> MAP_SYS \<and>
     unat (reg (mp s) 1 18) = w \<and> base + 16 \<le> x_max (mp s) \<and> plain (mp s) w (base + 1) 15"

lemma wired_cong: "mp t = mp s \<Longrightarrow> wired e w base s \<Longrightarrow> wired e w base t"
  by (simp add: wired_def reg_inv_def)

lemma well_read:
  assumes "wired e w base s"
  shows "read_register e' s old 1 ACTUATOR_WELL_NO_ADDR = Some (reg (mp s) 1 18)"
  unfolding ACTUATOR_WELL_NO_ADDR_def
  by (rule read_register_plain [of e 1]) (use assms in \<open>auto simp: wired_def reg_inv_def\<close>)

lemma wired_read:
  assumes "wired e w base s" "1 \<le> k" "k \<le> 15"
  shows "read_register e' s old w (base + k) = Some (reg (mp s) w (base + k))"
  by (rule read_register_plain [of e]) (use assms in \<open>auto simp: wired_def plain_def\<close>)

lemma para_command_sent:
  assumes "wired e w base s" "slave = 1 \<and> base = 1870 \<or> slave = 2 \<and> base = 1885" "length (junk_perday j) = 2"
  shows "rtu_set_actuator_param e j slave s =
    Some (emit (SerialWrite PORT_RS485_MASTER (para_command (mp s) w slave base)) s)"
proof -
  obtain a b where j: "junk_perday j = [a, b]"
    using assms(3) by (auto simp: numeral_2_eq_2 length_Suc_conv)
  have iv: "map_wf (mp s)" "1 \<le> w" "w \<le> 8" "base + 16 \<le> x_max (mp s)" "plain (mp s) w (base + 1) 15"
    using assms(1) by (auto simp: wired_def reg_inv_def)
  have c: "read_cell e s w (base + k) old = Some (reg (mp s) w (base + k))" if "1 \<le> k" "k \<le> 15" for k old
    by (rule read_cell_plain) (use iv that in \<open>auto simp: plain_def\<close>)
  have "nat (1 + int base) = Suc base" by simp
  then have "zigbee_read_registers e s [a, b] 2 (int w) (int (base + 1)) =
      Some (0, [reg (mp s) w (base + 1), reg (mp s) w (base + 2)])"
    using iv(2-4) c [of 1] c [of 2]
    by (simp add: zigbee_read_registers_def args_ok_def map_sizes numeral_2_eq_2)
  moreover have "unat (reg (mp s) 1 18) = w" using assms(1) by (simp add: wired_def)
  moreover have "sealed_command ([0xCC, slave, 2] @ be32 p @ [x, y, 0]) 10 =
      Some (command ([0xCC, slave, 2] @ be32 p @ [x, y, 0]))" for p x y
    by (rule sealed_command) (simp_all add: be32_def)
  ultimately show ?thesis
    using assms(2) well_read [OF assms(1)] wired_read [OF assms(1), of 3] wired_read [OF assms(1), of 4]
    by (auto simp: rtu_set_actuator_param_def Let_def bus_addrs j be32_swap swap_register_u16s para_command_def)
qed

section \<open>The dialogues\<close>

text \<open>
  The answers an actuator may give: 10 bytes that accept the parameters, 39 bytes of data.
\<close>

definition para_ok :: "u8 \<Rightarrow> u8 list \<Rightarrow> bool" where
  "para_ok slave m \<longleftrightarrow> length m = 10 \<and> m ! 1 = slave \<and> m ! 2 = 2 \<and> m ! 5 = 1"

definition data_ok :: "u8 \<Rightarrow> u8 list \<Rightarrow> bool" where
  "data_ok slave m \<longleftrightarrow> length m = 39 \<and> m ! 1 = slave \<and> m ! 2 = 1 \<and> be16_at m 3 = 30"

text \<open>
  What a dialogue hears: how many calls it took for the parameters and then for the data, and the
  data.
\<close>

definition dialogue_heard :: "u8 \<Rightarrow> u8 list list list \<Rightarrow> nat \<times> nat \<times> u8 list option" where
  "dialogue_heard slave ins =
     (case heard 3 (para_ok slave) ins of
        (k, None) \<Rightarrow> (k, 0, None)
      | (k, Some _) \<Rightarrow> (case heard 3 (data_ok slave) (drop k ins) of (k', d) \<Rightarrow> (k, k', d)))"

lemma be16_at_swap: "swap_int16 (u16_at m i) = be16_at m i"
  by (rule bit_word_eqI) (auto simp: bit_swap_int16 be16_at_def u16_at_def bytes_u16_def bit_simps)

lemma answers_ok:
  "slave \<noteq> 0 \<Longrightarrow> \<not> para_accepted slave (-1) msg" "\<not> data_accepted slave (-1) msg"
  "para_accepted slave (int (length m)) m = para_ok slave m"
  "data_accepted slave (int (length m)) m = data_ok slave m"
  by (auto simp: para_accepted_def data_accepted_def para_ok_def data_ok_def be16_at_swap)

abbreviation para_event :: "rtu \<Rightarrow> nat \<Rightarrow> actuator \<Rightarrow> event" where
  "para_event s w a \<equiv> SerialWrite PORT_RS485_MASTER (para_command (mp s) w (slave_no a) (base_addr a))"

abbreviation data_event :: "env \<Rightarrow> actuator \<Rightarrow> event" where
  "data_event e a \<equiv> SerialWrite PORT_RS485_MASTER (data_command e (slave_no a))"

definition an_actuator :: "actuator \<Rightarrow> bool" where
  "an_actuator a \<longleftrightarrow> a = actuator1 \<or> a = actuator2"

lemma an_actuatorD:
  assumes "an_actuator a"
  shows "slave_no a = 1 \<and> base_addr a = 1870 \<or> slave_no a = 2 \<and> base_addr a = 1885"
    "slave_no a \<le> 2" "slave_no a \<noteq> 0"
  using assms by (auto simp: an_actuator_def actuator1_def actuator2_def bus_addrs)

lemma para_attempt_body:
  assumes "rtu_set_actuator_param e j slave t = Some (emit ev t)" "slave \<noteq> 0"
  shows "para_attempt e j slave (t, ins) =
    (case actuator_message (stream_of (next_chunks ins)) of
       Some msg \<Rightarrow> if para_ok slave msg then do { u \<leftarrow> Some (emit ev t); Some (True, u, drop 1 ins) }
                  else Some (False, emit ev t, drop 1 ins)
     | None \<Rightarrow> Some (False, emit ev t, drop 1 ins))"
proof -
  obtain rc msg where "actuator_receive (next_chunks ins) = Some (rc, msg)"
    "case actuator_message (stream_of (next_chunks ins)) of None \<Rightarrow> rc = -1
     | Some m \<Rightarrow> rc = int (length m) \<and> msg = m"
    using actuator_receive_spec by blast
  then show ?thesis using assms by (auto simp: para_attempt_def answers_ok split: option.splits)
qed

lemma para_attempts:
  assumes "wired e w (base_addr a) s" "an_actuator a" "length (junk_perday j) = 2"
  shows "attempts n (para_attempt e j (slave_no a)) (s, ins) =
    (case heard n (para_ok (slave_no a)) ins of
       (k, r) \<Rightarrow> Some (r \<noteq> None, sends (para_event s w a) k s, drop k ins))"
proof -
  have "rtu_set_actuator_param e j (slave_no a) t = Some (emit (para_event s w a) t)" if m: "mp t = mp s" for t
    using para_command_sent [OF wired_cong [OF m assms(1)] an_actuatorD(1) [OF assms(2)] assms(3)] m by simp
  note body = para_attempt_body [OF this an_actuatorD(3) [OF assms(2)]]
  show ?thesis
    using attempts_heard [where n = n and s = s and ins = ins and m = "mp s", OF body refl]
    by (auto split: prod.splits option.splits)
qed

lemma data_attempts:
  assumes "an_actuator a"
  shows "attempts n (data_attempt e a well) (s, ins) =
    (case heard n (data_ok (slave_no a)) ins of
       (k, None) \<Rightarrow> Some (False, sends (data_event e a) k s, drop k ins)
     | (k, Some m) \<Rightarrow> do { t \<leftarrow> store_actuator e a well m (sends (data_event e a) k s);
                           Some (True, t, drop k ins) })"
proof -
  let ?ok = "data_ok (slave_no a)" and ?ev = "data_event e a"
  have "data_attempt e a well (t, ins) =
      (case actuator_message (stream_of (next_chunks ins)) of
         Some msg \<Rightarrow> if ?ok msg then do { u \<leftarrow> store_actuator e a well msg (emit ?ev t); Some (True, u, drop 1 ins) }
                    else Some (False, emit ?ev t, drop 1 ins)
       | None \<Rightarrow> Some (False, emit ?ev t, drop 1 ins))" if "mp t = mp s" for t ins
  proof -
    obtain rc msg where "actuator_receive (next_chunks ins) = Some (rc, msg)"
      "case actuator_message (stream_of (next_chunks ins)) of None \<Rightarrow> rc = -1
       | Some m \<Rightarrow> rc = int (length m) \<and> msg = m"
      using actuator_receive_spec by blast
    then show ?thesis
      using data_command_sent [OF an_actuatorD(2) [OF assms]]
      by (auto simp: data_attempt_def answers_ok split: option.splits)
  qed
  from attempts_heard [where n = n and s = s and ins = ins and m = "mp s", OF this refl] show ?thesis .
qed

lemma actuator_blocks_plain:
  assumes "wired e w base s" shows "blocks_plain (mp s) w (actuator_blocks base m)"
  using assms
  by (auto simp: wired_def plain_def blocks_plain_def actuator_blocks_def bus_addrs u32_u16s_def)

lemma store_actuator_ready:
  assumes "wired e w (base_addr a) s" "unat well = w"
  shows "\<exists>t. store_actuator e a well m s = Some t \<and>
    mp t = store_blocks w (actuator_blocks (base_addr a) m) (mp s) \<and>
    out t = out s \<and> meter_sample_time t = (meter_sample_time s)(w - 1 := (meter_sample_time s (w - 1))(meter_no a := time_now e))"
proof -
  have w: "1 \<le> w" "w \<le> 8" using assms(1) by (auto simp: wired_def reg_inv_def)
  let ?u = "set_sample_time e (w - 1) (meter_no a) s"
  have "ready e w (actuator_blocks (base_addr a) m) ?u"
    using actuator_blocks_plain [OF assms(1)] assms(1)
    by (simp add: ready_def set_sample_time_def reg_inv_def wired_def)
  from write_blocks_ready [OF this] obtain t where
    "write_blocks e (actuator_blocks (base_addr a) m) w ?u = Some t"
    "mp t = store_blocks w (actuator_blocks (base_addr a) m) (mp ?u)" "same_rest ?u t" by blast
  then show ?thesis
    using w assms(2) same_rest_fields(1,2) [of ?u t]
    by (auto simp: store_actuator_def Let_def RTU_MAX_WELL_NUM_def nat_diff_distrib frame_simps set_sample_time_def)
qed


text \<open>
  C34. The dialogue with a wired actuator whose well number (register 18 of well 1) is 1 to 8. The
  parameters of the registers are sent up to three times until the actuator accepts them, then its
  data is asked for up to three times; every receive call belongs to one command. The result is 0
  exactly when an answer to both is heard, and then the nine values are in the registers of the well
  and no other register of it has changed, and the time of the sample is noted; otherwise no
  register changes.
\<close>

theorem actuator_dialogue:
  assumes "an_actuator a" "wired e w (base_addr a) s" "length (junk_perday j) = 2"
    and "dialogue_heard (slave_no a) ins = (k, k', d)"
  shows "\<exists>t. deal_actuator e j a (s, ins) = Some (if d = None then -1 else 0, t, drop (k + k') ins) \<and>
    out t = out s @ replicate k (para_event s w a) @ replicate k' (data_event e a) \<and>
    (\<forall>i<x_max (mp s). reg (mp t) w i =
      (case d of None \<Rightarrow> reg (mp s) w i
       | Some m \<Rightarrow> (case block_value (actuator_blocks (base_addr a) m) i of
           Some v \<Rightarrow> v | None \<Rightarrow> reg (mp s) w i))) \<and>
    meter_sample_time t (w - 1) (meter_no a) =
      (if d = None then meter_sample_time s (w - 1) (meter_no a) else time_now e)"
proof -
  have well: "read_register e s (junk_well j) 1 ACTUATOR_WELL_NO_ADDR = Some (reg (mp s) 1 18)"
    by (rule well_read [OF assms(2)])
  have w: "unat (reg (mp s) 1 18) = w" "1 \<le> w" using assms(2) by (auto simp: wired_def reg_inv_def)
  obtain k1 r where k1: "heard 3 (para_ok (slave_no a)) ins = (k1, r)" by force
  obtain k2 d2 where k2: "heard 3 (data_ok (slave_no a)) (drop k1 ins) = (k2, d2)" by force
  let ?u = "sends (para_event s w a) k1 s" and ?v = "sends (data_event e a) k2 (sends (para_event s w a) k1 s)"
  note para = para_attempts [OF assms(2,1,3), of 3 ins, unfolded k1 prod.case]
  note data = data_attempts [OF assms(1), of 3 e "reg (mp s) 1 18" ?u "drop k1 ins", unfolded k2 prod.case]
  have "wired e w (base_addr a) ?v" by (rule wired_cong [OF _ assms(2)]) simp
  note store = store_actuator_ready [OF this w(1)]
  show ?thesis
  proof (cases "r = None \<or> d2 = None")
    case True
    then show ?thesis
      using assms(4) para data well
      by (auto simp: dialogue_heard_def deal_actuator_def RESEND_ACT_NUM_def k1 k2 add.commute split: option.splits)
  next
    case False
    then obtain m where m: "d2 = Some m" "r \<noteq> None" by auto
    obtain t where t: "store_actuator e a (reg (mp s) 1 18) m ?v = Some t"
      "mp t = store_blocks w (actuator_blocks (base_addr a) m) (mp s)" "out t = out ?v"
      "meter_sample_time t (w - 1) (meter_no a) = time_now e"
      using store [of m] by auto
    have "deal_actuator e j a (s, ins) = Some (0, t, drop (k1 + k2) ins)"
      using para data well t(1) m
      by (simp add: deal_actuator_def RESEND_ACT_NUM_def add.commute)
    moreover have "k = k1" "k' = k2" "d = Some m"
      using assms(4) m by (auto simp: dialogue_heard_def k1 k2)
    ultimately show ?thesis
      using t(2-4) reg_store_blocks [OF w(2) actuator_blocks_plain [OF assms(2), of m]] by simp
  qed
qed

definition para_answer :: "u8 list" where
  "para_answer = [0xCC, 1, 2, 0, 1, 1, 0, 0xD1, 0, 0xEE]"

definition data_answer :: "u8 list" where
  "data_answer = [0xCC, 1, 1, 0, 30, 0, 0, 0, 0, 0, 0, 0x13, 0x88, 0, 0, 0x07, 0xD0, 0, 1, 2, 45,
     0, 0, 0, 0, 0, 0, 0, 0, 0, 0, 0, 0, 0, 0, 0x02, 0x8E, 0, 0xEE]"

definition junk_demo :: junk where
  "junk_demo = \<lparr>junk_well = 0, junk_perday = [0, 0], junk_value = 0\<rparr>"

lemma answers_demo:
  "actuator_message (stream_of []) = None"
  "actuator_message (stream_of [para_answer]) = Some para_answer"
  "actuator_message (stream_of [data_answer]) = Some data_answer"
  "para_ok (slave_no actuator1) para_answer" "data_ok (slave_no actuator1) data_answer"
  by (simp_all add: actuator_message_def para_answer_def data_answer_def be16_at_bytes stream_of_def Let_def
      para_ok_def data_ok_def actuator1_def)

theorem actuator_dialogue_witness:
  "\<exists>t. deal_actuator env_demo junk_demo actuator1 (rtu_meters, [[], [para_answer], [data_answer]]) = Some (0, t, []) \<and>
    reg (mp t) 1 1880 = 45 \<and> length (out t) = 3"
proof -
  have a: "an_actuator actuator1" by (simp add: an_actuator_def)
  have w: "wired env_demo 1 (base_addr actuator1) rtu_meters"
    using rtu_meters_inv [of 1]
    by (simp add: wired_def rtu_meters_wf rtu_meters_plain reg_def actuator1_def bus_addrs)
  have l: "length (junk_perday junk_demo) = 2" by (simp add: junk_demo_def)
  have h: "dialogue_heard (slave_no actuator1) [[], [para_answer], [data_answer]] = (2, 1, Some data_answer)"
    by (simp add: dialogue_heard_def eval_nat_numeral next_chunks_def answers_demo)
  from actuator_dialogue [OF a w l h] obtain t where
    t: "deal_actuator env_demo junk_demo actuator1 (rtu_meters, [[], [para_answer], [data_answer]]) = Some (0, t, [])"
      "length (out t) = 3"
    and r: "\<forall>i<x_max (mp rtu_meters). reg (mp t) 1 i =
        (case block_value (actuator_blocks (base_addr actuator1) data_answer) i of
           Some v \<Rightarrow> v | None \<Rightarrow> reg (mp rtu_meters) 1 i)"
    by (auto simp: rtu_meters_def rtu_demo_eval)
  have "block_value (actuator_blocks (base_addr actuator1) data_answer) 1880 = Some 45"
    by (simp add: actuator_blocks_def bus_addrs actuator1_def u32_u16s_def) (simp add: data_answer_def)
  with r [rule_format, of 1880] t show ?thesis by (auto simp: rtu_meters_wf)
qed

text \<open>
  The well number of register 18 is not checked. When it is 0 or more than 9 the commands are
  built from whatever the uninitialised variables hold, and as soon as the data arrives the time is
  stored outside the table of sample times.
\<close>

theorem actuator_well_overflow:
  assumes "an_actuator a" "reg_inv e 1 s" "18 < x_max (mp s)" "kind_at (mp s) 1 18 \<noteq> MAP_SYS"
    and "unat (reg (mp s) 1 18) = 0 \<or> unat (reg (mp s) 1 18) > 9" "length (junk_perday j) = 2"
    and "dialogue_heard (slave_no a) ins = (k, k', Some m)"
  shows "deal_actuator e j a (s, ins) = None"
proof -
  let ?well = "reg (mp s) 1 18" and ?ok = "para_ok (slave_no a)"
  have read: "read_register e t old 1 ACTUATOR_WELL_NO_ADDR = Some ?well" if "mp t = mp s" for t old
    unfolding ACTUATOR_WELL_NO_ADDR_def that [symmetric]
    by (rule read_register_plain [of e 1]) (use assms(2-4) that in \<open>simp_all add: reg_inv_def\<close>)
  define ev where "ev = SerialWrite PORT_RS485_MASTER (command ([0xCC, slave_no a, 2] @
    be32 (1000 * swap_register32 (u16s_u32 (junk_perday j))) @ [ucast (junk_value j), ucast (junk_value j), 0]))"
  have n: "\<not> args_ok x len (int (unat ?well)) i" for x len i
    using assms(5) by (auto simp: args_ok_def map_sizes simp del: of_nat_unat)
  have sent: "rtu_set_actuator_param e j (slave_no a) t = Some (emit ev t)" if "mp t = mp s" for t
  proof -
    have "read_register e t old (unat ?well) i = Some old" for old i
      using n by (simp add: read_register_def zigbee_read_registers_def del: of_nat_unat)
    moreover have "zigbee_read_registers e t old len (int (unat ?well)) i = Some (-1, old)" for old len i
      using n by (simp add: zigbee_read_registers_def del: of_nat_unat)
    moreover have "sealed_command ([0xCC, slave_no a, 2] @ be32 p @ [x, y, 0]) 10 =
        Some (command ([0xCC, slave_no a, 2] @ be32 p @ [x, y, 0]))" for p x y
      by (rule sealed_command) (simp_all add: be32_def)
    ultimately show ?thesis
      using an_actuatorD(1) [OF assms(1)] read [OF that]
      by (auto simp: rtu_set_actuator_param_def Let_def be32_swap ev_def simp del: of_nat_unat)
  qed
  have body: "para_attempt e j (slave_no a) (t, ins) =
      (case actuator_message (stream_of (next_chunks ins)) of
         Some msg \<Rightarrow> if ?ok msg then do { u \<leftarrow> Some (emit ev t); Some (True, u, drop 1 ins) }
                    else Some (False, emit ev t, drop 1 ins)
       | None \<Rightarrow> Some (False, emit ev t, drop 1 ins))" if "mp t = mp s" for t ins
    using para_attempt_body [OF sent [OF that] an_actuatorD(3) [OF assms(1)]] by simp
  obtain k1 r where k1: "heard 3 ?ok ins = (k1, Some r)"
    using assms(7) by (auto simp: dialogue_heard_def split: prod.splits option.splits)
  then have k2: "heard 3 (data_ok (slave_no a)) (drop k1 ins) = (k', Some m)"
    using assms(7) by (auto simp: dialogue_heard_def split: prod.splits)
  have "attempts 3 (para_attempt e j (slave_no a)) (s, ins) = Some (True, sends ev k1 s, drop k1 ins)"
    using attempts_heard [where n = 3 and s = s and ins = ins and m = "mp s", OF body refl] k1 by simp
  moreover have "attempts 3 (data_attempt e a ?well) (sends ev k1 s, drop k1 ins) = None"
    using data_attempts [OF assms(1), of 3 e ?well "sends ev k1 s" "drop k1 ins"] k2 assms(5)
    by (auto simp: store_actuator_def Let_def RTU_MAX_WELL_NUM_def simp del: of_nat_unat)
  ultimately show ?thesis
    using read [OF refl] by (simp add: deal_actuator_def RESEND_ACT_NUM_def)
qed


text \<open>The well number of the demonstration device is 0.\<close>

definition rtu_unwired :: rtu where
  "rtu_unwired = rtu_meters\<lparr>mp := (mp rtu_meters)\<lparr>ram_x := \<lambda>_. 0\<rparr>\<rparr>"

theorem actuator_well_overflow_witness:
  "deal_actuator env_demo junk_demo actuator1 (rtu_unwired, [[para_answer], [data_answer]]) = None"
proof -
  have a: "an_actuator actuator1" by (simp add: an_actuator_def)
  have s: "reg_inv env_demo 1 rtu_unwired" "18 < x_max (mp rtu_unwired)" "kind_at (mp rtu_unwired) 1 18 \<noteq> MAP_SYS"
    "unat (reg (mp rtu_unwired) 1 18) = 0 \<or> unat (reg (mp rtu_unwired) 1 18) > 9"
    using rtu_meters_inv [of 1] by (simp_all add: rtu_unwired_def rtu_meters_wf reg_inv_def reg_def map_wf_def)
  have l: "length (junk_perday junk_demo) = 2" by (simp add: junk_demo_def)
  have "dialogue_heard (slave_no actuator1) [[para_answer], [data_answer]] = (1, 1, Some data_answer)"
    by (simp add: dialogue_heard_def eval_nat_numeral next_chunks_def answers_demo)
  from actuator_well_overflow [OF a s l this] show ?thesis .
qed

section \<open>The numbers\<close>

lemma thousandth_close:
  assumes "n < 2 ^ 64"
  shows "near 21 (decode32 (encode32 (thousandth n))) (real n / 1000)"
proof -
  define x where "x = fp_conv round32 (fp_of_int (int n))"
  define z where "z = fp_div round64 x (fp_of_int 1000)"
  have n: "n = 0 \<or> 1 \<le> real n" "real n \<le> 2 ^ 64" using assms of_nat_less_iff [of n "2 ^ 64", where 'a = real] by auto
  have t: "tame (real n)" using n proof (cases "n = 0")
    case False
    then have "1 / 2 ^ 100 \<le> (1 :: real)" "1 \<le> real n" "real n \<le> 2 ^ 100" using n by auto
    then show ?thesis by (intro tame_bounds) linarith+
  qed (simp add: tame_def)
  then have x: "near 23 x (real n)"
    using near_single [OF near_self, of "fp_of_int (int n)"] by (simp add: x_def)
  have "tame (fval x / 1000)"
  proof (cases "n = 0")
    case True then show ?thesis using near_range [OF x] by (simp add: tame_def)
  next
    case False
    then have "1 / 2 \<le> \<bar>fval x\<bar>" "\<bar>fval x\<bar> \<le> 2 * 2 ^ 64" using near_range [OF x] n by auto
    then show ?thesis by (intro tame_range) (simp_all add: abs_divide)
  qed
  then have z: "near 53 z (fval x / 1000)"
    using near_div [of x "fp_of_int 1000"] x by (simp add: z_def near_def)
  have "\<bar>fval x / 1000 - real n / 1000\<bar> \<le> \<bar>real n / 1000\<bar> / 2 ^ 23"
    using x by (simp add: near_def flip: diff_divide_distrib)
  then have q: "near 22 z (real n / 1000)" using near_trans [OF z, of "real n / 1000" 23] by simp
  have "tame (fval z)"
  proof (cases "n = 0")
    case True then show ?thesis using near_range [OF q] by (simp add: tame_def)
  next
    case False
    then have "1 / 2000 \<le> \<bar>fval z\<bar>" "\<bar>fval z\<bar> \<le> 2 * 2 ^ 64 / 1000" using near_range [OF q] n by auto
    then show ?thesis by (intro tame_range) simp_all
  qed
  then have "near 23 (decode32 (encode32 (fp_conv round32 z))) (fval z)"
    using near_stored [OF near_self] q by (simp add: near_def)
  then show ?thesis
    using near_trans [of 23 _ "fval z" "real n / 1000" 22] q by (simp add: thousandth_def x_def z_def near_def)
qed

text \<open>
  The flows an actuator reports (thousandths of a cubic metre as 64 and 32 bit numbers) are stored
  as floats; four roundings keep them within one part in 2 to the 21.
\<close>

theorem actuator_flows_close:
  "near 21 (decode32 (encode32 (thousandth (unat (volume :: u64))))) (real (unat volume) / 1000) \<and>
   near 21 (decode32 (encode32 (thousandth (unat (rate :: u32))))) (real (unat rate) / 1000)"
proof
  have "unat volume < 2 ^ 64" "unat rate < 2 ^ 64"
    using unsigned_less [of volume, where 'a = nat] unsigned_less [of rate, where 'a = nat] by simp_all
  then show "near 21 (decode32 (encode32 (thousandth (unat volume)))) (real (unat volume) / 1000)"
    "near 21 (decode32 (encode32 (thousandth (unat rate)))) (real (unat rate) / 1000)"
    by (simp_all only: thousandth_close)
qed

end
