(* ===== verification/Electrical_Facts.thy ===== *)
theory Electrical_Facts
  imports Electrical Actuator_Facts Modbus_Facts
begin

text \<open>
  Polling the wired electricity meter (theory \<open>Electrical\<close>): the bus with lost and answered
  requests, what a poll sends, stores and returns, how exact the twelve values are, and what a well
  number out of range does.
\<close>

section \<open>The bus\<close>

text \<open>What is sent, an exchange without an answer, and exchanges with one.\<close>

definition read_request :: "u8 \<Rightarrow> nat \<Rightarrow> nat \<Rightarrow> u8 list" where
  "read_request w a n = rtu_send_msg_pre (rtu_header w 3 a n)"

definition write_request_of :: "u8 \<Rightarrow> nat \<Rightarrow> u16 list \<Rightarrow> u8 list" where
  "write_request_of w a vs =
     rtu_send_msg_pre (rtu_header w 16 a (length vs) @ [of_nat (2 * length vs)] @ concat (map be_bytes vs))"

definition silent :: "u8 list \<Rightarrow> exchange \<Rightarrow> bool" where
  "silent req x \<longleftrightarrow> fst x = [int (length req)] \<and> stream_of (snd x) = []"

definition gives :: "u8 \<Rightarrow> u16 list \<Rightarrow> exchange \<Rightarrow> bool" where
  "gives w vs x \<longleftrightarrow> fst x = [8] \<and>
     (\<exists>rest. stream_of (snd x) = rtu_send_msg_pre ([w, 3, of_nat (2 * length vs)] @ concat (map be_bytes vs)) @ rest)"

definition confirms :: "u8 \<Rightarrow> nat \<Rightarrow> u16 list \<Rightarrow> exchange \<Rightarrow> bool" where
  "confirms w a vs x \<longleftrightarrow> fst x = [int (9 + 2 * length vs)] \<and>
     (\<exists>rest. stream_of (snd x) = rtu_send_msg_pre (rtu_header w 16 a (length vs)) @ rest)"

abbreviation on_bus :: "u8 list \<Rightarrow> event" where "on_bus \<equiv> SerialWrite PORT_RS485_MASTER"

lemma silent_response:
  assumes "rtu_master c w" "silent (rtu_send_msg_pre req) x"
  shows "request_response c req (fst x) (snd x) = Some (Refused NO_MESSAGE, rtu_send_msg_pre req)"
proof -
  have b: "backend_of c = Backend_rtu" using assms(1) by (simp add: rtu_master_def)
  have "flatten (receive_msg Backend_rtu MSG_CONFIRMATION (snd x)) = Flat_fail"
    using assms(2) by (simp add: receive_msg_def receive_loop_flat flat_step_def silent_def)
  then have "modbus_receive_confirmation Backend_rtu (snd x) = Some (-1)"
    by (simp add: modbus_receive_confirmation_def finish_flatten)
  moreover have "send_msg Backend_rtu l req (fst x) = Some (int (length (rtu_send_msg_pre req)), rtu_send_msg_pre req)" for l
    using assms(2) send_ok [of Backend_rtu l req] by (simp add: silent_def)
  ultimately show ?thesis by (simp add: request_response_def b Let_def rtu_seal)
qed

lemma write_prefix:
  "modbus_write_registers c a (int (length vs)) (vs @ ms) snds chunks =
   modbus_write_registers c a (int (length vs)) vs snds chunks"
  by (simp add: modbus_write_registers_def write_request_def)

lemma call_silent:
  assumes "rtu_master c w"
  shows "n \<le> 125 \<Longrightarrow> silent (read_request w a n) x \<Longrightarrow>
      read_call c (int a) (int n) (buf, s, x # xs) = Some (-1, buf, emit (on_bus (read_request w a n)) s, xs)"
    "length vs \<le> 123 \<Longrightarrow> silent (write_request_of w a vs) x \<Longrightarrow>
      write_call c (int a) (int (length vs)) (vs @ ms, s, x # xs) =
        Some (-1, vs @ ms, emit (on_bus (write_request_of w a vs)) s, xs)"
  using silent_response [OF assms]
  by (auto simp: read_call_def write_call_def next_exchange_def read_request_def write_request_of_def modbus_limits
      modbus_read_registers_def read_registers_def modbus_write_registers_def master_request [OF assms] fc_defs
      answer_rc_def split_beta write_prefix write_request_def mult.commute be_bytes_def [abs_def])

lemma call_answered:
  assumes "rtu_master c w"
  shows "gives w vs x \<Longrightarrow> length vs = n \<Longrightarrow> n \<le> 125 \<Longrightarrow> n \<le> length buf \<Longrightarrow>
      read_call c (int a) (int n) (buf, s, x # xs) =
        Some (int n, vs @ drop n buf, emit (on_bus (read_request w a n)) s, xs)"
    "confirms w a vs x \<Longrightarrow> length vs \<le> 123 \<Longrightarrow>
      write_call c (int a) (int (length vs)) (vs @ ms, s, x # xs) =
        Some (int (length vs), vs @ ms, emit (on_bus (write_request_of w a vs)) s, xs)"
  using read_answered [OF assms, of vs buf _ "snd x"] write_answered [OF assms, of vs _ a "snd x"]
  by (auto simp: read_call_def write_call_def next_exchange_def gives_def confirms_def split_beta answer_rc_def write_prefix
      read_request_def write_request_of_def)

lemma repeat_lost:
  assumes "\<And>s x xs. x \<in> set ls \<Longrightarrow> call (buf, s, x # xs) = Some (-1, buf, emit ev s, xs)" "length ls \<le> n"
  shows "repeat_call n call (buf, s, ls @ xs) = repeat_call (n - length ls) call (buf, sends ev (length ls) s, xs)"
  using assms
proof (induction ls arbitrary: n s)
  case (Cons l ls)
  then obtain k where n: "n = Suc k" by (cases n) auto
  have "repeat_call k call (buf, emit ev s, ls @ xs) =
      repeat_call (k - length ls) call (buf, sends ev (length ls) (emit ev s), xs)"
    using Cons.IH [of k "emit ev s"] Cons.prems n by simp
  then show ?case using Cons.prems(1) [of l s "ls @ xs"] n by simp
qed simp

lemma repeat_found:
  assumes "\<And>s x xs. x \<in> set ls \<Longrightarrow> call (buf, s, x # xs) = Some (-1, buf, emit ev s, xs)" "length ls < n"
    and "\<And>s. call (buf, s, x # xs) = Some (rc, buf', emit ev s, xs)" "rc \<noteq> -1"
  shows "repeat_call n call (buf, s, ls @ x # xs) = Some (rc, buf', sends ev (Suc (length ls)) s, xs)"
proof -
  obtain k where "n - length ls = Suc k" using assms(2) by (cases "n - length ls") auto
  then have "repeat_call (n - length ls) call (buf, sends ev (length ls) s, x # xs) =
      Some (rc, buf', emit ev (sends ev (length ls) s), xs)"
    using assms(3,4) by simp
  moreover have "emit ev (sends ev (length ls) s) = sends ev (Suc (length ls)) s"
    by (simp add: sends_def emit_def replicate_append_same)
  ultimately show ?thesis using repeat_lost [of ls call buf ev n s "x # xs"] assms(1,2) by simp
qed

section \<open>Polling the meter\<close>

text \<open>
  A run of requests: for each the exchanges without an answer and the one with it. After three
  without an answer there is no further request.
\<close>

fun bus_run :: "(exchange list \<times> exchange) list \<Rightarrow> exchange list \<Rightarrow> exchange list" where
  "bus_run [] rest = rest"
| "bus_run ((ls, x) # qs) rest = ls @ (if length ls = 3 then rest else x # bus_run qs rest)"

fun bus_sent :: "(exchange list \<times> exchange) list \<Rightarrow> u8 list list \<Rightarrow> event list" where
  "bus_sent ((ls, x) # qs) (req # reqs) =
     (if length ls = 3 then replicate 3 (on_bus req)
      else replicate (Suc (length ls)) (on_bus req) @ bus_sent qs reqs)"
| "bus_sent _ _ = []"

text \<open>The four requests and what an orderly meter does with them.\<close>

definition elec_sends :: "u8 \<Rightarrow> u16 list \<Rightarrow> u8 list list" where
  "elec_sends w ratio = [read_request w 2 2, write_request_of w 5 ratio, read_request w 12 4, read_request w 64 10]"

definition elec_run :: "u8 \<Rightarrow> u16 list \<Rightarrow> u16 list \<Rightarrow> u16 list \<Rightarrow> u16 list \<Rightarrow> (exchange list \<times> exchange) list \<Rightarrow> bool" where
  "elec_run w scale ratio quantity param qs \<longleftrightarrow>
     map length [scale, ratio, quantity, param] = [2, 2, 4, 10] \<and> length qs = 4 \<and>
     (\<forall>k<4. length (fst (qs ! k)) \<le> 3 \<and> (\<forall>x\<in>set (fst (qs ! k)). silent (elec_sends w ratio ! k) x)) \<and>
     gives w scale (snd (qs ! 0)) \<and> confirms w 5 ratio (snd (qs ! 1)) \<and>
     gives w quantity (snd (qs ! 2)) \<and> gives w param (snd (qs ! 3))"

definition metered :: "env \<Rightarrow> nat \<Rightarrow> rtu \<Rightarrow> bool" where
  "metered e w s \<longleftrightarrow> reg_inv e w s \<and> kind_at (mp s) 1 17 \<noteq> MAP_SYS \<and> unat (reg (mp s) 1 17) = w \<and>
     1805 \<le> x_max (mp s) \<and> plain (mp s) w 1252 24 \<and> plain (mp s) w 1797 8"

definition ratio_of :: "map_t \<Rightarrow> nat \<Rightarrow> u16 list" where
  "ratio_of m w = [sane_ratio 5000 (reg m w 1797), sane_ratio 1000 (reg m w 1798)]"

lemma metered_read:
  assumes "metered e w s" "a = 1797 \<or> a = 1798" "mp t = mp s"
  shows "read_register e' t old w a = Some (reg (mp s) w a)"
  unfolding assms(3) [symmetric]
  by (rule read_register_plain [of e]) (use assms in \<open>auto simp: metered_def plain_def reg_inv_def\<close>)

lemma metered_well:
  assumes "metered e w s"
  shows "read_register e' s old 1 ELEC_WELL_NO_ADDR = Some (reg (mp s) 1 17)"
  unfolding ELEC_WELL_NO_ADDR_def
  by (rule read_register_plain [of e 1]) (use assms in \<open>auto simp: metered_def reg_inv_def\<close>)

lemma repeat_read:
  assumes "rtu_master c w" "n \<le> 125" "n \<le> length buf" "\<forall>x\<in>set ls. silent (read_request w a n) x"
  shows "length ls = 3 \<Longrightarrow> repeat_call 3 (read_call c (int a) (int n)) (buf, s, ls @ xs) =
      Some (-1, buf, sends (on_bus (read_request w a n)) 3 s, xs)"
    "length ls \<le> 3 \<Longrightarrow> length ls \<noteq> 3 \<Longrightarrow> gives w vs x \<Longrightarrow> length vs = n \<Longrightarrow>
      repeat_call 3 (read_call c (int a) (int n)) (buf, s, ls @ x # xs) =
      Some (int n, vs @ drop n buf, sends (on_bus (read_request w a n)) (Suc (length ls)) s, xs)"
proof -
  note lost = call_silent(1) [OF assms(1,2) assms(4) [rule_format]]
  show "repeat_call 3 (read_call c (int a) (int n)) (buf, s, ls @ xs) =
      Some (-1, buf, sends (on_bus (read_request w a n)) 3 s, xs)" if "length ls = 3"
    using repeat_lost [of ls "read_call c (int a) (int n)" buf, OF lost] that by simp
  show "repeat_call 3 (read_call c (int a) (int n)) (buf, s, ls @ x # xs) =
      Some (int n, vs @ drop n buf, sends (on_bus (read_request w a n)) (Suc (length ls)) s, xs)"
    if "length ls \<le> 3" "length ls \<noteq> 3" "gives w vs x" "length vs = n"
    by (rule repeat_found [OF lost]) (use that call_answered(1) [OF assms(1) that(3,4) assms(2,3)] in auto)
qed

lemma repeat_write:
  assumes "rtu_master c w" "length vs \<le> 123" "\<forall>x\<in>set ls. silent (write_request_of w a vs) x"
  shows "length ls = 3 \<Longrightarrow> repeat_call 3 (write_call c (int a) (int (length vs))) (vs @ ms, s, ls @ xs) =
      Some (-1, vs @ ms, sends (on_bus (write_request_of w a vs)) 3 s, xs)"
    "length ls \<le> 3 \<Longrightarrow> length ls \<noteq> 3 \<Longrightarrow> confirms w a vs x \<Longrightarrow>
      repeat_call 3 (write_call c (int a) (int (length vs))) (vs @ ms, s, ls @ x # xs) =
      Some (int (length vs), vs @ ms, sends (on_bus (write_request_of w a vs)) (Suc (length ls)) s, xs)"
proof -
  note lost = call_silent(2) [OF assms(1,2) assms(3) [rule_format]]
  show "repeat_call 3 (write_call c (int a) (int (length vs))) (vs @ ms, s, ls @ xs) =
      Some (-1, vs @ ms, sends (on_bus (write_request_of w a vs)) 3 s, xs)" if "length ls = 3"
    using repeat_lost [of ls "write_call c (int a) (int (length vs))" "vs @ ms", OF lost] that by simp
  show "repeat_call 3 (write_call c (int a) (int (length vs))) (vs @ ms, s, ls @ x # xs) =
      Some (int (length vs), vs @ ms, sends (on_bus (write_request_of w a vs)) (Suc (length ls)) s, xs)"
    if "length ls \<le> 3" "length ls \<noteq> 3" "confirms w a vs x"
    by (rule repeat_found [OF lost]) (use that call_answered(2) [OF assms(1) that(3) assms(2)] in auto)
qed

definition answered_all :: "(exchange list \<times> exchange) list \<Rightarrow> bool" where
  "answered_all qs \<longleftrightarrow> (\<forall>q\<in>set qs. length (fst q) \<noteq> 3)"

definition reading_of :: "u16 list \<Rightarrow> u16 list \<Rightarrow> u16 list \<Rightarrow> u16 list \<Rightarrow> elec_reading" where
  "reading_of scale ratio quantity param =
     \<lparr>elec_u0 = scale ! 0, elec_i0 = scale ! 1 div 10, elec_upp = ratio ! 0, elec_ipp = ratio ! 1,
      elec_param = param, elec_quantity = quantity, elec_rc = 10\<rparr>"

lemma length_2: "length xs = 2 \<longleftrightarrow> (\<exists>a b. xs = [a, b])"
  by (auto simp: numeral_2_eq_2 length_Suc_conv)

lemma elec_requests_run:
  assumes "rtu_master c w" and rd: "\<And>t. mp t = mp s \<Longrightarrow> read_register e t 1 well ELEC_VOLTAGE_RATE_ADDR = Some v1"
      "\<And>t. mp t = mp s \<Longrightarrow> read_register e t 40 well ELEC_CURRENT_RATE_ADDR = Some v2"
    and "elec_run w scale [sane_ratio 5000 v1, sane_ratio 1000 v2] quantity param qs"
    and "length (junk_quantity j) = 4" "length (junk_param j) = 10"
  shows "elec_requests e j c well (s, bus_run qs rest) =
    Some (if answered_all qs then Some (reading_of scale [sane_ratio 5000 v1, sane_ratio 1000 v2] quantity param) else None,
      s\<lparr>out := out s @ bus_sent qs (elec_sends w [sane_ratio 5000 v1, sane_ratio 1000 v2])\<rparr>, rest)"
proof -
  define r1 r2 where "r1 = sane_ratio 5000 v1" "r2 = sane_ratio 1000 v2"
  note r = this
  let ?ratio = "[r1, r2]"
  note run = assms(4) [folded r, unfolded elec_run_def]
  obtain l1 x1 l2 x2 l3 x3 l4 x4 where qs: "qs = [(l1, x1), (l2, x2), (l3, x3), (l4, x4)]"
    using run by (auto simp: eval_nat_numeral length_Suc_conv)
  have all4: "(\<forall>k<4. P k) \<longleftrightarrow> P 0 \<and> P 1 \<and> P 2 \<and> P 3" for P :: "nat \<Rightarrow> bool"
    by (auto simp: less_Suc_eq eval_nat_numeral)
  have le: "length l1 \<le> 3" "length l2 \<le> 3" "length l3 \<le> 3" "length l4 \<le> 3"
    and lost: "\<forall>x\<in>set l1. silent (read_request w 2 2) x" "\<forall>x\<in>set l2. silent (write_request_of w 5 ?ratio) x"
      "\<forall>x\<in>set l3. silent (read_request w 12 4) x" "\<forall>x\<in>set l4. silent (read_request w 64 10) x"
    and ans: "gives w scale x1" "confirms w 5 ?ratio x2" "gives w quantity x3" "gives w param x4"
    and len: "length scale = 2" "length quantity = 4" "length param = 10"
    using run unfolding qs all4 by (simp_all add: elec_sends_def)
  obtain a b p q where j: "junk_quantity j = [p, q, a, b]"
    using assms(5) by (auto simp: eval_nat_numeral length_Suc_conv)
  obtain u i where scale: "scale = [u, i]" using len(1) by (auto simp: length_2)
  note R1 = repeat_read [OF assms(1), where n = 2 and a = 2 and ls = l1 and buf = "[p, q, a, b]", simplified]
  note R2 = repeat_write [OF assms(1) _ lost(2), where ms = "[a, b]", simplified]
  note R3 = repeat_read [OF assms(1), where n = 4 and a = 12 and ls = l3 and buf = "[r1, r2, a, b]", simplified]
  note R4 = repeat_read [OF assms(1), where n = 10 and a = 64 and ls = l4 and buf = "junk_param j", unfolded assms(6), simplified]
  consider "length l1 = 3" | "length l1 \<noteq> 3" "length l2 = 3" | "length l1 \<noteq> 3" "length l2 \<noteq> 3" "length l3 = 3"
    | "length l1 \<noteq> 3" "length l2 \<noteq> 3" "length l3 \<noteq> 3" "length l4 = 3"
    | "length l1 \<noteq> 3" "length l2 \<noteq> 3" "length l3 \<noteq> 3" "length l4 \<noteq> 3" by blast
  note cases = this
  note S = elec_requests_def wired_elec_requests qs j answered_all_def elec_sends_def sends_def scale Let_def
    rd r [symmetric] reading_of_def
  from cases show ?thesis
  proof cases
    case 1
    then show ?thesis using R1(1) lost(1) by (simp add: S)
  next
    case 2
    then show ?thesis using R1(2) lost(1) R2(1) ans(1) le(1) len(1) by (simp add: S)
  next
    case 3
    then show ?thesis
      using R1(2) lost(1,3) R2(2) ans(1,2) le(1,2) len(1) R3(1) by (simp add: S)
  next
    case 4
    then show ?thesis
      using R1(2) lost(1,3,4) R2(2) ans(1-3) le(1-3) len(1,2) R3(2) R4(1) by (simp add: S)
  next
    case 5
    then show ?thesis
      using R1(2) lost(1,3,4) R2(2) ans le len R3(2) R4(2) assms(6) by (simp add: S)
  qed
qed

text \<open>The registers written.\<close>

definition elec_stored :: "env \<Rightarrow> elec_reading \<Rightarrow> (nat \<times> u16 list) list" where
  "elec_stored e r = [(1252, electrical_registers (electrical_param_result r)), (1799, time_registers e)]"

lemma length_electrical [simp]:
  "length (electrical_param_result r) = 12" "length (electrical_registers rs) = 2 * length rs"
  by (simp_all add: electrical_param_result_def Let_def electrical_registers_def length_concat o_def u32_u16s_def
      sum_list_triv)

lemma elec_stored_plain:
  assumes "metered e w s" shows "blocks_plain (mp s) w (elec_stored e r)"
proof -
  have "electrical_registers (electrical_param_result r) \<noteq> []" "time_registers e \<noteq> []"
    by (simp_all flip: length_greater_0_conv)
  then show ?thesis using assms by (auto simp: metered_def elec_stored_def blocks_plain_def plain_def)
qed

lemma metered_cong: "mp t = mp s \<Longrightarrow> metered e w s \<Longrightarrow> metered e w t"
  by (simp add: metered_def reg_inv_def)

lemma set_slave_well:
  assumes "unat v = w" "w \<le> 8"
  shows "modbus_set_slave (uint v) c = (0, c\<lparr>ctx_slave := int w\<rparr>)"
proof -
  have "uint v = int w" unfolding assms(1) [symmetric] by simp
  then show ?thesis using assms(2) unfolding modbus_set_slave_def by simp
qed

text \<open>
  C12. Polling the wired electricity meter of a well from 1 to 8. Each of the four requests is sent up to
  three times; if each is answered in time, the result is 10, the twelve values and the time are
  in the registers of the well and no other register of it has changed, the time of the sample is
  noted and the address of a wireless meter forgotten. If one request is lost three times there is
  no further request, the result is -1 and no register changes.
\<close>

theorem electrical_polled:
  assumes "backend_of c = Backend_rtu" "metered e (unat w) s" "ratio = ratio_of (mp s) (unat w)"
    and "elec_run w scale ratio quantity param qs"
    and "length (junk_quantity j) = 4" "length (junk_param j) = 10"
    and "blocks = elec_stored e (reading_of scale ratio quantity param)"
  shows "\<exists>t. deal_wired_electrical e j (c, s, bus_run qs rest) =
      Some (if answered_all qs then 10 else -1, c\<lparr>ctx_slave := int (unat w)\<rparr>, t, rest) \<and>
    out t = out s @ bus_sent qs (elec_sends w ratio) \<and>
    (\<forall>i<x_max (mp s). reg (mp t) (unat w) i =
      (if answered_all qs then (case block_value blocks i of Some v \<Rightarrow> v | None \<Rightarrow> reg (mp s) (unat w) i)
       else reg (mp s) (unat w) i)) \<and>
    (answered_all qs \<longrightarrow> meter_sample_time t (unat w - 1) 5 = time_now e \<and>
      elec_param_meter_mac t (unat w - 1) = replicate 10 0)"
proof -
  let ?c = "c\<lparr>ctx_slave := int (unat w)\<rparr>" and ?r = "reading_of scale ratio quantity param"
  let ?s = "s\<lparr>out := out s @ bus_sent qs (elec_sends w ratio)\<rparr>"
  have w: "1 \<le> unat w" "unat w \<le> 8" and n: "unat (reg (mp s) 1 17) = unat w"
    using assms(2) by (auto simp: metered_def reg_inv_def)
  have master: "rtu_master ?c w" using assms(1) w by (simp add: rtu_master_def)
  have set: "modbus_set_slave (uint (reg (mp s) 1 17)) c = (0, ?c)"
    by (rule set_slave_well [OF n w(2)])
  have ratio: "ratio = [sane_ratio 5000 (reg (mp s) (unat w) 1797), sane_ratio 1000 (reg (mp s) (unat w) 1798)]"
    by (simp add: assms(3) ratio_of_def)
  have "read_register e t 1 (unat w) ELEC_VOLTAGE_RATE_ADDR = Some (reg (mp s) (unat w) 1797)"
    "read_register e t 40 (unat w) ELEC_CURRENT_RATE_ADDR = Some (reg (mp s) (unat w) 1798)" if "mp t = mp s" for t
    using metered_read [OF assms(2) _ that] by (simp_all add: wired_elec_addrs)
  note req = elec_requests_run [where rest = rest and s = s, OF master this assms(4) [unfolded ratio] assms(5,6), folded ratio]
  show ?thesis
  proof (cases "answered_all qs")
    case False
    then show ?thesis
      using metered_well [OF assms(2)] set n w req
      by (simp add: deal_wired_electrical_def RTU_MAX_WELL_NUM_def del: of_nat_unat)
  next
    case True
    let ?u = "set_sample_time e (unat w - 1) ELECTRICAL_PARAMETER_NO ?s"
    have "ready e (unat w) blocks ?u"
      using assms(2) elec_stored_plain [OF assms(2)]
      by (simp add: ready_def assms(7) set_sample_time_def metered_def reg_inv_def)
    from write_blocks_ready [OF this] obtain t where t: "write_blocks e blocks (unat w) ?u = Some t"
      "mp t = store_blocks (unat w) blocks (mp ?u)" "same_rest ?u t" by blast
    let ?t = "t\<lparr>elec_param_meter_mac := (elec_param_meter_mac t)(unat w - 1 := replicate 10 0)\<rparr>"
    have "deal_wired_electrical e j (c, s, bus_run qs rest) = Some (10, ?c, ?t, rest)"
      using metered_well [OF assms(2)] set n w req True t(1)
      by (simp add: deal_wired_electrical_def RTU_MAX_WELL_NUM_def assms(7) elec_stored_def elec_addrs
          save_time_register_def reading_of_def bind_eq_Some_conv Let_def del: of_nat_unat)
        blast
    then show ?thesis
      using True t(2) same_rest_fields(1,2) [OF t(3)]
        reg_store_blocks [OF w(1) elec_stored_plain [OF assms(2), of ?r]]
      by (simp add: set_sample_time_def assms(7) ELECTRICAL_PARAMETER_NO_def)
  qed
qed

definition elec_demo_answers :: "exchange list" where
  "elec_demo_answers = map (\<lambda>vs. ([8], [rtu_send_msg_pre ([1, 3, of_nat (2 * length vs)] @ concat (map be_bytes vs))]))
     [[250, 50], [0, 100, 0, 20], [2200, 2210, 2190, 20000, 20010, 19990, 300, 100, 316, 9500]]"

definition elec_demo_run :: "(exchange list \<times> exchange) list" where
  "elec_demo_run =
     [([([8], [[]])], elec_demo_answers ! 0),
      ([], ([13], [rtu_send_msg_pre (rtu_header 1 16 5 2)])),
      ([], elec_demo_answers ! 1), ([], elec_demo_answers ! 2)]"

definition elec_junk_demo :: elec_junk where
  "elec_junk_demo = \<lparr>junk_elec_well = 0, junk_quantity = replicate 4 0, junk_param = replicate 10 0\<rparr>"

definition ctx_demo :: "int \<Rightarrow> ctx" where
  "ctx_demo w = \<lparr>backend_of = Backend_rtu, ctx_slave = w, error_recovery_link = False, t_id = 0\<rparr>"

lemma stream_single: "m \<noteq> [] \<Longrightarrow> \<exists>rest. stream_of [m] = m @ rest"
  by (simp add: stream_of_def)

lemma elec_demo_orderly:
  "elec_run 1 [250, 50] [1, r] [0, 100, 0, 20] [2200, 2210, 2190, 20000, 20010, 19990, 300, 100, 316, 9500] elec_demo_run"
proof -
  have all4: "(\<forall>k<4. P k) \<longleftrightarrow> P 0 \<and> P 1 \<and> P 2 \<and> P 3" for P :: "nat \<Rightarrow> bool"
    by (auto simp: less_Suc_eq eval_nat_numeral)
  have "rtu_send_msg_pre m \<noteq> []" for m by (simp add: rtu_seal)
  note s = stream_single [OF this]
  have "silent (read_request 1 2 2) ([8], [[]])"
    by (simp add: silent_def read_request_def rtu_seal stream_of_def) (simp add: rtu_header_def)
  then show ?thesis
    using s unfolding elec_run_def all4
    by (simp add: elec_demo_run_def elec_sends_def gives_def numeral_2_eq_2 [symmetric] confirms_def elec_demo_answers_def)
qed

lemma elec_demo_current:
  "electrical_registers (electrical_param_result (reading_of [250, 50] [1, 1] q
     [2200, 2210, 2190, 20000, 20010, 19990, 300, 100, 316, 9500])) ! 0 = 0x4120"
  by (simp add: electrical_param_result_def electrical_registers_def reading_of_def Let_def u32_u16s_def)
   (simp add: float_over_def float_times_def float_of_def float_eval Let_def swap_stor_float_seq_def u32_bytes_def bytes_u32_def)


theorem electrical_polled_witness:
  "\<exists>t. deal_wired_electrical env_demo elec_junk_demo (ctx_demo 1, rtu_meters, bus_run elec_demo_run []) =
      Some (10, ctx_demo 1, t, []) \<and>
    reg (mp t) 1 1252 = 0x4120 \<and> length (out t) = 5"
proof -
  have m: "metered env_demo (unat (1 :: u8)) rtu_meters"
    using rtu_meters_inv [of 1] by (simp add: metered_def rtu_meters_wf rtu_meters_plain reg_def)
  have r: "ratio_of (mp rtu_meters) (unat (1 :: u8)) = [1, 1]"
    by (simp add: ratio_of_def sane_ratio_def reg_def rtu_meters_wf)
  have c: "backend_of (ctx_demo 1) = Backend_rtu" by (simp add: ctx_demo_def)
  have j: "length (junk_quantity elec_junk_demo) = 4" "length (junk_param elec_junk_demo) = 10"
    by (simp_all add: elec_junk_demo_def)
  have a: "answered_all elec_demo_run" by (simp add: answered_all_def elec_demo_run_def)
  from electrical_polled [OF c m r [symmetric] elec_demo_orderly j refl, of "[]"] obtain t where
    t: "deal_wired_electrical env_demo elec_junk_demo (ctx_demo 1, rtu_meters, bus_run elec_demo_run []) =
      Some (10, (ctx_demo 1)\<lparr>ctx_slave := int (unat (1 :: u8))\<rparr>, t, [])"
      "out t = out rtu_meters @ bus_sent elec_demo_run (elec_sends 1 [1, 1])"
    and v: "\<forall>i<x_max (mp rtu_meters). reg (mp t) (unat (1 :: u8)) i =
      (case block_value (elec_stored env_demo (reading_of [250, 50] [1, 1] [0, 100, 0, 20]
          [2200, 2210, 2190, 20000, 20010, 19990, 300, 100, 316, 9500])) i of
         Some v \<Rightarrow> v | None \<Rightarrow> reg (mp rtu_meters) (unat (1 :: u8)) i)"
    using a by auto
  have "reg (mp t) 1 1252 = 0x4120"
    using v [rule_format, of 1252] by (simp add: rtu_meters_wf elec_stored_def elec_demo_current)
  moreover have "length (out t) = 5"
    using t(2) by (simp add: rtu_meters_def rtu_demo_eval elec_demo_run_def elec_sends_def)
  ultimately show ?thesis using t(1) by (auto simp: ctx_demo_def)
qed

text \<open>
  A well number above 247 in register 17 is refused by \<^verbatim>\<open>modbus_set_slave\<close>, so the
  context keeps the slave of an earlier call; when that one is a well, the test of the slave passes,
  the meter of that well is polled, and when it answers, the time is stored outside the table of
  sample times.
\<close>

theorem electrical_well_overflow:
  assumes "rtu_master c w" "reg_inv e 1 s" "17 < x_max (mp s)" "kind_at (mp s) 1 17 \<noteq> MAP_SYS"
    and "247 < unat (reg (mp s) 1 17)"
    and "elec_run w scale [1, 40] quantity param qs" "answered_all qs"
    and "length (junk_quantity j) = 4" "length (junk_param j) = 10"
  shows "deal_wired_electrical e j (c, s, bus_run qs rest) = None"
proof -
  let ?well = "reg (mp s) 1 17"
  have well: "read_register e s old 1 ELEC_WELL_NO_ADDR = Some ?well" for old
    unfolding ELEC_WELL_NO_ADDR_def
    by (rule read_register_plain [of e 1]) (use assms(2-4) in \<open>simp_all add: reg_inv_def\<close>)
  have "\<not> args_ok x len (int (unat ?well)) i" for x len i
    using assms(5) by (auto simp: args_ok_def map_sizes simp del: of_nat_unat)
  then have rd: "read_register e t old (unat ?well) i = Some old" for t old i
    by (simp add: read_register_def zigbee_read_registers_def del: of_nat_unat)
  have "int (unat ?well) > 247" using assms(5) by linarith
  then have set: "modbus_set_slave (uint ?well) c = (-1, c)"
    by (simp add: modbus_set_slave_def)
  have slave: "\<not> (ctx_slave c \<ge> int RTU_MAX_WELL_NUM \<or> ctx_slave c < 1)"
    using assms(1) by (simp add: rtu_master_def RTU_MAX_WELL_NUM_def del: of_nat_unat)
  have sane: "sane_ratio 5000 1 = 1" "sane_ratio 1000 40 = 40" by (simp_all add: sane_ratio_def)
  note req = elec_requests_run [where rest = rest and s = s and well = "unat ?well", OF assms(1) rd rd,
      unfolded sane, OF assms(6,8,9)]
  show ?thesis
    using well set slave req assms(5,7)
    by (simp add: deal_wired_electrical_def RTU_MAX_WELL_NUM_def Let_def del: of_nat_unat)
qed

definition rtu_far_well :: rtu where
  "rtu_far_well = rtu_meters\<lparr>mp := (mp rtu_meters)\<lparr>ram_x := \<lambda>_. 300\<rparr>\<rparr>"

theorem electrical_well_overflow_witness:
  "deal_wired_electrical env_demo elec_junk_demo (ctx_demo 1, rtu_far_well, bus_run elec_demo_run []) = None"
proof -
  have c: "rtu_master (ctx_demo 1) 1" by (simp add: rtu_master_def ctx_demo_def)
  have s: "reg_inv env_demo 1 rtu_far_well" "17 < x_max (mp rtu_far_well)" "kind_at (mp rtu_far_well) 1 17 \<noteq> MAP_SYS"
    "247 < unat (reg (mp rtu_far_well) 1 17)"
    using rtu_meters_inv [of 1] by (simp_all add: rtu_far_well_def rtu_meters_wf reg_inv_def reg_def map_wf_def)
  have j: "length (junk_quantity elec_junk_demo) = 4" "length (junk_param elec_junk_demo) = 10"
    by (simp_all add: elec_junk_demo_def)
  have a: "answered_all elec_demo_run" by (simp add: answered_all_def elec_demo_run_def)
  from electrical_well_overflow [OF c s elec_demo_orderly a j] show ?thesis .
qed

section \<open>The numbers of the meter\<close>

lemma stands_float_of: "\<bar>k\<bar> < 2 ^ 40 \<Longrightarrow> stands 1 (float_of k) (of_int k)"
proof -
  assume k: "\<bar>k\<bar> < 2 ^ 40"
  have "real_of_int \<bar>k\<bar> \<le> real_of_int (2 ^ 40)" using k by (intro of_int_le_iff [THEN iffD2]) simp
  moreover have "k \<noteq> 0 \<Longrightarrow> 1 \<le> real_of_int \<bar>k\<bar>" by linarith
  ultimately have "sized (of_int k)" by (auto simp: sized_def)
  from stands_conv [OF stands_int _ this] show ?thesis by (simp add: float_of_def)
qed

definition whole :: "nat \<Rightarrow> real \<Rightarrow> bool" where
  "whole b y \<longleftrightarrow> (y = 0 \<or> 1 \<le> \<bar>y\<bar>) \<and> \<bar>y\<bar> \<le> 2 ^ b"

lemma whole_sized: "whole b y \<Longrightarrow> b \<le> 99 \<Longrightarrow> sized y"
  using power_increasing [of b 99 "2 :: real"] by (auto simp: whole_def sized_def)

lemma whole_mult: "whole a y \<Longrightarrow> whole b z \<Longrightarrow> whole (a + b) (y * z)"
  using mult_mono [of 1 "\<bar>y\<bar>" 1 "\<bar>z\<bar>"] mult_mono [of "\<bar>y\<bar>" "2 ^ a" "\<bar>z\<bar>" "2 ^ b"]
  by (auto simp: whole_def abs_mult power_add)

lemma whole_int: "\<bar>k\<bar> \<le> 2 ^ b \<Longrightarrow> whole b (of_int k)"
  using of_int_le_iff [of 1 "\<bar>k\<bar>", where 'a = real] of_int_le_iff [of "\<bar>k\<bar>" "2 ^ b", where 'a = real]
  by (auto simp: whole_def)

lemma stands_times:
  assumes "stands c x y" "\<forall>k\<in>set ks. 0 \<le> k \<and> k \<le> 65536" "whole b y"
    and "c + 2 * length ks \<le> 15" "b + 16 * length ks \<le> 99"
  shows "stands (c + 2 * length ks) (float_times x ks) (foldl (\<lambda>y k. y * of_int k) y ks)"
    "whole (b + 16 * length ks) (foldl (\<lambda>y k. y * of_int k) y ks)"
  unfolding float_times_def atomize_conj
  using assms
proof (induction ks arbitrary: c b x y)
  case (Cons k ks)
  have k: "\<bar>k\<bar> < 2 ^ 40" "\<bar>k\<bar> \<le> 2 ^ 16" using Cons.prems(2) by auto
  have w: "whole (b + 16) (y * of_int k)" by (rule whole_mult [OF Cons.prems(3) whole_int [OF k(2)]])
  have "stands (Suc (c + 1)) (fp_mul round32 x (float_of k)) (y * of_int k)"
    by (rule stands_mul [OF Cons.prems(1) stands_float_of [OF k(1)]])
      (use Cons.prems whole_sized [OF w] in auto)
  from Cons.IH [OF this _ w] Cons.prems show ?case by (simp add: add.assoc)
qed simp

lemma stands_over:
  assumes "stands c x y" "c \<le> 13" "d \<noteq> 0" "sized (y / of_int d)"
  shows "stands (c + 2) (float_over x d) (y / of_int d)"
  unfolding float_over_def
  using stands_conv [OF stands_div [OF assms(1) _ assms(3,4)]] assms(2,4) by simp

lemma whole_over:
  assumes "whole b y" "b \<le> 99" "1 \<le> d" "d \<le> 2 ^ 40"
  shows "sized (y / d)"
proof -
  have "\<bar>y\<bar> \<le> 2 ^ 99" using assms(1,2) power_increasing [of b 99 "2 :: real"] by (auto simp: whole_def)
  moreover have "\<bar>y\<bar> / d \<le> \<bar>y\<bar>" using assms(3) mult_left_mono [of 1 d "\<bar>y\<bar>"] by (simp add: divide_le_eq)
  moreover have "1 \<le> \<bar>y\<bar> \<Longrightarrow> 1 / 2 ^ 40 \<le> \<bar>y\<bar> / d" using assms(3,4) by (intro frac_le) auto
  ultimately show ?thesis using assms(1,3) by (auto simp: whole_def sized_def abs_divide)
qed
text \<open>The twelve values as real numbers.\<close>

definition electrical_reals :: "elec_reading \<Rightarrow> real list" where
  "electrical_reals r =
     (let p = (\<lambda>k. real_of_int (sint (elec_param r ! k))); q = elec_quantity r;
          u = real (unat (elec_u0 r)) * real (unat (elec_upp r)); i = real (unat (elec_i0 r)) * real (unat (elec_ipp r))
      in [p 3 * i / 10000, p 4 * i / 10000, p 5 * i / 10000, p 0 * u / 10000, p 1 * u / 10000, p 2 * u / 10000,
          real (unat (BUILD_UINT322 (q ! 1) (q ! 0))) * u * i / 10800000,
          real (unat (BUILD_UINT322 (q ! 3) (q ! 2))) * u * i / 10800000,
          p 6 * u * i * 3 / 10000 / 1000, p 7 * u * i * 3 / 10000 / 1000, p 8 * u * i * 3 / 10000 / 1000,
          p 9 / 10000])"

lemma sint_bound: "\<bar>sint (v :: u16)\<bar> \<le> 2 ^ 15"
  using sint_range_size [of v] by (simp add: word_size abs_le_iff)

lemma uint_bound: "uint (v :: u16) \<le> 65536"
  using unsigned_less [of v, where 'a = int] by simp

lemma stands_value:
  assumes "stands 1 x y" "whole b y" "\<forall>k\<in>set ks. 0 \<le> k \<and> k \<le> 65536" "length ks \<le> 6"
    and "b + 16 * length ks \<le> 99" "d \<in> {10000, 10800000}"
  shows "stands (3 + 2 * length ks) (float_over (float_times x ks) d) (foldl (\<lambda>y k. y * of_int k) y ks / of_int d)"
    "whole (b + 16 * length ks) (foldl (\<lambda>y k. y * of_int k) y ks)"
proof -
  have t: "stands (1 + 2 * length ks) (float_times x ks) (foldl (\<lambda>y k. y * of_int k) y ks)"
    and w: "whole (b + 16 * length ks) (foldl (\<lambda>y k. y * of_int k) y ks)"
    using stands_times [OF assms(1,3,2) _ assms(5)] assms(4) by simp_all
  have "stands (1 + 2 * length ks + 2) (float_over (float_times x ks) d) (foldl (\<lambda>y k. y * of_int k) y ks / of_int d)"
    by (rule stands_over [OF t]) (use assms(4,6) in \<open>auto intro: whole_over [OF w assms(5)]\<close>)
  then show "stands (3 + 2 * length ks) (float_over (float_times x ks) d) (foldl (\<lambda>y k. y * of_int k) y ks / of_int d)"
    by (simp add: numeral_3_eq_3)
  show "whole (b + 16 * length ks) (foldl (\<lambda>y k. y * of_int k) y ks)" by (fact w)
qed

lemma stands_param: "stands 1 (float_of (sint (v :: u16))) (of_int (sint v))" "whole 15 (of_int (sint v))"
  by (rule stands_float_of, use sint_bound [of v] in simp, rule whole_int, rule sint_bound)

lemma stands_energy: "stands 1 (float_of (uint (v :: u32))) (of_int (uint v))" "whole 32 (of_int (uint v))"
proof -
  have "\<bar>uint v\<bar> < 2 ^ 32" using unsigned_less [of v, where 'a = int] by simp
  then show "stands 1 (float_of (uint v)) (of_int (uint v))" "whole 32 (of_int (uint v))"
    by (intro stands_float_of whole_int; simp)+
qed

lemma stands_near_20: "stands k x y \<Longrightarrow> k \<le> 15 \<Longrightarrow> fmt32 x \<Longrightarrow> near 20 (decode32 (encode32 x)) y"
  using close_near [of k x y] by (simp add: stands_def stored_value)

lemma float_over_fmt: "is_finite (fp_div round64 x (fp_of_int d)) \<Longrightarrow> fmt32 (float_over x d)"
  by (simp add: float_over_def conv_fmt)

text \<open>A value divided once, and one divided twice.\<close>

lemma near_value:
  assumes "stands 1 x y" "whole b y" "\<forall>k\<in>set ks. 0 \<le> k \<and> k \<le> 65536" "length ks \<le> 6"
    and "b + 16 * length ks \<le> 99" "d \<in> {10000, 10800000}"
  shows "near 20 (decode32 (encode32 (float_over (float_times x ks) d))) (foldl (\<lambda>y k. y * of_int k) y ks / of_int d)"
proof (rule stands_near_20 [OF stands_value(1) [OF assms]])
  show "3 + 2 * length ks \<le> 15" using assms(4) by simp
  have "stands (1 + 2 * length ks) (float_times x ks) (foldl (\<lambda>y k. y * of_int k) y ks)"
    using stands_times(1) [OF assms(1,3,2) _ assms(5)] assms(4) by simp
  from stands_div [OF this, of d] whole_over [OF stands_value(2) [OF assms] assms(5), of "of_int d"] assms(4,6)
  show "fmt32 (float_over (float_times x ks) d)"
    by (intro float_over_fmt) (auto simp: stands_def)
qed

lemma near_value_twice:
  assumes "stands 1 x y" "whole b y" "\<forall>k\<in>set ks. 0 \<le> k \<and> k \<le> 65536" "length ks \<le> 5"
    and "b + 16 * length ks \<le> 99"
  shows "near 20 (decode32 (encode32 (float_over (float_over (float_times x ks) 10000) 1000)))
    (foldl (\<lambda>y k. y * of_int k) y ks / 10000 / 1000)"
proof -
  let ?y = "foldl (\<lambda>y k. y * of_int k) y ks"
  have l: "length ks \<le> 6" using assms(4) by simp
  have s: "stands (3 + 2 * length ks) (float_over (float_times x ks) 10000) (?y / 10000)"
    using stands_value(1) [OF assms(1-3) l assms(5), of 10000] by simp
  have "sized (?y / 10000000)"
    by (rule whole_over [OF stands_value(2) [OF assms(1-3) l assms(5), of 10000] assms(5)]) simp_all
  then have z: "sized (?y / 10000 / of_int 1000)" by simp
  have "stands (3 + 2 * length ks + 2) (float_over (float_over (float_times x ks) 10000) 1000) (?y / 10000 / of_int 1000)"
    by (rule stands_over [OF s _ _ z]) (use assms(4) in simp_all)
  moreover have "fmt32 (float_over (float_over (float_times x ks) 10000) 1000)"
    using stands_div [OF s _ _ z] assms(4) by (intro float_over_fmt) (simp add: stands_def)
  moreover have "3 + 2 * length ks + 2 \<le> 15" using assms(4) by simp
  ultimately have "near 20 (decode32 (encode32 (float_over (float_over (float_times x ks) 10000) 1000)))
      (?y / 10000 / of_int 1000)"
    using stands_near_20 by blast
  then show ?thesis by simp
qed

text \<open>
  C17. Each of the twelve values that a poll of the wired electricity meter stores is the value of the
  formula over the real numbers up to one part in 2 to the 20, whatever the meter reports and
  whatever the ratios are: up to fifteen roundings, none of which overflows or loses digits.
\<close>

theorem electrical_values_close:
  "list_all2 (\<lambda>x y. near 20 (decode32 (encode32 x)) y) (electrical_param_result r) (electrical_reals r)"
proof -
  have u: "0 \<le> uint v \<and> uint v \<le> 65536" for v :: u16 using uint_bound by simp
  have one: "near 20 (decode32 (encode32 (float_over (float_times (float_of (sint (p :: u16))) [uint (v :: u16), uint (w :: u16)]) 10000)))
      (of_int (sint p) * (real (unat v) * real (unat w)) / 10000)" for p v w
    using near_value [OF stands_param, of "[uint v, uint w]" 10000 p] u by (simp add: mult.assoc)
  have energy: "near 20 (decode32 (encode32 (float_over (float_times (float_of (uint (p :: u32)))
        [uint (v :: u16), uint (w :: u16), uint (a :: u16), uint (b :: u16)]) 10800000)))
      (real (unat p) * (real (unat v) * real (unat w)) * (real (unat a) * real (unat b)) / 10800000)" for p v w a b
    using near_value [OF stands_energy, of "[uint v, uint w, uint a, uint b]" 10800000 p] u by (simp add: mult.assoc)
  have power: "near 20 (decode32 (encode32 (float_over (float_over (float_times (float_of (sint (p :: u16)))
        [uint (v :: u16), uint (w :: u16), uint (a :: u16), uint (b :: u16), 3]) 10000) 1000)))
      (of_int (sint p) * (real (unat v) * real (unat w)) * (real (unat a) * real (unat b)) * 3 / 10000 / 1000)" for p v w a b
    using near_value_twice [OF stands_param, of "[uint v, uint w, uint a, uint b, 3]" p] u by (simp add: mult.assoc)
  have factor: "near 20 (decode32 (encode32 (float_over (float_of (sint (p :: u16))) 10000))) (of_int (sint p) / 10000)" for p
    using near_value [OF stands_param, of "[]" 10000 p] by (simp add: float_times_def)
  show ?thesis
    using one energy power factor
    by (simp add: electrical_param_result_def electrical_reals_def Let_def eval_nat_numeral)
qed

end
