(* ===== verification/Stroke_Facts.thy ===== *)
theory Stroke_Facts
  imports Electrical_Facts
begin

text \<open>
  Sampling currents and powers along one pump stroke (\<^verbatim>\<open>time_handle_fun\<close> of theory
  \<open>Electrical\<close>): what a stroke leaves in the registers, and the two ways it runs into a fault.
\<close>

section \<open>The clock\<close>

text \<open>Readings that end a sleep until \<open>t\<close>, and the others that do not.\<close>

definition wakes :: "timeval \<Rightarrow> timeval list \<Rightarrow> bool" where
  "wakes t ws \<longleftrightarrow> ws \<noteq> [] \<and> milliseconds (last ws) > milliseconds t \<and>
     (\<forall>c\<in>set (butlast ws). milliseconds c \<le> milliseconds t)"

lemma wakes_sleep: "wakes t ws \<Longrightarrow> timer_sleep t (ws @ ts) = Some ts"
  by (induction ws) (auto simp: wakes_def split: if_splits)

section \<open>An undisturbed stroke\<close>

text \<open>
  One sample of a meter that may fail to answer: the attempts without an answer with the readings
  before them, the reading before the answer, the answer, and the readings of the sleep.
\<close>

record sample =
  smp_lost :: "(timeval \<times> exchange) list"
  smp_now :: timeval
  smp_exchange :: exchange
  smp_values :: "u16 list"
  smp_sleep :: "timeval list"

definition smp_bus :: "sample list \<Rightarrow> exchange list" where
  "smp_bus ps = concat (map (\<lambda>p. map snd (smp_lost p) @ [smp_exchange p]) ps)"

definition smp_clock :: "sample list \<Rightarrow> timeval list" where
  "smp_clock ps = concat (map (\<lambda>p. map fst (smp_lost p) @ smp_now p # smp_sleep p) ps)"

definition good_sample :: "u8 \<Rightarrow> timeval \<Rightarrow> timeval \<Rightarrow> sample \<Rightarrow> bool" where
  "good_sample w t1 wake p \<longleftrightarrow>
     length (smp_lost p) \<le> 5 \<and> (\<forall>(now, x)\<in>set (smp_lost p). milliseconds now \<le> milliseconds t1 \<and> silent (read_request w 67 4) x) \<and>
     milliseconds (smp_now p) \<le> milliseconds t1 \<and> gives w (smp_values p) (smp_exchange p) \<and> length (smp_values p) = 4 \<and>
     wakes wake (smp_sleep p)"

definition sample_wake :: "nat \<Rightarrow> timeval \<Rightarrow> timeval" where
  "sample_wake step_tm t = later (step_tm div 1000) (step_tm mod 1000 * 1000) t"

fun good_samples :: "u8 \<Rightarrow> timeval \<Rightarrow> nat \<Rightarrow> timeval \<Rightarrow> sample list \<Rightarrow> bool" where
  "good_samples w t1 step_tm t [] = True"
| "good_samples w t1 step_tm t (p # ps) \<longleftrightarrow>
     good_sample w t1 (sample_wake step_tm t) p \<and> good_samples w t1 step_tm (sample_wake step_tm t) ps"

abbreviation smp_event :: "u8 \<Rightarrow> event" where "smp_event w \<equiv> on_bus (read_request w 67 4)"

declare sync_loop.simps [simp del]

lemma sync_call:
  assumes "rtu_master c w"
  shows "silent (read_request w 67 4) x \<Longrightarrow>
      read_call c ADDR_ELECTRICAL_PARAM_SYNC NUM_ELECTRICAL_PARAM_SYNC (buf, s, x # xs) = Some (-1, buf, emit (smp_event w) s, xs)"
    "gives w vs x \<Longrightarrow> length vs = 4 \<Longrightarrow> length buf = 4 \<Longrightarrow>
      read_call c ADDR_ELECTRICAL_PARAM_SYNC NUM_ELECTRICAL_PARAM_SYNC (buf, s, x # xs) = Some (4, vs, emit (smp_event w) s, xs)"
  using call_silent(1) [OF assms, of 4 67 x buf s xs] call_answered(1) [OF assms, of vs x 4 buf 67 s xs]
  by (simp_all add: wired_elec_requests)

lemma sync_lost:
  assumes "rtu_master c w" "syn_i y < n"
    and "\<forall>(now, x)\<in>set ls. milliseconds now \<le> milliseconds t1 \<and> silent (read_request w 67 4) x"
    and "read_cnt y + length ls \<le> 5"
  shows "sync_loop c buf n m step_tm t1 y (s, map snd ls @ xs, map fst ls @ ts) =
    sync_loop c buf n m step_tm t1 (y\<lparr>read_cnt := read_cnt y + length ls\<rparr>) (sends (smp_event w) (length ls) s, xs, ts)"
  using assms(2-4)
proof (induction ls arbitrary: y s)
  case (Cons l ls)
  obtain now x where l: "l = (now, x)" by (cases l)
  show ?case
    using Cons.prems Cons.IH [of "y\<lparr>read_cnt := Suc (read_cnt y)\<rparr>" "emit (smp_event w) s"] sync_call(1) [OF assms(1)]
    by (subst sync_loop.simps) (simp add: l)
qed simp

lemma sync_stored:
  assumes "rtu_master c w" "good_sample w t1 (sample_wake step_tm (syn_t0 y)) p" "syn_i y < n" "read_cnt y = 0" "length buf = 4"
  shows "sync_loop c buf n m step_tm t1 y (s, smp_bus [p] @ xs, smp_clock [p] @ ts) =
    sync_loop c (smp_values p) n m step_tm t1 (store_sample (smp_values p) step_tm y)
      (sends (smp_event w) (Suc (length (smp_lost p))) s, xs, ts)"
proof -
  let ?l = "length (smp_lost p)"
  have g: "\<forall>(now, x)\<in>set (smp_lost p). milliseconds now \<le> milliseconds t1 \<and> silent (read_request w 67 4) x" "?l \<le> 5"
    "milliseconds (smp_now p) \<le> milliseconds t1" "gives w (smp_values p) (smp_exchange p)" "length (smp_values p) = 4"
    "wakes (sample_wake step_tm (syn_t0 y)) (smp_sleep p)"
    using assms(2) by (auto simp: good_sample_def)
  have e: "emit ev (sends ev k s) = sends ev (Suc k) s" for ev k s
    by (simp add: sends_def emit_def replicate_append_same)
  have st: "store_sample q step_tm (y\<lparr>read_cnt := k\<rparr>) = store_sample q step_tm y" for q k
    by (simp add: store_sample_def)
  have "sync_loop c buf n m step_tm t1 y (s, smp_bus [p] @ xs, smp_clock [p] @ ts) =
      sync_loop c buf n m step_tm t1 (y\<lparr>read_cnt := ?l\<rparr>)
        (sends (smp_event w) ?l s, smp_exchange p # xs, smp_now p # smp_sleep p @ ts)"
    using sync_lost [OF assms(1,3) g(1), of buf m step_tm s "smp_exchange p # xs" "smp_now p # smp_sleep p @ ts"] g(2) assms(4)
    by (simp add: smp_bus_def smp_clock_def)
  also have "\<dots> = sync_loop c (smp_values p) n m step_tm t1 (store_sample (smp_values p) step_tm y)
      (sends (smp_event w) (Suc ?l) s, xs, ts)"
    using assms(3) g(3) sync_call(2) [OF assms(1) g(4,5) assms(5)] wakes_sleep [OF g(6)]
    by (subst sync_loop.simps) (simp add: e st, simp add: store_sample_def sample_wake_def)
  finally show ?thesis .
qed

fun store_samples :: "nat \<Rightarrow> sample list \<Rightarrow> sync \<Rightarrow> sync" where
  "store_samples step_tm [] y = y"
| "store_samples step_tm (p # ps) y = store_samples step_tm ps (store_sample (smp_values p) step_tm y)"

lemma store_sample_fields [simp]:
  "syn_i (store_sample q step_tm y) = Suc (syn_i y)" "read_cnt (store_sample q step_tm y) = 0"
  "syn_t0 (store_sample q step_tm y) = sample_wake step_tm (syn_t0 y)"
  "length (syn_data (store_sample q step_tm y)) = length (syn_data y)"
  by (simp_all add: store_sample_def sample_wake_def)

lemma sync_undisturbed:
  assumes "rtu_master c w" "good_samples w t1 step_tm (syn_t0 y) ps" "syn_i y + length ps = n" "read_cnt y = 0" "length buf = 4"
  shows "sync_loop c buf n m step_tm t1 y (s, smp_bus ps @ xs, smp_clock ps @ ts) =
    Some (Some (n, store_samples step_tm ps y), 
      sends (smp_event w) (sum_list (map (\<lambda>p. Suc (length (smp_lost p))) ps)) s, xs, ts)"
  using assms(2-)
proof (induction ps arbitrary: y s buf)
  case Nil
  then show ?case by (subst sync_loop.simps) (simp add: smp_bus_def smp_clock_def)
next
  case (Cons p ps)
  have sum: "sends ev k (sends ev j s) = sends ev (j + k) s" for ev j k s
    by (simp add: sends_def replicate_add)
  have "smp_bus (p # ps) = smp_bus [p] @ smp_bus ps" "smp_clock (p # ps) = smp_clock [p] @ smp_clock ps"
    by (simp_all add: smp_bus_def smp_clock_def)
  moreover have "length (smp_values p) = 4" using Cons.prems(1) by (simp add: good_sample_def)
  ultimately show ?case
    using sync_stored [OF assms(1), of t1 step_tm y p n buf m s "smp_bus ps @ xs" "smp_clock ps @ ts"] Cons
    by (simp add: sum)
qed

lemma stored_data:
  assumes "length (syn_data y) = 500" "syn_i y + length ps \<le> 250" "j < 250"
  shows "syn_data (store_samples step_tm ps y) ! j =
      (if syn_i y \<le> j \<and> j < syn_i y + length ps then smp_values (ps ! (j - syn_i y)) ! 0 else syn_data y ! j)"
    "syn_data (store_samples step_tm ps y) ! (250 + j) =
      (if syn_i y \<le> j \<and> j < syn_i y + length ps then smp_values (ps ! (j - syn_i y)) ! 3 else syn_data y ! (250 + j))"
    "length (syn_data (store_samples step_tm ps y)) = 500"
  unfolding atomize_conj using assms
proof (induction ps arbitrary: y)
  case (Cons p ps)
  let ?y = "store_sample (smp_values p) step_tm y"
  have i: "syn_i y < 250" using Cons.prems(2) by simp
  have d: "syn_data ?y ! j = (if j = syn_i y then smp_values p ! 0 else syn_data y ! j)"
    "syn_data ?y ! (250 + j) = (if j = syn_i y then smp_values p ! 3 else syn_data y ! (250 + j))"
    using i Cons.prems(1,3) by (auto simp: store_sample_def nth_list_update)
  have "j - syn_i y = Suc (j - Suc (syn_i y))" if "Suc (syn_i y) \<le> j" using that by simp
  then show ?case using Cons.IH [of ?y] Cons.prems d by (auto simp: nth_Cons' Suc_le_eq)
qed auto

section \<open>The routine\<close>

definition stroke_begin :: "u16 list \<Rightarrow> timeval \<Rightarrow> timeval" where
  "stroke_begin info now =
     (let tm_first = (unat (info ! 1) div 2 + unat (info ! 0)) mod 65536
      in later (tm_first div 100) (tm_first * 10 mod 1000 * 1000) now)"

definition stroke_end :: "u16 list \<Rightarrow> timeval \<Rightarrow> timeval" where
  "stroke_end info t0 = later (unat (info ! 1) div 100) (unat (info ! 1) * 10 mod 1000 * 1000) t0"

definition stroked :: "env \<Rightarrow> nat \<Rightarrow> rtu \<Rightarrow> bool" where
  "stroked e w s \<longleftrightarrow> reg_inv e w s \<and> kind_at (mp s) 1 17 \<noteq> MAP_SYS \<and> unat (reg (mp s) 1 17) = w \<and>
     1811 \<le> x_max (mp s) \<and> plain (mp s) w 1276 500 \<and> plain (mp s) w 1805 6"

lemma stroked_well:
  assumes "stroked e w s"
  shows "read_register e' s old 1 ELEC_WELL_NO_ADDR = Some (reg (mp s) 1 17)"
  unfolding ELEC_WELL_NO_ADDR_def
  by (rule read_register_plain [of e 1]) (use assms in \<open>auto simp: stroked_def reg_inv_def\<close>)

text \<open>The end of the routine, and the routine for arguments in range.\<close>

definition stroke_done ::
  "env \<Rightarrow> u16 \<Rightarrow> ctx \<Rightarrow> nat \<Rightarrow> (nat \<times> sync) option \<times> sync_world \<Rightarrow> (int \<times> ctx \<times> sync_world) option" where
  "stroke_done e well c m = (\<lambda>(r, s, xs, ts).
     case r of
       None \<Rightarrow> Some (-1, c, s, xs, ts)
     | Some (n, y) \<Rightarrow> do {
         d \<leftarrow> (if n < m then insert_samples m (m div (m - n)) (m div (m - n) - 1) (m - n) (syn_data y)
              else Some (syn_data y));
         s \<leftarrow> write_registers e d (unat well) ELEC_CYCLE_CURRENT_ADDR s;
         s \<leftarrow> save_time_register e (unat well) ELEC_CYCLE_TIME_ADDR s;
         Some (0, c, s, xs, ts) })"

lemma time_handle_run:
  assumes "1000 \<le> unat (info ! 1)" "unat (info ! 1) \<le> 10000" "0 < unat (info ! 2)"
    and "sync_steps (unat (info ! 1)) (min (unat (info ! 2)) 250) = (n, step_tm)"
  shows "time_handle_fun e j info (c, s, xs, now # ts) = do {
      well \<leftarrow> read_register e s (junk_elec_well j) 1 ELEC_WELL_NO_ADDR;
      ts \<leftarrow> timer_sleep (stroke_begin info now) ts;
      r \<leftarrow> sync_loop (snd (modbus_set_slave (uint well) c)) (junk_quantity j) n (min (unat (info ! 2)) 250) step_tm
        (stroke_end info (stroke_begin info now))
        \<lparr>syn_data = replicate 500 0xFFFF, syn_t0 = stroke_begin info now, syn_i = 0, read_cnt = 0\<rparr> (s, xs, ts);
      stroke_done e well (snd (modbus_set_slave (uint well) c)) (min (unat (info ! 2)) 250) r }"
proof -
  have "min (unat (info ! 2)) 250 \<noteq> 0" using assms(3) by simp
  moreover have "\<not> (unat (info ! 1) < 1000 \<or> unat (info ! 1) > 10000)" using assms(1,2) by simp
  ultimately show ?thesis
    unfolding time_handle_fun_def stroke_begin_def stroke_end_def stroke_done_def
    by (simp only: Let_def assms(4) if_False prod.case list.case)
qed

text \<open>
  A stroke of 10 to 100 seconds sampled at the points of the load diagram (at most 250, at least a
  tenth of a second apart). When every sample is answered after at most five lost requests, and
  before the end of the stroke, currents and powers land in the registers of the well in the order
  of the samples, the rest of both blocks is filled with 0xFFFF, and apart from the time no other
  register of the well changes.
\<close>

lemma stroke_sampled:
  assumes "backend_of c = Backend_rtu" "stroked e (unat w) s" "length (junk_quantity j) = 4"
    and "1000 \<le> unat (info ! 1)" "unat (info ! 1) \<le> 10000" "length ps = min (unat (info ! 2)) 250" "ps \<noteq> []"
    and "sync_steps (unat (info ! 1)) (length ps) = (length ps, step_tm)"
    and "wakes (stroke_begin info now) ws"
    and "good_samples w (stroke_end info (stroke_begin info now)) step_tm (stroke_begin info now) ps"
  shows "\<exists>t. time_handle_fun e j info (c, s, smp_bus ps @ xs, now # ws @ smp_clock ps @ ts) =
      Some (0, c\<lparr>ctx_slave := int (unat w)\<rparr>, t, xs, ts) \<and>
    out t = out s @ replicate (sum_list (map (\<lambda>p. Suc (length (smp_lost p))) ps)) (smp_event w) \<and>
    (\<forall>k<250. reg (mp t) (unat w) (1276 + k) = (if k < length ps then smp_values (ps ! k) ! 0 else 0xFFFF) \<and>
      reg (mp t) (unat w) (1526 + k) = (if k < length ps then smp_values (ps ! k) ! 3 else 0xFFFF)) \<and>
    (\<forall>i<x_max (mp s). i < 1276 \<or> 1776 \<le> i \<and> i < 1805 \<or> 1811 \<le> i \<longrightarrow> reg (mp t) (unat w) i = reg (mp s) (unat w) i)"
proof -
  let ?c = "c\<lparr>ctx_slave := int (unat w)\<rparr>" and ?t0 = "stroke_begin info now"
  let ?y = "\<lparr>syn_data = replicate 500 0xFFFF, syn_t0 = ?t0, syn_i = 0, read_cnt = 0\<rparr>"
  let ?k = "sum_list (map (\<lambda>p. Suc (length (smp_lost p))) ps)"
  define d where "d = syn_data (store_samples step_tm ps ?y)"
  have w: "1 \<le> unat w" "unat w \<le> 8" and n: "unat (reg (mp s) 1 17) = unat w"
    using assms(2) by (auto simp: stroked_def reg_inv_def)
  have master: "rtu_master ?c w" using assms(1) w by (simp add: rtu_master_def)
  have set: "modbus_set_slave (uint (reg (mp s) 1 17)) c = (0, ?c)"
    by (rule set_slave_well [OF n w(2)])
  have run: "sync_loop ?c (junk_quantity j) (length ps) (length ps) step_tm (stroke_end info ?t0) ?y
      (s, smp_bus ps @ xs, smp_clock ps @ ts) =
    Some (Some (length ps, store_samples step_tm ps ?y), sends (smp_event w) ?k s, xs, ts)"
    using sync_undisturbed [OF master, of "stroke_end info ?t0" step_tm ?y ps "length ps" "junk_quantity j"] assms(3,10) by simp
  have len: "length ps \<le> 250" using assms(6) by simp
  have data: "d ! k = (if k < length ps then smp_values (ps ! k) ! 0 else 0xFFFF)"
    "d ! (250 + k) = (if k < length ps then smp_values (ps ! k) ! 3 else 0xFFFF)" "length d = 500" if "k < 250" for k
    using stored_data [of ?y ps k step_tm] that len by (simp_all add: d_def)
  define blocks :: "(nat \<times> u16 list) list" where "blocks = [(1276, d), (1805, time_registers e)]"
  have l: "length d = 500" using data(3) [of 0] by simp
  have "d \<noteq> []" "time_registers e \<noteq> []" by (simp_all add: l flip: length_greater_0_conv)
  then have plain: "blocks_plain (mp s) (unat w) blocks"
    using assms(2) l by (auto simp: blocks_plain_def blocks_def stroked_def)
  then have "ready e (unat w) blocks (sends (smp_event w) ?k s)"
    using assms(2) by (simp add: ready_def stroked_def reg_inv_def)
  from write_blocks_ready [OF this] obtain t where t: "write_blocks e blocks (unat w) (sends (smp_event w) ?k s) = Some t"
    "mp t = store_blocks (unat w) blocks (mp s)" "out t = out s @ replicate ?k (smp_event w)"
    using same_rest_fields(1) by fastforce
  have pos: "0 < unat (info ! 2)" using assms(6,7) by (cases "unat (info ! 2)") auto
  have "time_handle_fun e j info (c, s, smp_bus ps @ xs, now # ws @ smp_clock ps @ ts) = Some (0, ?c, t, xs, ts)"
    unfolding time_handle_run [OF assms(4,5) pos, folded assms(6), OF assms(8)]
    using stroked_well [OF assms(2)] set n wakes_sleep [OF assms(9)] run t(1)
    by (simp add: stroke_done_def blocks_def elec_addrs save_time_register_def bind_eq_Some_conv d_def)
  moreover have "reg (mp t) (unat w) i = (case block_value blocks i of Some v \<Rightarrow> v | None \<Rightarrow> reg (mp s) (unat w) i)"
    if "i < x_max (mp s)" for i
    unfolding t(2) by (rule reg_store_blocks [OF w(1) plain that])
  moreover have "1811 \<le> x_max (mp s)" using assms(2) by (simp add: stroked_def)
  ultimately show ?thesis
    using t(3) data l by (auto simp: blocks_def)
qed

definition stroke_answer :: "u16 list \<Rightarrow> exchange" where
  "stroke_answer vs = ([8], [rtu_send_msg_pre ([1, 3, of_nat (2 * length vs)] @ concat (map be_bytes vs))])"

lemma stroke_answer_gives: "gives 1 vs (stroke_answer vs)"
proof -
  have "rtu_send_msg_pre m \<noteq> []" for m by (simp add: rtu_seal)
  then show ?thesis using stream_single unfolding gives_def stroke_answer_def by simp
qed

definition sample_demo :: "sample list" where
  "sample_demo =
     [\<lparr>smp_lost = [], smp_now = (5, 1000), smp_exchange = stroke_answer [7, 0, 0, 9], smp_values = [7, 0, 0, 9],
        smp_sleep = [(9, 0), (10, 1000)]\<rparr>,
      \<lparr>smp_lost = [((10, 1000), ([8], [[]]))], smp_now = (10, 70000), smp_exchange = stroke_answer [8, 0, 0, 10],
        smp_values = [8, 0, 0, 10], smp_sleep = [(15, 1000)]\<rparr>]"

lemma sample_demo_stroke:
  "stroke_begin [0, 1000, 2] (0, 0) = (5, 0)" "stroke_end [0, 1000, 2] (5, 0) = (15, 0)"
  "sync_steps (unat ([0, 1000, 2 :: u16] ! 1)) (length sample_demo) = (length sample_demo, 5000)"
  by (simp_all add: stroke_begin_def stroke_end_def later_def sample_demo_def sync_steps_def Let_def numeral_2_eq_2 [symmetric])

lemma sample_demo_good:
  "wakes (5, 0) [(5, 1000)]" "good_samples 1 (15, 0) 5000 (5, 0) sample_demo"
proof -
  have "silent (read_request 1 67 4) ([8], [[]])"
    by (simp add: silent_def read_request_def rtu_seal stream_of_def) (simp add: rtu_header_def)
  then show "good_samples 1 (15, 0) 5000 (5, 0) sample_demo"
    by (simp add: sample_demo_def good_sample_def sample_wake_def later_def wakes_def milliseconds_def stroke_answer_gives)
qed (simp add: wakes_def milliseconds_def)

section \<open>Faults\<close>

lemma sync_bound:
  "sync_loop c buf n m step_tm t1 y w = Some (Some (k, y'), w') \<Longrightarrow>
   (syn_i y \<le> n \<longrightarrow> k \<le> n) \<and> length (syn_data y') = length (syn_data y)"
proof (induction c buf n m step_tm t1 y w rule: sync_loop.induct)
  case (1 c junk n m step_tm t1 y s xs ts)
  show ?case
  proof (cases "syn_i y \<ge> n")
    case True
    then show ?thesis using 1(3) by (simp add: sync_loop.simps)
  next
    case False
    note first = False
    then obtain now ts' where ts: "ts = now # ts'" using 1(3) by (cases ts) (auto simp: sync_loop.simps)
    show ?thesis
    proof (cases "milliseconds now > milliseconds t1")
      case True
      then show ?thesis using 1(3) first ts by (auto simp: sync_loop.simps split: if_splits)
    next
      case False
      obtain rc q s' xs' where r: "read_call c ADDR_ELECTRICAL_PARAM_SYNC NUM_ELECTRICAL_PARAM_SYNC (junk, s, xs) = Some (rc, q, s', xs')"
        using 1(3) first False ts
        by (cases "read_call c ADDR_ELECTRICAL_PARAM_SYNC NUM_ELECTRICAL_PARAM_SYNC (junk, s, xs)")
          (auto simp: sync_loop.simps)
      show ?thesis
      proof (cases "rc = -1")
        case True
        then show ?thesis
          using 1(3) 1(1) [OF first ts False r refl refl refl True] first False ts r
          by (auto simp: sync_loop.simps [of c junk] split: if_splits)
      next
        case rc: False
        obtain ts2 where t2: "timer_sleep (syn_t0 (store_sample q step_tm y)) ts' = Some ts2"
          using 1(3) first False ts r rc by (auto simp: sync_loop.simps [of c junk] split: option.splits)
        show ?thesis
          using 1(3) 1(2) [OF first ts False r refl refl refl rc t2] first False ts r rc t2
          by (auto simp: sync_loop.simps [of c junk])
      qed
    qed
  qed
qed

lemma insertion_overflows:
  assumes "length d = 500" "n \<le> 248"
  shows "insert_samples 250 (250 div (250 - n)) (250 div (250 - n) - 1) (250 - n) d = None"
proof -
  obtain r where r: "250 - n = Suc (Suc r)" using assms(2) by (cases "250 - n"; cases "250 - n - 1") auto
  define pos where "pos = 250 div (250 - n) - 1"
  have "250 div (250 - n) \<le> 250 div 2" unfolding r by (intro div_le_mono2) auto
  then have pos: "pos < 249" "pos mod 250 = pos" by (auto simp: pos_def)
  have e: "pos + (250 - pos) = 250" "\<not> 250 - pos \<le> 1" using pos(1) by simp_all
  have "buff_backward pos (250 - pos) d = Some (take (Suc pos) d @ take (250 - pos) (drop pos d) @ drop (Suc 250) d)"
    unfolding buff_backward_def using assms(1) e by (simp only: if_False) simp
  then obtain d' where d': "buff_backward pos (250 - pos) d = Some d'" "length d' = 500"
    using assms(1) pos(1) by simp
  have "buff_backward (pos + 250) (250 - pos) d' = None" using d'(2) pos(1) by (simp add: buff_backward_def)
  then have "insert_samples 250 k pos (Suc l) d = None" for k l
    using pos d' by simp
  then show ?thesis unfolding pos_def [symmetric] unfolding r .
qed



text \<open>A load diagram without points divides by zero.\<close>

lemma no_points_divide:
  assumes "stroked e w s" "info ! 2 = 0" "1000 \<le> unat (info ! 1)" "unat (info ! 1) \<le> 10000"
  shows "time_handle_fun e j info (c, s, xs, ts) = None"
  using stroked_well [OF assms(1)] assms(2-4)
  by (cases ts) (simp_all add: time_handle_fun_def Let_def)

end
