(* ===== verification/Master_Facts.thy ===== *)
theory Master_Facts
  imports Master485 Stroke_Facts
begin

text \<open>
  The RS485 master: what its state can be after any history, which message and which interval
  starts which poll, and how a stroke announced by the load meter comes to be sampled.
\<close>

section \<open>What a round keeps\<close>

definition rates :: "int set" where
  "rates = {1200, 2400, 4800, 9600, 19200, 38400, 57600}"

definition port_ok :: "port \<Rightarrow> bool" where
  "port_ok p \<longleftrightarrow> data_flag p \<in> {7, 8} \<and> stop_flag p \<in> {1, 2} \<and> ver_flag p \<in> {CHR ''N'', CHR ''E'', CHR ''O''}"

lemma port_case_in:
  "(\<And>x. x \<in> snd ` set cases \<Longrightarrow> P x) \<Longrightarrow> P old \<Longrightarrow> P (port_case cases v old)"
  by (force simp: port_case_def split: option.splits dest: map_of_SomeD)

lemma init_port_ok:
  "port_ok (init_port_info info (DEFAULT_PORT rate))"
  "port_rate (init_port_info info (DEFAULT_PORT rate)) \<in> insert rate rates"
  unfolding port_ok_def init_port_info_def DEFAULT_PORT_def
  by (simp_all, intro conjI) (rule port_case_in; auto simp: rates_def)+

definition sane :: "u16 \<Rightarrow> bool" where
  "sane v \<longleftrightarrow> 10 \<le> unat v \<and> unat v \<le> 600"

lemma sane_sane_interval: "sane (sane_interval v)"
  by (simp add: sane_def sane_interval_def word_le_nat_alt word_less_nat_alt not_less)

text \<open>The type of the thread's variables, with the rate the configuration text gives.\<close>

definition master_type :: "int \<Rightarrow> master \<Rightarrow> bool" where
  "master_type rate m \<longleftrightarrow>
     master_485_ctrl m \<in> {0, 1, 2, 3} \<and> sane (elec_interval m) \<and> sane (act_interval m) \<and>
     port_ok (master_port m) \<and> port_rate (master_port m) \<in> insert rate rates \<and>
     backend_of (master_ctx m) = Backend_rtu \<and> 0 \<le> ctx_slave (master_ctx m) \<and> ctx_slave (master_ctx m) \<le> 247 \<and>
     length (port_info m) = 5 \<and> length (syn_along_info m) = 3 \<and>
     length (ctx_msgbuf m) = 512 \<and> length (client_msgbuf m) = 512"

lemma set_slave_type:
  "backend_of (snd (modbus_set_slave v c)) = backend_of c"
  "0 \<le> ctx_slave c \<Longrightarrow> ctx_slave c \<le> 247 \<Longrightarrow>
    0 \<le> ctx_slave (snd (modbus_set_slave v c)) \<and> ctx_slave (snd (modbus_set_slave v c)) \<le> 247"
  by (simp_all add: modbus_set_slave_def)

text \<open>The polls touch the context only through \<^verbatim>\<open>modbus_set_slave\<close>.\<close>

lemma deal_wired_electrical_ctx:
  assumes "deal_wired_electrical e j (c, s, xs) = Some (rc, c', s', xs')"
  shows "\<exists>v. c' = snd (modbus_set_slave v c)"
proof -
  obtain well where well: "read_register e s (junk_elec_well j) 1 ELEC_WELL_NO_ADDR = Some well"
    using assms by (auto simp: deal_wired_electrical_def split: bind_splits)
  have "c' = snd (modbus_set_slave (uint well) c)"
    using assms unfolding deal_wired_electrical_def prod.case well Option.bind.bind_lunit Let_def
    by (auto split: bind_splits if_splits option.splits)
  then show ?thesis by blast
qed

lemma stroke_done_ctx: "stroke_done e well c m r = Some (rc, c', w) \<Longrightarrow> c' = c"
  by (auto simp: stroke_done_def split: bind_splits option.splits prod.splits if_splits)

lemma time_handle_fun_ctx:
  assumes "time_handle_fun e j info (c, s, xs, ts) = Some (rc, c', w)"
  shows "\<exists>v. c' = snd (modbus_set_slave v c)"
proof -
  obtain well where well: "read_register e s (junk_elec_well j) 1 ELEC_WELL_NO_ADDR = Some well"
    using assms by (auto simp: time_handle_fun_def split: bind_splits)
  note well' = well [unfolded One_nat_def]
  obtain now ts' where ts: "ts = now # ts'"
    using assms by (cases ts) (simp_all add: time_handle_fun_def well' Let_def)
  have "c' = snd (modbus_set_slave (uint well) c)"
  proof (cases "unat (info ! 1) < 1000 \<or> unat (info ! 1) > 10000")
    case True
    then show ?thesis using assms by (simp add: time_handle_fun_def well' ts Let_def)
  next
    case range: False
    show ?thesis
    proof (cases "unat (info ! 2) = 0")
      case True
      then show ?thesis using assms range by (simp add: time_handle_fun_def well' ts Let_def)
    next
      case False
      obtain n step_tm where "sync_steps (unat (info ! 1)) (min (unat (info ! 2)) 250) = (n, step_tm)" by force
      then show ?thesis
        using assms range False
        by (auto simp: time_handle_run [where now = now and ts = ts'] well' ts split: bind_splits dest: stroke_done_ctx)
    qed
  qed
  then show ?thesis by blast
qed

lemma read_loop_keeps_length: "read_loop e s w i n buf = Some vs \<Longrightarrow> length vs = length buf"
proof (induction n arbitrary: i buf vs)
  case (Suc n)
  then show ?case by (cases buf) (auto split: bind_splits)
qed simp

lemma read_registers_length:
  "zigbee_read_registers e s buf len w a = Some (rc, vs) \<Longrightarrow> length vs = length buf"
  by (auto simp: zigbee_read_registers_def read_loop_keeps_length split: if_splits bind_splits)

definition msgs_fit :: "turn \<Rightarrow> bool" where
  "msgs_fit t \<longleftrightarrow> (\<forall>msg\<in>set (during t). length msg \<le> 512) \<and> (\<forall>msg. waiting t = Some msg \<longrightarrow> length msg \<le> 512)"

lemma filled_length: "length msg \<le> 512 \<Longrightarrow> length buf = 512 \<Longrightarrow> length (filled msg buf) = 512"
  by (simp add: filled_def)

lemma read_intervals_type:
  assumes "read_intervals e j s m = Some m'"
  obtains el act where "m' = m\<lparr>elec_interval := sane_interval el, act_interval := sane_interval act\<rparr>"
  using assms by (auto simp: read_intervals_def split: bind_splits)

lemma read_intervals_keeps:
  assumes "master_type rate m" "read_intervals e j s m = Some m'"
  shows "master_type rate m'"
  using assms(2) by (rule read_intervals_type) (use assms(1) in \<open>simp add: master_type_def sane_sane_interval\<close>)

lemma config_start_keeps:
  assumes "master_type rate m" "config_start e j s m = Some (rc, m')" "length (junk_msgbuf j) = 512"
  shows "master_type rate m'"
proof -
  obtain r info where info: "zigbee_read_registers e s (port_info m) 5 1 (int MAP_ADDR_RS485_MASTER_SERIAL_PORT) = Some (r, info)"
    using assms(2) by (auto simp: config_start_def split: bind_splits)
  let ?p = "init_port_info info (DEFAULT_PORT 9600)"
  have p: "port_ok ?p" "port_rate ?p \<in> insert rate rates" using init_port_ok [of info 9600] by (auto simp: rates_def)
  have l: "length info = 5" using read_registers_length [OF info] assms(1) by (simp add: master_type_def)
  show ?thesis
  proof (cases "?p = master_port m")
    case True
    then have "m' = m\<lparr>port_info := info\<rparr>" using assms(2) by (simp add: config_start_def info Let_def)
    then show ?thesis using assms(1) l by (simp add: master_type_def)
  next
    case False
    then have "m' = m\<lparr>port_info := info, master_port := ?p, master_ctx := snd (modbus_set_slave 1 modbus_new_rtu),
        ctx_msgbuf := junk_msgbuf j\<rparr>" using assms(2) by (simp add: config_start_def info Let_def)
    then show ?thesis
      using assms(1,3) l p by (simp add: master_type_def modbus_set_slave_def modbus_new_rtu_def)
  qed
qed

lemma msg_handler_keeps:
  assumes "master_type rate m" "msg_handler e j s buf m = Some (rc, m')" "length buf = 512"
    "length (junk_msgbuf j) = 512"
  shows "master_type rate m'"
proof -
  have "master_type rate (m\<lparr>master_485_ctrl := 3, syn_along_info := take 3 (drop 2 buf)\<rparr>)"
    using assms(1,3) by (simp add: master_type_def)
  then show ?thesis
    using assms(1,2) config_start_keeps [OF assms(1) _ assms(4)] read_intervals_keeps [OF assms(1)]
    by (auto simp: msg_handler_def ctrl_codes simp del: One_nat_def split: if_splits bind_splits)
qed

lemma buffers_type:
  "master_type rate m \<Longrightarrow> length b = 512 \<Longrightarrow> master_type rate (m\<lparr>ctx_msgbuf := b\<rparr>)"
  "master_type rate m \<Longrightarrow> length b = 512 \<Longrightarrow> master_type rate (m\<lparr>client_msgbuf := b\<rparr>)"
  by (simp_all add: master_type_def)

lemma handle_during_keeps:
  assumes "length (junk_msgbuf j) = 512"
  shows "master_type rate m \<Longrightarrow> \<forall>msg\<in>set msgs. length msg \<le> 512 \<Longrightarrow> handle_during e j s msgs m = Some m' \<Longrightarrow>
    master_type rate m'"
proof (induction msgs arbitrary: m)
  case (Cons msg msgs)
  have b: "length (filled msg (ctx_msgbuf m)) = 512"
    using Cons.prems by (intro filled_length) (simp_all add: master_type_def)
  from Cons.prems obtain rc m1 where m1: "msg_handler e j s (filled msg (ctx_msgbuf m)) (m\<lparr>ctx_msgbuf := filled msg (ctx_msgbuf m)\<rparr>) = Some (rc, m1)"
    and h: "handle_during e j s msgs m1 = Some m'"
    by (auto simp: Let_def split: bind_splits if_splits)
  have "master_type rate m1"
    using buffers_type(1) [OF Cons.prems(1) b] m1 b assms by (rule msg_handler_keeps)
  then show ?case using Cons.IH [of m1] h Cons.prems by simp
qed simp

lemma poll_keeps:
  assumes "master_type rate m" "poll e j t m s = Some (rc, m', s')"
  shows "master_type rate m'"
proof -
  have "\<exists>v. m' = m\<lparr>master_ctx := snd (modbus_set_slave v (master_ctx m))\<rparr> \<or> m' = m"
    using assms(2) by (auto simp: poll_def split: if_splits bind_splits dest!: time_handle_fun_ctx deal_wired_electrical_ctx)
  then show ?thesis
    using assms(1) set_slave_type [where c = "master_ctx m"] by (auto simp: master_type_def)
qed

lemma choose_poll_keeps: "master_type rate m \<Longrightarrow> master_type rate (choose_poll now m)"
  by (simp add: choose_poll_def master_type_def ctrl_codes)

lemma wait_message_keeps:
  assumes "master_type rate m" "wait_message e j t s m = Some m'" "msgs_fit t" "length (junk_msgbuf j) = 512"
  shows "master_type rate m'"
proof (cases "master_485_ctrl m = MASTER_485_CTRL_ELECTRICAL_SYNC \<or> waiting t = None")
  case True
  then show ?thesis using assms(1,2) by (auto simp: wait_message_def split: if_splits option.splits)
next
  case False
  then obtain msg where w: "waiting t = Some msg" by blast
  have b: "length (filled msg (client_msgbuf m)) = 512"
    using assms(1,3) w by (intro filled_length) (simp_all add: master_type_def msgs_fit_def)
  from assms(2) False w obtain rc where
    "msg_handler e j s (filled msg (client_msgbuf m)) (m\<lparr>client_msgbuf := filled msg (client_msgbuf m)\<rparr>) = Some (rc, m')"
    by (auto simp: wait_message_def Let_def split: bind_splits)
  with buffers_type(2) [OF assms(1) b] show ?thesis using b assms(4) by (rule msg_handler_keeps)
qed

definition settled :: "master \<Rightarrow> bool" where
  "settled m \<longleftrightarrow> master_485_ctrl m = 0 \<or> master_485_ctrl m = 3"

lemma settled_handler:
  assumes "msg_handler e j s buf m = Some (rc, m')"
  shows "master_485_ctrl m' = master_485_ctrl m \<or> master_485_ctrl m' = 3"
  using assms
  by (auto simp: msg_handler_def ctrl_codes config_start_def Let_def elim!: read_intervals_type
      split: if_splits bind_splits)

lemma settled_during:
  "handle_during e j s msgs m = Some m' \<Longrightarrow> master_485_ctrl m' = master_485_ctrl m \<or> master_485_ctrl m' = 3"
proof (induction msgs arbitrary: m)
  case (Cons msg msgs)
  let ?b = "filled msg (ctx_msgbuf m)"
  from Cons.prems obtain rc m1 where m1: "msg_handler e j s ?b (m\<lparr>ctx_msgbuf := ?b\<rparr>) = Some (rc, m1)"
    and h: "handle_during e j s msgs m1 = Some m'"
    by (auto simp: Let_def split: bind_splits if_splits)
  from settled_handler [OF m1] Cons.IH [OF h] show ?case by auto
qed simp

lemma poll_ctrl: "poll e j t m s = Some (rc, m', s') \<Longrightarrow> master_485_ctrl m' = master_485_ctrl m"
  by (auto simp: poll_def split: if_splits bind_splits)

lemma deal_packet_keeps:
  assumes "master_type rate m" "deal_master_485_packet e j t m s = Some (rc, m', s')" "msgs_fit t"
    "length (junk_msgbuf j) = 512"
  shows "master_type rate m' \<and> settled m'"
proof (cases "master_485_ctrl m = 3 \<or> master_485_ctrl m = 1 \<or> master_485_ctrl m = 2")
  case False
  then have "m' = m\<lparr>master_485_ctrl := 0\<rparr>"
    using assms(2) by (simp add: deal_master_485_packet_def ctrl_codes Let_def)
  then show ?thesis using assms(1) by (simp add: master_type_def settled_def)
next
  case True
  then obtain m1 m2 where m1: "poll e j t m s = Some (rc, m1, s')"
    and m2: "handle_during e j s' (during t) m1 = Some m2"
    and m': "m' = (if master_485_ctrl m2 = master_485_ctrl m then m2\<lparr>master_485_ctrl := 0\<rparr> else m2)"
    using assms(2) by (auto simp: deal_master_485_packet_def ctrl_codes Let_def split: bind_splits)
  have t2: "master_type rate m2"
    using handle_during_keeps [OF assms(4) poll_keeps [OF assms(1) m1] _ m2] assms(3) by (simp add: msgs_fit_def)
  have "master_485_ctrl m2 = master_485_ctrl m \<or> master_485_ctrl m2 = 3"
    using settled_during [OF m2] poll_ctrl [OF m1] by simp
  then show ?thesis using m' t2 by (auto simp: master_type_def settled_def)
qed

lemma master_round_keeps:
  assumes "master_type rate m" "master_round e j t (m, s) = Some (m', s')" "msgs_fit t" "length (junk_msgbuf j) = 512"
  shows "master_type rate m' \<and> settled m'"
proof -
  from assms(2) obtain m1 rc s1 where
    m1: "wait_message e j t (update_thread_time e (int THREAD_RS485_MASTER) s) m = Some m1"
    and d: "deal_master_485_packet e j t (choose_poll (time_now e) m1) (update_thread_time e (int THREAD_RS485_MASTER) s) = Some (rc, m', s1)"
    by (auto simp: master_round_def Let_def split: bind_splits)
  show ?thesis
    using deal_packet_keeps [OF choose_poll_keeps [OF wait_message_keeps [OF assms(1) m1 assms(3,4)]] d assms(3,4)] .
qed

lemma master_start_type:
  assumes "master_start e j old_info old_syn rate s = Some m" "length old_info = 5" "length old_syn = 3"
    "length (junk_msgbuf j) = 512"
  shows "master_type rate m \<and> settled m"
proof -
  obtain r info where info: "zigbee_read_registers e s old_info 5 1 (int MAP_ADDR_RS485_MASTER_SERIAL_PORT) = Some (r, info)"
    using assms(1) by (auto simp: master_start_def split: bind_splits)
  from assms(1) [unfolded master_start_def info] show ?thesis
    using assms(2-) read_registers_length [OF info] init_port_ok [of info rate]
    by (auto elim!: read_intervals_type
       simp: master_type_def settled_def sane_sane_interval modbus_set_slave_def modbus_new_rtu_def)
qed

text \<open>
  The histories of the thread: its start, and any rounds, between which the other threads may do to
  the registers and the rest of the shared state what they like.
\<close>

inductive master_reach :: "int \<Rightarrow> master \<Rightarrow> bool" for rate where
  start: "master_start e j old_info old_syn rate s = Some m \<Longrightarrow> length old_info = 5 \<Longrightarrow> length old_syn = 3 \<Longrightarrow>
    length (junk_msgbuf j) = 512 \<Longrightarrow> master_reach rate m"
| round: "master_reach rate m \<Longrightarrow> master_round e j t (m, s) = Some (m', s') \<Longrightarrow> msgs_fit t \<Longrightarrow>
    length (junk_msgbuf j) = 512 \<Longrightarrow> master_reach rate m'"


section \<open>A sample thread\<close>

definition master_junk_demo :: master_junk where
  "master_junk_demo = \<lparr>junk_msgbuf = replicate 512 0, junk_number = 0, junk_elec = elec_junk_demo, junk_act = junk_demo\<rparr>"

definition turn_demo :: turn where
  "turn_demo = \<lparr>waiting = None, exchanges = [], clock = [], answers_of = [], during = []\<rparr>"

text \<open>A thread that has just started, on a device all of whose registers hold 1.\<close>

definition master_demo :: master where
  "master_demo = \<lparr>master_ctx = ctx_demo 1,
     master_port = \<lparr>port_rate = 2400, data_flag = 8, stop_flag = 2, ver_flag = CHR ''E''\<rparr>,
     port_info = replicate 5 1, master_485_ctrl = 0, elec_time = 0, elec_interval = 30, act_time = 0, act_interval = 30,
     syn_along_info = [0, 0, 0], ctx_msgbuf = replicate 512 0, client_msgbuf = replicate 512 0\<rparr>"

lemma read_block_plain:
  assumes "reg_inv e 1 s" "k + n \<le> x_max (mp s)" "plain (mp s) 1 k n" "length buf = n" "0 < n"
  shows "zigbee_read_registers e' s buf (int n) 1 (int k) = Some (0, map (reg (mp s) 1) [k..<k + n])"
proof -
  have "map_wf (mp s)" using assms(1) by (simp add: reg_inv_def)
  from read_loop_plain [OF this, of 1 k n buf e'] show ?thesis
    using assms(2-5) by (simp add: zigbee_read_registers_def args_ok_def map_sizes)
qed

lemma read_port_info:
  assumes "reg_inv e 1 s" "k + 5 \<le> x_max (mp s)" "plain (mp s) 1 k 5" "length buf = 5"
  shows "zigbee_read_registers e' s buf 5 1 (int k) = Some (0, map (reg (mp s) 1) [k..<k + 5])"
  using read_block_plain [OF assms, of e'] by simp

lemma read_intervals_plain:
  assumes "reg_inv e 1 s" "18 < x_max (mp s)" "plain (mp s) 1 17 2"
    and "reg_inv e (unat (reg (mp s) 1 17)) s" "reg_inv e (unat (reg (mp s) 1 18)) s"
    and "1870 < x_max (mp s)" "kind_at (mp s) (unat (reg (mp s) 1 17)) 1796 \<noteq> MAP_SYS" "kind_at (mp s) (unat (reg (mp s) 1 18)) 1870 \<noteq> MAP_SYS"
  shows "read_intervals e' j s m = Some (m\<lparr>elec_interval := sane_interval (reg (mp s) (unat (reg (mp s) 1 17)) 1796),
     act_interval := sane_interval (reg (mp s) (unat (reg (mp s) 1 18)) 1870)\<rparr>)"
proof -
  have k: "kind_at (mp s) 1 17 \<noteq> MAP_SYS" "kind_at (mp s) 1 18 \<noteq> MAP_SYS" using assms(3) by (simp_all add: plain_def)
  show ?thesis
    using assms k
    by (simp add: read_intervals_def ACTUATOR_WELL_NO_ADDR_def ELEC_WELL_NO_ADDR_def ELEC_INTERVAL_ADDR_def
        ACTUATOR_INTERVAL_ADDR_def read_register_plain [OF assms(1)] read_register_plain [OF assms(4)] read_register_plain [OF assms(5)] del: One_nat_def)
qed

lemma master_demo_started: "master_start env_demo master_junk_demo (replicate 5 0) [0, 0, 0] 9600 rtu_meters = Some master_demo"
proof -
  have inv: "reg_inv env_demo 1 rtu_meters" by (rule rtu_meters_inv) simp_all
  have r: "reg (mp rtu_meters) 1 k = 1" for k by (simp add: reg_def rtu_meters_wf)
  have "read_intervals env_demo master_junk_demo rtu_meters m = Some (m\<lparr>elec_interval := 30, act_interval := 30\<rparr>)" for m
    using read_intervals_plain [of env_demo rtu_meters env_demo master_junk_demo m] inv
    by (simp add: r rtu_meters_plain rtu_meters_wf sane_interval_def del: One_nat_def)
  moreover have "zigbee_read_registers env_demo rtu_meters (replicate 5 0) 5 1 (int MAP_ADDR_RS485_MASTER_SERIAL_PORT) = Some (0, replicate 5 1)"
    using read_port_info [of env_demo rtu_meters 171 "replicate 5 0" env_demo] inv
    by (simp add: r rtu_meters_plain rtu_meters_wf upt_rec MAP_ADDR_RS485_MASTER_SERIAL_PORT_def del: One_nat_def) (simp add: numeral_eq_Suc)
  ultimately show ?thesis
    by (simp add: master_start_def master_demo_def init_port_info_def port_case_def DEFAULT_PORT_def modbus_set_slave_def
        modbus_new_rtu_def ctx_demo_def master_junk_demo_def)
qed

lemma quiet_round:
  assumes "master_485_ctrl m = 0" "waiting t = None" "during t = []"
  shows "master_round e j t (m, s) =
    (let m1 = choose_poll (time_now e) m; s1 = update_thread_time e (int THREAD_RS485_MASTER) s in
     if master_485_ctrl m1 = 0 then Some (m1, s1)
     else do { (rc, m2, s2) \<leftarrow> poll e j t m1 s1;
               Some (m2\<lparr>master_485_ctrl := 0\<rparr>,
                 if rc = -1 then s2 else update_thread_com_time e (int THREAD_RS485_MASTER) s2) })"
proof -
  have w: "wait_message e j t s' m = Some m" for s' using assms(1,2) by (simp add: wait_message_def ctrl_codes)
  have c: "master_485_ctrl (choose_poll now m) \<in> {0, 1, 2}" for now
    using assms(1) by (simp add: choose_poll_def ctrl_codes)
  show ?thesis
    using c [of "time_now e"] assms(3) w
    by (auto simp: master_round_def deal_master_485_packet_def ctrl_codes Let_def poll_ctrl bind_eq_None_conv
        intro!: Option.bind_cong)
qed


section \<open>The port\<close>

text \<open>The port that the registers from \<open>k\<close> on ask for.\<close>

definition asked_port :: "map_t \<Rightarrow> nat \<Rightarrow> port" where
  "asked_port m k =
     \<lparr>port_rate = (if reg m 1 k < 7 then [1200, 2400, 4800, 9600, 19200, 38400, 57600] ! unat (reg m 1 k) else 9600),
      data_flag = (if reg m 1 (k + 1) = 0 then 7 else 8), stop_flag = (if reg m 1 (k + 2) = 1 then 2 else 1),
      ver_flag = (if reg m 1 (k + 3) = 1 then CHR ''E'' else if reg m 1 (k + 3) = 2 then CHR ''O'' else CHR ''N'')\<rparr>"

lemma rate_case:
  "port_case [(0, 1200), (1, 2400), (2, 4800), (3, 9600), (4, 19200), (5, 38400), (6, 57600)] v 9600 =
    (if v < (7 :: u16) then [1200, 2400, 4800, 9600, 19200, 38400, 57600 :: int] ! unat v else 9600)"
proof (cases "v < 7")
  case True
  then have "unat v < 7" by (simp add: word_less_nat_alt)
  then have "unat v \<in> {0, 1, 2, 3, 4, 5, 6}" by auto
  then have "v \<in> {0, 1, 2, 3, 4, 5, 6}" by (auto simp: word_unat_eq_iff)
  then show ?thesis by (auto simp: port_case_def)
next
  case False
  then have "v \<notin> {0, 1, 2, 3, 4, 5, 6}" by auto
  then show ?thesis using False by (simp add: port_case_def)
qed

lemma asked_port_read:
  "init_port_info (map (reg m 1) [k..<k + 5]) (DEFAULT_PORT 9600) = asked_port m k"
proof -
  have "[k..<k + 5] = [k, k + 1, k + 2, k + 3, k + 4]" by (simp add: upt_rec)
  then show ?thesis
    by (simp add: init_port_info_def DEFAULT_PORT_def asked_port_def rate_case) (simp add: port_case_def)
qed

text \<open>
  The message that announces a new configuration, waiting between two polls: afterwards the port
  is the one that the registers ask for, the defaults in place of values that mean nothing; when it
  was another one, the context is new and has slave 1, and otherwise it is the old one. Intervals,
  times and the control byte stay.
\<close>

theorem port_follows_registers:
  assumes "reg_inv e 1 s" "176 \<le> x_max (mp s)" "plain (mp s) 1 171 5" "length (port_info m) = 5"
    and "master_485_ctrl m = 0" "waiting t = Some [MSG_CONFIG_START, 0]"
  shows "\<exists>m'. wait_message e' j t s m = Some m' \<and> master_port m' = asked_port (mp s) 171 \<and>
    ctx_slave (master_ctx m') = (if asked_port (mp s) 171 = master_port m then ctx_slave (master_ctx m) else 1) \<and>
    master_485_ctrl m' = 0 \<and> elec_interval m' = elec_interval m \<and> act_interval m' = act_interval m \<and>
    elec_time m' = elec_time m \<and> act_time m' = act_time m"
proof -
  define info where "info = map (reg (mp s) 1) [171..<171 + 5]"
  have r: "zigbee_read_registers e' s (port_info m) 5 1 (int MAP_ADDR_RS485_MASTER_SERIAL_PORT) = Some (0, info)"
    unfolding info_def MAP_ADDR_RS485_MASTER_SERIAL_PORT_def by (rule read_port_info) (use assms(1-4) in auto)
  have p: "init_port_info info (DEFAULT_PORT 9600) = asked_port (mp s) 171"
    unfolding info_def by (rule asked_port_read)
  show ?thesis
    using assms(5,6) r p
    by (auto simp: wait_message_def msg_handler_def config_start_def filled_def MSG_CONFIG_START_def ctrl_codes Let_def
        modbus_set_slave_def)
qed

theorem port_follows_registers_witness:
  "\<exists>m'. wait_message env_demo master_junk_demo (turn_demo\<lparr>waiting := Some [MSG_CONFIG_START, 0]\<rparr>) rtu_meters
      (master_demo\<lparr>master_port := DEFAULT_PORT 9600\<rparr>) = Some m' \<and> port_rate (master_port m') = 2400"
proof -
  have i: "reg_inv env_demo 1 rtu_meters" by (rule rtu_meters_inv) simp_all
  have "port_rate (asked_port (mp rtu_meters) 171) = 2400"
    by (simp add: asked_port_def reg_def rtu_meters_wf)
  then show ?thesis
    using port_follows_registers [OF i _ rtu_meters_plain, where m = "master_demo\<lparr>master_port := DEFAULT_PORT 9600\<rparr>"
        and t = "turn_demo\<lparr>waiting := Some [MSG_CONFIG_START, 0]\<rparr>" and e' = env_demo and j = master_junk_demo]
    by (auto simp: rtu_meters_wf(2) master_demo_def)
qed

section \<open>Which poll, and when\<close>

lemma poll_keeps_times:
  assumes "poll e j t m s = Some (rc, m', s')"
  shows "elec_time m' = elec_time m" "act_time m' = act_time m" "elec_interval m' = elec_interval m"
    "act_interval m' = act_interval m"
  using assms by (auto simp: poll_def split: if_splits bind_splits)


section \<open>A stroke announced\<close>

text \<open>
  The load meter announces a stroke while the line is in use. During a poll of the electricity
  meter or of the actuators, the request is kept: when the poll ends, however it ended, the next
  round samples the stroke with the announced times and points. During the sampling of another
  stroke the control byte is cleared at the end as if nothing had come, and the request is lost.
\<close>

theorem stroke_request_during_poll:
  assumes "master_485_ctrl m \<in> {1, 2, 3}" "during t = [[MSG_LOAD_ELEC_SYSN, 0, sync_time, cycle, points, well]]"
    and "poll e j t m s = Some (rc, m1, s1)"
  shows "\<exists>m'. deal_master_485_packet e j t m s = Some (rc, m', s1) \<and>
    syn_along_info m' = [sync_time, cycle, points] \<and>
    master_485_ctrl m' =
      (if master_485_ctrl m = MASTER_485_CTRL_ELECTRICAL_SYNC then MASTER_485_CTRL_DEFAULT
       else MASTER_485_CTRL_ELECTRICAL_SYNC)"
  using assms poll_ctrl [OF assms(3)]
  by (auto simp: deal_master_485_packet_def msg_handler_def filled_def MSG_LOAD_ELEC_SYSN_def MSG_CONFIG_START_def
      MSG_CONFIG2_START_def ctrl_codes Let_def numeral_3_eq_3)

lemma stroke_round:
  assumes "master_485_ctrl m = 0" "waiting t = Some [MSG_LOAD_ELEC_SYSN, 0, sync_time, cycle, points, well]" "during t = []"
    and "time_handle_fun e (junk_elec j) [sync_time, cycle, points]
      (master_ctx m, update_thread_time e (int THREAD_RS485_MASTER) s, exchanges t, clock t) = Some (0, c, s', w)"
  shows "\<exists>m'. master_round e j t (m, s) = Some (m', update_thread_com_time e (int THREAD_RS485_MASTER) s') \<and>
    master_485_ctrl m' = 0 \<and> elec_time m' = elec_time m \<and> act_time m' = act_time m"
  using assms
  by (cases w) (auto simp: master_round_def wait_message_def deal_master_485_packet_def poll_def choose_poll_def msg_handler_def
      filled_def MSG_LOAD_ELEC_SYSN_def MSG_CONFIG_START_def MSG_CONFIG2_START_def ctrl_codes Let_def numeral_3_eq_3)

definition rtu_nine :: rtu where
  "rtu_nine = rtu_meters\<lparr>mp := (mp rtu_meters)\<lparr>ram_x := \<lambda>_. 9\<rparr>\<rparr>"

text \<open>No wired meter: register 17 names a well that does not exist.\<close>

lemma rtu_nine_poll:
  assumes "mp s = mp rtu_nine" "master_485_ctrl m = MASTER_485_CTRL_ELECTRICAL"
  shows "poll e j t m s = Some (-1, m\<lparr>master_ctx := (master_ctx m)\<lparr>ctx_slave := 9\<rparr>\<rparr>, s)"
proof -
  have i: "reg_inv env_demo 1 s"
    using rtu_meters_inv [of 1] assms(1) by (simp add: reg_inv_def rtu_nine_def map_wf_def)
  have "read_register e s (junk_elec_well (junk_elec j)) 1 ELEC_WELL_NO_ADDR = Some (reg (mp s) 1 17)"
    unfolding ELEC_WELL_NO_ADDR_def by (rule read_register_plain [OF i]) (simp_all add: assms(1) rtu_nine_def rtu_meters_wf)
  moreover have "reg (mp s) 1 17 = 9" by (simp add: assms(1) rtu_nine_def reg_def rtu_meters_wf)
  ultimately show ?thesis
    using assms(2) by (simp add: poll_def deal_wired_electrical_def modbus_set_slave_def RTU_MAX_WELL_NUM_def ctrl_codes Let_def del: One_nat_def)
qed


theorem stroke_request_during_poll_witness:
  "\<exists>m. deal_master_485_packet env_demo master_junk_demo (turn_demo\<lparr>during := [[MSG_LOAD_ELEC_SYSN, 0, 20, 1024, 200, 1]]\<rparr>)
      (master_demo\<lparr>master_485_ctrl := 1\<rparr>) rtu_nine = Some (-1, m, rtu_nine) \<and>
    master_485_ctrl m = 3 \<and> syn_along_info m = [20, 1024, 200]"
  using stroke_request_during_poll [OF _ _ rtu_nine_poll, where m = "master_demo\<lparr>master_485_ctrl := 1\<rparr>" and s = rtu_nine
      and t = "turn_demo\<lparr>during := [[MSG_LOAD_ELEC_SYSN, 0, 20, 1024, 200, 1]]\<rparr>" and e = env_demo and j = master_junk_demo
      and sync_time = 20 and cycle = 1024 and points = 200 and well = 1]
  by (auto simp: ctrl_codes)

text \<open>
  C13. From the announcement to the registers. A load meter whose well has no wireless electricity
  meter announces a stroke with synchronisation time, cycle time and points; the message it makes
  waits between two polls of the master. Then that round samples the stroke: when every sample is
  answered after at most five lost requests and before the end, currents and powers are in the
  registers of the well of register 17 in the order of the samples, at most 250, the rest filled
  with 0xFFFF, nothing else but the time changed there, and the thread is ready again.
\<close>

theorem announced_stroke_sampled:
  assumes "sysn_message meter_mac b = MsgSend Q_rtu_client msg" "waiting t = Some msg" "during t = []"
    and "info = [be16_at b 14, be16_at b 22, be16_at b 18]"
    and "master_485_ctrl m = 0" "backend_of (master_ctx m) = Backend_rtu" "stroked e (unat w) s" "length (junk_quantity (junk_elec j)) = 4"
    and "1000 \<le> unat (info ! 1)" "unat (info ! 1) \<le> 10000" "length ps = min (unat (info ! 2)) 250" "ps \<noteq> []"
    and "sync_steps (unat (info ! 1)) (length ps) = (length ps, step_tm)"
    and "exchanges t = smp_bus ps @ xs" "clock t = now # ws @ smp_clock ps @ ts"
    and "wakes (stroke_begin info now) ws"
    and "good_samples w (stroke_end info (stroke_begin info now)) step_tm (stroke_begin info now) ps"
  shows "\<exists>m' s'. master_round e j t (m, s) = Some (m', s') \<and> master_485_ctrl m' = 0 \<and>
    elec_time m' = elec_time m \<and> act_time m' = act_time m \<and>
    out s' = out s @ replicate (sum_list (map (\<lambda>p. Suc (length (smp_lost p))) ps)) (smp_event w) \<and>
    (\<forall>k<250. reg (mp s') (unat w) (1276 + k) = (if k < length ps then smp_values (ps ! k) ! 0 else 0xFFFF) \<and>
      reg (mp s') (unat w) (1526 + k) = (if k < length ps then smp_values (ps ! k) ! 3 else 0xFFFF)) \<and>
    (\<forall>i<x_max (mp s). i < 1276 \<or> 1776 \<le> i \<and> i < 1805 \<or> 1811 \<le> i \<longrightarrow>
      reg (mp s') (unat w) i = reg (mp s) (unat w) i)"
proof -
  let ?s = "update_thread_time e (int THREAD_RS485_MASTER) s"
  have msg: "msg = [MSG_LOAD_ELEC_SYSN, 0, be16_at b 14, be16_at b 22, be16_at b 18, ucast (b ! 6)]"
    using assms(1) by (simp add: sysn_message_def MSG_LOAD_ELEC_SYSN_def split: if_splits)
  have "stroked e (unat w) ?s" using assms(7) by (simp add: stroked_def reg_inv_def frame_simps)
  from stroke_sampled [OF assms(6) this assms(8-13,16,17), of xs ts] obtain u where
    u: "time_handle_fun e (junk_elec j) info (master_ctx m, ?s, exchanges t, clock t) =
        Some (0, (master_ctx m)\<lparr>ctx_slave := int (unat w)\<rparr>, u, xs, ts)"
    and v: "out u = out s @ replicate (sum_list (map (\<lambda>p. Suc (length (smp_lost p))) ps)) (smp_event w)"
      "\<forall>k<250. reg (mp u) (unat w) (1276 + k) = (if k < length ps then smp_values (ps ! k) ! 0 else 0xFFFF) \<and>
        reg (mp u) (unat w) (1526 + k) = (if k < length ps then smp_values (ps ! k) ! 3 else 0xFFFF)"
      "\<forall>i<x_max (mp s). i < 1276 \<or> 1776 \<le> i \<and> i < 1805 \<or> 1811 \<le> i \<longrightarrow> reg (mp u) (unat w) i = reg (mp s) (unat w) i"
    by (auto simp: assms(14,15) frame_simps)
  from stroke_round [OF assms(5) assms(2) [unfolded msg] assms(3) u [unfolded assms(4)]] obtain m' where
    m': "master_round e j t (m, s) = Some (m', update_thread_com_time e (int THREAD_RS485_MASTER) u)"
      "master_485_ctrl m' = 0" "elec_time m' = elec_time m" "act_time m' = act_time m" by blast
  show ?thesis
    using m' v by (intro exI [of _ m'] exI [of _ "update_thread_com_time e (int THREAD_RS485_MASTER) u"]) (simp add: frame_simps)
qed

definition stroke_packet :: "u8 list" where
  "stroke_packet = (replicate 72 0)[6 := 1, 19 := 2, 22 := 3, 23 := 0xE8]"

theorem announced_stroke_sampled_witness:
  "\<exists>m s. master_round env_demo master_junk_demo
      (turn_demo\<lparr>waiting := Some [5, 0, 0, 1000, 2, 1], exchanges := smp_bus sample_demo, clock := (0, 0) # (5, 1000) # smp_clock sample_demo\<rparr>)
      (master_demo, rtu_meters) = Some (m, s) \<and>
    reg (mp s) 1 1277 = 8 \<and> reg (mp s) 1 1526 = 9 \<and> reg (mp s) 1 1278 = 0xFFFF"
proof -
  let ?t = "turn_demo\<lparr>waiting := Some [5, 0, 0, 1000, 2, 1], exchanges := smp_bus sample_demo, clock := (0, 0) # (5, 1000) # smp_clock sample_demo\<rparr>"
  have b: "be16_at stroke_packet 14 = 0" "be16_at stroke_packet 22 = 1000" "be16_at stroke_packet 18 = 2" "stroke_packet ! 6 = 1"
    by (simp_all add: stroke_packet_def be16_at_bytes)
  have msg: "sysn_message (replicate 10 0) stroke_packet = MsgSend Q_rtu_client [5, 0, 0, 1000, 2, 1]"
    by (simp add: sysn_message_def b list_ex_iff)
  have t: "waiting ?t = Some [5, 0, 0, 1000, 2, 1]" "during ?t = []" "exchanges ?t = smp_bus sample_demo @ []"
    "clock ?t = (0, 0) # [(5, 1000)] @ smp_clock sample_demo @ []"
    by (simp_all add: turn_demo_def)
  have m: "stroked env_demo (unat (1 :: u8)) rtu_meters"
    using rtu_meters_inv [of 1] by (simp add: stroked_def rtu_meters_wf rtu_meters_plain reg_def)
  have d: "master_485_ctrl master_demo = 0" "backend_of (master_ctx master_demo) = Backend_rtu"
    "length (junk_quantity (junk_elec master_junk_demo)) = 4"
    by (simp_all add: master_demo_def ctx_demo_def master_junk_demo_def elec_junk_demo_def)
  have i: "[0, 1000, 2] = [be16_at stroke_packet 14, be16_at stroke_packet 22, be16_at stroke_packet 18]" by (simp add: b)
  have n: "1000 \<le> unat ([0, 1000, 2 :: u16] ! 1)" "unat ([0, 1000, 2 :: u16] ! 1) \<le> 10000"
    "length sample_demo = min (unat ([0, 1000, 2 :: u16] ! 2)) 250" "sample_demo \<noteq> []"
    by (simp_all add: sample_demo_def)
  obtain m' s' where r: "master_round env_demo master_junk_demo ?t (master_demo, rtu_meters) = Some (m', s')"
    and v: "\<forall>k<250. reg (mp s') (unat (1 :: u8)) (1276 + k) = (if k < length sample_demo then smp_values (sample_demo ! k) ! 0 else 0xFFFF) \<and>
      reg (mp s') (unat (1 :: u8)) (1526 + k) = (if k < length sample_demo then smp_values (sample_demo ! k) ! 3 else 0xFFFF)"
    using announced_stroke_sampled [OF msg t(1,2) i d(1,2) m d(3) n sample_demo_stroke(3) t(3,4)]
      sample_demo_good unfolding sample_demo_stroke by blast
  have "reg (mp s') 1 1277 = 8" "reg (mp s') 1 1526 = 9" "reg (mp s') 1 1278 = 0xFFFF"
    using v [rule_format, of 1] v [rule_format, of 0] v [rule_format, of 2] by (simp_all add: sample_demo_def)
  then show ?thesis using r by blast
qed

end
