(* ===== verification/Servers.thy ===== *)
theory Servers
  imports Network Master485
begin

text \<open>
  The server threads for Modbus masters: the RS485 slave of
  \<^verbatim>\<open>modbus_485/modbus485_slave.c\<close>, the RS232 server of
  \<^verbatim>\<open>modbus_232/modbus232_server.c\<close> and the TCP server of
  \<^verbatim>\<open>network/tcp_server.c\<close>. The operating system's part is an argument of each round:
  which descriptors are ready, what is received, the numbers of new sockets.
\<close>

section \<open>Serving one request\<close>

text \<open>The message that a call of \<^verbatim>\<open>modbus_receive\<close> left in \<^verbatim>\<open>query\<close>, over what was there.\<close>

definition received :: "backend \<Rightarrow> u8 list list \<Rightarrow> u8 list \<Rightarrow> u8 list" where
  "received be chunks old =
     (case receive_msg be MSG_INDICATION chunks of Rx_done msg _ \<Rightarrow> msg @ drop (length msg) old | _ \<Rightarrow> old)"

text \<open>The answer, if there is one; \<^const>\<open>None\<close> first means that nothing was received.\<close>

definition serve ::
  "backend \<Rightarrow> env \<Rightarrow> nat \<Rightarrow> u8 list \<Rightarrow> u8 list list \<Rightarrow> int list \<Rightarrow> rtu \<Rightarrow> (u8 list option option \<times> rtu) option" where
  "serve be e thread old chunks sends s = do {
     rc \<leftarrow> modbus_receive be chunks;
     if rc = -1 then Some (None, s)
     else do {
       (_, msg, s) \<leftarrow> modbus_reply be False e (received be chunks old) rc sends s;
       Some (Some msg, update_thread_com_time e (int thread) s) } }"

definition answer_to :: "(u8 list \<Rightarrow> event) \<Rightarrow> u8 list option option \<Rightarrow> rtu \<Rightarrow> rtu" where
  "answer_to ev r s = (case r of Some (Some msg) \<Rightarrow> emit (ev msg) s | _ \<Rightarrow> s)"

section \<open>The serial slaves\<close>

definition MAP_ADDR_SERIAL_PORT :: nat where "MAP_ADDR_SERIAL_PORT = 33"

text \<open>
  What the slave waits for: bytes, or a message, which is handled inside
  \<^verbatim>\<open>modbus_receive\<close> and makes that call fail, as the line has nothing to read.
\<close>

datatype arrival = Bytes "u8 list list" | Message "u16 list"

record slave =
  slave_port :: port
  slave_port_info :: "u16 list"

text \<open>The handler; the first result says that the context was freed and made anew.\<close>

definition slave_handler :: "env \<Rightarrow> rtu \<Rightarrow> u16 list \<Rightarrow> slave \<Rightarrow> (bool \<times> slave) option" where
  "slave_handler e s msg m =
     (if msg ! 0 \<noteq> MSG_CONFIG_START \<or> msg ! 1 \<noteq> 0 then Some (False, m)
      else do {
        (_, info) \<leftarrow> zigbee_read_registers e s (slave_port_info m) 5 1 (int MAP_ADDR_SERIAL_PORT);
        let p = init_port_info info (DEFAULT_PORT 9600);
        let m = m\<lparr>slave_port_info := info\<rparr>;
        if p = slave_port m then Some (False, m) else Some (True, m\<lparr>slave_port := p\<rparr>) })"

text \<open>The receive function goes on with the context that it was called with.\<close>

definition slave_round ::
  "env \<Rightarrow> u8 list \<Rightarrow> arrival \<Rightarrow> int list \<Rightarrow> slave \<times> rtu \<Rightarrow> (slave \<times> rtu) option" where
  "slave_round e old a sends = (\<lambda>(m, s).
     let s = update_thread_time e (int THREAD_RS485_SLAVE) s in
     case a of
       Message msg \<Rightarrow> do { (freed, m) \<leftarrow> slave_handler e s msg m; if freed then None else Some (m, s) }
     | Bytes chunks \<Rightarrow> do {
         (r, s) \<leftarrow> serve Backend_rtu e THREAD_RS485_SLAVE old chunks sends s;
         Some (m, answer_to (SerialWrite PORT_RS485_SLAVE) r s) })"

definition rs232_round :: "env \<Rightarrow> u8 list \<Rightarrow> u8 list list \<Rightarrow> int list \<Rightarrow> rtu \<Rightarrow> rtu option" where
  "rs232_round e old chunks sends s = do {
     (r, s) \<leftarrow> serve Backend_rtu e THREAD_RS232_SERVER old chunks sends
                 (update_thread_time e (int THREAD_RS232_SERVER) s);
     Some (answer_to (SerialWrite PORT_RS232) r s) }"

section \<open>The TCP server\<close>

definition MAP_ADDR_TCP_PORT :: nat where "MAP_ADDR_TCP_PORT = 58"
definition FD_SETSIZE :: nat where "FD_SETSIZE = 1024"

text \<open>
  The descriptors to wait for, with the largest; \<open>open_fds\<close> are the sockets that the thread has not
  closed.
\<close>

record tcp_server =
  server_socket :: nat
  tcp_msgfd :: nat
  refset :: "nat set"
  fdmax :: nat
  port_bin :: u16
  port_str :: string
  open_fds :: "nat set"

text \<open>
  One round of the outside: the ready descriptors, the new connection, what each client sends and how
  the answers to it go out, the message that waits, the socket that a new listening call gives
  (\<^const>\<open>None\<close>: it fails), and what the array \<^verbatim>\<open>query\<close> holds.
\<close>

record tcp_turn =
  rdset :: "nat set"
  accepted :: "nat option"
  client_sends :: "nat \<Rightarrow> u8 list list \<times> int list"
  tcp_message :: "u16 list"
  listening :: "nat option"
  old_query :: "u8 list"

definition watch :: "nat \<Rightarrow> tcp_server \<Rightarrow> tcp_server" where
  "watch k v =
     (if 0 < tcp_msgfd v then v\<lparr>refset := {k, tcp_msgfd v}, fdmax := max (tcp_msgfd v) k\<rparr>
      else v\<lparr>refset := {k}, fdmax := k\<rparr>)"

text \<open>
  The configuration message. The sockets closed are those in \<^verbatim>\<open>rdset\<close>, the ready ones; a
  failed listening call puts descriptor -1 into the set.
\<close>

definition tcp_handler :: "env \<Rightarrow> tcp_turn \<Rightarrow> rtu \<Rightarrow> tcp_server \<Rightarrow> tcp_server option" where
  "tcp_handler e t s v =
     (if tcp_message t ! 0 \<noteq> MSG_CONFIG_START \<or> tcp_message t ! 1 \<noteq> 0 then Some v
      else do {
        port \<leftarrow> read_register e s (port_bin v) 1 MAP_ADDR_TCP_PORT;
        let v = v\<lparr>port_bin := port\<rparr>;
        if sint port = atoi (port_str v) then Some v
        else let closed = {fd \<in> rdset t. fd \<le> fdmax v \<and> fd \<noteq> server_socket v \<and> fd \<noteq> tcp_msgfd v};
                 v = v\<lparr>open_fds := open_fds v - closed - {server_socket v}, port_str := hd_text port\<rparr>
             in case listening t of
                  None \<Rightarrow> None
                | Some k \<Rightarrow> Some (watch k (v\<lparr>server_socket := k, open_fds := insert k (open_fds v)\<rparr>)) })"

text \<open>One descriptor. Receiving from a closed one fails.\<close>

definition tcp_accept :: "tcp_turn \<Rightarrow> tcp_server \<Rightarrow> tcp_server" where
  "tcp_accept t v =
     (case accepted t of
        None \<Rightarrow> v
      | Some k \<Rightarrow> v\<lparr>refset := insert k (refset v), fdmax := (if k > fdmax v then k else fdmax v),
                     open_fds := insert k (open_fds v)\<rparr>)"

definition tcp_close :: "nat \<Rightarrow> tcp_server \<Rightarrow> tcp_server" where
  "tcp_close fd v =
     v\<lparr>open_fds := open_fds v - {fd}, refset := refset v - {fd},
       fdmax := (if fd = fdmax v then fdmax v - 1 else fdmax v)\<rparr>"

definition tcp_fd :: "env \<Rightarrow> tcp_turn \<Rightarrow> nat \<Rightarrow> tcp_server \<times> rtu \<Rightarrow> (tcp_server \<times> rtu) option" where
  "tcp_fd e t fd = (\<lambda>(v, s).
     if fd \<notin> rdset t then Some (v, s)
     else if fd = server_socket v then Some (tcp_accept t v, s)
     else if fd = tcp_msgfd v then do { v \<leftarrow> tcp_handler e t s v; Some (v, s) }
     else let (chunks, sends) = client_sends t fd in do {
       (r, s) \<leftarrow> serve Backend_tcp e THREAD_TCP_SERVER (old_query t) (if fd \<in> open_fds v then chunks else []) sends s;
       Some (if r = None then tcp_close fd v else v, answer_to (SocketSend fd) r s) })"

function tcp_fds :: "env \<Rightarrow> tcp_turn \<Rightarrow> nat \<Rightarrow> tcp_server \<times> rtu \<Rightarrow> (tcp_server \<times> rtu) option" where
  "tcp_fds e t fd x =
     (if fd > fdmax (fst x) then Some x
      else if fd \<ge> FD_SETSIZE then None
      else case tcp_fd e t fd x of None \<Rightarrow> None | Some y \<Rightarrow> tcp_fds e t (Suc fd) y)"
  by pat_completeness auto
termination by (relation "measure (\<lambda>(e, t, fd, x). FD_SETSIZE - fd)") auto

declare tcp_fds.simps [simp del]

definition tcp_round :: "env \<Rightarrow> tcp_turn \<Rightarrow> tcp_server \<times> rtu \<Rightarrow> (tcp_server \<times> rtu) option" where
  "tcp_round e t = (\<lambda>(v, s). tcp_fds e t 0 (v, update_thread_time e (int THREAD_TCP_SERVER) s))"

text \<open>The start: the port from its register, 10086 before it is read.\<close>

definition tcp_start :: "env \<Rightarrow> nat \<Rightarrow> nat option \<Rightarrow> rtu \<Rightarrow> tcp_server option" where
  "tcp_start e msgfd listen s = do {
     port \<leftarrow> read_register e s 10086 1 MAP_ADDR_TCP_PORT;
     k \<leftarrow> listen;
     Some (watch k \<lparr>server_socket = k, tcp_msgfd = msgfd, refset = {}, fdmax = 0, port_bin = port,
                     port_str = hd_text port, open_fds = {k}\<rparr>) }"

end
