(* ===== verification/Udp_Server.thy ===== *)
theory Udp_Server
  imports Servers
begin

text \<open>
  The UDP server of \<^verbatim>\<open>network/udp_server.c\<close>: heart beats to the remote servers named in the
  registers, their answers, Modbus requests in single packets, and new configurations. Name
  resolution is a parameter: the length of the address that a host and a port give, or nothing.
\<close>

section \<open>State\<close>

definition MAP_ADDR_UDP_PORT :: nat where "MAP_ADDR_UDP_PORT = 57"
definition MAP_ADDR_UDP_REMOTE_IPV4_ADDR :: nat where "MAP_ADDR_UDP_REMOTE_IPV4_ADDR = 108"
definition MAP_ADDR_RTU_ID :: nat where "MAP_ADDR_RTU_ID = 139"
definition MAP_ADDR_UDP_HEART_BEAT_STATUS :: nat where "MAP_ADDR_UDP_HEART_BEAT_STATUS = 141"
definition MAP_ADDR_UDP_REMOTE_IPV6_ADDR :: nat where "MAP_ADDR_UDP_REMOTE_IPV6_ADDR = 153"
definition MAX_REMOTE_UDP_SERVER_NUM :: nat where "MAX_REMOTE_UDP_SERVER_NUM = 6"
definition MAX_REMOTE_UDP4_SERVER_NUM :: nat where "MAX_REMOTE_UDP4_SERVER_NUM = 3"
definition MAX_REMOTE_UDP6_SERVER_NUM :: nat where "MAX_REMOTE_UDP6_SERVER_NUM = 2"

lemmas udp_addrs = MAP_ADDR_UDP_PORT_def MAP_ADDR_UDP_REMOTE_IPV4_ADDR_def MAP_ADDR_RTU_ID_def
  MAP_ADDR_UDP_HEART_BEAT_STATUS_def MAP_ADDR_UDP_REMOTE_IPV6_ADDR_def MAX_REMOTE_UDP_SERVER_NUM_def
  MAX_REMOTE_UDP4_SERVER_NUM_def MAX_REMOTE_UDP6_SERVER_NUM_def

text \<open>
  An address is known by the host and port it was made of; \<open>addr_in_len\<close> is -1 where there is none.
  Both arrays have six entries, of which five are ever filled.
\<close>

record udp_server =
  rtu_id :: "u16 list"
  heart_beat_info :: "u16 list"
  has_beat :: bool
  time0 :: u32
  addr_info :: "u16 list"
  addr6_info :: "u16 list"
  addr_in :: "(string \<times> string) list"
  addr_in_len :: "int list"
  udp_port :: u16
  udp_port_str :: string

type_synonym resolver = "string \<Rightarrow> string \<Rightarrow> nat option"

section \<open>Addresses\<close>

definition ip4_server :: "u16 list \<Rightarrow> string \<times> string" where
  "ip4_server a = (''::ffff:'' @ ip4_text a, hd_text (a ! 4))"

definition ip6_server :: "u16 list \<Rightarrow> string \<times> string" where
  "ip6_server a = (ip6_text a, hd_text (a ! 8))"

definition get_addr :: "resolver \<Rightarrow> nat \<Rightarrow> string \<times> string \<Rightarrow> udp_server \<Rightarrow> udp_server" where
  "get_addr res i sv v =
     (case res (fst sv) (snd sv) of
        None \<Rightarrow> v\<lparr>addr_in_len := (addr_in_len v)[i := -1]\<rparr>
      | Some len \<Rightarrow> v\<lparr>addr_in := (addr_in v)[i := sv], addr_in_len := (addr_in_len v)[i := int len]\<rparr>)"

fun get_addrs :: "resolver \<Rightarrow> nat \<Rightarrow> (string \<times> string) list \<Rightarrow> udp_server \<Rightarrow> udp_server" where
  "get_addrs res i [] v = v"
| "get_addrs res i (sv # svs) v = get_addrs res (Suc i) svs (get_addr res i sv v)"

definition remote_servers :: "udp_server \<Rightarrow> (string \<times> string) list" where
  "remote_servers v =
     map (\<lambda>k. ip4_server (drop (k * 5) (addr_info v))) [0..<MAX_REMOTE_UDP4_SERVER_NUM] @
     map (\<lambda>k. ip6_server (drop (k * 9) (addr6_info v))) [0..<MAX_REMOTE_UDP6_SERVER_NUM]"

definition sane_beat :: "u16 list \<Rightarrow> u16 list" where
  "sane_beat h = h[1 := (if h ! 1 < 5 then 5 else h ! 1), 2 := (if h ! 2 < 10 then 10 else h ! 2)]"

text \<open>What the start and a new configuration read.\<close>

definition udp_configure :: "env \<Rightarrow> resolver \<Rightarrow> rtu \<Rightarrow> udp_server \<Rightarrow> udp_server option" where
  "udp_configure e res s v = do {
     (_, a4) \<leftarrow> zigbee_read_registers e s (addr_info v) 15 1 (int MAP_ADDR_UDP_REMOTE_IPV4_ADDR);
     (_, a6) \<leftarrow> zigbee_read_registers e s (addr6_info v) 18 1 (int MAP_ADDR_UDP_REMOTE_IPV6_ADDR);
     let v = v\<lparr>addr_info := a4, addr6_info := a6\<rparr>;
     let v = get_addrs res 0 (remote_servers v) v;
     (_, rid) \<leftarrow> zigbee_read_registers_big_l e s (rtu_id v) 2 1 (int MAP_ADDR_RTU_ID) True;
     (_, beat) \<leftarrow> zigbee_read_registers e s (heart_beat_info v) 3 1 (int MAP_ADDR_UDP_HEART_BEAT_STATUS);
     Some (v\<lparr>rtu_id := rid, heart_beat_info := sane_beat beat\<rparr>) }"

section \<open>Heart beats\<close>

text \<open>The packet of eleven bytes; its check field stays 0.\<close>

definition udp_heart_pack :: "u16 list \<Rightarrow> u8 list" where
  "udp_heart_pack rid = [0xC0, 0, 0, 0, 0] @ concat (map u16_bytes rid) @ [0, 0]"

text \<open>One heart beat: to every entry that is not -1, the sixth one included.\<close>

definition beat_to :: "udp_server \<Rightarrow> nat \<Rightarrow> rtu \<Rightarrow> rtu" where
  "beat_to v k s =
     (if addr_in_len v ! k \<noteq> -1 then emit (DatagramSend (addr_in v ! k) (udp_heart_pack (rtu_id v))) s else s)"

definition send_beats :: "u32 \<Rightarrow> udp_server \<times> rtu \<Rightarrow> udp_server \<times> rtu" where
  "send_beats now = (\<lambda>(v, s).
     (v\<lparr>has_beat := (has_beat v \<and> (\<forall>k<MAX_REMOTE_UDP_SERVER_NUM. addr_in_len v ! k = -1)), time0 := now\<rparr>,
      fold (beat_to v) [0..<MAX_REMOTE_UDP_SERVER_NUM] s))"

text \<open>Times are signed seconds of 32 bits.\<close>

definition beat_due :: "u32 \<Rightarrow> udp_server \<Rightarrow> bool" where
  "beat_due now v \<longleftrightarrow>
     heart_beat_info v ! 0 \<noteq> 0 \<and>
     sint now > sint (time0 v + ucast (if has_beat v then heart_beat_info v ! 2 else heart_beat_info v ! 1))"

definition heart_beat :: "u32 \<Rightarrow> udp_server \<times> rtu \<Rightarrow> udp_server \<times> rtu" where
  "heart_beat now x = (if beat_due now (fst x) then send_beats now x else x)"

section \<open>Packets and messages\<close>

text \<open>
  A packet of more than 7 bytes is an answer to a heart beat, or else a Modbus request; \<open>old\<close> is what
  the array held, which has 260 bytes. An answer to a request goes to the sender.
\<close>

definition udp_packet ::
  "env \<Rightarrow> u8 list \<Rightarrow> (string \<times> string) \<Rightarrow> u8 list \<Rightarrow> int list \<Rightarrow> udp_server \<times> rtu \<Rightarrow> (udp_server \<times> rtu) option" where
  "udp_packet e old peer packet ks = (\<lambda>(v, s).
     let query = packet @ drop (length packet) old in
     if length packet \<le> 7 then Some (v, s)
     else do {
       ok \<leftarrow> (if length packet > 11 \<and> query ! 0 = 0xC0
              then do { rc \<leftarrow> udp_heart_pack_check_integrity (drop 9 query) (length packet - 9); Some (rc \<noteq> -1) }
              else Some False);
       if ok then Some (v\<lparr>has_beat := True\<rparr>, update_thread_com_time e (int THREAD_UDP_SERVER) s)
       else do {
         (_, msg, s) \<leftarrow> modbus_reply Backend_tcp False e query (int (length packet)) ks s;
         let s = answer_to (DatagramSend peer) (Some msg) s;
         Some (v, update_thread_com_time e (int THREAD_UDP_SERVER) s) } })"

text \<open>A new configuration; a changed port also gets a new socket.\<close>

definition udp_message :: "env \<Rightarrow> resolver \<Rightarrow> u16 list \<Rightarrow> rtu \<Rightarrow> udp_server \<Rightarrow> udp_server option" where
  "udp_message e res msg s v =
     (if msg ! 0 \<noteq> MSG_CONFIG_START \<or> msg ! 1 \<noteq> 0 then Some v
      else do {
        v \<leftarrow> udp_configure e res s v;
        port \<leftarrow> read_register e s (udp_port v) 1 MAP_ADDR_UDP_PORT;
        let v = v\<lparr>udp_port := port\<rparr>;
        Some (if sint port = atoi (udp_port_str v) then v else v\<lparr>udp_port_str := hd_text port\<rparr>) })"

section \<open>The loop\<close>

record udp_turn =
  udp_received :: "((string \<times> string) \<times> u8 list) option"
  udp_sends :: "int list"
  udp_old :: "u8 list"
  udp_waiting :: "u16 list option"

definition udp_round :: "env \<Rightarrow> resolver \<Rightarrow> udp_turn \<Rightarrow> udp_server \<times> rtu \<Rightarrow> (udp_server \<times> rtu) option" where
  "udp_round e res t = (\<lambda>(v, s). do {
     let x = heart_beat (time_now e) (v, update_thread_time e (int THREAD_UDP_SERVER) s);
     (v, s) \<leftarrow> (case udp_received t of
        None \<Rightarrow> Some x
      | Some (peer, packet) \<Rightarrow> udp_packet e (udp_old t) peer packet (udp_sends t) x);
     case udp_waiting t of
       None \<Rightarrow> Some (v, s)
     | Some msg \<Rightarrow> do { v \<leftarrow> udp_message e res msg s v; Some (v, s) } })"

text \<open>The start; the arrays of addresses are not initialised.\<close>

definition udp_start :: "env \<Rightarrow> resolver \<Rightarrow> udp_server \<Rightarrow> rtu \<Rightarrow> udp_server option" where
  "udp_start e res junk s = do {
     port \<leftarrow> read_register e s 10086 1 MAP_ADDR_UDP_PORT;
     udp_configure e res s (junk\<lparr>rtu_id := [0, 0], has_beat := False, time0 := time_now e, udp_port := port,
       udp_port_str := hd_text port\<rparr>) }"

end
