(* ===== verification/Server_Facts.thy ===== *)
theory Server_Facts
  imports Servers Master_Facts
begin

text \<open>
  The server threads: a request reaches the registers and its answer the client, over serial line
  and TCP; what the TCP server keeps of its connections; the faults in handling a new configuration.
\<close>

section \<open>Requests on a connection\<close>

text \<open>A request as it is on the wire: sealed on a serial line, behind its header over TCP.\<close>

definition on_wire :: "backend \<Rightarrow> u8 list \<Rightarrow> u8 list \<Rightarrow> u8 list" where
  "on_wire be pre req = (if be = Backend_tcp then pre @ req else rtu_send_msg_pre req)"

definition wired_request :: "backend \<Rightarrow> u8 list \<Rightarrow> u8 list \<Rightarrow> bool" where
  "wired_request be pre req \<longleftrightarrow>
     (be = Backend_rtu \<and> pre = [] \<or> be = Backend_tcp \<and> length pre = 6) \<and> request_shape req \<and> length req \<le> 254"

lemma wired_request_pre: "wired_request be pre req \<Longrightarrow> pre_of be pre"
  by (auto simp: wired_request_def pre_of_def)

lemma on_wire_split:
  assumes "wired_request be pre req"
  obtains x where "on_wire be pre req = pre @ req @ x" "length x = checksum_length be"
  using assms by (auto simp: wired_request_def on_wire_def rtu_seal)

lemma request_delivered:
  assumes "wired_request be pre req" "stream_of chunks = on_wire be pre req @ rest"
  shows "modbus_receive be chunks = Some (int (length (on_wire be pre req)))"
    "received be chunks old = on_wire be pre req @ drop (length (on_wire be pre req)) old"
proof -
  obtain x where x: "on_wire be pre req = pre @ req @ x" "length x = checksum_length be"
    using on_wire_split [OF assms(1)] by blast
  have r: "flatten (receive_msg be MSG_INDICATION chunks) = Flat_done (on_wire be pre req) rest"
    unfolding x(1)
    by (rule request_received) (use assms x in \<open>auto simp: wired_request_def\<close>)
  then obtain cs where msg: "receive_msg be MSG_INDICATION chunks = Rx_done (on_wire be pre req) cs"
    by (cases "receive_msg be MSG_INDICATION chunks") auto
  then show "received be chunks old = on_wire be pre req @ drop (length (on_wire be pre req)) old"
    by (simp add: received_def)
  show "modbus_receive be chunks = Some (int (length (on_wire be pre req)))"
  proof (cases "be = Backend_tcp")
    case True
    then show ?thesis using msg by (simp add: modbus_receive_def finish_def)
  next
    case False
    then have "be = Backend_rtu" "on_wire be pre req = rtu_send_msg_pre req" "length req < 65536"
      using assms(1) by (auto simp: wired_request_def on_wire_def)
    then show ?thesis using rtu_returns r by (simp add: modbus_receive_def rtu_seal)
  qed
qed

lemma serve_request:
  assumes "wired_request be pre req" "stream_of chunks = on_wire be pre req @ rest" "on_wire be pre req = pre @ req @ x"
    and "modbus_reply be False e (pre @ req @ x @ drop (length (on_wire be pre req)) old)
      (int (length (on_wire be pre req))) ks s = Some (rc, msg, t)"
  shows "serve be e thread old chunks ks s = Some (Some msg, update_thread_com_time e (int thread) t)"
proof -
  have "int (length (on_wire be pre req)) \<noteq> -1" by linarith
  then show ?thesis
    using request_delivered(1) [OF assms(1,2)] request_delivered(2) [OF assms(1,2), of old] assms(3,4) by (simp add: serve_def)
qed

text \<open>The two requests that matter.\<close>

definition read_answer :: "backend \<Rightarrow> u8 list \<Rightarrow> u8 \<Rightarrow> u16 list \<Rightarrow> u8 list" where
  "read_answer be pre sl vs =
     send_msg_pre be (answer_head be pre sl 3 @ [of_nat (2 * length vs)] @ concat (map be_bytes vs))"

definition write_body :: "u8 \<Rightarrow> nat \<Rightarrow> u16 list \<Rightarrow> u8 list" where
  "write_body sl a vs = rtu_header sl 16 a (length vs) @ [of_nat (2 * length vs)] @ concat (map be_bytes vs)"

definition write_answer :: "backend \<Rightarrow> u8 list \<Rightarrow> u8 \<Rightarrow> nat \<Rightarrow> u16 list \<Rightarrow> u8 list" where
  "write_answer be pre sl a vs = send_msg_pre be (answer_head be pre sl 16 @ drop 2 (rtu_header sl 16 a (length vs)))"

lemma serve_read:
  assumes "wired_request be pre (rtu_header sl 3 a n)" "stream_of chunks = on_wire be pre (rtu_header sl 3 a n) @ rest"
    and "1 \<le> unat sl" "unat sl \<le> 8" "1 \<le> n" "n \<le> 1020" "a + n \<le> 10000"
    and "map_wf (mp s)" "\<forall>j\<in>set [a..<a + n]. y_readable (unat sl) s j"
  shows "serve be e thread old chunks [k] s =
    Some (Some (Some (read_answer be pre sl (map (yreg (mp s) (unat sl)) [a..<a + n]))),
      update_thread_com_time e (int thread) (counted s))"
proof -
  have pre: "pre_of be pre" by (rule wired_request_pre [OF assms(1)])
  have lt: "a < 65536" "n < 65536" using assms(6,7) by auto
  have y: "\<forall>j\<in>set [a..<a + n]. y_readable (unat sl) (counted s) j"
    using assms(9) by (simp add: y_readable_def reg_valid_def)
  have "modbus_reply be False e (pre @ rtu_header sl 3 a n @ x) len [k] s =
      Some (answered be k (answer_head be pre sl 3 @ [of_nat (2 * n)] @
        concat (map (be_bytes \<circ> yreg (mp s) (unat sl)) [a..<a + n])) (counted s))" for x len
    using send_once [of k False] function_reads [OF pre assms(3-7), of "counted s" e x] assms(8) y
    by (simp add: modbus_reply_served [OF pre lt assms(3,4)] answered_def)
  moreover obtain x where "on_wire be pre (rtu_header sl 3 a n) = pre @ rtu_header sl 3 a n @ x"
    using on_wire_split [OF assms(1)] by blast
  ultimately show ?thesis
    using serve_request [OF assms(1,2)] by (simp add: answered_def read_answer_def o_def)
qed

lemma serve_write:
  assumes "wired_request be pre (write_body sl a vs)" "stream_of chunks = on_wire be pre (write_body sl a vs) @ rest"
    and "1 \<le> length vs" "length vs \<le> 123" "a + length vs \<le> 10000"
    and "reg_inv e (unat sl) s" "\<forall>j\<in>set [a..<a + length vs]. y_valid (unat sl) s j"
  obtains t where "serve be e thread old chunks [k] s =
      Some (Some (Some (write_answer be pre sl a vs)), update_thread_com_time e (int thread) t)"
    "map (yreg (mp t) (unat sl)) [a..<a + length vs] = vs" "reg_inv e (unat sl) t"
    "y_valid (unat sl) t = y_valid (unat sl) s"
    "\<forall>j. y_valid (unat sl) s j \<and> \<not> (a \<le> j \<and> j < a + length vs) \<longrightarrow>
       yreg (mp t) (unat sl) j = yreg (mp s) (unat sl) j"
proof -
  have pre: "pre_of be pre" by (rule wired_request_pre [OF assms(1)])
  have lt: "a < 65536" "length vs < 65536" and w: "1 \<le> unat sl" "unat sl \<le> 8"
    using assms(4-6) by (auto simp: reg_inv_def)
  obtain x where x: "on_wire be pre (write_body sl a vs) = pre @ write_body sl a vs @ x"
    using on_wire_split [OF assms(1)] by blast
  let ?junk = "x @ drop (length (on_wire be pre (write_body sl a vs))) old"
  let ?req = "pre @ rtu_header sl 16 a (length vs) @ [of_nat (2 * length vs)] @ concat (map be_bytes vs) @ ?junk"
  obtain t where t: "\<forall>len. reply_function be e \<lparr>sft_slave = unat sl, sft_function = 16, sft_t_id = tid_of be pre\<rparr> ?req len a (counted s) =
      Some (answer_head be pre sl 16 @ drop 2 (rtu_header sl 16 a (length vs)), t)"
    and p: "map (yreg (mp t) (unat sl)) [a..<a + length vs] = vs" "reg_inv e (unat sl) t"
      "y_valid (unat sl) t = y_valid (unat sl) s"
      "\<forall>j. y_valid (unat sl) s j \<and> \<not> (a \<le> j \<and> j < a + length vs) \<longrightarrow> yreg (mp t) (unat sl) j = yreg (mp s) (unat sl) j"
    using function_writes [OF pre assms(3-5), of e sl "counted s" "of_nat (2 * length vs)" ?junk] assms(6,7) by auto
  have "modbus_reply be False e ?req len [k] s =
      Some (answered be k (answer_head be pre sl 16 @ drop 2 (rtu_header sl 16 a (length vs))) t)" for len
    using send_once [of k False] t by (simp add: modbus_reply_served [OF pre lt w] answered_def)
  then have "serve be e thread old chunks [k] s =
      Some (Some (Some (write_answer be pre sl a vs)), update_thread_com_time e (int thread) t)"
    using serve_request [OF assms(1,2) x] by (simp add: answered_def write_answer_def write_body_def)
  then show thesis using p by (rule that)
qed

lemma write_body_wired:
  assumes "1 \<le> length vs" "length vs \<le> 123"
  shows "wired_request Backend_rtu [] (write_body sl a vs)" "length mbap = 6 \<Longrightarrow> wired_request Backend_tcp mbap (write_body sl a vs)"
proof -
  have "unat (of_nat (2 * length vs) :: u8) = 2 * length vs" using assms(2) by (simp del: of_nat_mult)
  then have "request_shape (write_body sl a vs)" "length (write_body sl a vs) \<le> 254"
    using assms by (simp_all add: write_body_def rtu_header_def fc_defs)
  then show "wired_request Backend_rtu [] (write_body sl a vs)" "length mbap = 6 \<Longrightarrow> wired_request Backend_tcp mbap (write_body sl a vs)"
    by (simp_all add: wired_request_def)
qed

lemma read_header_wired:
  "wired_request Backend_rtu [] (rtu_header sl 3 a n)" "length mbap = 6 \<Longrightarrow> wired_request Backend_tcp mbap (rtu_header sl 3 a n)"
  by (simp_all add: wired_request_def rtu_header_def fc_defs)

lemma reg_inv_env: "reg_inv e w s \<Longrightarrow> map_wf (mp s)" by (simp add: reg_inv_def)

lemma y_valid_cong: "mp t = mp s \<Longrightarrow> y_valid w t = y_valid w s" "mp t = mp s \<Longrightarrow> y_readable w t = y_readable w s"
  "mp t = mp s \<Longrightarrow> reg_inv e w t = reg_inv e w s"
  by (simp_all add: fun_eq_iff y_valid_def y_readable_def reg_valid_def reg_inv_def)

text \<open>A write, and a read in any later state with the same registers.\<close>

lemma serve_write_read:
  assumes "be = Backend_rtu \<and> pre1 = [] \<and> pre2 = [] \<or> be = Backend_tcp \<and> length pre1 = 6 \<and> length pre2 = 6"
    and "stream_of c1 = on_wire be pre1 (write_body sl a vs) @ r1" "stream_of c2 = on_wire be pre2 (rtu_header sl 3 a (length vs)) @ r2"
    and "1 \<le> length vs" "length vs \<le> 123" "a + length vs \<le> 10000"
    and "reg_inv e (unat sl) s" "\<forall>j\<in>set [a..<a + length vs]. y_valid (unat sl) s j"
  obtains t where
    "serve be e thread old1 c1 [k1] s = Some (Some (Some (write_answer be pre1 sl a vs)), update_thread_com_time e (int thread) t)"
    "\<And>t1 e'. mp t1 = mp t \<Longrightarrow> serve be e' thread old2 c2 [k2] t1 =
       Some (Some (Some (read_answer be pre2 sl vs)), update_thread_com_time e' (int thread) (counted t1))"
    "\<forall>j. y_valid (unat sl) s j \<and> \<not> (a \<le> j \<and> j < a + length vs) \<longrightarrow> yreg (mp t) (unat sl) j = yreg (mp s) (unat sl) j"
proof -
  let ?w = "unat sl"
  have wired: "wired_request be pre1 (write_body sl a vs)" "wired_request be pre2 (rtu_header sl 3 a (length vs))"
    using assms(1) write_body_wired [OF assms(4,5)] read_header_wired by auto
  obtain t where t: "serve be e thread old1 c1 [k1] s =
      Some (Some (Some (write_answer be pre1 sl a vs)), update_thread_com_time e (int thread) t)"
    and p: "map (yreg (mp t) ?w) [a..<a + length vs] = vs" "reg_inv e ?w t" "y_valid ?w t = y_valid ?w s"
      "\<forall>j. y_valid ?w s j \<and> \<not> (a \<le> j \<and> j < a + length vs) \<longrightarrow> yreg (mp t) ?w j = yreg (mp s) ?w j"
    using serve_write [OF wired(1) assms(2,4-8)] by metis
  have w: "1 \<le> ?w" "?w \<le> 8" "length vs \<le> 1020" using assms(5,7) by (simp_all add: reg_inv_def)
  have "serve be e' thread old2 c2 [k2] t1 =
      Some (Some (Some (read_answer be pre2 sl vs)), update_thread_com_time e' (int thread) (counted t1))"
    if "mp t1 = mp t" for t1 e'
  proof -
    have "\<forall>j\<in>set [a..<a + length vs]. y_readable ?w t1 j"
      using assms(8) p(3) y_valid_readable unfolding y_valid_cong(2) [OF that] by auto
    then show ?thesis
      using serve_read [OF wired(2) assms(3) w(1,2) assms(4) w(3) assms(6), of t1 e' thread old2 k2] p(1,2) that
      by (simp add: reg_inv_def)
  qed
  with t show thesis using p(4) by (rule that)
qed

section \<open>A host on the serial line\<close>

text \<open>
  C30. A host on the RS485 line writes up to 123 registers of a well and then reads them, its requests
  cut into reads at any place and followed by anything. The first round of the slave confirms, the
  second one answers with exactly the values written; every other writable register of the well keeps
  its value.
\<close>

theorem slave_write_read:
  assumes "stream_of c1 = rtu_send_msg_pre (write_body sl a vs) @ r1"
    and "stream_of c2 = rtu_send_msg_pre (rtu_header sl 3 a (length vs)) @ r2"
    and "1 \<le> length vs" "length vs \<le> 123" "a + length vs \<le> 10000"
    and "reg_inv e (unat sl) s" "\<forall>j\<in>set [a..<a + length vs]. y_valid (unat sl) s j"
  shows "\<exists>t u. slave_round e old1 (Bytes c1) [k1] (m, s) = Some (m, t) \<and>
    last (out t) = SerialWrite PORT_RS485_SLAVE (write_answer Backend_rtu [] sl a vs) \<and>
    slave_round e' old2 (Bytes c2) [k2] (m, t) = Some (m, u) \<and>
    out u = out t @ [SerialWrite PORT_RS485_SLAVE (read_answer Backend_rtu [] sl vs)] \<and>
    (\<forall>j. y_valid (unat sl) s j \<and> \<not> (a \<le> j \<and> j < a + length vs) \<longrightarrow> yreg (mp u) (unat sl) j = yreg (mp s) (unat sl) j)"
proof -
  let ?s = "update_thread_time e (int THREAD_RS485_SLAVE) s" and ?th = "int THREAD_RS485_SLAVE"
  have s: "reg_inv e (unat sl) ?s" "\<forall>j\<in>set [a..<a + length vs]. y_valid (unat sl) ?s j"
    using assms(6,7) by (simp_all add: y_valid_cong [of ?s s] frame_simps)
  have stream: "stream_of c1 = on_wire Backend_rtu [] (write_body sl a vs) @ r1"
    "stream_of c2 = on_wire Backend_rtu [] (rtu_header sl 3 a (length vs)) @ r2"
    using assms(1,2) by (simp_all add: on_wire_def)
  obtain t where t: "serve Backend_rtu e THREAD_RS485_SLAVE old1 c1 [k1] ?s =
      Some (Some (Some (write_answer Backend_rtu [] sl a vs)), update_thread_com_time e ?th t)"
    and rd: "\<And>t1 e'. mp t1 = mp t \<Longrightarrow> serve Backend_rtu e' THREAD_RS485_SLAVE old2 c2 [k2] t1 =
      Some (Some (Some (read_answer Backend_rtu [] sl vs)), update_thread_com_time e' ?th (counted t1))"
    and rest: "\<forall>j. y_valid (unat sl) ?s j \<and> \<not> (a \<le> j \<and> j < a + length vs) \<longrightarrow> yreg (mp t) (unat sl) j = yreg (mp ?s) (unat sl) j"
    using serve_write_read [OF _ stream assms(3-5) s] by (metis (no_types))
  define t1 where "t1 = emit (SerialWrite PORT_RS485_SLAVE (write_answer Backend_rtu [] sl a vs)) (update_thread_com_time e ?th t)"
  define t2 where "t2 = counted (update_thread_time e' ?th t1)"
  define u where "u = emit (SerialWrite PORT_RS485_SLAVE (read_answer Backend_rtu [] sl vs)) (update_thread_com_time e' ?th t2)"
  have "slave_round e old1 (Bytes c1) [k1] (m, s) = Some (m, t1)"
    using t by (simp add: slave_round_def answer_to_def t1_def)
  moreover have "slave_round e' old2 (Bytes c2) [k2] (m, t1) = Some (m, u)"
    using rd [of "update_thread_time e' ?th t1" e'] by (simp add: slave_round_def answer_to_def u_def t1_def t2_def frame_simps)
  moreover have "out u = out t1 @ [SerialWrite PORT_RS485_SLAVE (read_answer Backend_rtu [] sl vs)]"
    by (simp add: u_def t2_def frame_simps counted_def)
  moreover have "last (out t1) = SerialWrite PORT_RS485_SLAVE (write_answer Backend_rtu [] sl a vs)"
    by (simp add: t1_def frame_simps)
  moreover have "\<forall>j. y_valid (unat sl) s j \<and> \<not> (a \<le> j \<and> j < a + length vs) \<longrightarrow> yreg (mp u) (unat sl) j = yreg (mp s) (unat sl) j"
    using rest by (simp add: u_def t1_def t2_def frame_simps y_valid_cong [of ?s s])
  ultimately show ?thesis by blast
qed

definition slave_demo :: slave where
  "slave_demo = \<lparr>slave_port = DEFAULT_PORT 9600, slave_port_info = replicate 5 0\<rparr>"

theorem slave_write_read_witness:
  "\<exists>t u. slave_round env_demo [] (Bytes [rtu_send_msg_pre (write_body 1 6 [0x1234, 9])]) [8] (slave_demo, rtu_demo) = Some (slave_demo, t) \<and>
     slave_round env_demo [] (Bytes [take 5 (rtu_send_msg_pre (rtu_header 1 3 6 2)), drop 5 (rtu_send_msg_pre (rtu_header 1 3 6 2))]) [9] (slave_demo, t) = Some (slave_demo, u) \<and>
     last (out u) = SerialWrite PORT_RS485_SLAVE (rtu_send_msg_pre [1, 3, 4, 0x12, 0x34, 0, 9])"
proof -
  let ?vs = "[0x1234, 9] :: u16 list"
  let ?c1 = "[rtu_send_msg_pre (write_body 1 6 ?vs)]"
  let ?c2 = "[take 5 (rtu_send_msg_pre (rtu_header 1 3 6 2)), drop 5 (rtu_send_msg_pre (rtu_header 1 3 6 2))]"
  have c: "stream_of ?c1 = rtu_send_msg_pre (write_body 1 6 ?vs) @ []"
    "stream_of ?c2 = rtu_send_msg_pre (rtu_header 1 3 6 (length ?vs)) @ []"
    by (simp_all add: stream_of_def rtu_seal rtu_header_def)
  have y: "\<forall>j\<in>set [6..<6 + length ?vs]. y_valid (unat (1 :: u8)) rtu_demo j" using demo_writable(1) by simp
  have r: "read_answer Backend_rtu [] 1 ?vs = rtu_send_msg_pre [1, 3, 4, 0x12, 0x34, 0, 9]"
    by (simp add: read_answer_def answer_head_def be_bytes_def hi_byte_def lo_byte_def)
  have l: "1 \<le> length ?vs" "length ?vs \<le> 123" "6 + length ?vs \<le> 10000" by simp_all
  from slave_write_read [OF c l demo_writable(2) y, of "[]" 8 slave_demo env_demo "[]" 9] obtain t u where
    "slave_round env_demo [] (Bytes ?c1) [8] (slave_demo, rtu_demo) = Some (slave_demo, t)"
    "slave_round env_demo [] (Bytes ?c2) [9] (slave_demo, t) = Some (slave_demo, u)"
    "out u = out t @ [SerialWrite PORT_RS485_SLAVE (read_answer Backend_rtu [] 1 ?vs)]" by blast
  then show ?thesis unfolding r by (intro exI [of _ t] exI [of _ u]) simp
qed

section \<open>A new configuration of the slave\<close>

text \<open>
  The message of a new configuration reaches the RS485 slave inside its receive function. If the
  registers ask for another port, the handler frees the context, and the receive function goes on
  with the freed one: the round is undefined. Only when the port stays, all is well.
\<close>

theorem slave_port_change_undefined:
  assumes "reg_inv e 1 s" "38 \<le> x_max (mp s)" "plain (mp s) 1 33 5" "length (slave_port_info m) = 5"
  shows "slave_round e' old (Message [MSG_CONFIG_START, 0]) ks (m, s) =
    (if asked_port (mp s) 33 \<noteq> slave_port m then None
     else Some (m\<lparr>slave_port_info := map (reg (mp s) 1) [33..<38]\<rparr>, update_thread_time e' (int THREAD_RS485_SLAVE) s))"
proof -
  let ?s = "update_thread_time e' (int THREAD_RS485_SLAVE) s"
  have r: "zigbee_read_registers e' ?s (slave_port_info m) 5 1 (int MAP_ADDR_SERIAL_PORT) =
      Some (0, map (reg (mp ?s) 1) [33..<33 + 5])"
    unfolding MAP_ADDR_SERIAL_PORT_def
    by (rule read_port_info [of e]) (use assms in \<open>auto simp: frame_simps reg_inv_def\<close>)
  define info where "info = map (reg (mp s) 1) [33..<33 + 5]"
  have p: "init_port_info info (DEFAULT_PORT 9600) = asked_port (mp s) 33"
    unfolding info_def by (rule asked_port_read)
  have "info = map (reg (mp s) 1) [33..<38]" by (simp add: info_def)
  then show ?thesis
    using r p by (auto simp: slave_round_def slave_handler_def Let_def frame_simps info_def [symmetric])
qed

theorem slave_port_change_undefined_witness:
  "slave_round env_demo [] (Message [MSG_CONFIG_START, 0]) [] (slave_demo, rtu_meters) = None"
proof -
  have i: "reg_inv env_demo 1 rtu_meters" by (rule rtu_meters_inv) simp_all
  have "asked_port (mp rtu_meters) 33 \<noteq> DEFAULT_PORT 9600"
    by (simp add: asked_port_def reg_def rtu_meters_wf DEFAULT_PORT_def)
  then show ?thesis
    using slave_port_change_undefined [OF i _ rtu_meters_plain, where m = slave_demo]
    by (simp add: rtu_meters_wf(2) slave_demo_def)
qed

section \<open>The connections of the TCP server\<close>

lemma tcp_fds_step:
  "tcp_fds e t fd x =
     (if fd > fdmax (fst x) then Some x
      else if fd \<ge> FD_SETSIZE then None
      else do { y \<leftarrow> tcp_fd e t fd x; tcp_fds e t (Suc fd) y })"
  by (subst tcp_fds.simps) (simp split: option.split)

lemma tcp_fds_idle:
  assumes "\<forall>g\<in>rdset t. g < fd \<or> fdmax (fst x) < g" "fdmax (fst x) < FD_SETSIZE"
  shows "tcp_fds e t fd x = Some x"
  using assms
proof (induction "Suc (fdmax (fst x)) - fd" arbitrary: fd)
  case 0
  then show ?case by (subst tcp_fds_step) simp
next
  case (Suc k)
  then have "fd \<le> fdmax (fst x)" "fd \<notin> rdset t" by auto
  moreover have "tcp_fds e t (Suc fd) x = Some x"
    by (rule Suc.hyps(1)) (use Suc.hyps(2) Suc.prems in auto)
  ultimately show ?case
    using Suc.prems(2) by (cases x) (simp add: tcp_fds_step [of e t fd] tcp_fd_def)
qed

lemma tcp_fds_only:
  assumes "rdset t = {g}" "fd \<le> g" "g \<le> fdmax (fst x)" "fdmax (fst x) < FD_SETSIZE"
    and "tcp_fd e t g x = Some y" "fdmax (fst y) < FD_SETSIZE"
  shows "tcp_fds e t fd x = Some y"
  using assms(2)
proof (induction "g - fd" arbitrary: fd)
  case 0
  then have "fd = g" by simp
  moreover have "tcp_fds e t (Suc g) y = Some y" by (rule tcp_fds_idle) (use assms in auto)
  ultimately show ?case using assms by (simp add: tcp_fds_step [of e t g])
next
  case (Suc k)
  then have "fd < g" "tcp_fds e t (Suc fd) x = Some y" by auto
  then show ?case
    using assms by (cases x) (simp add: tcp_fds_step [of e t fd] tcp_fd_def)
qed

definition tcp_inv :: "tcp_server \<Rightarrow> bool" where
  "tcp_inv v \<longleftrightarrow> (\<forall>g\<in>refset v. g \<le> fdmax v) \<and> fdmax v < FD_SETSIZE \<and> server_socket v \<in> refset v \<and>
     tcp_msgfd v \<in> refset v \<and> 0 < tcp_msgfd v \<and> server_socket v \<noteq> tcp_msgfd v \<and>
     refset v - {tcp_msgfd v} \<subseteq> open_fds v"

text \<open>What the system promises: the numbers of new sockets are small and not those of other descriptors.\<close>

definition kernel_ok :: "tcp_turn \<Rightarrow> tcp_server \<Rightarrow> bool" where
  "kernel_ok t v \<longleftrightarrow>
     (\<forall>k. accepted t = Some k \<longrightarrow> k < FD_SETSIZE \<and> k \<noteq> tcp_msgfd v) \<and>
     (\<forall>k. listening t = Some k \<longrightarrow> k < FD_SETSIZE \<and> k \<noteq> tcp_msgfd v)"

lemma watch_inv:
  assumes "0 < tcp_msgfd v" "tcp_msgfd v < FD_SETSIZE" "k < FD_SETSIZE" "k \<noteq> tcp_msgfd v"
  shows "tcp_inv (watch k (v\<lparr>server_socket := k, open_fds := insert k (open_fds v)\<rparr>))"
  using assms by (auto simp: tcp_inv_def watch_def)

lemma tcp_handler_inv:
  assumes "tcp_inv v" "tcp_handler e t s v = Some v'" "kernel_ok t v"
  shows "tcp_inv v' \<and> tcp_msgfd v' = tcp_msgfd v"
proof (cases "tcp_message t ! 0 \<noteq> MSG_CONFIG_START \<or> tcp_message t ! 1 \<noteq> 0")
  case True
  then show ?thesis using assms(1,2) by (simp add: tcp_handler_def)
next
  case False
  obtain port where port: "read_register e s (port_bin v) 1 MAP_ADDR_TCP_PORT = Some port"
    using assms(2) False by (auto simp: tcp_handler_def split: bind_splits)
  show ?thesis
  proof (cases "sint port = atoi (port_str v)")
    case True
    then have "v' = v\<lparr>port_bin := port\<rparr>" using assms(2) False by (simp add: tcp_handler_def port [unfolded One_nat_def] Let_def)
    then show ?thesis using assms(1) by (simp add: tcp_inv_def)
  next
    case changed: False
    obtain k where k: "listening t = Some k"
      using assms(2) False changed by (cases "listening t") (simp_all add: tcp_handler_def port [unfolded One_nat_def] Let_def)
    define u where "u = v\<lparr>port_bin := port, open_fds := open_fds v - {fd \<in> rdset t. fd \<le> fdmax v \<and> fd \<noteq> server_socket v \<and> fd \<noteq> tcp_msgfd v} - {server_socket v},
      port_str := hd_text port\<rparr>"
    have v': "v' = watch k (u\<lparr>server_socket := k, open_fds := insert k (open_fds u)\<rparr>)"
      using assms(2) False changed by (simp add: tcp_handler_def port [unfolded One_nat_def] Let_def k u_def)
    have "0 < tcp_msgfd u" "tcp_msgfd u < FD_SETSIZE" "k < FD_SETSIZE" "k \<noteq> tcp_msgfd u"
      using assms(1,3) k by (auto simp: tcp_inv_def kernel_ok_def u_def)
    from watch_inv [OF this] show ?thesis by (simp add: v') (simp add: watch_def u_def)
  qed
qed

lemma tcp_fd_inv:
  assumes "tcp_inv v" "tcp_fd e t fd (v, s) = Some (v', s')" "kernel_ok t v"
  shows "tcp_inv v' \<and> tcp_msgfd v' = tcp_msgfd v"
proof (cases "fd \<in> rdset t")
  case False
  then show ?thesis using assms(1,2) by (simp add: tcp_fd_def)
next
  case rd: True
  consider (server) "fd = server_socket v" | (queue) "fd \<noteq> server_socket v" "fd = tcp_msgfd v"
    | (client) "fd \<noteq> server_socket v" "fd \<noteq> tcp_msgfd v" by blast
  then show ?thesis
  proof cases
    case server
    then have "v' = tcp_accept t v" using assms(2) rd by (simp add: tcp_fd_def)
    then show ?thesis
      using assms(1,3) by (auto simp: tcp_accept_def tcp_inv_def kernel_ok_def split: option.splits)
  next
    case queue
    then have "tcp_handler e t s v = Some v'" using assms(2) rd by (auto simp: tcp_fd_def split: bind_splits if_splits)
    then show ?thesis using tcp_handler_inv assms(1,3) by blast
  next
    case client
    then have "v' = v \<or> v' = tcp_close fd v"
      using assms(2) rd by (auto simp: tcp_fd_def Let_def split: bind_splits if_splits prod.splits)
    moreover have "tcp_inv (tcp_close fd v)"
    proof -
      have "g \<le> (if fd = fdmax v then fdmax v - 1 else fdmax v)" if "g \<in> refset v - {fd}" for g
      proof -
        have "g \<le> fdmax v" "g \<noteq> fd" using that assms(1) by (auto simp: tcp_inv_def)
        then show ?thesis by auto
      qed
      then show ?thesis using assms(1) client by (auto simp: tcp_inv_def tcp_close_def)
    qed
    ultimately show ?thesis using assms(1) by (auto simp: tcp_close_def)
  qed
qed

lemma tcp_fds_inv:
  "tcp_inv (fst x) \<Longrightarrow> tcp_fds e t fd x = Some y \<Longrightarrow> kernel_ok t (fst x) \<Longrightarrow> tcp_inv (fst y) \<and> tcp_msgfd (fst y) = tcp_msgfd (fst x)"
proof (induction e t fd x rule: tcp_fds.induct)
  case (1 e t fd x)
  show ?case
  proof (cases "fd > fdmax (fst x)")
    case True
    then show ?thesis using 1 by (simp add: tcp_fds_step [of e t fd])
  next
    case False
    then obtain z where small: "\<not> fd \<ge> FD_SETSIZE" and z: "tcp_fd e t fd x = Some z" and y: "tcp_fds e t (Suc fd) z = Some y"
      using "1.prems"(2) by (auto simp: tcp_fds_step [of e t fd x] split: if_splits bind_splits)
    have i: "tcp_inv (fst z) \<and> tcp_msgfd (fst z) = tcp_msgfd (fst x)"
      using tcp_fd_inv [of "fst x" e t fd "snd x" "fst z" "snd z"] "1.prems" z by simp
    then have "kernel_ok t (fst z)" using "1.prems"(3) by (simp add: kernel_ok_def)
    then show ?thesis using "1.IH" [OF False small z] i y by simp
  qed
qed

inductive tcp_reach :: "tcp_server \<Rightarrow> bool" where
  start: "tcp_start e msgfd (Some k) s = Some v \<Longrightarrow> 0 < msgfd \<Longrightarrow> msgfd < FD_SETSIZE \<Longrightarrow> k < FD_SETSIZE \<Longrightarrow> k \<noteq> msgfd \<Longrightarrow>
    tcp_reach v"
| round: "tcp_reach v \<Longrightarrow> tcp_round e t (v, s) = Some (v', s') \<Longrightarrow> kernel_ok t v \<Longrightarrow> tcp_reach v'"


definition tcp_demo :: tcp_server where
  "tcp_demo = \<lparr>server_socket = 9, tcp_msgfd = 5, refset = {9, 5}, fdmax = 9, port_bin = 1, port_str = ''1'', open_fds = {9}\<rparr>"

definition tcp_turn_demo :: tcp_turn where
  "tcp_turn_demo = \<lparr>rdset = {}, accepted = None, client_sends = \<lambda>_. ([], []), tcp_message = [0, 0], listening = None, old_query = []\<rparr>"


text \<open>
  Two clients of the TCP server: what one writes to registers of a well, the other one reads in
  its next round, both requests cut at any place. Each gets its own answer with the number of its
  request, and no connection changes.
\<close>

theorem tcp_clients_share:
  assumes "rdset t1 = {g1}" "rdset t2 = {g2}" "{g1, g2} \<subseteq> open_fds v" "server_socket v \<notin> {g1, g2}" "tcp_msgfd v \<notin> {g1, g2}"
    and "g1 \<le> fdmax v" "g2 \<le> fdmax v" "fdmax v < FD_SETSIZE"
    and "client_sends t1 g1 = (c1, [k1])" "client_sends t2 g2 = (c2, [k2])"
    and "length pre1 = 6" "length pre2 = 6"
    and "stream_of c1 = pre1 @ write_body sl a vs @ r1" "stream_of c2 = pre2 @ rtu_header sl 3 a (length vs) @ r2"
    and "1 \<le> length vs" "length vs \<le> 123" "a + length vs \<le> 10000"
    and "reg_inv e (unat sl) s" "\<forall>j\<in>set [a..<a + length vs]. y_valid (unat sl) s j"
  shows "\<exists>t u. tcp_round e t1 (v, s) = Some (v, t) \<and>
    last (out t) = SocketSend g1 (write_answer Backend_tcp pre1 sl a vs) \<and>
    tcp_round e' t2 (v, t) = Some (v, u) \<and>
    out u = out t @ [SocketSend g2 (read_answer Backend_tcp pre2 sl vs)]"
proof -
  let ?th = "int THREAD_TCP_SERVER"
  let ?s = "update_thread_time e ?th s"
  have s: "reg_inv e (unat sl) ?s" "\<forall>j\<in>set [a..<a + length vs]. y_valid (unat sl) ?s j"
    using assms(18,19) by (simp_all add: y_valid_cong [of ?s s] frame_simps)
  have stream: "stream_of c1 = on_wire Backend_tcp pre1 (write_body sl a vs) @ r1"
    "stream_of c2 = on_wire Backend_tcp pre2 (rtu_header sl 3 a (length vs)) @ r2"
    using assms(13,14) by (simp_all add: on_wire_def)
  obtain t where t: "serve Backend_tcp e THREAD_TCP_SERVER (old_query t1) c1 [k1] ?s =
      Some (Some (Some (write_answer Backend_tcp pre1 sl a vs)), update_thread_com_time e ?th t)"
    and rd: "\<And>t1 e'. mp t1 = mp t \<Longrightarrow> serve Backend_tcp e' THREAD_TCP_SERVER (old_query t2) c2 [k2] t1 =
      Some (Some (Some (read_answer Backend_tcp pre2 sl vs)), update_thread_com_time e' ?th (counted t1))"
    using serve_write_read [OF _ stream assms(15-17) s] assms(11,12) by (metis (no_types))
  define x where "x = emit (SocketSend g1 (write_answer Backend_tcp pre1 sl a vs)) (update_thread_com_time e ?th t)"
  define y where "y = counted (update_thread_time e' ?th x)"
  define u where "u = emit (SocketSend g2 (read_answer Backend_tcp pre2 sl vs)) (update_thread_com_time e' ?th y)"
  have "tcp_fd e t1 g1 (v, ?s) = Some (v, x)"
    using assms(1,3-5,9) t by (simp add: tcp_fd_def answer_to_def x_def)
  then have r1: "tcp_round e t1 (v, s) = Some (v, x)"
    unfolding tcp_round_def prod.case by (intro tcp_fds_only [OF assms(1)]) (use assms(6,8) in simp_all)
  have "tcp_fd e' t2 g2 (v, update_thread_time e' ?th x) = Some (v, u)"
    using assms(2-5,10) rd [of "update_thread_time e' ?th x" e']
    by (simp add: tcp_fd_def answer_to_def u_def y_def x_def frame_simps)
  then have r2: "tcp_round e' t2 (v, x) = Some (v, u)"
    unfolding tcp_round_def prod.case by (intro tcp_fds_only [OF assms(2)]) (use assms(7,8) in simp_all)
  have "out u = out x @ [SocketSend g2 (read_answer Backend_tcp pre2 sl vs)]"
    "last (out x) = SocketSend g1 (write_answer Backend_tcp pre1 sl a vs)"
    by (simp_all add: u_def y_def x_def frame_simps counted_def)
  then show ?thesis using r1 r2 by blast
qed

theorem tcp_clients_share_witness:
  "\<exists>t u. tcp_round env_demo (tcp_turn_demo\<lparr>rdset := {11}, client_sends := \<lambda>_. ([[0, 7, 0, 0, 0, 11] @ write_body 1 6 [0x1234, 9]], [12])\<rparr>)
       (tcp_demo\<lparr>refset := {12, 11, 9, 5}, fdmax := 12, open_fds := {12, 11, 9}\<rparr>, rtu_demo) =
     Some (tcp_demo\<lparr>refset := {12, 11, 9, 5}, fdmax := 12, open_fds := {12, 11, 9}\<rparr>, t) \<and>
   tcp_round env_demo (tcp_turn_demo\<lparr>rdset := {12}, client_sends := \<lambda>_. ([[0, 8], [0, 0, 0, 6] @ rtu_header 1 3 6 2], [13])\<rparr>)
       (tcp_demo\<lparr>refset := {12, 11, 9, 5}, fdmax := 12, open_fds := {12, 11, 9}\<rparr>, t) =
     Some (tcp_demo\<lparr>refset := {12, 11, 9, 5}, fdmax := 12, open_fds := {12, 11, 9}\<rparr>, u) \<and>
   last (out u) = SocketSend 12 [0, 8, 0, 0, 0, 7, 1, 3, 4, 0x12, 0x34, 0, 9]"
proof -
  let ?vs = "[0x1234, 9] :: u16 list" and ?v = "tcp_demo\<lparr>refset := {12, 11, 9, 5}, fdmax := 12, open_fds := {12, 11, 9}\<rparr>"
  let ?c1 = "[[0, 7, 0, 0, 0, 11] @ write_body 1 6 ?vs]" and ?c2 = "[[0, 8], [0, 0, 0, 6] @ rtu_header 1 3 6 2]"
  let ?t1 = "tcp_turn_demo\<lparr>rdset := {11}, client_sends := \<lambda>_. (?c1, [12])\<rparr>"
  let ?t2 = "tcp_turn_demo\<lparr>rdset := {12}, client_sends := \<lambda>_. (?c2, [13])\<rparr>"
  have t: "rdset ?t1 = {11}" "rdset ?t2 = {12}" "{11, 12} \<subseteq> open_fds ?v" "server_socket ?v \<notin> {11, 12}" "tcp_msgfd ?v \<notin> {11, 12}"
    "11 \<le> fdmax ?v" "12 \<le> fdmax ?v" "fdmax ?v < FD_SETSIZE" "client_sends ?t1 11 = (?c1, [12])" "client_sends ?t2 12 = (?c2, [13])"
    by (simp_all add: tcp_demo_def FD_SETSIZE_def)
  have c: "length [0, 7, 0, 0, 0, 11 :: u8] = 6" "length [0, 8, 0, 0, 0, 6 :: u8] = 6"
    "stream_of ?c1 = [0, 7, 0, 0, 0, 11] @ write_body 1 6 ?vs @ []"
    "stream_of ?c2 = [0, 8, 0, 0, 0, 6] @ rtu_header 1 3 6 (length ?vs) @ []"
    by (simp_all add: stream_of_def numeral_2_eq_2 [symmetric])
  have l: "1 \<le> length ?vs" "length ?vs \<le> 123" "6 + length ?vs \<le> 10000" by simp_all
  have y: "\<forall>j\<in>set [6..<6 + length ?vs]. y_valid (unat (1 :: u8)) rtu_demo j" using demo_writable(1) by simp
  have r: "read_answer Backend_tcp [0, 8, 0, 0, 0, 6] 1 ?vs = [0, 8, 0, 0, 0, 7, 1, 3, 4, 0x12, 0x34, 0, 9]"
    by (simp add: read_answer_def answer_head_def be_bytes_def hi_byte_def lo_byte_def send_msg_pre_def tcp_send_msg_pre_def Let_def)
  from tcp_clients_share [OF t c l demo_writable(2) y, of env_demo] obtain t u where
    "tcp_round env_demo ?t1 (?v, rtu_demo) = Some (?v, t)" "tcp_round env_demo ?t2 (?v, t) = Some (?v, u)"
    "out u = out t @ [SocketSend 12 (read_answer Backend_tcp [0, 8, 0, 0, 0, 6] 1 ?vs)]" by blast
  then show ?thesis unfolding r by (intro exI [of _ t] exI [of _ u]) simp
qed

text \<open>
  A new port of the TCP server: the handler closes the clients whose request happens to be ready,
  and waits for the new listening socket and the queue only. A client that is connected but silent
  at that moment stays open, and is never waited for again.
\<close>

theorem tcp_port_change_strands:
  assumes "reg_inv e 1 s" "58 < x_max (mp s)" "kind_at (mp s) 1 58 \<noteq> MAP_SYS"
    and "sint (reg (mp s) 1 58) \<noteq> atoi (port_str v)" "take 2 (tcp_message t) = [MSG_CONFIG_START, 0]" "listening t = Some k"
    and "c \<in> open_fds v" "c \<noteq> server_socket v" "c \<noteq> tcp_msgfd v" "c \<notin> rdset t" "k \<noteq> c"
  shows "\<exists>v'. tcp_handler e' t s v = Some v' \<and> port_str v' = hd_text (reg (mp s) 1 58) \<and>
    server_socket v' = k \<and> refset v' \<subseteq> {k, tcp_msgfd v} \<and> c \<in> open_fds v' \<and> c \<notin> refset v'"
proof -
  have "read_register e' s (port_bin v) 1 MAP_ADDR_TCP_PORT = Some (reg (mp s) 1 58)"
    unfolding MAP_ADDR_TCP_PORT_def by (rule read_register_plain [OF assms(1-3)])
  moreover have "tcp_message t ! 0 = MSG_CONFIG_START" "tcp_message t ! 1 = 0"
    using arg_cong [OF assms(5), of "\<lambda>l. l ! 0"] arg_cong [OF assms(5), of "\<lambda>l. l ! 1"] by simp_all
  ultimately show ?thesis
    using assms(4,6-11) by (auto simp: tcp_handler_def Let_def watch_def simp del: One_nat_def)
qed

theorem tcp_port_change_strands_witness:
  "\<exists>v. tcp_handler env_demo (tcp_turn_demo\<lparr>rdset := {5}, tcp_message := [MSG_CONFIG_START, 0], listening := Some 12\<rparr>) rtu_meters
      (tcp_demo\<lparr>refset := {11, 9, 5}, fdmax := 11, open_fds := {11, 9}, port_str := ''10086''\<rparr>) = Some v \<and>
    11 \<in> open_fds v \<and> 11 \<notin> refset v"
proof -
  have i: "reg_inv env_demo 1 rtu_meters" by (rule rtu_meters_inv) simp_all
  have p: "sint (reg (mp rtu_meters) 1 58) \<noteq> atoi ''10086''"
    by (simp add: reg_def rtu_meters_wf atoi_def is_space_def is_digit_def digit_val_def number_def LONG_MAX_def code_def)
  show ?thesis
    using tcp_port_change_strands [OF i, where e' = env_demo and c = 11 and k = 12
        and v = "tcp_demo\<lparr>refset := {11, 9, 5}, fdmax := 11, open_fds := {11, 9}, port_str := ''10086''\<rparr>"
        and t = "tcp_turn_demo\<lparr>rdset := {5}, tcp_message := [MSG_CONFIG_START, 0], listening := Some 12\<rparr>"] p
    by (auto simp: tcp_demo_def rtu_meters_wf)
qed

end
