(* ===== verification/Udp_Facts.thy ===== *)
theory Udp_Facts
  imports Udp_Server Server_Facts
begin

text \<open>
  The UDP server: when heart beats go out and to whom, which answers count, and what a new
  configuration leaves uninitialised.
\<close>

section \<open>What stays the same\<close>

definition beat_ok :: "udp_server \<Rightarrow> bool" where
  "beat_ok v \<longleftrightarrow> length (heart_beat_info v) = 3 \<and> 5 \<le> unat (heart_beat_info v ! 1) \<and> 10 \<le> unat (heart_beat_info v ! 2) \<and>
     length (addr_in v) = 6 \<and> length (addr_in_len v) = 6 \<and> length (rtu_id v) = 2"

lemma sane_beat_ok:
  "length h = 3 \<Longrightarrow> length (sane_beat h) = 3 \<and> sane_beat h ! 0 = h ! 0 \<and> 5 \<le> unat (sane_beat h ! 1) \<and> 10 \<le> unat (sane_beat h ! 2)"
  by (simp add: sane_beat_def word_less_nat_alt not_less)

lemma get_addrs_keeps:
  "beat_ok v \<Longrightarrow> beat_ok (get_addrs res i svs v)"
  "heart_beat_info (get_addrs res i svs v) = heart_beat_info v" "rtu_id (get_addrs res i svs v) = rtu_id v"
  "length (addr_in (get_addrs res i svs v)) = length (addr_in v)"
  "length (addr_in_len (get_addrs res i svs v)) = length (addr_in_len v)"
  "has_beat (get_addrs res i svs v) = has_beat v" "time0 (get_addrs res i svs v) = time0 v"
  by (induction svs arbitrary: i v) (simp_all add: get_addr_def beat_ok_def split: option.split)

lemma big_l_length:
  "read_loop_big_l e s b w i rc n buf = Some vs \<Longrightarrow> length vs = length buf"
proof (induction n arbitrary: i rc buf vs)
  case (Suc n)
  then show ?case by (cases buf) (auto split: bind_splits)
qed simp

lemma read_big_l_length:
  "zigbee_read_registers_big_l e s buf len w a b = Some (rc, vs) \<Longrightarrow> length vs = length buf"
  by (auto simp: zigbee_read_registers_big_l_def big_l_length split: if_splits bind_splits)

lemma udp_configure_ok:
  assumes "udp_configure e res s v = Some v'" "length (heart_beat_info v) = 3" "length (addr_in v) = 6"
    "length (addr_in_len v) = 6" "length (rtu_id v) = 2"
  shows "beat_ok v' \<and> has_beat v' = has_beat v \<and> time0 v' = time0 v"
proof -
  obtain ra a4 rb a6 where a: "zigbee_read_registers e s (addr_info v) 15 1 (int MAP_ADDR_UDP_REMOTE_IPV4_ADDR) = Some (ra, a4)"
    "zigbee_read_registers e s (addr6_info v) 18 1 (int MAP_ADDR_UDP_REMOTE_IPV6_ADDR) = Some (rb, a6)"
    using assms(1) by (fastforce simp: udp_configure_def split: bind_splits)
  let ?w = "v\<lparr>addr_info := a4, addr6_info := a6\<rparr>"
  let ?u = "get_addrs res 0 (remote_servers ?w) ?w"
  obtain rc rid rd beat where r: "zigbee_read_registers_big_l e s (rtu_id v) 2 1 (int MAP_ADDR_RTU_ID) True = Some (rc, rid)"
    "zigbee_read_registers e s (heart_beat_info v) 3 1 (int MAP_ADDR_UDP_HEART_BEAT_STATUS) = Some (rd, beat)"
    and v': "v' = ?u\<lparr>rtu_id := rid, heart_beat_info := sane_beat beat\<rparr>"
    using assms(1) a by (auto simp: udp_configure_def Let_def get_addrs_keeps split: bind_splits)
  have "length rid = 2" "length beat = 3"
    using read_big_l_length [OF r(1)] read_registers_length [OF r(2)] assms by simp_all
  then show ?thesis
    using assms(2-5) sane_beat_ok [of beat] by (simp add: v' beat_ok_def get_addrs_keeps)
qed

lemma udp_message_ok:
  assumes "udp_message e res msg s v = Some v'" "beat_ok v"
  shows "beat_ok v' \<and> has_beat v' = has_beat v \<and> time0 v' = time0 v"
proof (cases "msg ! 0 \<noteq> MSG_CONFIG_START \<or> msg ! 1 \<noteq> 0")
  case True
  then show ?thesis using assms by (simp add: udp_message_def)
next
  case False
  then obtain u port where u: "udp_configure e res s v = Some u"
    and v': "v' = u\<lparr>udp_port := port\<rparr> \<or> v' = u\<lparr>udp_port := port, udp_port_str := hd_text port\<rparr>"
    using assms(1) by (auto simp: udp_message_def Let_def split: bind_splits if_splits)
  from udp_configure_ok [OF u] assms(2) show ?thesis using v' by (auto simp: beat_ok_def)
qed

lemma heart_beat_ok: "beat_ok (fst x) \<Longrightarrow> beat_ok (fst (heart_beat now x))"
  by (cases x) (simp add: heart_beat_def send_beats_def beat_ok_def)

lemma udp_packet_ok:
  "udp_packet e old peer packet ks (v, s) = Some (v', s') \<Longrightarrow> beat_ok v \<Longrightarrow> beat_ok v'"
  by (auto simp: udp_packet_def Let_def beat_ok_def split: bind_splits if_splits)

inductive udp_reach :: "udp_server \<Rightarrow> bool" where
  start: "udp_start e res junk s = Some v \<Longrightarrow> length (heart_beat_info junk) = 3 \<Longrightarrow> length (addr_in junk) = 6 \<Longrightarrow>
    length (addr_in_len junk) = 6 \<Longrightarrow> udp_reach v"
| round: "udp_reach v \<Longrightarrow> udp_round e res t (v, s) = Some (v', s') \<Longrightarrow> udp_reach v'"

lemma udp_reach_ok: "udp_reach v \<Longrightarrow> beat_ok v"
proof (induction rule: udp_reach.induct)
  case (start e res junk s v)
  then show ?case by (auto simp: udp_start_def split: bind_splits dest!: udp_configure_ok)
next
  case (round v e res t s v' s')
  let ?x = "heart_beat (time_now e) (v, update_thread_time e (int THREAD_UDP_SERVER) s)"
  have x: "beat_ok (fst ?x)" using round.IH by (intro heart_beat_ok) simp
  from round.hyps(2) obtain w t' where
    w: "(case udp_received t of None \<Rightarrow> Some ?x | Some (peer, packet) \<Rightarrow> udp_packet e (udp_old t) peer packet (udp_sends t) ?x) = Some (w, t')"
    and v': "v' = w \<or> (\<exists>msg. udp_message e res msg t' w = Some v')"
    unfolding udp_round_def Let_def by (fastforce split: bind_splits option.splits)
  have "beat_ok w"
    using w x by (cases ?x) (auto split: option.splits dest: udp_packet_ok)
  then show ?case using v' udp_message_ok by blast
qed

section \<open>Heart beats\<close>

lemma fold_beats:
  "fold (beat_to v) ks s = s\<lparr>out := out s @ map (\<lambda>k. DatagramSend (addr_in v ! k) (udp_heart_pack (rtu_id v)))
     (filter (\<lambda>k. addr_in_len v ! k \<noteq> -1) ks)\<rparr>"
  by (induction ks arbitrary: s) (simp_all add: beat_to_def emit_def)



section \<open>A server that has just started\<close>

lemma read_loop_big_plain:
  assumes "map_wf (mp s)" "i + length buf \<le> x_max (mp s)" "\<forall>k\<in>set [i..<i + length buf]. kind_at (mp s) w k \<noteq> MAP_SYS"
    and "\<And>k b. k < x_max (mp s) \<Longrightarrow> kind_at (mp s) w k \<noteq> MAP_SYS \<Longrightarrow> read_cell e s w k b = Some (reg (mp s) w k)"
  shows "read_loop_big_l e s True w i rc (length buf) buf = Some (map (to_big_l True \<circ> reg (mp s) w) [i..<i + length buf])"
  using assms(2,3)
proof (induction buf arbitrary: i rc)
  case (Cons b bs)
  then have "read_loop_big_l e s True w (Suc i) (reg (mp s) w i) (length bs) bs =
      Some (map (to_big_l True \<circ> reg (mp s) w) [Suc i..<Suc i + length bs])"
    by (intro Cons.IH) auto
  then show ?case using Cons.prems assms(4) by (simp add: upt_conv_Cons del: upt_Suc)
qed simp


lemma read_big_plain:
  assumes "reg_inv e 1 s" "k + n \<le> x_max (mp s)" "plain (mp s) 1 k n" "length buf = n" "0 < n"
  shows "zigbee_read_registers_big_l e' s buf (int n) 1 (int k) True =
    Some (0, map (to_big_l True \<circ> reg (mp s) 1) [k..<k + n])"
proof -
  have "map_wf (mp s)" using assms(1) by (simp add: reg_inv_def)
  then have "read_loop_big_l e' s True 1 k (-1) n buf = Some (map (to_big_l True \<circ> reg (mp s) 1) [k..<k + n])"
    using read_loop_big_plain [of s k buf 1 e'] read_cell_plain [of s 1 _ e'] assms(2-4)
    by (auto simp: plain_def simp del: One_nat_def)
  then show ?thesis
    using assms(2,5) by (simp add: zigbee_read_registers_big_l_def args_ok_def map_sizes)
qed

text \<open>What the registers ask for, when they are plain memory.\<close>

definition asked_servers :: "map_t \<Rightarrow> (string \<times> string) list" where
  "asked_servers m =
     [ip4_server (map (reg m 1) [108..<113]), ip4_server (map (reg m 1) [113..<118]), ip4_server (map (reg m 1) [118..<123]),
      ip6_server (map (reg m 1) [153..<162]), ip6_server (map (reg m 1) [162..<171])]"

definition udp_plain :: "env \<Rightarrow> rtu \<Rightarrow> bool" where
  "udp_plain e s \<longleftrightarrow> reg_inv e 1 s \<and> 171 \<le> x_max (mp s) \<and> plain (mp s) 1 0 171"

lemma udp_plain_reads:
  assumes "udp_plain e s" "k + n \<le> 171" "length buf = n" "0 < n"
  shows "zigbee_read_registers e' s buf (int n) 1 (int k) = Some (0, map (reg (mp s) 1) [k..<k + n])"
    "zigbee_read_registers_big_l e' s buf (int n) 1 (int k) True = Some (0, map (to_big_l True \<circ> reg (mp s) 1) [k..<k + n])"
proof -
  have "reg_inv e 1 s" "k + n \<le> x_max (mp s)" "plain (mp s) 1 k n" using assms(1,2) by (auto simp: udp_plain_def plain_def)
  then show "zigbee_read_registers e' s buf (int n) 1 (int k) = Some (0, map (reg (mp s) 1) [k..<k + n])"
    "zigbee_read_registers_big_l e' s buf (int n) 1 (int k) True = Some (0, map (to_big_l True \<circ> reg (mp s) 1) [k..<k + n])"
    using assms(3,4) by (rule read_block_plain, rule read_big_plain)
qed

lemma ip_server_take: "ip4_server (take 5 a) = ip4_server a" "ip6_server (take 9 a) = ip6_server a"
  by (simp_all add: ip4_server_def ip6_server_def ip4_text_def ip6_text_def take_take)

lemma remote_servers_asked:
  assumes "addr_info v = map (reg m 1) [108..<123]" "addr6_info v = map (reg m 1) [153..<171]"
  shows "remote_servers v = asked_servers m"
proof -
  have ip4: "ip4_server (drop a (map f [b..<c])) = ip4_server (map f [b + a..<b + a + 5])" if "b + a + 5 \<le> c" for a b c and f :: "nat \<Rightarrow> u16"
    using that ip_server_take(1) [of "drop a (map f [b..<c])"] by (simp add: drop_map take_map)
  have ip6: "ip6_server (drop a (map f [b..<c])) = ip6_server (map f [b + a..<b + a + 9])" if "b + a + 9 \<le> c" for a b c and f :: "nat \<Rightarrow> u16"
    using that ip_server_take(2) [of "drop a (map f [b..<c])"] by (simp add: drop_map take_map)
  have "[0..<3] = [0, 1, 2 :: nat]" "[0..<2] = [0, 1 :: nat]" by (simp_all add: upt_rec)
  then show ?thesis
    by (simp add: remote_servers_def asked_servers_def MAX_REMOTE_UDP4_SERVER_NUM_def MAX_REMOTE_UDP6_SERVER_NUM_def assms ip4 ip6
      ip4 [of 108 0, simplified] ip6 [of 153 0, simplified] del: upt_rec_numeral drop_upt)
qed

lemma udp_configure_plain:
  assumes "udp_plain e s" "length (addr_info v) = 15" "length (addr6_info v) = 18" "length (rtu_id v) = 2" "length (heart_beat_info v) = 3"
  shows "\<exists>w. udp_configure e' res s v = Some (get_addrs res 0 (asked_servers (mp s)) w
      \<lparr>rtu_id := map (to_big_l True \<circ> reg (mp s) 1) [139..<141], heart_beat_info := sane_beat (map (reg (mp s) 1) [141..<144])\<rparr>) \<and>
    w = v\<lparr>addr_info := map (reg (mp s) 1) [108..<123], addr6_info := map (reg (mp s) 1) [153..<171]\<rparr>"
proof -
  have "zigbee_read_registers e' s (addr_info v) 15 1 108 = Some (0, map (reg (mp s) 1) [108..<123])"
    "zigbee_read_registers e' s (addr6_info v) 18 1 153 = Some (0, map (reg (mp s) 1) [153..<171])"
    "zigbee_read_registers e' s (heart_beat_info v) 3 1 141 = Some (0, map (reg (mp s) 1) [141..<144])"
    using udp_plain_reads(1) [OF assms(1), of 108 15 "addr_info v" e'] udp_plain_reads(1) [OF assms(1), of 153 18 "addr6_info v" e']
      udp_plain_reads(1) [OF assms(1), of 141 3 "heart_beat_info v" e'] assms(2-) by simp_all
  moreover have "zigbee_read_registers_big_l e' s (rtu_id v) 2 1 139 True = Some (0, map (to_big_l True \<circ> reg (mp s) 1) [139..<141])"
    using udp_plain_reads(2) [OF assms(1), of 139 2 "rtu_id v" e'] assms(4) by simp
  moreover have "remote_servers (v\<lparr>addr_info := map (reg (mp s) 1) [108..<123], addr6_info := map (reg (mp s) 1) [153..<171]\<rparr>) =
      asked_servers (mp s)"
    by (rule remote_servers_asked) simp_all
  ultimately show ?thesis
    by (simp add: udp_configure_def udp_addrs get_addrs_keeps Let_def del: upt_rec_numeral One_nat_def)
qed

lemma get_addrs_other:
  "k < i \<or> i + length svs \<le> k \<Longrightarrow>
    addr_in_len (get_addrs res i svs v) ! k = addr_in_len v ! k \<and> addr_in (get_addrs res i svs v) ! k = addr_in v ! k"
  by (induction svs arbitrary: i v) (auto simp: get_addr_def split: option.split)

definition filled :: "resolver \<Rightarrow> udp_server \<Rightarrow> nat \<Rightarrow> string \<times> string \<Rightarrow> bool" where
  "filled res v k sv \<longleftrightarrow>
     (case res (fst sv) (snd sv) of
        None \<Rightarrow> addr_in_len v ! k = -1
      | Some n \<Rightarrow> addr_in_len v ! k = int n \<and> addr_in v ! k = sv)"

lemma filled_configured [simp]: "filled res (v\<lparr>rtu_id := r, heart_beat_info := h\<rparr>) k sv = filled res v k sv"
  by (simp add: filled_def cong: option.case_cong)

lemma get_addrs_filled:
  "k < length svs \<Longrightarrow> i + length svs \<le> length (addr_in v) \<Longrightarrow> length (addr_in_len v) = length (addr_in v) \<Longrightarrow>
    filled res (get_addrs res i svs v) (i + k) (svs ! k)"
proof (induction svs arbitrary: i v k)
  case (Cons sv svs)
  let ?v = "get_addr res i sv v"
  have l: "length (addr_in ?v) = length (addr_in v)" "length (addr_in_len ?v) = length (addr_in_len v)"
    by (simp_all add: get_addr_def split: option.split)
  show ?case
  proof (cases k)
    case 0
    have "filled res ?v i sv" using Cons.prems by (simp add: get_addr_def filled_def split: option.split)
    then show ?thesis using 0 get_addrs_other [of i "Suc i" svs res ?v] by (simp add: filled_def split: option.splits)
  next
    case (Suc n)
    then show ?thesis using Cons.IH [of n "Suc i" ?v] Cons.prems l by simp
  qed
qed simp

definition udp_junk :: "udp_server \<Rightarrow> bool" where
  "udp_junk j \<longleftrightarrow> length (addr_info j) = 15 \<and> length (addr6_info j) = 18 \<and> length (heart_beat_info j) = 3 \<and>
     length (addr_in j) = 6 \<and> length (addr_in_len j) = 6"

lemma udp_started:
  assumes "udp_plain e s" "udp_junk junk"
  shows "\<exists>v. udp_start e' res junk s = Some v \<and>
      (\<forall>k<5. filled res v k (asked_servers (mp s) ! k)) \<and>
      rtu_id v = map (to_big_l True \<circ> reg (mp s) 1) [139, 140] \<and>
      heart_beat_info v = [reg (mp s) 1 141, max 5 (reg (mp s) 1 142), max 10 (reg (mp s) 1 143)] \<and>
      addr_in_len v ! 5 = addr_in_len junk ! 5 \<and> addr_in v ! 5 = addr_in junk ! 5 \<and>
      has_beat v = False \<and> time0 v = time_now e'"
proof -
  obtain port where port: "read_register e' s 10086 1 MAP_ADDR_UDP_PORT = Some port"
    using udp_plain_reads(1) [OF assms(1), of 57 1 "[10086]" e'] by (simp add: read_register_def MAP_ADDR_UDP_PORT_def)
  let ?w = "junk\<lparr>rtu_id := [0, 0], has_beat := False, time0 := time_now e', udp_port := port, udp_port_str := hd_text port\<rparr>"
  define rid hb where "rid = map (to_big_l True \<circ> reg (mp s) 1) [139..<141]" and "hb = sane_beat (map (reg (mp s) 1) [141..<144])"
  obtain w where w: "addr_in w = addr_in junk" "addr_in_len w = addr_in_len junk" "has_beat w = False" "time0 w = time_now e'"
    and c: "udp_configure e' res s ?w = Some (get_addrs res 0 (asked_servers (mp s)) w\<lparr>rtu_id := rid, heart_beat_info := hb\<rparr>)"
  proof -
    obtain u where "u = ?w\<lparr>addr_info := map (reg (mp s) 1) [108..<123], addr6_info := map (reg (mp s) 1) [153..<171]\<rparr>"
      "udp_configure e' res s ?w = Some (get_addrs res 0 (asked_servers (mp s)) u\<lparr>rtu_id := rid, heart_beat_info := hb\<rparr>)"
      using udp_configure_plain [OF assms(1), of ?w e' res] assms(2)
      by (auto simp: udp_junk_def rid_def hb_def simp del: One_nat_def upt_rec_numeral)
    then show thesis by (intro that [of u]) simp_all
  qed
  let ?g = "get_addrs res 0 (asked_servers (mp s)) w"
  let ?v = "?g\<lparr>rtu_id := rid, heart_beat_info := hb\<rparr>"
  have l: "length (asked_servers (mp s)) = 5" by (simp add: asked_servers_def)
  have f: "filled res ?v k (asked_servers (mp s) ! k)" if "k < 5" for k
    using get_addrs_filled [of k "asked_servers (mp s)" 0 w res] that l assms(2) w by (simp add: udp_junk_def)
  have six: "addr_in_len ?v ! 5 = addr_in_len junk ! 5" "addr_in ?v ! 5 = addr_in junk ! 5"
    using get_addrs_other [of 5 0 "asked_servers (mp s)" res w] l w by simp_all
  have "udp_start e' res junk s = Some ?v" using port c by (simp add: udp_start_def)
  moreover have "heart_beat_info ?v = [reg (mp s) 1 141, max 5 (reg (mp s) 1 142), max 10 (reg (mp s) 1 143)]"
    by (simp add: hb_def sane_beat_def max_def upt_rec word_less_nat_alt word_le_nat_alt)
  moreover have "rtu_id ?v = map (to_big_l True \<circ> reg (mp s) 1) [139, 140]" by (simp add: rid_def upt_rec)
  moreover have "has_beat ?v = False" "time0 ?v = time_now e'" using w(3,4) by (simp_all add: get_addrs_keeps)
  ultimately show ?thesis using f six by blast
qed

lemma beat_sent:
  assumes "beat_due now v" "addr_in_len v ! k \<noteq> -1" "k < 6"
  shows "DatagramSend (addr_in v ! k) (udp_heart_pack (rtu_id v)) \<in> set (out (snd (heart_beat now (v, t))))"
  using assms unfolding heart_beat_def send_beats_def fold_beats MAX_REMOTE_UDP_SERVER_NUM_def
  by (force simp del: upt_rec_numeral)

text \<open>
  The UDP server starts with the addresses of the five remote servers that the registers name,
  three of IPv4 and two of IPv6, where the resolver knows them, and with the id and the times of the
  heart beats that the registers give. But the arrays have six entries and the sixth is never
  initialised: a heart beat goes to whatever it holds, unless its length happens to be -1.
\<close>

theorem sixth_address_uninitialised:
  assumes "udp_plain e s" "udp_junk junk"
  shows "\<exists>v. udp_start e' res junk s = Some v \<and>
      (\<forall>k<5. filled res v k (asked_servers (mp s) ! k)) \<and>
      rtu_id v = map (to_big_l True \<circ> reg (mp s) 1) [139, 140] \<and>
      heart_beat_info v = [reg (mp s) 1 141, max 5 (reg (mp s) 1 142), max 10 (reg (mp s) 1 143)] \<and>
      addr_in_len v ! 5 = addr_in_len junk ! 5 \<and> addr_in v ! 5 = addr_in junk ! 5 \<and>
      (beat_due now v \<and> addr_in_len junk ! 5 \<noteq> -1 \<longrightarrow>
         DatagramSend (addr_in junk ! 5) (udp_heart_pack (rtu_id v)) \<in> set (out (snd (heart_beat now (v, t)))))"
proof -
  from udp_started [OF assms, of e' res] obtain v where v: "udp_start e' res junk s = Some v"
      "\<forall>k<5. filled res v k (asked_servers (mp s) ! k)" "rtu_id v = map (to_big_l True \<circ> reg (mp s) 1) [139, 140]"
      "heart_beat_info v = [reg (mp s) 1 141, max 5 (reg (mp s) 1 142), max 10 (reg (mp s) 1 143)]"
      "addr_in_len v ! 5 = addr_in_len junk ! 5" "addr_in v ! 5 = addr_in junk ! 5" by blast
  then show ?thesis using beat_sent [of now v 5 t] by auto
qed

section \<open>Answers to heart beats\<close>

lemma answer_check:
  assumes "length d < 65536"
  shows "udp_heart_pack_check_integrity ([h, l] @ d @ r) (length d + 2) \<noteq> None \<and>
    (udp_heart_pack_check_integrity ([h, l] @ d @ r) (length d + 2) \<noteq> Some (-1) \<longleftrightarrow> crc_pair d = (h, l))"
proof -
  obtain x y where c: "crc_pair d = (x, y)" by (cases "crc_pair d")
  have "unat (of_nat (length d) :: u16) = length d" using assms by (simp add: unat_of_nat take_bit_nat_eq_self)
  then have crc: "crc16 (d @ r) (of_nat (length d)) = Some (push_bit 8 (ucast x) OR ucast y)"
    by (simp add: crc16_def c)
  have b: "(push_bit 8 (ucast p) OR ucast q :: u16) = bytes_u16 q p" for p q :: u8
    by (simp add: bytes_u16_def or.commute)
  have "bytes_u16 y x = bytes_u16 l h \<longleftrightarrow> (x, y) = (h, l)"
    by (metis u16_bytes_bytes_u16 list.inject prod.inject)
  then show ?thesis
    using crc c by (simp add: udp_heart_pack_check_integrity_def b) (metis (no_types) neg_0_le_iff_le not_one_le_zero uint_ge_0)
qed


lemma answer_packet:
  assumes "length eight = 8" "d \<noteq> []" "length d < 65536"
  shows "udp_packet e old peer ([0xC0] @ eight @ [h, l] @ d) ks (v, s) =
    (if crc_pair d = (h, l) then Some (v\<lparr>has_beat := True\<rparr>, update_thread_com_time e (int THREAD_UDP_SERVER) s)
     else do {
       (_, msg, s) \<leftarrow> modbus_reply Backend_tcp False e ([0xC0] @ eight @ [h, l] @ d @ drop (11 + length d) old) (int (11 + length d)) ks s;
       Some (v, update_thread_com_time e (int THREAD_UDP_SERVER) (answer_to (DatagramSend peer) (Some msg) s)) })"
proof -
  let ?q = "[0xC0] @ eight @ [h, l] @ d @ drop (11 + length d) old"
  have q: "([0xC0] @ eight @ [h, l] @ d) @ drop (length ([0xC0] @ eight @ [h, l] @ d)) old = ?q"
    using assms(1) by simp
  have n: "length ([0xC0] @ eight @ [h, l] @ d) = 11 + length d" using assms(1) by simp
  have "drop 9 ?q = [h, l] @ d @ drop (11 + length d) old" using assms(1) by simp
  moreover obtain rc where "udp_heart_pack_check_integrity ([h, l] @ d @ drop (11 + length d) old) (length d + 2) = Some rc"
    "rc \<noteq> -1 \<longleftrightarrow> crc_pair d = (h, l)"
    using answer_check [OF assms(3), of h l "drop (11 + length d) old"] by auto
  moreover have "0 < length d" using assms(2) by simp
  ultimately show ?thesis
    unfolding udp_packet_def Let_def prod.case q n by (auto split: bind_splits)
qed

text \<open>
  The answer to a heart beat is a packet that starts with the byte 0xC0, and whose tenth and
  eleventh byte are the CRC-16 of all that follows, at least one byte. It counts whatever the eight
  bytes after the first hold, the id of the device included; nothing is sent back. With any one byte
  of the rest changed it does not count.
\<close>

theorem heart_answer_checked:
  assumes "length eight = 8" "d \<noteq> []" "length d \<le> 249" "crc_pair d = (h, l)"
  shows "udp_packet e old peer ([0xC0] @ eight @ [h, l] @ d) ks (v, s) =
      Some (v\<lparr>has_beat := True\<rparr>, update_thread_com_time e (int THREAD_UDP_SERVER) s) \<and>
    (i < length d \<and> b \<noteq> d ! i \<and> udp_packet e old peer ([0xC0] @ eight @ [h, l] @ d[i := b]) ks (v, s) = Some (v', s') \<longrightarrow>
      v' = v)"
proof -
  have "crc_pair (d[i := b]) \<noteq> (h, l)" if "i < length d" "b \<noteq> d ! i"
    using crc_pair_update [OF that] assms(4) by simp
  moreover have l: "length d < 65536" "length (d[i := b]) < 65536" "d[i := b] \<noteq> []" using assms(2,3) by auto
  ultimately show ?thesis
    using assms(4) unfolding answer_packet [OF assms(1,2) l(1)] answer_packet [OF assms(1) l(3) l(2)]
    by (auto split: bind_splits)
qed

theorem heart_answer_checked_witness:
  "\<forall>e old peer ks v s. udp_packet e old peer ([0xC0] @ replicate 8 7 @ [0xBF, 0x40] @ [0]) ks (v, s) = Some (v\<lparr>has_beat := True\<rparr>, update_thread_com_time e (int THREAD_UDP_SERVER) s)"
proof -
  have "crc_pair [0] = (0xBF, 0x40)" by (simp add: crc_pair_def crc_step_def table_crc_hi_def table_crc_lo_def)
  then show ?thesis using heart_answer_checked [of "replicate 8 7" "[0]"] by simp
qed

section \<open>A sample server\<close>

definition udp_junk_demo :: udp_server where
  "udp_junk_demo = \<lparr>rtu_id = [0, 0], heart_beat_info = [0, 0, 0], has_beat = False, time0 = 0, addr_info = replicate 15 0,
     addr6_info = replicate 18 0, addr_in = replicate 6 (''10.0.0.9'', ''7''), addr_in_len = replicate 6 28, udp_port = 0, udp_port_str = ''0''\<rparr>"

lemma udp_demo_plain: "udp_plain env_demo rtu_meters" "udp_junk udp_junk_demo"
  using rtu_meters_inv by (simp_all add: udp_plain_def rtu_meters_wf rtu_meters_plain udp_junk_def udp_junk_demo_def)


lemma udp_demo_started:
  obtains v where "udp_start env_demo (\<lambda>_ _. None) udp_junk_demo rtu_meters = Some v" "udp_reach v" "time0 v = 0" "has_beat v = False"
    "heart_beat_info v ! 0 = 1" "heart_beat_info v ! 1 = 5"
proof -
  have r: "reg (mp rtu_meters) 1 k = 1" for k by (simp add: reg_def rtu_meters_wf)
  from udp_started [OF udp_demo_plain, of env_demo "\<lambda>_ _. None"] obtain v where v:
    "udp_start env_demo (\<lambda>_ _. None) udp_junk_demo rtu_meters = Some v" "has_beat v = False" "time0 v = time_now env_demo"
    "heart_beat_info v = [1, max 5 1, max 10 1]"
    unfolding r by blast
  moreover have "time_now env_demo = 0" by (simp add: env_demo_def)
  moreover have "udp_reach v" using v(1) by (rule udp_reach.start) (simp_all add: udp_junk_demo_def)
  ultimately show thesis using that [of v] by (simp add: max_def word_le_nat_alt)
qed


theorem sixth_address_uninitialised_witness:
  "\<exists>v. udp_start env_demo (\<lambda>_ _. None) udp_junk_demo rtu_meters = Some v \<and> addr_in v ! 5 = (''10.0.0.9'', ''7'') \<and> addr_in_len v ! 4 = -1"
proof -
  from sixth_address_uninitialised [OF udp_demo_plain, of env_demo "\<lambda>_ _. None" 0 rtu_meters] obtain v where
    "udp_start env_demo (\<lambda>_ _. None) udp_junk_demo rtu_meters = Some v"
    "\<forall>k<5. filled (\<lambda>_ _. None) v k (asked_servers (mp rtu_meters) ! k)" "addr_in v ! 5 = addr_in udp_junk_demo ! 5" by blast
  then show ?thesis by (intro exI [of _ v]) (simp add: filled_def udp_junk_demo_def)
qed

end
