(* ===== verification/Tcp_Client.thy ===== *)
theory Tcp_Client
  imports Server_Facts
begin

text \<open>
  The TCP client of \<^verbatim>\<open>network/tcp_client.c\<close>: it connects to one of two remote hosts in turn and
  serves the Modbus requests that come over the connection. What connecting gives is a parameter.
\<close>

section \<open>State\<close>

definition MAP_ADDR_REMOTE_IPV4_ADDR :: nat where "MAP_ADDR_REMOTE_IPV4_ADDR = 59"
definition MAP_ADDR_REMOTE_IPV6_ADDR :: nat where "MAP_ADDR_REMOTE_IPV6_ADDR = 85"

text \<open>
  \<open>conn\<close> is \<^verbatim>\<open>ctx->s\<close>, \<open>wait_fds\<close> the set \<^verbatim>\<open>fdset0\<close>, \<open>turns\<close> the
  counter \<^verbatim>\<open>i\<close> and \<open>idle\<close> the counter \<^verbatim>\<open>j\<close>.
\<close>

record tcp_client =
  conn :: int
  client_msgfd :: int
  wait_fds :: "int set"
  max_fd :: int
  hosts :: "(string \<times> string) list"
  server_info :: "u16 list"
  server6_info :: "u16 list"
  turns :: u32
  idle :: int

text \<open>
  What a call of \<^verbatim>\<open>modbus_connect\<close> meets: the error of the resolver, no connection, or a
  socket.
\<close>

datatype attempt = Unresolved int | Unreachable | Connected nat

text \<open>
  One round of the outside. \<^verbatim>\<open>select\<close> fails, or gives the ready descriptors; none means that it
  timed out.
\<close>

record client_turn =
  attempts_at :: "string \<times> string \<Rightarrow> attempt"
  ready_fds :: "int set option"
  request_chunks :: "u8 list list"
  request_sends :: "int list"
  request_old :: "u8 list"
  client_message :: "u16 list"

section \<open>Connecting\<close>

definition read_hosts :: "env \<Rightarrow> rtu \<Rightarrow> tcp_client \<Rightarrow> tcp_client option" where
  "read_hosts e s v = do {
     (_, a4) \<leftarrow> zigbee_read_registers e s (server_info v) 5 1 (int MAP_ADDR_REMOTE_IPV4_ADDR);
     (_, a6) \<leftarrow> zigbee_read_registers e s (server6_info v) 9 1 (int MAP_ADDR_REMOTE_IPV6_ADDR);
     Some (v\<lparr>server_info := a4, server6_info := a6,
       hosts := [(''::ffff:'' @ ip4_text a4, hd_text (a4 ! 4)), (ip6_text a6 @ ''%eth1'', hd_text (a6 ! 8))]\<rparr>) }"

text \<open>
  The remainder has the sign of the counter: after its overflow the index can be -1. Only the result
  -1 counts as a failure, so after another error of the resolver the descriptor -1 is put into the set.
\<close>

definition client_connect :: "(string \<times> string \<Rightarrow> attempt) \<Rightarrow> tcp_client \<Rightarrow> tcp_client option" where
  "client_connect at_host v =
     (if conn v > 0 then Some v
      else if sint (turns v) < 0 \<and> odd (sint (turns v)) then None
      else case at_host (hosts v ! nat (sint (turns v) mod 2)) of
             Unresolved rc \<Rightarrow> if rc = -1 then Some v else None
           | Unreachable \<Rightarrow> Some v
           | Connected k \<Rightarrow>
               if k \<ge> FD_SETSIZE then None
               else Some (v\<lparr>conn := int k, wait_fds := insert (int k) (wait_fds v),
                            max_fd := (if client_msgfd v < int k then int k else client_msgfd v), idle := 0\<rparr>))"

definition client_close :: "tcp_client \<Rightarrow> tcp_client" where
  "client_close v =
     v\<lparr>wait_fds := wait_fds v - {conn v}, max_fd := (if conn v = max_fd v then client_msgfd v else max_fd v), conn := -1\<rparr>"

section \<open>Waiting and serving\<close>

definition client_timeout :: "tcp_client \<Rightarrow> tcp_client" where
  "client_timeout v =
     (let v = v\<lparr>idle := idle v + 1\<rparr> in if idle v > 200 \<and> conn v > 0 then client_close v else v)"

definition client_request :: "env \<Rightarrow> client_turn \<Rightarrow> tcp_client \<times> rtu \<Rightarrow> (tcp_client \<times> rtu) option" where
  "client_request e t = (\<lambda>(v, s). do {
     rc \<leftarrow> modbus_receive Backend_tcp (request_chunks t);
     if rc > 0
     then do {
       (_, msg, s) \<leftarrow> modbus_reply Backend_tcp False e (received Backend_tcp (request_chunks t) (request_old t)) rc
                        (request_sends t) s;
       Some (v\<lparr>idle := 0\<rparr>, answer_to (SocketSend (nat (conn v))) (Some msg)
                              (update_thread_com_time e (int THREAD_TCP_CLIENT) s)) }
     else Some (client_close v, s) })"

definition client_handler :: "env \<Rightarrow> rtu \<Rightarrow> u16 list \<Rightarrow> tcp_client \<Rightarrow> tcp_client option" where
  "client_handler e s msg v =
     (if msg ! 0 \<noteq> MSG_CONFIG_START \<or> msg ! 1 \<noteq> 0 then Some v
      else do {
        v \<leftarrow> read_hosts e s v;
        Some (v\<lparr>conn := -1, wait_fds := (if client_msgfd v > 0 then {client_msgfd v} else {}),
                max_fd := (if client_msgfd v > 0 then client_msgfd v else max_fd v)\<rparr>) })"

text \<open>One round; \<^const>\<open>Inl\<close> ends the thread.\<close>

definition client_round :: "env \<Rightarrow> client_turn \<Rightarrow> tcp_client \<times> rtu \<Rightarrow> ((tcp_client \<times> rtu) + (tcp_client \<times> rtu)) option" where
  "client_round e t = (\<lambda>(v, s). do {
     let s = update_thread_time e (int THREAD_TCP_CLIENT) s;
     v \<leftarrow> client_connect (attempts_at t) v;
     case ready_fds t of
       None \<Rightarrow> Some (Inl (v, s))
     | Some r \<Rightarrow>
         if r = {} then (let v = client_timeout v in Some (Inr (v\<lparr>turns := turns v + 1\<rparr>, s)))
         else do {
           (v, s) \<leftarrow> (if conn v > 0 \<and> conn v \<in> r then client_request e t (v, s) else Some (v, s));
           v \<leftarrow> (if client_msgfd v > 0 \<and> client_msgfd v \<in> r then client_handler e s (client_message t) v else Some v);
           Some (Inr (v\<lparr>turns := turns v + 1\<rparr>, s)) } })"

text \<open>The start; the sets of what is read are on the stack.\<close>

definition client_start :: "env \<Rightarrow> int \<Rightarrow> int \<Rightarrow> u16 list \<Rightarrow> u16 list \<Rightarrow> rtu \<Rightarrow> tcp_client option" where
  "client_start e msgfd junk_max old4 old6 s =
     read_hosts e s
       \<lparr>conn = -1, client_msgfd = msgfd, wait_fds = (if msgfd > 0 then {msgfd} else {}),
        max_fd = (if msgfd > 0 then msgfd else junk_max), hosts = [], server_info = old4, server6_info = old6,
        turns = 0, idle = 0\<rparr>"


section \<open>What it waits for\<close>

definition conn_inv :: "int \<Rightarrow> int \<Rightarrow> int set \<Rightarrow> int \<Rightarrow> bool" where
  "conn_inv c q fds m \<longleftrightarrow>
     (if 0 < c then fds = {c, q} \<and> m = (if q < c then c else q) \<and> c \<noteq> q else c = -1 \<and> fds = {q} \<and> m = q)"

lemma conn_inv_simps:
  "conn_inv (-1) q fds m \<longleftrightarrow> fds = {q} \<and> m = q"
  "0 < c \<Longrightarrow> conn_inv c q fds m \<longleftrightarrow> fds = {c, q} \<and> m = (if q < c then c else q) \<and> c \<noteq> q"
  by (simp_all add: conn_inv_def)

lemma conn_inv_close: "conn_inv c q fds m \<Longrightarrow> 0 < q \<Longrightarrow> conn_inv (-1) q (fds - {c}) (if c = m then q else m)"
  by (cases "0 < c"; cases "q < c"; simp add: conn_inv_def)

lemma conn_inv_open: "conn_inv c q fds m \<Longrightarrow> \<not> 0 < c \<Longrightarrow> 0 < k \<Longrightarrow> k \<noteq> q \<Longrightarrow> conn_inv k q (insert k fds) (if q < k then k else q)"
  by (simp add: conn_inv_def)

lemma conn_inv_bound: "conn_inv c q fds m \<Longrightarrow> fds = (if 0 < c then {c, q} else {q}) \<and> (\<forall>fd. fd \<in> fds \<longrightarrow> fd \<le> m)"
  by (auto simp: conn_inv_def split: if_splits)

definition client_inv :: "tcp_client \<Rightarrow> bool" where
  "client_inv v \<longleftrightarrow>
     0 < client_msgfd v \<and>
     conn_inv (conn v) (client_msgfd v) (wait_fds v) (max_fd v) \<and>
     0 \<le> idle v \<and> (0 < conn v \<longrightarrow> idle v \<le> 200) \<and>
     length (hosts v) = 2 \<and> length (server_info v) = 5 \<and> length (server6_info v) = 9"

text \<open>The system gives sockets other than the queue.\<close>

definition attempts_ok :: "client_turn \<Rightarrow> int \<Rightarrow> bool" where
  "attempts_ok t q \<longleftrightarrow> (\<forall>h k. attempts_at t h = Connected k \<longrightarrow> 0 < k \<and> int k \<noteq> q)"

lemma read_hosts_inv:
  assumes "read_hosts e s v = Some w" "length (server_info v) = 5" "length (server6_info v) = 9"
  shows "length (server_info w) = 5 \<and> length (server6_info w) = 9 \<and> length (hosts w) = 2 \<and> conn w = conn v \<and>
    client_msgfd w = client_msgfd v \<and> wait_fds w = wait_fds v \<and> max_fd w = max_fd v \<and> turns w = turns v \<and> idle w = idle v"
  using assms by (auto simp: read_hosts_def split: bind_splits dest!: read_registers_length)

lemma client_connect_inv:
  assumes "client_inv v" "attempts_ok t (client_msgfd v)" "client_connect (attempts_at t) v = Some w"
  shows "client_inv w \<and> client_msgfd w = client_msgfd v \<and> turns w = turns v"
proof (cases "conn v > 0")
  case False
  let ?h = "hosts v ! nat (sint (turns v) mod 2)"
  show ?thesis
  proof (cases "attempts_at t ?h")
    case (Connected k)
    then have k: "0 < k" "int k \<noteq> client_msgfd v" using assms(2) [unfolded attempts_ok_def, rule_format, OF Connected] by simp_all
    have "w = v\<lparr>conn := int k, wait_fds := insert (int k) (wait_fds v),
        max_fd := (if client_msgfd v < int k then int k else client_msgfd v), idle := 0\<rparr>"
      using assms(3) Connected False by (simp add: client_connect_def split: if_splits)
    then show ?thesis
      using assms(1) conn_inv_open [of "conn v" "client_msgfd v" "wait_fds v" "max_fd v" "int k"] False k by (simp add: client_inv_def)
  qed (use assms(1,3) False in \<open>auto simp: client_connect_def split: if_splits\<close>)
qed (use assms(1,3) in \<open>simp add: client_connect_def\<close>)

lemma client_close_inv:
  "client_inv v \<Longrightarrow> client_inv (client_close v) \<and> conn (client_close v) = -1"
  "client_inv v \<Longrightarrow> client_inv (client_close (v\<lparr>idle := idle v + 1\<rparr>))"
  using conn_inv_close [of "conn v" "client_msgfd v" "wait_fds v" "max_fd v"]
  by (cases "conn v = max_fd v"; simp add: client_inv_def client_close_def)+

lemma client_timeout_inv: "client_inv v \<Longrightarrow> client_inv (client_timeout v)"
proof -
  assume v: "client_inv v"
  have "client_inv (v\<lparr>idle := idle v + 1\<rparr>)" if "\<not> (idle v + 1 > 200 \<and> conn v > 0)"
    using v that by (auto simp: client_inv_def)
  then show ?thesis using client_close_inv(2) [OF v] by (simp add: client_timeout_def Let_def)
qed

lemma client_request_inv:
  "client_inv v \<Longrightarrow> client_request e t (v, s) = Some (w, u) \<Longrightarrow> client_inv w \<and> client_msgfd w = client_msgfd v \<and> turns w = turns v"
  by (auto simp: client_request_def Let_def client_close_inv split: bind_splits if_splits)
    (auto simp: client_inv_def client_close_def)

lemma client_handler_inv:
  assumes "client_inv v" "client_handler e s msg v = Some w"
  shows "client_inv w"
proof (cases "msg ! 0 \<noteq> MSG_CONFIG_START \<or> msg ! 1 \<noteq> 0")
  case True
  then show ?thesis using assms by (simp add: client_handler_def)
next
  case False
  then obtain u where "read_hosts e s v = Some u"
    "w = u\<lparr>conn := -1, wait_fds := (if client_msgfd u > 0 then {client_msgfd u} else {}), max_fd := (if client_msgfd u > 0 then client_msgfd u else max_fd u)\<rparr>"
    using assms(2) by (auto simp: client_handler_def split: bind_splits)
  then show ?thesis using assms(1) read_hosts_inv [of e s v u] by (simp add: client_inv_def conn_inv_simps)
qed

lemma client_round_inv:
  assumes "client_inv v" "attempts_ok t (client_msgfd v)" "client_round e t (v, s) = Some (Inr (w, u))"
  shows "client_inv w"
proof -
  let ?s = "update_thread_time e (int THREAD_TCP_CLIENT) s"
  from assms(3) obtain a r where a: "client_connect (attempts_at t) v = Some a" and r: "ready_fds t = Some r"
    by (auto simp: client_round_def Let_def split: bind_splits option.splits)
  have ai: "client_inv a" "client_msgfd a = client_msgfd v" using client_connect_inv [OF assms(1,2) a] by auto
  have up: "client_inv (x\<lparr>turns := k\<rparr>) = client_inv x" for x k by (simp add: client_inv_def)
  show ?thesis
  proof (cases "r = {}")
    case True
    then show ?thesis using assms(3) a r client_timeout_inv [OF ai(1)] by (auto simp: client_round_def up Let_def)
  next
    case False
    let ?X = "if conn a > 0 \<and> conn a \<in> r then client_request e t (a, ?s) else Some (a, ?s)"
    let ?C = "\<lambda>b y. if client_msgfd b > 0 \<and> client_msgfd b \<in> r then client_handler e y (client_message t) b else Some b"
    have x: "?X \<bind> (\<lambda>(b, y). ?C b y \<bind> (\<lambda>c. Some (Inr (c\<lparr>turns := turns c + 1\<rparr>, y)))) = (Some (Inr (w, u)) :: ((tcp_client \<times> rtu) + (tcp_client \<times> rtu)) option)"
      using assms(3) False by (simp only: client_round_def Let_def prod.case a r Option.bind.simps option.case if_False)
    then obtain z where z: "?X = Some z" by (rule bind_SomeE)
    obtain b y where "z = (b, y)" by (cases z)
    with z have b: "?X = Some (b, y)" by (simp only:)
    have "?C b y \<bind> (\<lambda>c. Some (Inr (c\<lparr>turns := turns c + 1\<rparr>, y))) = (Some (Inr (w, u)) :: ((tcp_client \<times> rtu) + (tcp_client \<times> rtu)) option)"
      using x unfolding b by simp
    then obtain c where c: "?C b y = Some c" and w: "w = c\<lparr>turns := turns c + 1\<rparr>"
      by (rule bind_SomeE) simp
    have "client_inv b" using b ai client_request_inv [of a e t ?s b y] by (auto split: if_splits)
    then have "client_inv c" using c client_handler_inv [of b e y "client_message t" c] by (auto split: if_splits)
    then show ?thesis by (simp add: w up)
  qed
qed

inductive client_reach :: "tcp_client \<Rightarrow> bool" where
  start: "client_start e q j old4 old6 s = Some v \<Longrightarrow> 0 < q \<Longrightarrow> length old4 = 5 \<Longrightarrow> length old6 = 9 \<Longrightarrow> client_reach v"
| round: "client_reach v \<Longrightarrow> attempts_ok t (client_msgfd v) \<Longrightarrow> client_round e t (v, s) = Some (Inr (w, u)) \<Longrightarrow> client_reach w"

lemma client_reach_inv: "client_reach v \<Longrightarrow> client_inv v"
proof (induction rule: client_reach.induct)
  case (start e q j old4 old6 s v)
  then show ?case by (auto simp: client_start_def client_inv_def conn_inv_simps dest!: read_hosts_inv)
next
  case (round v t e s w u)
  then show ?case using client_round_inv by blast
qed

text \<open>
  What the TCP client waits for, over every history of connections, requests, time-outs and new
  configurations: its message queue, and the connection exactly when it has one; the bound given to
  \<^verbatim>\<open>select\<close> covers both, and a connection that is kept has been silent for at most 200 turns.
\<close>

theorem client_waits:
  assumes "client_reach v"
  shows "wait_fds v = (if 0 < conn v then {conn v, client_msgfd v} else {client_msgfd v}) \<and>
    0 < client_msgfd v \<and> (\<forall>fd. fd \<in> wait_fds v \<longrightarrow> fd \<le> max_fd v) \<and> (0 < conn v \<longrightarrow> idle v \<le> 200)"
  using client_reach_inv [OF assms] conn_inv_bound [of "conn v" "client_msgfd v" "wait_fds v" "max_fd v"]
  by (simp add: client_inv_def)


section \<open>Giving up and connecting again\<close>

fun client_rounds :: "env \<Rightarrow> client_turn list \<Rightarrow> tcp_client \<times> rtu \<Rightarrow> ((tcp_client \<times> rtu) + (tcp_client \<times> rtu)) option" where
  "client_rounds e [] x = Some (Inr x)"
| "client_rounds e (t # ts) x =
     (case client_round e t x of Some (Inr y) \<Rightarrow> client_rounds e ts y | r \<Rightarrow> r)"

lemma client_rounds_append:
  "client_rounds e ts x = Some (Inr y) \<Longrightarrow> client_rounds e (ts @ us) x = client_rounds e us y"
  by (induction ts arbitrary: x) (auto split: option.splits sum.splits)

lemma silent_round:
  "ready_fds t = Some {} \<Longrightarrow> client_connect (attempts_at t) v = Some w \<Longrightarrow>
    client_round e t (v, s) = Some (Inr (client_timeout w\<lparr>turns := turns w + 1\<rparr>, update_thread_time e (int THREAD_TCP_CLIENT) s))"
  by (simp add: client_round_def client_timeout_def client_close_def Let_def)

lemma silent_rounds:
  assumes "ready_fds t = Some {}" "0 < conn v" "idle v = 0" "n \<le> 200"
  shows "\<exists>u. client_rounds e (replicate n t) (v, s) = Some (Inr (v\<lparr>idle := int n, turns := turns v + of_nat n\<rparr>, u))"
  using assms(4)
proof (induction n)
  case 0
  have "v\<lparr>idle := 0, turns := turns v\<rparr> = v" using assms(3) by simp
  then show ?case by simp
next
  case (Suc n)
  let ?w = "v\<lparr>idle := int n, turns := turns v + of_nat n\<rparr>"
  obtain u where u: "client_rounds e (replicate n t) (v, s) = Some (Inr (?w, u))" using Suc by auto
  have "client_connect (attempts_at t) ?w = Some ?w" using assms(2) by (simp add: client_connect_def)
  from silent_round [OF assms(1) this, of e u] show ?case
    using client_rounds_append [OF u, of "[t]"] Suc.prems by (simp add: replicate_append_same client_timeout_def add_ac)
qed

lemma client_tries:
  assumes "\<not> 0 < conn v" "0 \<le> sint (turns v)"
  shows "at_host (hosts v ! nat (sint (turns v) mod 2)) = Unreachable \<Longrightarrow> client_connect at_host v = Some v"
    "at_host (hosts v ! nat (sint (turns v) mod 2)) = Connected k \<Longrightarrow> k < FD_SETSIZE \<Longrightarrow> client_connect at_host v =
      Some (v\<lparr>conn := int k, wait_fds := insert (int k) (wait_fds v),
               max_fd := (if client_msgfd v < int k then int k else client_msgfd v), idle := 0\<rparr>)"
  using assms by (simp_all add: client_connect_def)

lemma other_host: "h < 2 \<Longrightarrow> nat (x mod 2) = 1 - h \<Longrightarrow> nat ((x + 1) mod 2) = h"
proof -
  assume h: "h < 2" "nat (x mod 2) = 1 - h"
  then consider "h = 0" "x mod 2 = 1" | "h = 1" "x mod 2 = 0" by (cases "h = 0") auto
  then show ?thesis
  proof cases
    case 1
    then have "(x + 1) mod 2 = 0" by presburger
    then show ?thesis using 1 by simp
  next
    case 2
    then have "(x + 1) mod 2 = 1" by presburger
    then show ?thesis using 2 by simp
  qed
qed

text \<open>Two turns without a connection reach both hosts.\<close>

lemma two_tries:
  assumes t: "ready_fds t = Some {}" and v: "\<not> 0 < conn v" "0 \<le> sint (turns v)" "sint (turns v) < 2 ^ 31 - 65536"
    and h: "h < 2" "attempts_at t (hosts v ! h) = Connected k" "attempts_at t (hosts v ! (1 - h)) = Unreachable"
      "0 < k" "k < FD_SETSIZE"
  shows "\<exists>w u. client_rounds e [t, t] (v, s) = Some (Inr (w, u)) \<and> conn w = int k \<and> int k \<in> wait_fds w"
proof -
  let ?k = "\<lambda>n. nat (sint (turns v + of_nat n) mod 2)"
  have st: "sint (turns v + of_nat n) = sint (turns v) + int n" if "n < 2" for n
    using sint_counter [OF v(2,3), of n] that by simp
  have found: "\<exists>w u. client_rounds e [t] (x, y) = Some (Inr (w, u)) \<and> conn w = int k \<and> int k \<in> wait_fds w \<and> 0 < conn w \<and> idle w = 1"
    if "\<not> 0 < conn x" "0 \<le> sint (turns x)" "hosts x = hosts v" "nat (sint (turns x) mod 2) = h" for x y
  proof -
    have "attempts_at t (hosts x ! nat (sint (turns x) mod 2)) = Connected k" using h(2) that(3,4) by simp
    from silent_round [OF t client_tries(2) [where at_host = "attempts_at t", OF that(1,2) this h(5)], of e y]
    show ?thesis using h(4) by (simp add: client_timeout_def Let_def)
  qed
  show ?thesis
  proof (cases "?k 0 = h")
    case True
    then have "nat (sint (turns v) mod 2) = h" by simp
    from found [OF v(1,2) refl this, of s] obtain w u where
      w: "client_rounds e [t] (v, s) = Some (Inr (w, u))" "conn w = int k" "int k \<in> wait_fds w" "0 < conn w" "idle w = 1"
      by blast
    have "client_connect (attempts_at t) w = Some w" using w(4) by (simp add: client_connect_def)
    from silent_round [OF t this, of e u] show ?thesis
      using client_rounds_append [OF w(1), of "[t]"] w(2,3,5) by (simp add: client_timeout_def Let_def)
  next
    case False
    have o: "?k 0 < 2" by (simp add: nat_less_iff)
    then have n: "?k 0 = 1 - h" using False h(1) by linarith
    then have "attempts_at t (hosts v ! nat (sint (turns v) mod 2)) = Unreachable" using h(3) by simp
    from silent_round [OF t client_tries(1) [where at_host = "attempts_at t", OF v(1,2) this], of e s]
    have r: "client_rounds e [t] (v, s) = Some (Inr (client_timeout v\<lparr>turns := turns v + 1\<rparr>, update_thread_time e (int THREAD_TCP_CLIENT) s))"
      using v(1) by (simp add: client_timeout_def Let_def)
    have "sint (turns v + 1) = sint (turns v) + 1" using st [of 1] by simp
    then have "nat (sint (turns v + 1) mod 2) = h" using n other_host [OF h(1), of "sint (turns v)"] by simp
    then show ?thesis
      using found [of "client_timeout v\<lparr>turns := turns v + 1\<rparr>" "update_thread_time e (int THREAD_TCP_CLIENT) s"]
        client_rounds_append [OF r, of "[t]"] v \<open>sint (turns v + 1) = sint (turns v) + 1\<close>
      by (auto simp: client_timeout_def Let_def)
  qed
qed


text \<open>
  C26. A connection that has gone silent is kept for 200 time-outs and given up at the next; and if one
  of the two hosts accepts connections and the other does not, the client has a connection to the one
  that does two turns later, whichever it is.
\<close>

theorem client_reconnects:
  assumes "0 < conn v" "idle v = 0" "0 \<le> sint (turns v)" "sint (turns v) < 2 ^ 31 - 131072"
    and "ready_fds t = Some {}" "h < 2" "attempts_at t (hosts v ! h) = Connected k"
    and "attempts_at t (hosts v ! (1 - h)) = Unreachable" "0 < k" "k < FD_SETSIZE"
  shows "(n \<le> 200 \<longrightarrow> (\<exists>w u. client_rounds e (replicate n t) (v, s) = Some (Inr (w, u)) \<and> conn w = conn v)) \<and>
    (\<exists>w u. client_rounds e (replicate 201 t) (v, s) = Some (Inr (w, u)) \<and> conn w = -1) \<and>
    (\<exists>w u. client_rounds e (replicate 203 t) (v, s) = Some (Inr (w, u)) \<and> conn w = int k \<and> int k \<in> wait_fds w)"
proof -
  let ?v = "v\<lparr>idle := 200, turns := turns v + 200\<rparr>"
  obtain u where u: "client_rounds e (replicate 200 t) (v, s) = Some (Inr (?v, u))"
    using silent_rounds [OF assms(5,1,2), of 200 e s] by auto
  have "client_connect (attempts_at t) ?v = Some ?v" using assms(1) by (simp add: client_connect_def)
  from silent_round [OF assms(5) this, of e u] obtain w u' where
    w: "client_rounds e [t] (?v, u) = Some (Inr (w, u'))" "conn w = -1" "turns w = turns v + 201" "hosts w = hosts v"
    using assms(1) by (simp add: client_timeout_def client_close_def Let_def)
  have w201: "client_rounds e (replicate 201 t) (v, s) = Some (Inr (w, u'))"
    using client_rounds_append [OF u, of "[t]"] w(1) by (simp add: replicate_append_same [symmetric] eval_nat_numeral)
  have "sint (turns w) = sint (turns v) + 201" using sint_counter [of "turns v" 201] assms(3,4) w(3) by simp
  then obtain x y where "client_rounds e [t, t] (w, u') = Some (Inr (x, y))" "conn x = int k" "int k \<in> wait_fds x"
    using two_tries [OF assms(5), of w h k e u'] assms(3,4,6-) w(2,4) by auto
  then have "client_rounds e (replicate 201 t @ [t, t]) (v, s) = Some (Inr (x, y))"
    using client_rounds_append [OF w201] by simp
  moreover have "replicate 201 t @ [t, t] = replicate 203 t"
    using replicate_add [of 201 2 t] by (simp add: numeral_2_eq_2)
  ultimately show ?thesis
    using silent_rounds [OF assms(5,1,2), of n e s] w201 w(2) \<open>conn x = int k\<close> \<open>int k \<in> wait_fds x\<close> by auto
qed

section \<open>A sample client\<close>

definition client_demo :: tcp_client where
  "client_demo = \<lparr>conn = 7, client_msgfd = 5, wait_fds = {7, 5}, max_fd = 7, hosts = [(''a'', ''1''), (''b'', ''2'')],
     server_info = replicate 5 0, server6_info = replicate 9 0, turns = 0, idle = 0\<rparr>"

definition client_turn_demo :: client_turn where
  "client_turn_demo = \<lparr>attempts_at = \<lambda>h. if h = (''b'', ''2'') then Connected 9 else Unreachable, ready_fds = Some {},
     request_chunks = [], request_sends = [], request_old = [], client_message = [0, 0]\<rparr>"

theorem client_reconnects_witness:
  "\<exists>w u. client_rounds env_demo (replicate 203 client_turn_demo) (client_demo, rtu_meters) = Some (Inr (w, u)) \<and> conn w = 9"
proof -
  have "0 < conn client_demo" "idle client_demo = 0" "0 \<le> sint (turns client_demo)" "sint (turns client_demo) < 2 ^ 31 - 131072"
    "ready_fds client_turn_demo = Some {}" "(1 :: nat) < 2" "attempts_at client_turn_demo (hosts client_demo ! 1) = Connected 9"
    "attempts_at client_turn_demo (hosts client_demo ! (1 - 1)) = Unreachable" "0 < (9 :: nat)" "9 < FD_SETSIZE"
    by (simp_all add: client_demo_def client_turn_demo_def FD_SETSIZE_def)
  from client_reconnects [OF this, of 0 env_demo rtu_meters] show ?thesis by auto
qed

theorem client_waits_witness:
  "\<exists>v. client_start env_demo 5 0 (replicate 5 0) (replicate 9 0) rtu_meters = Some v \<and> wait_fds v = {5}"
proof -
  have "reg_inv env_demo 1 rtu_meters" by (rule rtu_meters_inv) simp_all
  then obtain v where v: "client_start env_demo 5 0 (replicate 5 0) (replicate 9 0) rtu_meters = Some v" "conn v = -1" "client_msgfd v = 5"
    using read_block_plain [of env_demo rtu_meters 59 5 "replicate 5 0" env_demo] read_block_plain [of env_demo rtu_meters 85 9 "replicate 9 0" env_demo]
    by (simp add: client_start_def read_hosts_def MAP_ADDR_REMOTE_IPV4_ADDR_def MAP_ADDR_REMOTE_IPV6_ADDR_def rtu_meters_plain rtu_meters_wf
        del: upt_rec_numeral One_nat_def)
  have "client_reach v" using v(1) by (rule client_reach.start) simp_all
  from client_waits [OF this] v show ?thesis by simp
qed

end
