(* ===== verification/History.thy ===== *)
theory History
  imports Network Threads Actuator
begin

text \<open>
  The history of \<^verbatim>\<open>data/data.c\<close> and \<^verbatim>\<open>data/sqlite_utils.c\<close>: every ten minutes the
  registers of all wells are compressed and stored in a database, and a host asks for a stored record
  through registers. SQLite and zlib are parameters: what a statement gives, and the two functions of
  compression.
\<close>

section \<open>Parameters\<close>

text \<open>
  What \<^verbatim>\<open>sqlite3_step\<close> reports for a statement: whether the code counts as success
  (\<^verbatim>\<open>SQLITE_ROW\<close> or \<^verbatim>\<open>SQLITE_DONE\<close>), and the first two columns of the row.
\<close>

record row =
  step_ok :: bool
  col_text :: "string option"
  col_blob :: "u8 list option"

text \<open>
  A statement, with the blob bound to it, on a database of type \<open>'d\<close>; \<open>zip\<close> within the bound that
  \<open>zip_bound\<close> gives for the length, \<open>unzip\<close> into so many bytes; \<^const>\<open>None\<close> is an error.
\<close>

record 'd storage =
  db_step :: "string \<Rightarrow> u8 list option \<Rightarrow> 'd \<Rightarrow> row \<times> 'd"
  zip_bound :: "nat \<Rightarrow> nat"
  zip_bytes :: "u8 list \<Rightarrow> u8 list option"
  unzip_bytes :: "nat \<Rightarrow> u8 list \<Rightarrow> u8 list option"

section \<open>The database\<close>

text \<open>
  \<open>data\<close> and \<open>tm\<close> are the buffers that are filled, \<^const>\<open>None\<close> for null pointers. The text is
  copied before the blob is looked at.
\<close>

fun fill :: "'a list \<Rightarrow> 'a list \<Rightarrow> 'a list option" where
  "fill xs buf = (if length xs \<le> length buf then Some (xs @ drop (length xs) buf) else None)"

definition sqlite_data_read_bin_data ::
  "'d storage \<Rightarrow> string \<Rightarrow> u8 list option \<Rightarrow> bool \<Rightarrow> string \<Rightarrow> 'd \<Rightarrow> (int \<times> u8 list option \<times> string \<times> 'd) option" where
  "sqlite_data_read_bin_data o_db sql data want_tm tm db =
     (let (r, db) = db_step o_db sql None db in
      if \<not> step_ok r then Some (-1, data, tm, db)
      else if want_tm \<and> col_text r = None then Some (-1, data, tm, db)
      else do {
        tm \<leftarrow> (if want_tm then (if length (the (col_text r)) \<ge> 64 then None else col_text r) else Some tm);
        case data of
          None \<Rightarrow> Some (0, None, tm, db)
        | Some buf \<Rightarrow>
            (case col_blob r of
               None \<Rightarrow> Some (-1, data, tm, db)
             | Some blob \<Rightarrow> do { buf \<leftarrow> fill blob buf; Some (0, Some buf, tm, db) }) })"

definition insert_sql :: string where
  "insert_sql = ''insert into data (time, data) values (datetime('' @ [CHR 0x27] @ ''now'' @ [CHR 0x27] @ '', '' @ [CHR 0x27] @
     ''localtime'' @ [CHR 0x27] @ ''),?);''"

text \<open>The result is 0, whatever the statement gives.\<close>

definition sqlite_data_store_bin_data :: "'d storage \<Rightarrow> u8 list \<Rightarrow> 'd \<Rightarrow> int \<times> 'd" where
  "sqlite_data_store_bin_data o_db data db = (0, snd (db_step o_db insert_sql (Some data) db))"

section \<open>Times\<close>

text \<open>\<^verbatim>\<open>sscanf\<close> of halfwords with separators; what is not reached stays.\<close>

fun scan_fields :: "char list \<Rightarrow> string \<Rightarrow> u16 list \<Rightarrow> u16 list" where
  "scan_fields cs text [] = []"
| "scan_fields cs text (v # vs) =
     (case scan_hd text of
        None \<Rightarrow> v # vs
      | Some (x, r) \<Rightarrow>
          x # (case cs of
                 [] \<Rightarrow> vs
               | c # cs \<Rightarrow>
                   if is_space c then scan_fields cs (dropWhile is_space r) vs
                   else (case scan_char c r of None \<Rightarrow> vs | Some r \<Rightarrow> scan_fields cs r vs)))"

definition scan_time :: "string \<Rightarrow> u16 list \<Rightarrow> u16 list" where
  "scan_time text vs = scan_fields ''-- ::'' text vs"

text \<open>\<^verbatim>\<open>%04hd\<close> and \<^verbatim>\<open>%02hd\<close>: zeros in front, after the sign.\<close>

definition padded :: "nat \<Rightarrow> u16 \<Rightarrow> string" where
  "padded n v =
     (let t = hd_text v; k = n - length t in
      if sint v < 0 then CHR ''-'' # replicate k CHR ''0'' @ List.tl t else replicate k CHR ''0'' @ t)"

definition history_sql :: "u16 list \<Rightarrow> string" where
  "history_sql r =
     ''select time, data from data where time>'' @ [CHR 0x27] @ padded 4 (bcd_to_int16 (r ! 0)) @ ''-'' @
     padded 2 (bcd_to_int16 (r ! 1)) @ ''-'' @ padded 2 (bcd_to_int16 (r ! 2)) @ '' '' @ padded 2 (bcd_to_int16 (r ! 3)) @ '':'' @
     padded 2 (bcd_to_int16 (r ! 4)) @ '':00'' @ [CHR 0x27] @ '' order by id ASC limit '' @ hd_text (r ! 5) @ '', 1;''"

definition sql_first :: string where
  "sql_first = ''select time from data order by id ASC limit 0, 1;''"

definition sql_h_data_len :: string where
  "sql_h_data_len = ''select count(*) from data;''"

definition del_sql :: string where
  "del_sql = ''delete from data where id in (select id from data order by id limit 0,2000);''"

definition no_time :: string where
  "no_time = ''2015-1-1 0:0:0''"

section \<open>State\<close>

text \<open>
  \<open>h_data_len\<close> is the number of records as the thread counts it, \<open>first_time\<close> the time of the oldest
  one, \<open>h_time0\<close> and \<open>time_count\<close> when and how many rounds ago the last one was stored.
\<close>

record history =
  first_time :: "u16 list"
  time_s_first :: string
  h_data_len :: int
  h_time0 :: u32
  time_count :: nat
  h_buf :: "u16 list"

definition HISTORY_DATA_TIMEOUT :: nat where "HISTORY_DATA_TIMEOUT = 600"
definition MAX_H_DATA_ITEM_LEN :: int where "MAX_H_DATA_ITEM_LEN = 8000"
definition MAX_H_DATA_DEL_ITEM_LEN :: int where "MAX_H_DATA_DEL_ITEM_LEN = 2000"

definition reg_bytes :: "u16 list \<Rightarrow> u8 list" where
  "reg_bytes vs = concat (map u16_bytes vs)"

fun reg_words :: "u8 list \<Rightarrow> u16 list" where
  "reg_words (a # b # bs) = bytes_u16 a b # reg_words bs"
| "reg_words bs = []"

section \<open>Requests\<close>

text \<open>
  What is on the stack and the heap: the array for the time asked for, which has six entries, of which
  twelve are read; the array for the time found; the memory for the compressed data.
\<close>

record history_junk =
  r_date_time :: "u16 list"
  time_u16 :: "u16 list"
  heap_bytes :: "u8 list"
  time_text :: string

definition msg_int :: "u16 list \<Rightarrow> int" where
  "msg_int msg = sint (u16s_u32 (take 2 msg))"

definition show_record :: "env \<Rightarrow> int \<Rightarrow> u16 list \<Rightarrow> u16 list \<Rightarrow> rtu \<Rightarrow> rtu option" where
  "show_record e well time buf s = do {
     (_, s) \<leftarrow> map_modbus_write_registers e time 5 well 7014 False s;
     (_, s) \<leftarrow> map_modbus_write_data_registers (drop (nat (int (x_max (mp s)) * (well - 1))) buf) (int (x_max (mp s))) well 7019 False s;
     Some s }"

definition history_request ::
  "'d storage \<Rightarrow> env \<Rightarrow> history_junk \<Rightarrow> int \<Rightarrow> history \<times> 'd \<times> rtu \<Rightarrow> (history \<times> 'd \<times> rtu) option" where
  "history_request o_db e j well = (\<lambda>(h, db, s).
     if \<not> malloc_ok e then Some (h, db, s)
     else do {
         (_, s) \<leftarrow> map_modbus_write_registers e (first_time h) 5 well 7006 False s;
         (_, r) \<leftarrow> map_modbus_read_registers e s (r_date_time j) 12 well 6999 False;
         (rc, data, tm, db) \<leftarrow> sqlite_data_read_bin_data o_db (history_sql r) (Some (heap_bytes j)) True (time_text j) db;
         if rc = -1 then Some (h, db, s)
         else do {
           let time = map int16_to_bcd (scan_time tm (time_u16 j));
           let n = length (reg_bytes (h_buf h));
           case unzip_bytes o_db (zip_bound o_db n) (take n (the data)) of
             None \<Rightarrow> Some (h, db, s)
           | Some bs \<Rightarrow> do {
               bytes \<leftarrow> fill bs (reg_bytes (h_buf h));
               let h = h\<lparr>h_buf := reg_words bytes\<rparr>;
               s \<leftarrow> show_record e well time (h_buf h) s;
               Some (h, db, s) } } })"

definition history_message ::
  "'d storage \<Rightarrow> env \<Rightarrow> history_junk \<Rightarrow> u16 list \<Rightarrow> history \<times> 'd \<times> rtu \<Rightarrow> (history \<times> 'd \<times> rtu) option" where
  "history_message o_db e j msg x =
     (if msg_int msg = int (unat MSG_REQUEST_H_DATA) then history_request o_db e j (msg_int (drop 2 msg)) x else Some x)"

section \<open>Storing\<close>

definition read_first :: "'d storage \<Rightarrow> history \<times> 'd \<Rightarrow> (history \<times> 'd) option" where
  "read_first o_db = (\<lambda>(h, db). do {
     (rc, _, tm, db) \<leftarrow> sqlite_data_read_bin_data o_db sql_first None True (time_s_first h) db;
     let tm = (if rc = -1 then no_time else tm);
     let t = scan_time tm (first_time h);
     Some (h\<lparr>time_s_first := tm, first_time := map int16_to_bcd (take 5 t) @ drop 5 t\<rparr>, db) })"

text \<open>With too many records the oldest 2000 are deleted; then all six fields of the time are packed.\<close>

definition trim :: "'d storage \<Rightarrow> history \<times> 'd \<Rightarrow> (history \<times> 'd) option" where
  "trim o_db = (\<lambda>(h, db).
     if h_data_len h \<le> MAX_H_DATA_ITEM_LEN then Some (h, db)
     else do {
       (rc, _, _, db) \<leftarrow> sqlite_data_read_bin_data o_db del_sql None False [] db;
       if rc = -1 then Some (h, db)
       else do {
         (h, db) \<leftarrow> read_first o_db (h\<lparr>h_data_len := h_data_len h - MAX_H_DATA_DEL_ITEM_LEN\<rparr>, db);
         Some (h\<lparr>first_time := take 5 (first_time h) @ map int16_to_bcd (drop 5 (first_time h))\<rparr>, db) } })"

definition store_sample ::
  "'d storage \<Rightarrow> env \<Rightarrow> history \<times> 'd \<times> rtu \<Rightarrow> (history \<times> 'd \<times> rtu) option" where
  "store_sample o_db e = (\<lambda>(h, db, s).
     let h = h\<lparr>time_count := 0, h_time0 := time_now e, h_buf := map (ram_x (mp s)) [0..<length (h_buf h)]\<rparr> in
     if \<not> malloc_ok e then Some (h, db, s)
     else case zip_bytes o_db (reg_bytes (h_buf h)) of
       None \<Rightarrow> Some (h, db, s)
     | Some bs \<Rightarrow>
         let (rc, db) = sqlite_data_store_bin_data o_db bs db;
             s = (if rc = -1 then s else update_thread_com_time e (int THREAD_DATA_SERVER) s);
             h = h\<lparr>h_data_len := h_data_len h + 1\<rparr>
         in do { (h, db) \<leftarrow> trim o_db (h, db); Some (h, db, s) })"

text \<open>Times are signed seconds of 32 bits.\<close>

definition sample_due :: "u32 \<Rightarrow> history \<Rightarrow> bool" where
  "sample_due now h \<longleftrightarrow>
     \<not> (sint (now - of_nat HISTORY_DATA_TIMEOUT) < sint (h_time0 h) \<and> time_count h < HISTORY_DATA_TIMEOUT)"

record history_turn =
  h_message :: "u16 list option"
  h_junk :: history_junk

definition history_round ::
  "'d storage \<Rightarrow> env \<Rightarrow> history_turn \<Rightarrow> history \<times> 'd \<times> rtu \<Rightarrow> (history \<times> 'd \<times> rtu) option" where
  "history_round o_db e t = (\<lambda>(h, db, s). do {
     let s = update_thread_time e (int THREAD_DATA_SERVER) s;
     (h, db, s) \<leftarrow> (case h_message t of None \<Rightarrow> Some (h, db, s) | Some msg \<Rightarrow> history_message o_db e (h_junk t) msg (h, db, s));
     if sample_due (time_now e) h then store_sample o_db e (h, db, s)
     else Some (h\<lparr>time_count := time_count h + 1\<rparr>, db, s) })"

text \<open>The start; \<^const>\<open>Inl\<close> ends the thread, as the number of records cannot be read.\<close>

definition history_start :: "'d storage \<Rightarrow> env \<Rightarrow> history \<Rightarrow> 'd \<Rightarrow> rtu \<Rightarrow> (int + history \<times> 'd) option" where
  "history_start o_db e junk db s = do {
     (h, db) \<leftarrow> read_first o_db (junk\<lparr>time_count := 0, h_time0 := time_now e, h_buf := map (\<lambda>k. h_buf junk ! k) [0..<x_max (mp s) * MAX_WELL_NUM]\<rparr>, db);
     (rc, _, tm, db) \<leftarrow> sqlite_data_read_bin_data o_db sql_h_data_len None True [] db;
     if rc = -1 then Some (Inl (-1)) else Some (Inr (h\<lparr>h_data_len := atoi tm\<rparr>, db)) }"

end
