(* ===== verification/History_Facts.thy ===== *)
theory History_Facts
  imports History Register_Store Sensor_Facts
begin

text \<open>
  The history: what a sample stores and when, how many records there are, and the answer to a request,
  whose array for the time asked for is too short.
\<close>

section \<open>The array that is too short\<close>

lemma read_past_end: "length buf < n \<Longrightarrow> modbus_read_loop e s b w i rc n buf = None"
proof (induction n arbitrary: i rc buf)
  case (Suc n)
  show ?case
  proof (cases buf)
    case (Cons x xs)
    then have "modbus_read_loop e s b w (Suc i) rc' n xs = None" for rc' using Suc by simp
    then show ?thesis by (simp add: Cons bind_eq_None_conv)
  qed simp
qed simp

text \<open>
  A request for a record of any well writes past an array: twelve registers, the size of the array
  in bytes, are read into its six entries.
\<close>

theorem history_request_overflows:
  assumes "malloc_ok e" "1 \<le> well" "well \<le> 8" "length (r_date_time j) = 6"
  shows "history_request o_db e j well (h, db, s) = None"
proof -
  have "args_ok MAX_REGISTER_NUM 12 well 6999" using assms(2,3) by (simp add: args_ok_def map_sizes)
  then have "map_modbus_read_registers e t (r_date_time j) 12 well 6999 False = None" for t
    using assms(4) by (simp add: map_modbus_read_registers_def read_past_end)
  then show ?thesis using assms(1) by (simp add: history_request_def split_beta bind_eq_None_conv)
qed

theorem history_request_overflows_witness:
  "history_request \<lparr>db_step = \<lambda>_ _ db. (\<lparr>step_ok = True, col_text = None, col_blob = None\<rparr>, db), zip_bound = \<lambda>n. n, zip_bytes = Some, unzip_bytes = \<lambda>_. Some\<rparr>
     env_demo \<lparr>r_date_time = replicate 6 0, time_u16 = replicate 6 0, heap_bytes = [], time_text = []\<rparr> 3
     (\<lparr>first_time = replicate 6 0, time_s_first = [], h_data_len = 0, h_time0 = 0, time_count = 0, h_buf = []\<rparr>, (), rtu_demo) = None"
  by (rule history_request_overflows) (simp_all add: env_demo_def)

section \<open>The registers of the answer\<close>

text \<open>Entries of the Modbus side that no register stands behind.\<close>

definition free :: "map_t \<Rightarrow> nat \<Rightarrow> nat \<Rightarrow> nat \<Rightarrow> bool" where
  "free m w a n \<longleftrightarrow> 1 \<le> w \<and> w \<le> 8 \<and> a + n \<le> MAX_REGISTER_NUM \<and> (\<forall>i. a \<le> i \<and> i < a + n \<longrightarrow> y_kind m w i = MAP_NULL)"

definition y_put :: "nat \<Rightarrow> nat \<Rightarrow> u16 list \<Rightarrow> rtu \<Rightarrow> rtu" where
  "y_put w a vs s = s\<lparr>mp := (mp s)\<lparr>ram_y := put (ram_y (mp s)) (MAX_REGISTER_NUM * (w - 1) + a) vs\<rparr>\<rparr>"

lemma free_Suc: "free m w a (Suc n) \<longleftrightarrow> free m w a 1 \<and> free m w (Suc a) n \<and> Suc a + n \<le> MAX_REGISTER_NUM"
  unfolding free_def by (auto simp: le_Suc_eq less_Suc_eq)

lemma free_bound: "free m w a n \<Longrightarrow> i < n \<Longrightarrow> MAX_REGISTER_NUM * (w - 1) + (a + i) < y_size"
  using cell_bound' [of w "a + i" MAX_REGISTER_NUM] by (simp add: free_def)

lemma free_y_put [simp]: "free (mp (y_put w' b vs s)) w a n = free (mp s) w a n"
  by (simp add: free_def y_put_def)

lemma write_free:
  "free (mp s) w a n \<Longrightarrow> n \<le> length buf \<Longrightarrow> modbus_write_loop e False w a n buf s = Some (0, y_put w a (take n buf) s)"
proof (induction n arbitrary: a buf s)
  case 0
  then show ?case by (simp add: y_put_def)
next
  case (Suc n)
  then obtain b bs where buf: "buf = b # bs" by (cases buf) auto
  have f: "free (mp s) w a 1" "free (mp s) w (Suc a) n" using Suc.prems(1) free_Suc [of "mp s" w a n] by simp_all
  have k: "y_kind (mp s) w a = MAP_NULL" "MAX_REGISTER_NUM * (w - 1) + a < y_size"
    using f(1) free_bound [OF f(1), of 0] by (simp_all add: free_def)
  then have c: "modbus_write_cell e w a b s = Some (True, y_put w a [b] s)"
    by (simp add: modbus_write_cell_def y_put_def Let_def)
  have "modbus_write_loop e False w (Suc a) n bs (y_put w a [b] s) = Some (0, y_put w (Suc a) (take n bs) (y_put w a [b] s))"
    using Suc.IH [of "y_put w a [b] s" "Suc a" bs] Suc.prems(2) f(2) buf by simp
  then show ?case using c by (simp add: buf from_big_l_def y_put_def)
qed

lemma write_free_registers:
  assumes "free (mp s) w a n" "0 < n" "n \<le> length buf"
  shows "map_modbus_write_registers e buf (int n) (int w) (int a) False s = Some (0, y_put w a (take n buf) s)"
  using assms write_free [OF assms(1,3)] by (simp add: map_modbus_write_registers_def args_ok_def free_def map_sizes)

lemma read_free:
  "free (mp s) w a n \<Longrightarrow> n \<le> length buf \<Longrightarrow>
    modbus_read_loop e s False w a rc n buf = Some (get (ram_y (mp s)) (MAX_REGISTER_NUM * (w - 1) + a) n @ drop n buf)"
proof (induction n arbitrary: a buf rc)
  case (Suc n)
  then obtain b bs where buf: "buf = b # bs" by (cases buf) auto
  have f: "free (mp s) w a 1" "free (mp s) w (Suc a) n" using Suc.prems(1) free_Suc [of "mp s" w a n] by simp_all
  have "y_kind (mp s) w a = MAP_NULL" "MAX_REGISTER_NUM * (w - 1) + a < y_size"
    using f(1) free_bound [OF f(1), of 0] by (simp_all add: free_def)
  then have "modbus_read_cell e s w a rc = Some (ram_y (mp s) (MAX_REGISTER_NUM * (w - 1) + a))"
    by (simp add: modbus_read_cell_def Let_def)
  then show ?case
    using Suc.IH [of "Suc a" bs] Suc.prems(2) f(2) buf by (simp add: get_Suc to_big_l_def)
qed simp

text \<open>The values whose registers are marked for the record.\<close>

fun recorded :: "(nat \<Rightarrow> map_kind) \<Rightarrow> nat \<Rightarrow> u16 list \<Rightarrow> u16 list" where
  "recorded f k [] = []"
| "recorded f k (v # vs) = (if f k = MAP_RECORD then v # recorded f (Suc k) vs else recorded f (Suc k) vs)"

lemma length_recorded: "length (recorded f k vs) \<le> length vs"
  by (induction vs arbitrary: k) (auto intro: le_SucI)

lemma data_loop_packs:
  assumes "1 \<le> w" "w \<le> 8"
  shows "k + n \<le> x_max m \<Longrightarrow> addr + j + n \<le> MAX_REGISTER_NUM \<Longrightarrow> n \<le> length buf \<Longrightarrow>
    data_loop False w addr k j n buf m =
      Some (m\<lparr>ram_y := put (ram_y m) (MAX_REGISTER_NUM * (w - 1) + (j + addr)) (recorded (ram_x_map_record m) (x_max m * (w - 1) + k) (take n buf))\<rparr>)"
proof (induction n arbitrary: k j buf m)
  case (Suc n)
  then obtain b bs where buf: "buf = b # bs" by (cases buf) auto
  have x: "x_max m * (w - 1) + k < x_size m" using cell_bound' [of w k "x_max m"] assms Suc.prems(1) by simp
  have y: "MAX_REGISTER_NUM * (w - 1) + (j + addr) < y_size"
    using cell_bound' [of w "j + addr" MAX_REGISTER_NUM] assms Suc.prems(2) by simp
  let ?m = "m\<lparr>ram_y := (ram_y m)(MAX_REGISTER_NUM * (w - 1) + (j + addr) := b)\<rparr>"
  show ?case
    using Suc.IH [of "Suc k" ?m "Suc j" bs] Suc.IH [of "Suc k" m j bs] Suc.prems x y
    by (auto simp: buf from_big_l_def add.assoc fun_upd_def)
qed simp


section \<open>The answer\<close>

lemma reg_words_bytes [simp]: "reg_words (reg_bytes vs) = vs"
  by (induction vs) (simp_all add: reg_bytes_def u16_bytes_def)

lemma length_reg_bytes [simp]: "length (reg_bytes vs) = 2 * length vs"
  by (induction vs) (simp_all add: reg_bytes_def)

text \<open>
  What the code relies on: compressed data that are not longer than the original fit the bound, and are
  unpacked to the original whatever follows them.
\<close>

definition zlib_ok :: "'d storage \<Rightarrow> bool" where
  "zlib_ok o_db \<longleftrightarrow> (\<forall>x z. zip_bytes o_db x = Some z \<and> length z \<le> length x \<longrightarrow>
     length z \<le> zip_bound o_db (length x) \<and>
     (\<forall>r. unzip_bytes o_db (zip_bound o_db (length x)) (take (length x) (z @ r)) = Some x))"

definition found :: "'d storage \<Rightarrow> string \<Rightarrow> 'd \<Rightarrow> string \<Rightarrow> u8 list \<Rightarrow> 'd \<Rightarrow> bool" where
  "found o_db sql db tm z db' \<longleftrightarrow>
     db_step o_db sql None db = (\<lparr>step_ok = True, col_text = Some tm, col_blob = Some z\<rparr>, db') \<and> length tm < 64"

lemma found_read:
  "found o_db sql db tm z db' \<Longrightarrow> length z \<le> length buf \<Longrightarrow>
    sqlite_data_read_bin_data o_db sql (Some buf) True t db = Some (0, Some (z @ drop (length z) buf), tm, db')"
  by (simp add: sqlite_data_read_bin_data_def found_def)

text \<open>The registers after an answer: the oldest time, the time found, and the recorded values.\<close>

definition answered_with :: "nat \<Rightarrow> u16 list \<Rightarrow> u16 list \<Rightarrow> u16 list \<Rightarrow> rtu \<Rightarrow> rtu" where
  "answered_with w first time vs s = y_put w 7019 vs (y_put w 7014 time (y_put w 7006 first s))"

lemma show_record_free:
  assumes "free (mp s) w 7014 5" "x_max (mp s) + 7019 \<le> MAX_REGISTER_NUM" "0 < x_max (mp s)" "5 \<le> length time"
    and "x_max (mp s) * w \<le> length buf"
  shows "show_record e (int w) time buf s =
    Some (y_put w 7019 (recorded (ram_x_map_record (mp s)) (x_max (mp s) * (w - 1)) (take (x_max (mp s)) (drop (x_max (mp s) * (w - 1)) buf)))
      (y_put w 7014 (take 5 time) s))"
proof -
  have w: "1 \<le> w" "w \<le> 8" using assms(1) by (simp_all add: free_def)
  let ?s = "y_put w 7014 (take 5 time) s"
  let ?X = "x_max (mp s)"
  have m: "x_max (mp ?s) = ?X" "ram_x_map_record (mp ?s) = ram_x_map_record (mp s)" by (simp_all add: y_put_def)
  have "int ?X * (int w - 1) = int (?X * (w - 1))" using w by (simp add: of_nat_diff)
  then have d: "nat (int ?X * (int w - 1)) = ?X * (w - 1)" by (simp only: nat_int)
  have "?X * (w - 1) + ?X = ?X * w" using w by (metis add.commute le_add_diff_inverse mult_Suc_right plus_1_eq_Suc)
  then have l: "?X \<le> length (drop (?X * (w - 1)) buf)" using assms(5) by simp
  have "map_modbus_write_data_registers (drop (?X * (w - 1)) buf) (int ?X) (int w) 7019 False ?s =
      Some (0, y_put w 7019 (recorded (ram_x_map_record (mp s)) (?X * (w - 1)) (take ?X (drop (?X * (w - 1)) buf))) ?s)"
    using data_loop_packs [OF w, of 0 ?X "mp ?s" 7019 0 "drop (?X * (w - 1)) buf"] l assms(2,3) w m
    by (simp add: map_modbus_write_data_registers_def args_ok_def map_sizes y_put_def)
  moreover have "map_modbus_write_registers e time 5 (int w) 7014 False s = Some (0, ?s)"
    using write_free_registers [OF assms(1), of time e] assms(4) by simp
  ultimately show ?thesis by (simp add: show_record_def d m)
qed


text \<open>The request that the registers of a well hold: five fields of a time and a number of records.\<close>

definition asked_time :: "map_t \<Rightarrow> nat \<Rightarrow> u16 list" where
  "asked_time m w = get (ram_y m) (MAX_REGISTER_NUM * (w - 1) + 6999) 6"

lemma history_sql_six: "length r = 6 \<Longrightarrow> history_sql (r @ x) = history_sql r"
  by (simp add: history_sql_def nth_append)

lemma history_request_shown:
  assumes "malloc_ok e" "free (mp s) w 6999 20" "length (first_time h) = 6" "12 \<le> length (r_date_time j)"
    and "found o_db (history_sql (asked_time (mp s) w)) db tm z db'" "length z \<le> length (heap_bytes j)"
    and "unzip_bytes o_db (zip_bound o_db (2 * length (h_buf h))) (take (2 * length (h_buf h)) (z @ drop (length z) (heap_bytes j))) = Some (reg_bytes vs)"
    and "length vs = length (h_buf h)" "length (scan_time tm (time_u16 j)) = 6"
    and "x_max (mp s) + 7019 \<le> MAX_REGISTER_NUM" "0 < x_max (mp s)" "x_max (mp s) * w \<le> length vs"
  shows "history_request o_db e j (int w) (h, db, s) = Some (h\<lparr>h_buf := vs\<rparr>, db',
      y_put w 7019 (recorded (ram_x_map_record (mp s)) (x_max (mp s) * (w - 1)) (take (x_max (mp s)) (drop (x_max (mp s) * (w - 1)) vs)))
        (y_put w 7014 (take 5 (map int16_to_bcd (scan_time tm (time_u16 j)))) (y_put w 7006 (take 5 (first_time h)) s)))"
proof -
  let ?s = "y_put w 7006 (take 5 (first_time h)) s"
  let ?off = "MAX_REGISTER_NUM * (w - 1)"
  let ?X = "x_max (mp s)"
  have part: "free (mp s) w a n" if "6999 \<le> a" "a + n \<le> 7019" for a n using assms(2) that by (auto simp: free_def)
  have first: "map_modbus_write_registers e (first_time h) 5 (int w) 7006 False s = Some (0, ?s)"
    using write_free_registers [OF part, of 7006 5 "first_time h" e] assms(3) by simp
  have "free (mp ?s) w 6999 12" using part by simp
  then have "modbus_read_loop e ?s False w 6999 (-1) 12 (r_date_time j) =
      Some (get (ram_y (mp ?s)) (?off + 6999) 12 @ drop 12 (r_date_time j))"
    using assms(4) by (rule read_free)
  moreover have "get (ram_y (mp ?s)) (?off + 6999) 12 = asked_time (mp s) w @ get (ram_y (mp ?s)) (?off + 7005) 6"
    using get_append [of "ram_y (mp ?s)" "?off + 6999" 6 6] by (simp add: asked_time_def y_put_def get_put_below add.commute)
  ultimately have r: "map_modbus_read_registers e ?s (r_date_time j) 12 (int w) 6999 False =
      Some (0, asked_time (mp s) w @ get (ram_y (mp ?s)) (?off + 7005) 6 @ drop 12 (r_date_time j))"
    using assms(2) by (simp add: map_modbus_read_registers_def args_ok_def map_sizes free_def)
  have sql: "history_sql (asked_time (mp s) w @ x) = history_sql (asked_time (mp s) w)" for x
    by (rule history_sql_six) (simp add: asked_time_def)
  have m: "x_max (mp ?s) = ?X" "ram_x_map_record (mp ?s) = ram_x_map_record (mp s)" by (simp_all add: y_put_def)
  have "free (mp ?s) w 7014 5" using part by simp
  then have shown: "show_record e (int w) (map int16_to_bcd (scan_time tm (time_u16 j))) vs ?s =
      Some (y_put w 7019 (recorded (ram_x_map_record (mp s)) (?X * (w - 1)) (take ?X (drop (?X * (w - 1)) vs)))
        (y_put w 7014 (take 5 (map int16_to_bcd (scan_time tm (time_u16 j)))) ?s))"
    using show_record_free [of ?s w "map int16_to_bcd (scan_time tm (time_u16 j))" vs e] assms(9-12) m by simp
  show ?thesis
    using assms(1,7,8) first r found_read [OF assms(5,6)] shown
    by (simp add: history_request_def sql)
qed


lemma scan_fields_length: "length (scan_fields cs tx vs) = length vs"
  by (induction cs tx vs rule: scan_fields.induct) (auto split: option.split list.split)


text \<open>A database with one record, of a map of two registers, of which the second is recorded.\<close>

definition record_demo :: "u8 list" where
  "record_demo = reg_bytes (map of_nat [0..<16])"

definition storage_demo :: "unit storage" where
  "storage_demo =
     \<lparr>db_step = \<lambda>_ _ db. (\<lparr>step_ok = True, col_text = Some ''2015-03-04 05:06:07'', col_blob = Some record_demo\<rparr>, db),
      zip_bound = \<lambda>n. n, zip_bytes = Some, unzip_bytes = \<lambda>n bs. Some (take n bs)\<rparr>"

definition history_demo :: history where
  "history_demo =
     \<lparr>first_time = [0x2015, 1, 2, 3, 4, 5], time_s_first = [], h_data_len = 1, h_time0 = 0, time_count = 0, h_buf = replicate 16 0\<rparr>"

definition history_junk_demo :: history_junk where
  "history_junk_demo = \<lparr>r_date_time = replicate 12 0, time_u16 = [0, 0, 0, 0, 0, 0], heap_bytes = replicate 32 0, time_text = []\<rparr>"

definition rtu_history :: rtu where
  "rtu_history = rtu_demo\<lparr>mp := map_demo\<lparr>x_max := 2, ram_x_map_record := \<lambda>k. if k = 3 then MAP_RECORD else MAP_NULL\<rparr>\<rparr>"

lemma rtu_history_x: "x_max (mp rtu_history) = 2"
  by (simp add: rtu_history_def)


section \<open>The number of records\<close>

text \<open>The rounds of the thread, each with what it finds outside.\<close>

fun history_run :: "'d storage \<Rightarrow> (env \<times> history_turn) list \<Rightarrow> history \<times> 'd \<times> rtu \<Rightarrow> (history \<times> 'd \<times> rtu) option" where
  "history_run o_db [] x = Some x"
| "history_run o_db ((e, t) # ets) x = do { x \<leftarrow> history_round o_db e t x; history_run o_db ets x }"

text \<open>
  What the code relies on: a statement to insert adds at most one record, a statement to delete removes
  the oldest 2000 or those there are, unless it fails, and a query changes nothing.
\<close>

definition db_ok :: "'d storage \<Rightarrow> ('d \<Rightarrow> nat) \<Rightarrow> bool" where
  "db_ok o_db rows \<longleftrightarrow>
     (\<forall>b db. rows (snd (db_step o_db insert_sql b db)) \<le> rows db + 1) \<and>
     (\<forall>b db. step_ok (fst (db_step o_db del_sql b db)) \<and> rows (snd (db_step o_db del_sql b db)) = rows db - 2000) \<and>
     (\<forall>sql b db. sql \<noteq> insert_sql \<longrightarrow> sql \<noteq> del_sql \<longrightarrow> rows (snd (db_step o_db sql b db)) = rows db)"

definition counted :: "('d \<Rightarrow> nat) \<Rightarrow> history \<times> 'd \<Rightarrow> bool" where
  "counted rows = (\<lambda>(h, db). int (rows db) \<le> h_data_len h \<and> h_data_len h \<le> MAX_H_DATA_ITEM_LEN)"

lemma sql_distinct: "history_sql r \<noteq> insert_sql" "history_sql r \<noteq> del_sql" "sql_first \<noteq> insert_sql" "sql_first \<noteq> del_sql"
  by (simp_all add: history_sql_def insert_sql_def del_sql_def sql_first_def)

lemma read_rows:
  "sqlite_data_read_bin_data o_db sql data want tm db = Some (rc, d, x, db') \<Longrightarrow> db' = snd (db_step o_db sql None db)"
  by (auto simp: sqlite_data_read_bin_data_def split_beta Let_def bind_eq_Some_conv split: if_splits option.splits)

lemma read_ok: "sqlite_data_read_bin_data o_db sql None False tm db = Some (rc, d, x, db') \<Longrightarrow> step_ok (fst (db_step o_db sql None db)) \<Longrightarrow> rc = 0"
  by (auto simp: sqlite_data_read_bin_data_def split_beta Let_def)

lemma read_first_rows:
  assumes "read_first o_db (h, db) = Some (h', db')" "db_ok o_db rows"
  shows "rows db' = rows db \<and> h_data_len h' = h_data_len h"
  using assms sql_distinct(3,4) by (auto simp: read_first_def db_ok_def Let_def bind_eq_Some_conv dest!: read_rows)

lemma trim_counted:
  assumes "trim o_db (h, db) = Some (h', db')" "db_ok o_db rows" "int (rows db) \<le> h_data_len h"
    and "h_data_len h \<le> MAX_H_DATA_ITEM_LEN + 1"
  shows "counted rows (h', db')"
proof (cases "h_data_len h \<le> MAX_H_DATA_ITEM_LEN")
  case True
  then show ?thesis using assms by (simp add: trim_def counted_def)
next
  case False
  then obtain rc d x db1 where r: "sqlite_data_read_bin_data o_db del_sql None False [] db = Some (rc, d, x, db1)"
    using assms(1) by (auto simp: trim_def bind_eq_Some_conv)
  have "rc = 0" using read_ok [OF r] assms(2) by (simp add: db_ok_def)
  then obtain h1 db2 where f: "read_first o_db (h\<lparr>h_data_len := h_data_len h - 2000\<rparr>, db1) = Some (h1, db2)"
    and e: "h' = h1\<lparr>first_time := take 5 (first_time h1) @ map int16_to_bcd (drop 5 (first_time h1))\<rparr>" "db' = db2"
    using assms(1) False r by (auto simp: trim_def bind_eq_Some_conv MAX_H_DATA_DEL_ITEM_LEN_def)
  have "rows db1 = rows db - 2000" using read_rows [OF r] assms(2) by (simp add: db_ok_def)
  then show ?thesis
    using read_first_rows [OF f assms(2)] assms(3,4) False e by (auto simp: counted_def MAX_H_DATA_ITEM_LEN_def)
qed

lemma store_sample_counted:
  assumes "store_sample o_db e (h, db, s) = Some (h', db', s')" "db_ok o_db rows" "counted rows (h, db)"
  shows "counted rows (h', db')"
proof -
  let ?h = "h\<lparr>time_count := 0, h_time0 := time_now e, h_buf := map (ram_x (mp s)) [0..<length (h_buf h)]\<rparr>"
  consider "h' = ?h" "db' = db"
    | bs where "trim o_db (?h\<lparr>h_data_len := h_data_len h + 1\<rparr>, snd (db_step o_db insert_sql (Some bs) db)) = Some (h', db')"
    using assms(1)
    by (auto simp: store_sample_def Let_def sqlite_data_store_bin_data_def bind_eq_Some_conv split: if_splits option.splits)
  then show ?thesis
  proof cases
    case 1
    then show ?thesis using assms(3) by (simp add: counted_def)
  next
    case 2
    have "rows (snd (db_step o_db insert_sql (Some bs) db)) \<le> rows db + 1" using assms(2) by (simp add: db_ok_def)
    then show ?thesis using trim_counted [OF 2 assms(2)] assms(3) by (simp add: counted_def)
  qed
qed

lemma history_message_rows:
  assumes "history_message o_db e j msg (h, db, s) = Some (h', db', s')" "db_ok o_db rows"
  shows "rows db' = rows db \<and> h_data_len h' = h_data_len h"
  using assms(1) assms(2) sql_distinct(1,2)
  by (auto simp: history_message_def history_request_def db_ok_def Let_def bind_eq_Some_conv split: if_splits option.splits dest!: read_rows)

lemma history_round_counted:
  assumes "history_round o_db e t (h, db, s) = Some (h', db', s')" "db_ok o_db rows" "counted rows (h, db)"
  shows "counted rows (h', db')"
proof -
  obtain h1 db1 s1 s0
    where msg: "(case h_message t of None \<Rightarrow> Some (h, db, s0) | Some msg \<Rightarrow> history_message o_db e (h_junk t) msg (h, db, s0)) = Some (h1, db1, s1)"
      and r: "(if sample_due (time_now e) h1 then store_sample o_db e (h1, db1, s1)
        else Some (h1\<lparr>time_count := time_count h1 + 1\<rparr>, db1, s1)) = Some (h', db', s')"
    using assms(1) by (auto simp: history_round_def Let_def bind_eq_Some_conv)
  have "rows db1 = rows db \<and> h_data_len h1 = h_data_len h"
    using msg history_message_rows [OF _ assms(2)] by (cases "h_message t") auto
  then have m: "counted rows (h1, db1)" using assms(3) by (simp add: counted_def)
  show ?thesis
  proof (cases "sample_due (time_now e) h1")
    case True
    then show ?thesis using r store_sample_counted [OF _ assms(2) m] by simp
  next
    case False
    then show ?thesis using r m by (auto simp: counted_def)
  qed
qed


definition count_storage :: "nat storage" where
  "count_storage =
     \<lparr>db_step = \<lambda>sql _ n. (\<lparr>step_ok = True, col_text = Some ''2015-03-04 05:06:07'', col_blob = Some []\<rparr>,
        if sql = insert_sql then n + 1 else if sql = del_sql then n - 2000 else n),
      zip_bound = \<lambda>n. n, zip_bytes = Some, unzip_bytes = \<lambda>n bs. Some bs\<rparr>"

definition quiet :: history_turn where
  "quiet = \<lparr>h_message = None, h_junk = history_junk_demo\<rparr>"

lemma quiet_count: "history_round count_storage env_demo quiet x \<noteq> None"
proof -
  have r: "\<exists>y. sqlite_data_read_bin_data count_storage sql None want tm db = Some y" for sql want tm db
    by (simp add: sqlite_data_read_bin_data_def count_storage_def)
  have f: "\<exists>y. read_first count_storage x = Some y" for x
    using r [of sql_first True "time_s_first (fst x)" "snd x"] by (auto simp: read_first_def split_beta Let_def)
  have f2: "\<exists>y. (read_first count_storage x \<bind> (\<lambda>(h, db). Some (k h, db))) = Some y" for x k
    using f [of x] by auto
  have g: "\<exists>y. trim count_storage x = Some y" for x
    using r [of del_sql False "[]" "snd x"] f2
    by (auto simp: trim_def split_beta bind_eq_None_conv)
  have f3: "\<exists>y. (trim count_storage x \<bind> (\<lambda>(h, db). Some (h, db, s))) = Some y" for x s
    using g [of x] by auto
  have "store_sample count_storage env_demo x \<noteq> None" for x
    using f3 by (auto simp: store_sample_def split_beta Let_def split: option.split)
  then show ?thesis by (auto simp: history_round_def quiet_def split_beta Let_def)
qed

lemma quiet_run: "\<forall>x. history_round o_db e t x \<noteq> None \<Longrightarrow> history_run o_db (replicate n (e, t)) x \<noteq> None"
proof (induction n arbitrary: x)
  case (Suc n)
  then obtain y where "history_round o_db e t x = Some y" by blast
  then show ?case using Suc by simp
qed simp



section \<open>Samples\<close>

text \<open>After a sample the counter starts again and the buffer holds the registers of all wells.\<close>

definition sampled :: "env \<Rightarrow> history \<Rightarrow> rtu \<Rightarrow> bool" where
  "sampled e h s \<longleftrightarrow> time_count h = 0 \<and> h_time0 h = time_now e \<and> h_buf h = map (ram_x (mp s)) [0..<length (h_buf h)]"

lemma thread_times_mp [simp]: "mp (update_thread_time e k s) = mp s" "mp (update_thread_com_time e k s) = mp s"
  by (simp_all add: update_thread_time_def update_thread_com_time_def)

lemma read_first_keeps:
  "read_first o_db (h, db) = Some (h', db') \<Longrightarrow> time_count h' = time_count h \<and> h_time0 h' = h_time0 h \<and> h_buf h' = h_buf h"
  by (auto simp: read_first_def Let_def bind_eq_Some_conv)

lemma trim_keeps:
  "trim o_db (h, db) = Some (h', db') \<Longrightarrow> time_count h' = time_count h \<and> h_time0 h' = h_time0 h \<and> h_buf h' = h_buf h"
  by (auto simp: trim_def bind_eq_Some_conv dest!: read_first_keeps split: if_splits)

lemma store_sample_sampled:
  assumes "store_sample o_db e (h, db, s) = Some (h', db', s')"
  shows "sampled e h' s'"
proof -
  let ?h = "h\<lparr>time_count := 0, h_time0 := time_now e, h_buf := map (ram_x (mp s)) [0..<length (h_buf h)]\<rparr>"
  have "sampled e ?h s" by (simp add: sampled_def)
  then show ?thesis
    using assms
    by (auto simp: store_sample_def Let_def sqlite_data_store_bin_data_def bind_eq_Some_conv sampled_def
      dest!: trim_keeps split: if_splits option.splits)
qed

lemma message_keeps:
  "history_message o_db e j msg (h, db, s) = Some (h', db', s') \<Longrightarrow> time_count h' = time_count h \<and> h_time0 h' = h_time0 h"
  by (auto simp: history_message_def history_request_def Let_def bind_eq_Some_conv split: if_splits option.splits)

lemma history_round_progress:
  assumes "history_round o_db e t (h, db, s) = Some (h', db', s')"
  shows "sampled e h' s' \<or> time_count h < HISTORY_DATA_TIMEOUT \<and> time_count h' = time_count h + 1"
proof -
  obtain h1 db1 s1 s0
    where msg: "(case h_message t of None \<Rightarrow> Some (h, db, s0) | Some msg \<Rightarrow> history_message o_db e (h_junk t) msg (h, db, s0)) = Some (h1, db1, s1)"
      and r: "(if sample_due (time_now e) h1 then store_sample o_db e (h1, db1, s1)
        else Some (h1\<lparr>time_count := time_count h1 + 1\<rparr>, db1, s1)) = Some (h', db', s')"
    using assms by (auto simp: history_round_def Let_def bind_eq_Some_conv)
  have c: "time_count h1 = time_count h" using msg by (cases "h_message t") (auto dest: message_keeps)
  show ?thesis
  proof (cases "sample_due (time_now e) h1")
    case True
    then show ?thesis using r by (auto dest: store_sample_sampled)
  next
    case False
    then show ?thesis using r c by (auto simp: sample_due_def)
  qed
qed

lemma history_run_samples:
  "history_run o_db ets (h, db, s) = Some x \<Longrightarrow> HISTORY_DATA_TIMEOUT - time_count h < length ets \<Longrightarrow>
    \<exists>k<length ets. \<exists>h' db' s'. history_run o_db (take (Suc k) ets) (h, db, s) = Some (h', db', s') \<and> sampled (fst (ets ! k)) h' s'"
proof (induction ets arbitrary: h db s)
  case (Cons et ets)
  obtain e t where et: "et = (e, t)" by (cases et)
  obtain h1 db1 s1 where r: "history_round o_db e t (h, db, s) = Some (h1, db1, s1)"
    and run: "history_run o_db ets (h1, db1, s1) = Some x"
    using Cons.prems(1) et by (auto simp: bind_eq_Some_conv)
  show ?case
  proof (cases "sampled e h1 s1")
    case True
    then show ?thesis using r et by (intro exI [of _ 0]) auto
  next
    case False
    then have "HISTORY_DATA_TIMEOUT - time_count h1 < length ets"
      using history_round_progress [OF r] Cons.prems(2) by auto
    then obtain k h' db' s' where "k < length ets" "history_run o_db (take (Suc k) ets) (h1, db1, s1) = Some (h', db', s')"
      "sampled (fst (ets ! k)) h' s'"
      using Cons.IH [OF run] by blast
    then show ?thesis using r et by (intro exI [of _ "Suc k"]) auto
  qed
qed simp

text \<open>
  C29. A sample is taken at least once in 601 rounds of the thread, whatever the clock shows and the hosts
  ask for: then the counter is zero, the time is taken and the buffer is a copy of the registers of
  all wells.
\<close>

theorem history_samples:
  assumes "history_run o_db ets (h, db, s) = Some x" "length ets = 601"
  shows "\<exists>k<601. \<exists>h' db' s'. history_run o_db (take (Suc k) ets) (h, db, s) = Some (h', db', s') \<and>
    time_count h' = 0 \<and> h_time0 h' = time_now (fst (ets ! k)) \<and> h_buf h' = map (ram_x (mp s')) [0..<length (h_buf h')]"
proof -
  have "HISTORY_DATA_TIMEOUT - time_count h < length ets" using assms(2) by (simp add: HISTORY_DATA_TIMEOUT_def)
  then show ?thesis using history_run_samples [OF assms(1)] assms(2) by (simp add: sampled_def)
qed

theorem history_samples_witness:
  "\<exists>k<601. \<exists>h' db' s'.
     history_run count_storage (replicate (Suc k) (env_demo, quiet)) (history_demo, 7000, rtu_history) = Some (h', db', s') \<and>
     time_count h' = 0 \<and> h_time0 h' = 0 \<and> h_buf h' = map (ram_x (mp s')) [0..<length (h_buf h')]"
proof -
  let ?ets = "replicate 601 (env_demo, quiet)"
  obtain x where x: "history_run count_storage ?ets (history_demo, 7000, rtu_history) = Some x"
    using quiet_run [OF allI [OF quiet_count], of 601 "(history_demo, 7000, rtu_history)"] by blast
  obtain k h' db' s' where k: "k < 601"
    "history_run count_storage (take (Suc k) ?ets) (history_demo, 7000, rtu_history) = Some (h', db', s')"
    "time_count h' = 0" "h_time0 h' = time_now (fst (?ets ! k))" "h_buf h' = map (ram_x (mp s')) [0..<length (h_buf h')]"
    using history_samples [OF x] by auto
  moreover have "take (Suc k) ?ets = replicate (Suc k) (env_demo, quiet)" using k(1) by (subst take_replicate) (simp add: min_absorb1)
  moreover have "h_time0 h' = 0" using k(1,4) by (simp add: env_demo_def)
  ultimately show ?thesis by metis
qed

end
