(* ===== verification/Coils.thy ===== *)
theory Coils
  imports Modbus
begin

text \<open>
  The rest of the Modbus library: single bits (\<^verbatim>\<open>modbus-data.c\<close> and the calls for
  coils and inputs), the combined write and read, the slave identification, raw requests, and
  \<^verbatim>\<open>modbus_reply_old\<close>, the slave over plain tables that \<^verbatim>\<open>modbus_reply\<close>
  replaced. The program links all this and calls none of it.
\<close>

section \<open>Bits\<close>

definition bit_u8 :: "bool \<Rightarrow> u8" where "bit_u8 b = (if b then 1 else 0)"

text \<open>\<open>k\<close> counts the bits written, from \<open>index\<close> on; \<^const>\<open>None\<close> is an access outside an array.\<close>

fun set_bits_loop :: "u8 list \<Rightarrow> nat \<Rightarrow> nat \<Rightarrow> nat \<Rightarrow> nat \<Rightarrow> u8 list \<Rightarrow> u8 list option" where
  "set_bits_loop dest index k shift 0 tab = Some dest"
| "set_bits_loop dest index k shift (Suc n) tab =
     (if k div 8 < length tab \<and> index + k < length dest
      then set_bits_loop (dest[index + k := bit_u8 (bit (tab ! (k div 8)) shift)]) index (Suc k) (Suc shift mod 8) n tab
      else None)"

definition modbus_set_bits_from_bytes :: "u8 list \<Rightarrow> nat \<Rightarrow> nat \<Rightarrow> u8 list \<Rightarrow> u8 list option" where
  "modbus_set_bits_from_bytes dest index nb_bits tab_byte = set_bits_loop dest index 0 0 nb_bits tab_byte"

fun set_byte_loop :: "u8 list \<Rightarrow> nat \<Rightarrow> nat list \<Rightarrow> u8 \<Rightarrow> u8 list option" where
  "set_byte_loop dest index [] v = Some dest"
| "set_byte_loop dest index (i # ks) v =
     (if index + i < length dest then set_byte_loop (dest[index + i := bit_u8 (bit v i)]) index ks v else None)"

definition modbus_set_bits_from_byte :: "u8 list \<Rightarrow> nat \<Rightarrow> u8 \<Rightarrow> u8 list option" where
  "modbus_set_bits_from_byte dest index v = set_byte_loop dest index [0..<8] v"

fun get_byte_loop :: "u8 list \<Rightarrow> nat \<Rightarrow> nat list \<Rightarrow> u8 \<Rightarrow> u8 option" where
  "get_byte_loop src index [] v = Some v"
| "get_byte_loop src index (i # ks) v =
     (if index + i < length src then get_byte_loop src index ks (v OR word_of_int (push_bit i (uint (src ! (index + i))))) else None)"

definition modbus_get_byte_from_bits :: "u8 list \<Rightarrow> nat \<Rightarrow> nat \<Rightarrow> u8 option" where
  "modbus_get_byte_from_bits src index nb_bits = get_byte_loop src index [0..<min nb_bits 8] 0"

text \<open>A number in two registers, the low halfword first; the float is its bit pattern.\<close>

definition modbus_get_float :: "u16 list \<Rightarrow> u32" where
  "modbus_get_float src = push_bit 16 (ucast (src ! 1)) + ucast (src ! 0)"

definition modbus_set_float :: "u32 \<Rightarrow> u16 list" where
  "modbus_set_float f = [ucast f, ucast (drop_bit 16 f)]"

section \<open>The slave over tables\<close>

record mapping_t =
  tab_bits :: "u8 list"
  tab_input_bits :: "u8 list"
  tab_input_registers :: "u16 list"
  tab_registers :: "u16 list"

text \<open>
  \<open>ok k\<close> says whether the allocation of the \<open>k\<close>-th block succeeds; a negative size is one that cannot.
\<close>

definition modbus_mapping_new :: "(nat \<Rightarrow> bool) \<Rightarrow> int \<Rightarrow> int \<Rightarrow> int \<Rightarrow> int \<Rightarrow> mapping_t option" where
  "modbus_mapping_new ok nb_bits nb_input_bits nb_registers nb_input_registers =
     (let got = (\<lambda>k nb. nb = 0 \<or> (0 < nb \<and> ok k)) in
      if \<not> ok 0 \<or> \<not> got 1 nb_bits \<or> \<not> got 2 nb_input_bits \<or> \<not> got 3 nb_registers \<or> \<not> got 4 nb_input_registers then None
      else Some \<lparr>tab_bits = replicate (nat nb_bits) 0, tab_input_bits = replicate (nat nb_input_bits) 0,
                 tab_input_registers = replicate (nat nb_input_registers) 0, tab_registers = replicate (nat nb_registers) 0xFFFF\<rparr>)"

definition MAX_MESSAGE_LENGTH :: nat where "MAX_MESSAGE_LENGTH = 260"
definition MODBUS_MAX_READ_BITS :: nat where "MODBUS_MAX_READ_BITS = 2000"
definition MODBUS_MAX_WRITE_BITS :: nat where "MODBUS_MAX_WRITE_BITS = 1968"
definition MODBUS_MAX_RW_WRITE_REGISTERS :: nat where "MODBUS_MAX_RW_WRITE_REGISTERS = 121"
definition MODBUS_EXCEPTION_MAX :: nat where "MODBUS_EXCEPTION_MAX = 12"
definition FC_READ_COILS :: u8 where "FC_READ_COILS = 0x01"
definition FC_READ_DISCRETE_INPUTS :: u8 where "FC_READ_DISCRETE_INPUTS = 0x02"
definition FC_READ_EXCEPTION_STATUS :: u8 where "FC_READ_EXCEPTION_STATUS = 0x07"
definition REPORT_SLAVE_ID :: u8 where "REPORT_SLAVE_ID = 180"
definition LIBMODBUS_VERSION_STRING :: string where "LIBMODBUS_VERSION_STRING = ''3.0.6''"

lemmas coil_limits = MAX_MESSAGE_LENGTH_def MODBUS_MAX_READ_BITS_def MODBUS_MAX_WRITE_BITS_def
  MODBUS_MAX_RW_WRITE_REGISTERS_def MODBUS_EXCEPTION_MAX_def

lemmas coil_functions = FC_READ_COILS_def FC_READ_DISCRETE_INPUTS_def FC_READ_EXCEPTION_STATUS_def

text \<open>The response must fit its buffer, with the check sum that is appended.\<close>

definition fits :: "backend \<Rightarrow> u8 list \<Rightarrow> bool" where
  "fits be rsp \<longleftrightarrow> length rsp + checksum_length be \<le> MAX_MESSAGE_LENGTH"

fun io_bytes :: "u8 list \<Rightarrow> nat \<Rightarrow> int \<Rightarrow> u8 list" where
  "io_bytes [] shift byte = (if shift \<noteq> 0 then [word_of_int byte] else [])"
| "io_bytes (b # bs) shift byte =
     (let byte = byte OR push_bit shift (uint b) in
      if shift = 7 then word_of_int byte # io_bytes bs 0 0 else io_bytes bs (Suc shift) byte)"

definition response_io_status :: "nat \<Rightarrow> nat \<Rightarrow> u8 list \<Rightarrow> u8 list option" where
  "response_io_status address nb tab_io_status =
     (if address + nb \<le> length tab_io_status then Some (io_bytes (take nb (drop address tab_io_status)) 0 0) else None)"

definition bit_bytes :: "nat \<Rightarrow> nat" where
  "bit_bytes nb = nb div 8 + (if nb mod 8 \<noteq> 0 then 1 else 0)"

text \<open>The registers of a slave start at a multiple of 10000; those below 300 are shared by all.\<close>

definition old_address :: "nat \<Rightarrow> nat \<Rightarrow> nat" where
  "old_address slave a =
     (if slave \<ge> RTU_MAX_WELL_NUM then a + (RTU_MAX_WELL_NUM - 1) * RTU_MAX_READ_REGISTER
      else a + (slave - 1) * RTU_MAX_READ_REGISTER)"

definition cell_of :: "nat \<Rightarrow> nat" where
  "cell_of i = (if i mod RTU_MAX_READ_REGISTER < 300 then i mod RTU_MAX_READ_REGISTER else i)"

definition cell_bytes :: "u16 \<Rightarrow> u8 list" where
  "cell_bytes v = [ucast (drop_bit 8 v), ucast (v AND 0xFF)]"

definition old_read_bits :: "backend \<Rightarrow> sft \<Rightarrow> nat \<Rightarrow> nat \<Rightarrow> u8 list \<Rightarrow> u8 list option" where
  "old_read_bits be sft address nb tab =
     (if nb < 1 \<or> MODBUS_MAX_READ_BITS < nb then Some (response_exception be sft MODBUS_EXCEPTION_ILLEGAL_DATA_VALUE)
      else if address + nb > length tab then Some (response_exception be sft MODBUS_EXCEPTION_ILLEGAL_DATA_ADDRESS)
      else do {
        bs \<leftarrow> response_io_status address nb tab;
        Some (build_response_basis be sft @ [of_nat (bit_bytes nb)] @ bs) })"

definition old_read_registers :: "backend \<Rightarrow> sft \<Rightarrow> nat \<Rightarrow> nat \<Rightarrow> u16 list \<Rightarrow> u8 list" where
  "old_read_registers be sft address nb tab =
     (if nb < 1 \<or> MODBUS_MAX_READ_REGISTERS < nb then response_exception be sft MODBUS_EXCEPTION_ILLEGAL_DATA_VALUE
      else if address + nb > length tab then response_exception be sft MODBUS_EXCEPTION_ILLEGAL_DATA_ADDRESS
      else build_response_basis be sft @ [of_nat (nb * 2)] @ concat (map (\<lambda>i. cell_bytes (tab ! cell_of i)) [address..<address + nb]))"

definition old_read_input_registers :: "backend \<Rightarrow> sft \<Rightarrow> nat \<Rightarrow> nat \<Rightarrow> u16 list \<Rightarrow> u8 list" where
  "old_read_input_registers be sft address nb tab =
     (if nb < 1 \<or> MODBUS_MAX_READ_REGISTERS < nb then response_exception be sft MODBUS_EXCEPTION_ILLEGAL_DATA_VALUE
      else if address + nb > length tab then response_exception be sft MODBUS_EXCEPTION_ILLEGAL_DATA_ADDRESS
      else build_response_basis be sft @ [of_nat (nb * 2)] @ concat (map (\<lambda>i. cell_bytes (tab ! i)) [address..<address + nb]))"

text \<open>The request as the answer.\<close>

definition echo :: "u8 list \<Rightarrow> int \<Rightarrow> u8 list option" where
  "echo req req_length =
     (if req_length < 0 \<or> int (length req) < req_length \<or> int MAX_MESSAGE_LENGTH < req_length then None
      else Some (take (nat req_length) req))"

definition old_write_bit ::
  "backend \<Rightarrow> sft \<Rightarrow> u8 list \<Rightarrow> int \<Rightarrow> nat \<Rightarrow> nat \<Rightarrow> mapping_t \<Rightarrow> (u8 list \<times> mapping_t) option" where
  "old_write_bit be sft req req_length address data m =
     (if address \<ge> length (tab_bits m) then Some (response_exception be sft MODBUS_EXCEPTION_ILLEGAL_DATA_ADDRESS, m)
      else if data = 0xFF00 \<or> data = 0 then do {
        rsp \<leftarrow> echo req req_length;
        Some (rsp, m\<lparr>tab_bits := (tab_bits m)[address := bit_u8 (data \<noteq> 0)]\<rparr>) }
      else Some (response_exception be sft MODBUS_EXCEPTION_ILLEGAL_DATA_VALUE, m))"

text \<open>Registers whose change is reported, counted from 1.\<close>

definition saved_registers :: "nat list" where
  "saved_registers = [329, 336, 343, 350, 398, 399, 981, 982, 983] @ [4000..<4010]"

definition tell_config :: "rtu \<Rightarrow> rtu" where
  "tell_config s = send_int Q_tcp_server MSG_CONFIG_START (send_int Q_zigbee MSG_CONFIG_START s)"

definition tell_well :: "nat \<Rightarrow> rtu \<Rightarrow> rtu" where
  "tell_well slave s = emit (MsgSend Q_zigbee [MSG_CONFIG2_START, 0, of_nat slave, 0]) s"

definition old_write_register ::
  "backend \<Rightarrow> sft \<Rightarrow> u8 list \<Rightarrow> int \<Rightarrow> nat \<Rightarrow> u16 \<Rightarrow> mapping_t \<Rightarrow> rtu \<Rightarrow> (u8 list \<times> mapping_t \<times> rtu) option" where
  "old_write_register be sft req req_length address data m s =
     (if address \<ge> length (tab_registers m) then Some (response_exception be sft MODBUS_EXCEPTION_ILLEGAL_DATA_ADDRESS, m, s)
      else do {
        rsp \<leftarrow> echo req req_length;
        let r = address mod RTU_MAX_READ_REGISTER;
        Some (if r < 300 then
                if r = 29 \<and> data = 1 then (rsp, m\<lparr>tab_registers := (tab_registers m)[r := 0]\<rparr>, tell_config s)
                else (rsp, m\<lparr>tab_registers := (tab_registers m)[r := data]\<rparr>, s)
              else (rsp, m\<lparr>tab_registers := (tab_registers m)[address := data]\<rparr>,
                    if r + 1 \<in> set saved_registers \<and> sft_slave sft < RTU_MAX_WELL_NUM then tell_well (sft_slave sft) s else s)) })"

definition old_write_bits ::
  "backend \<Rightarrow> sft \<Rightarrow> u8 list \<Rightarrow> nat \<Rightarrow> nat \<Rightarrow> mapping_t \<Rightarrow> (u8 list \<times> mapping_t) option" where
  "old_write_bits be sft req address nb m =
     (if nb < 1 \<or> MODBUS_MAX_WRITE_BITS < nb then Some (response_exception be sft MODBUS_EXCEPTION_ILLEGAL_DATA_VALUE, m)
      else if address + nb > length (tab_bits m) then Some (response_exception be sft MODBUS_EXCEPTION_ILLEGAL_DATA_ADDRESS, m)
      else do {
        bits \<leftarrow> modbus_set_bits_from_bytes (tab_bits m) address nb (drop (header_length be + 6) req);
        let rsp = build_response_basis be sft;
        Some (rsp @ take 4 (drop (length rsp) req), m\<lparr>tab_bits := bits\<rparr>) })"

text \<open>Registers in a request, the high byte first.\<close>

definition req_values :: "nat \<Rightarrow> u8 list \<Rightarrow> u16 list option" where
  "req_values n bs =
     (if length bs < 2 * n then None
      else Some (map (\<lambda>k. of_nat (unat (bs ! (2 * k)) * 256 + unat (bs ! (2 * k + 1)))) [0..<n]))"

text \<open>\<open>i\<close> is the register that gets the next value, \<open>address\<close> the first one; the flag is \<^verbatim>\<open>flash_save_switch\<close>.\<close>

fun old_store :: "nat \<Rightarrow> nat \<Rightarrow> u16 list \<Rightarrow> u16 list \<Rightarrow> bool \<Rightarrow> rtu \<Rightarrow> u16 list \<times> bool \<times> rtu" where
  "old_store address i [] tab save s = (tab, save, s)"
| "old_store address i (v # vs) tab save s =
     (if i mod RTU_MAX_READ_REGISTER < 300 then
        if address mod RTU_MAX_READ_REGISTER = 0x30 \<and> v = 1
        then old_store address (Suc i) vs (tab[i mod RTU_MAX_READ_REGISTER := 0]) save (tell_config s)
        else old_store address (Suc i) vs (tab[i mod RTU_MAX_READ_REGISTER := v]) save s
      else old_store address (Suc i) vs (tab[i := v])
             (save \<or> address mod RTU_MAX_READ_REGISTER + 1 \<in> set saved_registers) s)"

definition old_write_registers ::
  "backend \<Rightarrow> sft \<Rightarrow> u8 list \<Rightarrow> nat \<Rightarrow> nat \<Rightarrow> mapping_t \<Rightarrow> rtu \<Rightarrow> (u8 list \<times> mapping_t \<times> rtu) option" where
  "old_write_registers be sft req address nb m s =
     (if nb < 1 \<or> MODBUS_MAX_WRITE_REGISTERS < nb then Some (response_exception be sft MODBUS_EXCEPTION_ILLEGAL_DATA_VALUE, m, s)
      else if address + nb > length (tab_registers m) then Some (response_exception be sft MODBUS_EXCEPTION_ILLEGAL_DATA_ADDRESS, m, s)
      else do {
        vs \<leftarrow> req_values nb (drop (header_length be + 6) req);
        let (tab, save, s) = old_store address address vs (tab_registers m) False s;
        let rsp = build_response_basis be sft;
        Some (rsp @ take 4 (drop (length rsp) req), m\<lparr>tab_registers := tab\<rparr>,
              if save \<and> sft_slave sft < RTU_MAX_WELL_NUM then tell_well (sft_slave sft) s else s) })"

definition old_report_slave_id :: "backend \<Rightarrow> sft \<Rightarrow> u8 list" where
  "old_report_slave_id be sft =
     (let text = map (\<lambda>c. of_nat (of_char c)) (''LMB'' @ LIBMODBUS_VERSION_STRING); body = [REPORT_SLAVE_ID, 0xFF] @ text in
      build_response_basis be sft @ [of_nat (length body)] @ body)"

text \<open>The address of the registers to write is not moved to those of the slave.\<close>

definition old_write_and_read ::
  "backend \<Rightarrow> sft \<Rightarrow> u8 list \<Rightarrow> nat \<Rightarrow> nat \<Rightarrow> nat \<Rightarrow> nat \<Rightarrow> nat \<Rightarrow> mapping_t \<Rightarrow> (u8 list \<times> mapping_t) option" where
  "old_write_and_read be sft req address nb address_write nb_write nb_write_bytes m =
     (if nb_write < 1 \<or> MODBUS_MAX_RW_WRITE_REGISTERS < nb_write \<or> nb < 1 \<or> MODBUS_MAX_READ_REGISTERS < nb
         \<or> nb_write_bytes \<noteq> nb_write * 2
      then Some (response_exception be sft MODBUS_EXCEPTION_ILLEGAL_DATA_VALUE, m)
      else if address + nb > length (tab_registers m) \<or> address_write + nb_write > length (tab_registers m)
      then Some (response_exception be sft MODBUS_EXCEPTION_ILLEGAL_DATA_ADDRESS, m)
      else do {
        vs \<leftarrow> req_values nb_write (drop (header_length be + 10) req);
        let tab = fold (\<lambda>(i, v) tab. tab[cell_of i := v]) (zip [address_write..<address_write + nb_write] vs) (tab_registers m);
        Some (build_response_basis be sft @ [of_nat (nb * 2)] @ concat (map (\<lambda>i. cell_bytes (tab ! cell_of i)) [address..<address + nb]),
              m\<lparr>tab_registers := tab\<rparr>) })"

text \<open>\<^const>\<open>None\<close> for the answer: the call returns -1.\<close>

definition reply_function_old ::
  "backend \<Rightarrow> sft \<Rightarrow> u8 list \<Rightarrow> int \<Rightarrow> nat \<Rightarrow> mapping_t \<Rightarrow> rtu \<Rightarrow> (u8 list option \<times> mapping_t \<times> rtu) option" where
  "reply_function_old be sft req req_length address m s =
     (let h = header_length be; function = (of_nat (sft_function sft) :: u8);
          number = (\<lambda>k. do { a \<leftarrow> byte_at req (h + k); b \<leftarrow> byte_at req (h + k + 1); Some (a * 256 + b) }) in
      if function = FC_READ_COILS then do {
        nb \<leftarrow> number 3; rsp \<leftarrow> old_read_bits be sft address nb (tab_bits m); Some (Some rsp, m, s) }
      else if function = FC_READ_DISCRETE_INPUTS then do {
        nb \<leftarrow> number 3; rsp \<leftarrow> old_read_bits be sft address nb (tab_input_bits m); Some (Some rsp, m, s) }
      else if function = FC_READ_HOLDING_REGISTERS then do {
        nb \<leftarrow> number 3; Some (Some (old_read_registers be sft address nb (tab_registers m)), m, s) }
      else if function = FC_READ_INPUT_REGISTERS then do {
        nb \<leftarrow> number 3; Some (Some (old_read_input_registers be sft address nb (tab_input_registers m)), m, s) }
      else if function = FC_WRITE_SINGLE_COIL then do {
        data \<leftarrow> number 3; (rsp, m) \<leftarrow> old_write_bit be sft req req_length address data m; Some (Some rsp, m, s) }
      else if function = FC_WRITE_SINGLE_REGISTER then do {
        data \<leftarrow> number 3; (rsp, m, s) \<leftarrow> old_write_register be sft req req_length address (of_nat data) m s; Some (Some rsp, m, s) }
      else if function = FC_WRITE_MULTIPLE_COILS then do {
        nb \<leftarrow> number 3; (rsp, m) \<leftarrow> old_write_bits be sft req address nb m; Some (Some rsp, m, s) }
      else if function = FC_WRITE_MULTIPLE_REGISTERS then do {
        nb \<leftarrow> number 3; (rsp, m, s) \<leftarrow> old_write_registers be sft req address nb m s; Some (Some rsp, m, s) }
      else if function = FC_REPORT_SLAVE_ID then Some (Some (old_report_slave_id be sft), m, s)
      else if function = FC_READ_EXCEPTION_STATUS then Some (None, m, s)
      else if function = FC_WRITE_AND_READ_REGISTERS then do {
        nb \<leftarrow> number 3; address_write \<leftarrow> number 5; nb_write \<leftarrow> number 7; nb_write_bytes \<leftarrow> byte_at req (h + 9);
        (rsp, m) \<leftarrow> old_write_and_read be sft req address nb address_write nb_write nb_write_bytes m; Some (Some rsp, m, s) }
      else Some (Some (response_exception be sft MODBUS_EXCEPTION_ILLEGAL_FUNCTION), m, s))"

definition modbus_reply_old ::
  "backend \<Rightarrow> bool \<Rightarrow> u8 list \<Rightarrow> int \<Rightarrow> int list \<Rightarrow> mapping_t \<Rightarrow> rtu \<Rightarrow> (int \<times> u8 list option \<times> mapping_t \<times> rtu) option" where
  "modbus_reply_old be link req req_length sends m s = do {
     let h = header_length be;
     slave \<leftarrow> byte_at req (h - 1);
     function \<leftarrow> byte_at req h;
     a1 \<leftarrow> byte_at req (h + 1);
     a2 \<leftarrow> byte_at req (h + 2);
     if slave = 0 then Some (0, None, m, s)
     else do {
       (tid, req_length) \<leftarrow> prepare_response_tid be req req_length;
       (rsp, m, s) \<leftarrow> reply_function_old be \<lparr>sft_slave = slave, sft_function = function, sft_t_id = tid\<rparr>
                        req req_length (old_address slave (a1 * 256 + a2)) m s;
       case rsp of
         None \<Rightarrow> Some (-1, None, m, s)
       | Some rsp \<Rightarrow> if \<not> fits be rsp then None else do {
           (rc, msg) \<leftarrow> send_msg be link rsp sends;
           Some (rc, Some msg, m, s) } } }"

definition modbus_reply_exception :: "backend \<Rightarrow> bool \<Rightarrow> u8 list \<Rightarrow> nat \<Rightarrow> int list \<Rightarrow> (int \<times> u8 list option) option" where
  "modbus_reply_exception be link req exception_code sends = do {
     slave \<leftarrow> byte_at req (header_length be - 1);
     function \<leftarrow> byte_at req (header_length be);
     (tid, _) \<leftarrow> prepare_response_tid be req 99;
     let rsp = build_response_basis be \<lparr>sft_slave = slave, sft_function = function + 0x80, sft_t_id = tid\<rparr>;
     if exception_code < MODBUS_EXCEPTION_MAX then do {
       (rc, msg) \<leftarrow> send_msg be link (rsp @ [of_nat exception_code]) sends;
       Some (rc, Some msg) }
     else Some (-1, None) }"

definition modbus_send_raw_request :: "backend \<Rightarrow> bool \<Rightarrow> u8 list \<Rightarrow> int list \<Rightarrow> (int \<times> u8 list option) option" where
  "modbus_send_raw_request be link raw_req sends =
     (case raw_req of
        slave # function # rest \<Rightarrow>
          let req = build_response_basis be \<lparr>sft_slave = unat slave, sft_function = unat function, sft_t_id = 0\<rparr> @ rest in
          if \<not> fits be req then None else do { (rc, msg) \<leftarrow> send_msg be link req sends; Some (rc, Some msg) }
      | _ \<Rightarrow> Some (-1, None))"

section \<open>The master\<close>

text \<open>One byte of the answer fills the entries from \<open>pos\<close> on, as far as \<open>nb\<close>.\<close>

fun io_byte :: "u8 \<Rightarrow> nat list \<Rightarrow> nat \<Rightarrow> nat \<Rightarrow> u8 list \<Rightarrow> (nat \<times> u8 list) option" where
  "io_byte temp [] pos nb dest = Some (pos, dest)"
| "io_byte temp (k # ks) pos nb dest =
     (if pos < nb then
        if pos < length dest then io_byte temp ks (Suc pos) nb (dest[pos := bit_u8 (bit temp k)]) else None
      else Some (pos, dest))"

fun io_status_loop :: "u8 list \<Rightarrow> nat \<Rightarrow> nat \<Rightarrow> nat \<Rightarrow> nat \<Rightarrow> u8 list \<Rightarrow> u8 list option" where
  "io_status_loop rsp i 0 pos nb dest = Some dest"
| "io_status_loop rsp i (Suc n) pos nb dest =
     (if i < length rsp then do {
        (pos, dest) \<leftarrow> io_byte (rsp ! i) [0..<8] pos nb dest;
        io_status_loop rsp (Suc i) n pos nb dest }
      else None)"

definition read_io_status ::
  "ctx \<Rightarrow> u8 \<Rightarrow> int \<Rightarrow> int \<Rightarrow> u8 list \<Rightarrow> int list \<Rightarrow> u8 list list \<Rightarrow> (int \<times> u8 list \<times> u8 list) option" where
  "read_io_status c function addr nb dest sends chunks = do {
     (req, c) \<leftarrow> build_request_basis c function addr nb;
     (ans, sent) \<leftarrow> request_response c req sends chunks;
     dest \<leftarrow> (case ans of
               Answer n rsp \<Rightarrow> io_status_loop rsp (header_length (backend_of c) + 2) n 0 (nat nb) dest
             | _ \<Rightarrow> Some dest);
     Some (answer_rc ans, dest, sent) }"

text \<open>A request that could not be sent at all is reported as read.\<close>

definition read_bits_by ::
  "u8 \<Rightarrow> ctx \<Rightarrow> int \<Rightarrow> int \<Rightarrow> u8 list \<Rightarrow> int list \<Rightarrow> u8 list list \<Rightarrow> (int \<times> u8 list \<times> u8 list) option" where
  "read_bits_by function c addr nb dest sends chunks =
     (if nb > int MODBUS_MAX_READ_BITS then Some (-1, dest, [])
      else do {
        (rc, dest, sent) \<leftarrow> read_io_status c function addr nb dest sends chunks;
        Some (if rc = -1 then -1 else nb, dest, sent) })"

definition modbus_read_bits ::
  "ctx \<Rightarrow> int \<Rightarrow> int \<Rightarrow> u8 list \<Rightarrow> int list \<Rightarrow> u8 list list \<Rightarrow> (int \<times> u8 list \<times> u8 list) option" where
  "modbus_read_bits = read_bits_by FC_READ_COILS"

definition modbus_read_input_bits ::
  "ctx \<Rightarrow> int \<Rightarrow> int \<Rightarrow> u8 list \<Rightarrow> int list \<Rightarrow> u8 list list \<Rightarrow> (int \<times> u8 list \<times> u8 list) option" where
  "modbus_read_input_bits = read_bits_by FC_READ_DISCRETE_INPUTS"

definition modbus_read_input_registers ::
  "ctx \<Rightarrow> int \<Rightarrow> int \<Rightarrow> u16 list \<Rightarrow> int list \<Rightarrow> u8 list list \<Rightarrow> (answer \<times> u16 list \<times> u8 list) option" where
  "modbus_read_input_registers c addr nb dest sends chunks =
     (if nb > int MODBUS_MAX_READ_REGISTERS then Some (Refused EMBMDATA, dest, [])
      else read_registers c FC_READ_INPUT_REGISTERS addr nb dest sends chunks)"

definition modbus_write_bit :: "ctx \<Rightarrow> int \<Rightarrow> int \<Rightarrow> int list \<Rightarrow> u8 list list \<Rightarrow> (answer \<times> u8 list) option" where
  "modbus_write_bit c addr status sends chunks = do {
     (req, c) \<leftarrow> build_request_basis c FC_WRITE_SINGLE_COIL addr (if status \<noteq> 0 then 0xFF00 else 0);
     request_response c req sends chunks }"

text \<open>Counts of bits and registers that are written are not negative. One byte of the request; \<open>bit_check\<close> counts one more when the bits are used up.\<close>

fun pack_byte :: "nat list \<Rightarrow> nat \<Rightarrow> nat \<Rightarrow> u8 list \<Rightarrow> u8 \<Rightarrow> (u8 \<times> u8 list \<times> nat) option" where
  "pack_byte [] bit_check nb src v = Some (v, src, bit_check)"
| "pack_byte (k # ks) bit_check nb src v =
     (if bit_check < nb then
        case src of
          [] \<Rightarrow> None
        | b # src \<Rightarrow> pack_byte ks (Suc bit_check) nb src (if b \<noteq> 0 then v OR push_bit k 1 else v AND NOT (push_bit k 1))
      else Some (v, src, Suc bit_check))"

fun pack_bytes :: "nat \<Rightarrow> nat \<Rightarrow> nat \<Rightarrow> u8 list \<Rightarrow> u8 list option" where
  "pack_bytes 0 bit_check nb src = Some []"
| "pack_bytes (Suc n) bit_check nb src = do {
     (v, src, bit_check) \<leftarrow> pack_byte [0..<8] bit_check nb src 0;
     vs \<leftarrow> pack_bytes n bit_check nb src;
     Some (v # vs) }"

definition modbus_write_bits ::
  "ctx \<Rightarrow> int \<Rightarrow> nat \<Rightarrow> u8 list \<Rightarrow> int list \<Rightarrow> u8 list list \<Rightarrow> (answer \<times> u8 list) option" where
  "modbus_write_bits c addr nb src sends chunks =
     (if nb > MODBUS_MAX_WRITE_BITS then Some (Refused EMBMDATA, [])
      else do {
        (basis, c) \<leftarrow> build_request_basis c FC_WRITE_MULTIPLE_COILS addr (int nb);
        bytes \<leftarrow> pack_bytes (bit_bytes nb) 0 nb src;
        request_response c (basis @ [of_nat (bit_bytes nb)] @ bytes) sends chunks })"

definition modbus_write_and_read_registers ::
  "ctx \<Rightarrow> int \<Rightarrow> nat \<Rightarrow> u16 list \<Rightarrow> int \<Rightarrow> nat \<Rightarrow> u16 list \<Rightarrow> int list \<Rightarrow> u8 list list \<Rightarrow> (answer \<times> u16 list \<times> u8 list) option" where
  "modbus_write_and_read_registers c write_addr write_nb src read_addr read_nb dest sends chunks =
     (if write_nb > MODBUS_MAX_RW_WRITE_REGISTERS \<or> read_nb > MODBUS_MAX_READ_REGISTERS then Some (Refused EMBMDATA, dest, [])
      else do {
        (basis, c) \<leftarrow> build_request_basis c FC_WRITE_AND_READ_REGISTERS read_addr (int read_nb);
        req \<leftarrow> write_request
          (basis @ [word_of_int (drop_bit 8 write_addr), word_of_int (write_addr AND 0xFF), of_nat (write_nb div 256), of_nat (write_nb mod 256)])
          (int write_nb) src;
        (ans, sent) \<leftarrow> request_response c req sends chunks;
        case ans of
          Answer n rsp \<Rightarrow> do { dest \<leftarrow> store_response (header_length (backend_of c)) rsp n dest; Some (ans, dest, sent) }
        | _ \<Rightarrow> Some (ans, dest, sent) })"

definition modbus_report_slave_id :: "ctx \<Rightarrow> u8 list \<Rightarrow> int list \<Rightarrow> u8 list list \<Rightarrow> (answer \<times> u8 list \<times> u8 list) option" where
  "modbus_report_slave_id c dest sends chunks = do {
     (basis, c) \<leftarrow> build_request_basis c FC_REPORT_SLAVE_ID 0 0;
     (ans, sent) \<leftarrow> request_response c (take (length basis - 4) basis) sends chunks;
     case ans of
       Answer n rsp \<Rightarrow>
         let bytes = take n (drop (header_length (backend_of c) + 2) rsp) in
         if length bytes < n \<or> length dest < n then None else Some (ans, bytes @ drop n dest, sent)
     | _ \<Rightarrow> Some (ans, dest, sent) }"

end
