(* ===== verification/Coils_Facts.thy ===== *)
theory Coils_Facts
  imports Coils Modbus_Facts
begin

text \<open>
  Bits over the Modbus line: packing and unpacking are inverse, and what a master writes into the coils
  of the old slave is what it reads back.
\<close>

section \<open>Packing\<close>

lemma bit_bytes_eq: "bit_bytes n = (n + 7) div 8"
  unfolding bit_bytes_def by presburger

lemma bit_bytes_le: "i < n \<Longrightarrow> i div 8 < bit_bytes n"
  unfolding bit_bytes_eq using div_le_mono [of "i + 8" "n + 7" 8] by simp

lemma upt_head: "k < 8 \<Longrightarrow> [k..<8] = k # [Suc k..<8]"
  by (rule upt_conv_Cons)

lemma bit_u8_set: "bit ((if b then v OR push_bit k 1 else v AND NOT (push_bit k 1)) :: u8) i = (if i = k \<and> k < 8 then b else bit v i)"
proof (cases "i < 8")
  case True
  then show ?thesis by (simp add: bit_or_iff bit_and_iff bit_not_iff bit_exp_iff)
next
  case False
  then have "\<not> bit w i" for w :: u8 using bit_imp_le_length [of w i] by auto
  then show ?thesis using False by auto
qed

lemma pack_byte_bits:
  assumes "k \<le> 8" "nb - bc \<le> length src" "m = min (8 - k) (nb - bc)"
  shows "\<exists>v'. pack_byte [k..<8] bc nb src v = Some (v', drop m src, if m = 8 - k then bc + m else bc + m + 1) \<and>
    (\<forall>i. bit v' i = (if k \<le> i \<and> i < k + m then src ! (i - k) \<noteq> 0 else bit v i))"
  using assms
proof (induction "8 - k" arbitrary: k bc src v m)
  case (Suc x)
  then have k: "k < 8" by simp
  show ?case
  proof (cases "bc < nb")
    case False
    then show ?thesis using Suc.prems k by (auto simp: upt_head [OF k])
  next
    case True
    then obtain b rest where src: "src = b # rest" using Suc.prems(2) by (cases src) auto
    let ?v = "if b \<noteq> 0 then v OR push_bit k 1 else v AND NOT (push_bit k 1)"
    have bit_v: "bit ?v i = (if i = k then b \<noteq> 0 else bit v i)" for i using bit_u8_set [of "b \<noteq> 0" v k i] k by simp
    define m' where "m' = min (8 - Suc k) (nb - Suc bc)"
    have m: "m = Suc m'" using Suc.prems(3) True k unfolding m'_def by linarith
    have "x = 8 - Suc k" "Suc k \<le> 8" "nb - Suc bc \<le> length rest" using Suc.hyps(2) k Suc.prems(2) src by auto
    from Suc.hyps(1) [OF this m'_def, of ?v] obtain v' where
      v: "pack_byte [Suc k..<8] (Suc bc) nb rest ?v = Some (v', drop m' rest, if m' = 8 - Suc k then Suc bc + m' else Suc bc + m' + 1)"
      "\<forall>i. bit v' i = (if Suc k \<le> i \<and> i < Suc k + m' then rest ! (i - Suc k) \<noteq> 0 else bit ?v i)"
      by blast
    have "bit v' i = (if k \<le> i \<and> i < k + m then src ! (i - k) \<noteq> 0 else bit v i)" for i
      using v(2) [rule_format, of i] bit_v [of i] by (cases "i = k"; cases "k < i") (auto simp: m src nth_Cons' not_less)
    moreover have "(if m' = 8 - Suc k then Suc bc + m' else Suc bc + m' + 1) = (if m = 8 - k then bc + m else bc + m + 1)"
      using m k by auto
    then have "pack_byte [k..<8] bc nb src v = Some (v', drop m src, if m = 8 - k then bc + m else bc + m + 1)"
      using v(1) True by (simp only: upt_head [OF k] src pack_byte.simps if_True list.case m drop_Suc_Cons)
    ultimately show ?thesis by blast
  qed
qed (auto simp: Suc_diff_le)

lemma pack_bytes_bits:
  assumes "nb - bc \<le> length src" "bc \<le> nb" "n = bit_bytes (nb - bc)"
  shows "\<exists>vs. pack_bytes n bc nb src = Some vs \<and> length vs = n \<and>
    (\<forall>i < nb - bc. bit (vs ! (i div 8)) (i mod 8) = (src ! i \<noteq> 0))"
  using assms
proof (induction n arbitrary: bc src)
  case 0
  then show ?case by (auto simp: bit_bytes_def split: if_splits)
next
  case (Suc n)
  define m where "m = min (8 - 0) (nb - bc)"
  obtain v where v: "pack_byte [0..<8] bc nb src 0 = Some (v, drop m src, if m = 8 - 0 then bc + m else bc + m + 1)"
    "\<forall>i. bit v i = (if 0 \<le> i \<and> i < 0 + m then src ! (i - 0) \<noteq> 0 else bit (0 :: u8) i)"
    using pack_byte_bits [of 0 nb bc src m 0] Suc.prems(1) m_def by auto
  show ?case
  proof (cases "8 \<le> nb - bc")
    case True
    then have m: "m = 8" by (simp add: m_def)
    have n: "n = bit_bytes (nb - (bc + 8))" using Suc.prems(3) True by (simp add: bit_bytes_eq)
    have "nb - (bc + 8) \<le> length (drop 8 src)" "bc + 8 \<le> nb" using Suc.prems True by auto
    from Suc.IH [OF this n] obtain vs where vs: "pack_bytes n (bc + 8) nb (drop 8 src) = Some vs" "length vs = n"
      "\<forall>i < nb - (bc + 8). bit (vs ! (i div 8)) (i mod 8) = (drop 8 src ! i \<noteq> 0)" by blast
    have "bit ((v # vs) ! (i div 8)) (i mod 8) = (src ! i \<noteq> 0)" if "i < nb - bc" for i
    proof (cases "i < 8")
      case True
      then show ?thesis using v(2) m by simp
    next
      case False
      then obtain i' where i: "i = i' + 8" using le_Suc_ex [of 8 i] by (auto simp: add.commute)
      moreover have "(i' + 8) div 8 = Suc (i' div 8)" by simp
      ultimately show ?thesis using vs(3) [rule_format, of i'] that Suc.prems(1) by (simp add: add.commute)
    qed
    then show ?thesis using v(1) vs m by (intro exI [of _ "v # vs"]) simp
  next
    case False
    then have "n = 0" "m = nb - bc" using Suc.prems(3) by (auto simp: bit_bytes_eq m_def)
    then show ?thesis using v False Suc.prems(2) by (intro exI [of _ "[v]"]) auto
  qed
qed

lemma float_roundtrip: "modbus_get_float (modbus_set_float f) = f"
proof -
  have "push_bit 16 (ucast (ucast (drop_bit 16 f) :: u16)) + ucast (ucast f :: u16) = f"
    by (subst disjunctive_add_eq_or) (auto intro!: bit_word_eqI simp: bit_simps)
  then show ?thesis by (simp add: modbus_get_float_def modbus_set_float_def)
qed

section \<open>Unpacking\<close>

lemma set_bits_loop_bits:
  assumes "index + k + n \<le> length dest" "k + n \<le> 8 * length tab"
  shows "\<exists>r. set_bits_loop dest index k (k mod 8) n tab = Some r \<and> length r = length dest \<and>
    (\<forall>j. r ! j = (if index + k \<le> j \<and> j < index + k + n then bit_u8 (bit (tab ! ((j - index) div 8)) ((j - index) mod 8)) else dest ! j))"
  using assms
proof (induction n arbitrary: k dest)
  case (Suc n)
  let ?dest = "dest[index + k := bit_u8 (bit (tab ! (k div 8)) (k mod 8))]"
  have ok: "k div 8 < length tab" "index + k < length dest" using Suc.prems by (auto simp: less_mult_imp_div_less)
  obtain r where r: "set_bits_loop ?dest index (Suc k) (Suc k mod 8) n tab = Some r" "length r = length dest"
    "\<forall>j. r ! j = (if index + Suc k \<le> j \<and> j < index + Suc k + n then bit_u8 (bit (tab ! ((j - index) div 8)) ((j - index) mod 8)) else ?dest ! j)"
    using Suc.IH [of "Suc k" ?dest] Suc.prems by auto
  have "r ! j = (if index + k \<le> j \<and> j < index + k + Suc n then bit_u8 (bit (tab ! ((j - index) div 8)) ((j - index) mod 8)) else dest ! j)" for j
    using r(3) ok by (cases "j = index + k") auto
  then show ?case using r(1,2) ok by (simp add: mod_Suc_eq)
qed auto

lemma set_bits:
  assumes "index + n \<le> length dest" "n \<le> 8 * length tab"
  shows "\<exists>r. modbus_set_bits_from_bytes dest index n tab = Some r \<and> length r = length dest \<and>
    (\<forall>j. r ! j = (if index \<le> j \<and> j < index + n then bit_u8 (bit (tab ! ((j - index) div 8)) ((j - index) mod 8)) else dest ! j))"
  using set_bits_loop_bits [of index 0 n dest tab] assms by (simp add: modbus_set_bits_from_bytes_def)

lemma io_byte_bits:
  assumes "k \<le> 8" "nb \<le> length dest" "m = min (8 - k) (nb - pos)"
  shows "\<exists>d. io_byte v [k..<8] pos nb dest = Some (pos + m, d) \<and> length d = length dest \<and>
    (\<forall>j. d ! j = (if pos \<le> j \<and> j < pos + m then bit_u8 (bit v (k + (j - pos))) else dest ! j))"
  using assms
proof (induction "8 - k" arbitrary: k pos dest m)
  case (Suc x)
  then have k: "k < 8" by simp
  show ?case
  proof (cases "pos < nb")
    case False
    then show ?thesis using Suc.prems by (auto simp: upt_head [OF k])
  next
    case True
    let ?dest = "dest[pos := bit_u8 (bit v k)]"
    define m' where "m' = min (8 - Suc k) (nb - Suc pos)"
    have m: "m = Suc m'" using Suc.prems(3) True k unfolding m'_def by linarith
    have p: "pos < length dest" using True Suc.prems(2) by simp
    have "x = 8 - Suc k" "Suc k \<le> 8" "nb \<le> length ?dest" using Suc.hyps(2) k Suc.prems(2) by auto
    from Suc.hyps(1) [OF this m'_def] obtain d where
      d: "io_byte v [Suc k..<8] (Suc pos) nb ?dest = Some (Suc pos + m', d)" "length d = length ?dest"
      "\<forall>j. d ! j = (if Suc pos \<le> j \<and> j < Suc pos + m' then bit_u8 (bit v (Suc k + (j - Suc pos))) else ?dest ! j)"
      by blast
    have "d ! j = (if pos \<le> j \<and> j < pos + m then bit_u8 (bit v (k + (j - pos))) else dest ! j)" for j
      using d(3) p by (cases "j = pos") (auto simp: m Suc_diff_Suc)
    then show ?thesis using d(1,2) True p m by (simp add: upt_head [OF k])
  qed
qed auto

lemma io_status_bits:
  assumes "nb \<le> length dest" "i + n \<le> length rsp" "nb - pos \<le> 8 * n" "pos \<le> nb"
  shows "\<exists>d. io_status_loop rsp i n pos nb dest = Some d \<and> length d = length dest \<and>
    (\<forall>j. d ! j = (if pos \<le> j \<and> j < nb then bit_u8 (bit (rsp ! (i + (j - pos) div 8)) ((j - pos) mod 8)) else dest ! j))"
  using assms
proof (induction n arbitrary: i pos dest)
  case (Suc n)
  define m where "m = min (8 - 0) (nb - pos)"
  obtain d where d: "io_byte (rsp ! i) [0..<8] pos nb dest = Some (pos + m, d)" "length d = length dest"
    "\<forall>j. d ! j = (if pos \<le> j \<and> j < pos + m then bit_u8 (bit (rsp ! i) (0 + (j - pos))) else dest ! j)"
    using io_byte_bits [of 0 nb dest m pos "rsp ! i"] Suc.prems(1) m_def by auto
  have rest: "nb - (pos + m) \<le> 8 * n" "pos + m \<le> nb" using Suc.prems(3,4) by (auto simp: m_def)
  obtain r where r: "io_status_loop rsp (Suc i) n (pos + m) nb d = Some r" "length r = length d"
    "\<forall>j. r ! j = (if pos + m \<le> j \<and> j < nb then bit_u8 (bit (rsp ! (Suc i + (j - (pos + m)) div 8)) ((j - (pos + m)) mod 8)) else d ! j)"
    using Suc.IH [of d "Suc i" "pos + m"] Suc.prems d(2) rest by auto
  have "r ! j = (if pos \<le> j \<and> j < nb then bit_u8 (bit (rsp ! (i + (j - pos) div 8)) ((j - pos) mod 8)) else dest ! j)" for j
  proof (cases "pos + m \<le> j \<and> j < nb")
    case True
    then have m: "m = 8" by (auto simp: m_def)
    then obtain x where "j = pos + 8 + x" using True le_Suc_ex by blast
    moreover have "(8 + x) div 8 = Suc (x div 8)" by simp
    ultimately show ?thesis using True r(3) m by simp
  next
    case False
    then have "j - pos < 8" if "pos \<le> j" "j < nb" using that by (auto simp: m_def)
    then show ?thesis using False r(3) d(3) by (auto simp: m_def)
  qed
  then show ?case using d r Suc.prems(2) by auto
qed auto

text \<open>The answer packs entries that are 0 or 1.\<close>

definition bits01 :: "u8 list \<Rightarrow> bool" where
  "bits01 bs \<longleftrightarrow> (\<forall>b\<in>set bs. b = 0 \<or> b = 1)"

lemma shift8: "(8 + i) div 8 = Suc (i div 8)" "(8 + i) mod 8 = i mod (8 :: nat)"
  by simp_all

lemma io_bytes_bits:
  assumes "bits01 bs" "shift \<le> 7" "\<forall>i\<ge>shift. \<not> bit byte i"
  shows "length (io_bytes bs shift byte) = (shift + length bs + 7) div 8 \<and>
    (\<forall>i < shift + length bs. bit (io_bytes bs shift byte ! (i div 8)) (i mod 8) = (if i < shift then bit byte i else bs ! (i - shift) = 1))"
  using assms
proof (induction bs arbitrary: shift byte)
  case Nil
  then show ?case by (auto simp: bit_simps)
next
  case (Cons b bs)
  let ?byte = "byte OR push_bit shift (uint b)"
  have b: "uint b = of_bool (b = 1)" "bits01 bs" using Cons.prems(1) by (auto simp: bits01_def)
  have bit: "bit ?byte i = (if i = shift then b = 1 else bit byte i)" for i
    using Cons.prems(3) by (auto simp: b(1) bit_or_iff bit_push_bit_iff bit_of_bool_iff)
  show ?case
  proof (cases "shift = 7")
    case False
    then have "Suc shift \<le> 7" "\<forall>i\<ge>Suc shift. \<not> bit ?byte i" using Cons.prems(2,3) bit by auto
    from Cons.IH [OF b(2) this] show ?thesis
      using False by (auto simp: bit nth_Cons' less_Suc_eq_le simp del: bit_or_iff split: if_splits)
  next
    case True
    have IH: "length (io_bytes bs 0 0) = (length bs + 7) div 8"
      "\<forall>i < length bs. bit (io_bytes bs 0 0 ! (i div 8)) (i mod 8) = (bs ! i = 1)"
      using Cons.IH [OF b(2), of 0 0] by simp_all
    have "bit ((word_of_int ?byte # io_bytes bs 0 0) ! (i div 8)) (i mod 8) = (if i < 7 then bit byte i else (b # bs) ! (i - 7) = 1)"
      if "i < 8 + length bs" for i
    proof (cases "i < 8")
      case t: True
      then have "bit (word_of_int ?byte :: u8) i = bit ?byte i" by (simp add: bit_word_of_int_iff)
      then show ?thesis using t bit [of i] by (simp add: True)
    next
      case False
      then obtain j where "i = 8 + j" using le_Suc_ex [of 8 i] by auto
      then show ?thesis using IH(2) [rule_format, of j] that shift8 [of j] by simp
    qed
    then show ?thesis using IH(1) True by simp
  qed
qed

lemma response_bits:
  assumes "address + nb \<le> length tab" "bits01 (take nb (drop address tab))"
  shows "\<exists>bs. response_io_status address nb tab = Some bs \<and> length bs = bit_bytes nb \<and>
    (\<forall>i < nb. bit (bs ! (i div 8)) (i mod 8) = (tab ! (address + i) = 1))"
  using assms(1) io_bytes_bits [OF assms(2), of 0 0] by (simp add: response_io_status_def bit_bytes_eq)

section \<open>Master and old slave\<close>

lemma old_served:
  assumes "a < 65536" "n < 65536" "1 \<le> unat sl"
  shows "modbus_reply_old Backend_rtu link (rtu_header sl f a n @ rest) len sends m s =
    do { (rsp, m, s) \<leftarrow> reply_function_old Backend_rtu \<lparr>sft_slave = unat sl, sft_function = unat f, sft_t_id = 0\<rparr>
           (rtu_header sl f a n @ rest) (len - 2) (old_address (unat sl) a) m s;
         case rsp of
           None \<Rightarrow> Some (-1, None, m, s)
         | Some rsp \<Rightarrow> if \<not> fits Backend_rtu rsp then None else do {
             (rc, msg) \<leftarrow> send_msg Backend_rtu link rsp sends;
             Some (rc, Some msg, m, s) } }"
  using header_fields [of Backend_rtu "[]", OF _ assms(1,2), of sl f rest] assms(3)
  by (simp add: modbus_reply_old_def Let_def prepare_response_tid_def pre_of_def)

lemma bit_bytes_count: "n \<le> 2000 \<Longrightarrow> unat (of_nat (bit_bytes n) :: u8) = bit_bytes n"
  by (simp add: bit_bytes_eq)

lemma coils_confirmed:
  assumes "n < 65536"
  shows "check_confirmation Backend_rtu (rtu_header w 15 a n @ rest) (rtu_header w 15 a n @ x) 8 = Some (Inr n)"
proof -
  have "n div 256 < 256" using assms by auto
  then have n: "n div 256 mod 256 = n div 256" by simp
  have "compute_response_length_from_request Backend_rtu (rtu_header w 15 a n @ rest) = Some 8"
    by (simp add: compute_response_length_from_request_def rtu_header_def Let_def)
  moreover have "conf_values 1 15 (rtu_header w 15 a n @ rest) (rtu_header w 15 a n @ x) = Some (n, n)"
    by (simp add: conf_values_def rtu_header_def n)
  ultimately show ?thesis
    by (simp add: check_confirmation_def pre_check_confirmation_def rtu_header_def Let_def)
qed

lemma bits_confirmed:
  assumes "n \<le> 2000" "length data = bit_bytes n" "length x = 2"
  shows "check_confirmation Backend_rtu (rtu_header w 1 a n) ([w, 1, of_nat (bit_bytes n)] @ data @ x) (int (5 + bit_bytes n)) =
    Some (Inr (bit_bytes n))"
proof -
  have "n div 256 < 256" using assms(1) by auto
  then have n: "n div 256 mod 256 * 256 + n mod 256 = n" by simp
  have "compute_response_length_from_request Backend_rtu (rtu_header w 1 a n) = Some (int (5 + bit_bytes n))"
    using n by (simp add: compute_response_length_from_request_def rtu_header_def Let_def bit_bytes_def)
  moreover have "conf_values 1 1 (rtu_header w 1 a n) ([w, 1, of_nat (bit_bytes n)] @ data @ x) = Some (bit_bytes n, bit_bytes n)"
    using n bit_bytes_count [OF assms(1)] by (simp add: conf_values_def rtu_header_def Let_def) (simp add: bit_bytes_def)
  ultimately show ?thesis
    by (simp add: check_confirmation_def pre_check_confirmation_def rtu_header_def Let_def)
qed

text \<open>The request of a master to write bits, and what the slave does with it.\<close>

definition bits_request :: "u8 \<Rightarrow> nat \<Rightarrow> u8 list \<Rightarrow> u8 list" where
  "bits_request w a vs =
     rtu_header w 15 a (length vs) @ [of_nat (bit_bytes (length vs))] @ the (pack_bytes (bit_bytes (length vs)) 0 (length vs) vs)"

lemma packed:
  obtains bytes where "pack_bytes (bit_bytes (length vs)) 0 (length vs) vs = Some bytes" "length bytes = bit_bytes (length vs)"
    "\<forall>i < length vs. bit (bytes ! (i div 8)) (i mod 8) = (vs ! i \<noteq> 0)"
  using pack_bytes_bits [of "length vs" 0 vs "bit_bytes (length vs)"] by auto

lemma old_writes_bits:
  assumes "1 \<le> unat w" "1 \<le> length vs" "length vs \<le> 1968" "a < 65536"
    and "old_address (unat w) a + length vs \<le> length (tab_bits m)"
  shows "\<exists>bits. modbus_reply_old Backend_rtu False (rtu_send_msg_pre (bits_request w a vs)) len [8] m s =
      Some (8, Some (rtu_send_msg_pre (rtu_header w 15 a (length vs))), m\<lparr>tab_bits := bits\<rparr>, s) \<and>
    length bits = length (tab_bits m) \<and>
    (\<forall>j. bits ! j = (if old_address (unat w) a \<le> j \<and> j < old_address (unat w) a + length vs
       then bit_u8 (vs ! (j - old_address (unat w) a) \<noteq> 0) else tab_bits m ! j))"
proof -
  let ?n = "length vs" and ?A = "old_address (unat w) a"
  obtain bytes where b: "pack_bytes (bit_bytes ?n) 0 ?n vs = Some bytes" "length bytes = bit_bytes ?n"
    "\<forall>i < ?n. bit (bytes ! (i div 8)) (i mod 8) = (vs ! i \<noteq> 0)" by (rule packed)
  let ?body = "bits_request w a vs"
  let ?x = "[fst (crc_pair ?body), snd (crc_pair ?body)]"
  have req: "rtu_send_msg_pre ?body = rtu_header w 15 a ?n @ ([of_nat (bit_bytes ?n)] @ bytes @ ?x)"
    unfolding rtu_seal by (simp add: bits_request_def b(1))
  have "?n \<le> 8 * length (bytes @ ?x)" by (simp add: b(2) bit_bytes_eq)
  from set_bits [OF assms(5) this] obtain r where r: "modbus_set_bits_from_bytes (tab_bits m) ?A ?n (bytes @ ?x) = Some r"
    "length r = length (tab_bits m)"
    "\<forall>j. r ! j = (if ?A \<le> j \<and> j < ?A + ?n then bit_u8 (bit ((bytes @ ?x) ! ((j - ?A) div 8)) ((j - ?A) mod 8)) else tab_bits m ! j)"
    by blast
  have d: "drop (header_length Backend_rtu + 6) (rtu_send_msg_pre ?body) = bytes @ ?x"
    unfolding req by (simp add: rtu_header_def)
  have "r ! j = (if ?A \<le> j \<and> j < ?A + ?n then bit_u8 (vs ! (j - ?A) \<noteq> 0) else tab_bits m ! j)" for j
  proof (cases "?A \<le> j \<and> j < ?A + ?n")
    case True
    then have "j - ?A < ?n" by auto
    moreover from this have "(j - ?A) div 8 < length bytes" using bit_bytes_le [of "j - ?A" ?n] by (simp add: b(2))
    ultimately show ?thesis using True r(3) b(3) by (simp add: nth_append)
  next
    case False
    then show ?thesis using r(3) [rule_format, of j] by (simp only: if_False)
  qed
  moreover have rsp: "build_response_basis Backend_rtu \<lparr>sft_slave = unat w, sft_function = 15, sft_t_id = 0\<rparr> @
      take 4 (drop 2 (rtu_send_msg_pre ?body)) = rtu_header w 15 a ?n"
    unfolding req by (simp add: build_response_basis_def rtu_header_def)
  have lim: "\<not> (?n < 1 \<or> 1968 < ?n)" "\<not> length (tab_bits m) < ?A + ?n" using assms(2,3,5) by linarith+
  have basis: "build_response_basis Backend_rtu \<lparr>sft_slave = unat w, sft_function = 15, sft_t_id = 0\<rparr> = [w, 15]"
    by (simp add: build_response_basis_def)
  have "old_write_bits Backend_rtu \<lparr>sft_slave = unat w, sft_function = 15, sft_t_id = 0\<rparr> (rtu_send_msg_pre ?body) ?A ?n m =
      Some (rtu_header w 15 a ?n, m\<lparr>tab_bits := r\<rparr>)"
    using lim rsp unfolding old_write_bits_def d r(1) coil_limits basis
    by (simp only: if_False bind.simps Let_def) (simp add: numeral_2_eq_2 [symmetric])
  then have "reply_function_old Backend_rtu \<lparr>sft_slave = unat w, sft_function = unat (15 :: u8), sft_t_id = 0\<rparr>
      (rtu_send_msg_pre ?body) (len - 2) ?A m s = Some (Some (rtu_header w 15 a ?n), m\<lparr>tab_bits := r\<rparr>, s)"
    using header_fields(5,6) [of Backend_rtu "[]" a ?n w 15 "[of_nat (bit_bytes ?n)] @ bytes @ ?x"] assms(3,4)
    unfolding req by (simp add: reply_function_old_def Let_def fc_defs coil_functions pre_of_def)
  moreover have "fits Backend_rtu (rtu_header w 15 a ?n)" by (simp add: fits_def rtu_header_def coil_limits)
  moreover have "int (length (send_msg_pre Backend_rtu (rtu_header w 15 a ?n))) = 8" by (simp add: rtu_seal rtu_header_def)
  ultimately show ?thesis
    using old_served [of a ?n w False 15 "[of_nat (bit_bytes ?n)] @ bytes @ ?x" len "[8]" m s, folded req] assms(1,3,4) r(2)
      send_ok [of Backend_rtu False "rtu_header w 15 a ?n"]
    by (intro exI [of _ r]) simp
qed

lemma old_reads_bits:
  assumes "1 \<le> unat w" "1 \<le> n" "n \<le> 2000" "a < 65536" "old_address (unat w) a + n \<le> length (tab_bits m)"
    and "bits01 (take n (drop (old_address (unat w) a) (tab_bits m)))"
  shows "\<exists>bs. modbus_reply_old Backend_rtu False (rtu_send_msg_pre (rtu_header w 1 a n)) 8 [int (5 + bit_bytes n)] m s =
      Some (int (5 + bit_bytes n), Some (rtu_send_msg_pre ([w, 1, of_nat (bit_bytes n)] @ bs)), m, s) \<and>
    length bs = bit_bytes n \<and> (\<forall>i < n. bit (bs ! (i div 8)) (i mod 8) = (tab_bits m ! (old_address (unat w) a + i) = 1))"
proof -
  let ?A = "old_address (unat w) a"
  obtain bs where bs: "response_io_status ?A n (tab_bits m) = Some bs" "length bs = bit_bytes n"
    "\<forall>i < n. bit (bs ! (i div 8)) (i mod 8) = (tab_bits m ! (?A + i) = 1)"
    using response_bits [OF assms(5,6)] by blast
  let ?rsp = "[w, 1, of_nat (bit_bytes n)] @ bs"
  let ?x = "[fst (crc_pair (rtu_header w 1 a n)), snd (crc_pair (rtu_header w 1 a n))]"
  have req: "rtu_send_msg_pre (rtu_header w 1 a n) = rtu_header w 1 a n @ ?x" unfolding rtu_seal by simp
  have "bit_bytes n \<le> 250" using assms(3) by (simp add: bit_bytes_eq)
  then have fits: "fits Backend_rtu ?rsp" by (simp add: fits_def bs(2) coil_limits)
  have "old_read_bits Backend_rtu \<lparr>sft_slave = unat w, sft_function = 1, sft_t_id = 0\<rparr> ?A n (tab_bits m) = Some ?rsp"
    using assms(2,3,5) bs(1) by (simp add: old_read_bits_def coil_limits build_response_basis_def)
  then have fn: "reply_function_old Backend_rtu \<lparr>sft_slave = unat w, sft_function = unat (1 :: u8), sft_t_id = 0\<rparr>
      (rtu_send_msg_pre (rtu_header w 1 a n)) (8 - 2) ?A m s = Some (Some ?rsp, m, s)"
    using header_fields(5,6) [of Backend_rtu "[]" a n w 1 ?x] assms(3,4)
    unfolding req by (simp add: reply_function_old_def Let_def fc_defs coil_functions pre_of_def)
  have "int (length (send_msg_pre Backend_rtu ?rsp)) = int (5 + bit_bytes n)" by (simp add: rtu_seal bs(2))
  then show ?thesis
    using old_served [of a n w False 1 ?x 8 "[int (5 + bit_bytes n)]" m s, folded req] assms(1,3,4) fn fits bs
      send_ok [of Backend_rtu False ?rsp]
    by (intro exI [of _ bs]) simp
qed

text \<open>The master with the answers.\<close>

lemma bits_written:
  assumes "rtu_master c w" "length vs \<le> 1968" "stream_of chunks = rtu_send_msg_pre (rtu_header w 15 a (length vs)) @ junk"
  shows "modbus_write_bits c (int a) (length vs) vs [int (9 + bit_bytes (length vs))] chunks =
    Some (Answer (length vs) (rtu_send_msg_pre (rtu_header w 15 a (length vs))), rtu_send_msg_pre (bits_request w a vs))"
proof -
  let ?n = "length vs" and ?rsp = "rtu_header w 15 a (length vs)"
  obtain bytes where b: "pack_bytes (bit_bytes ?n) 0 ?n vs = Some bytes" "length bytes = bit_bytes ?n" by (rule packed)
  have body: "bits_request w a vs = ?rsp @ [of_nat (bit_bytes ?n)] @ bytes" by (simp add: bits_request_def b(1))
  have c: "backend_of c = Backend_rtu" using assms(1) by (simp add: rtu_master_def)
  have shape: "response_shape ?rsp" by (simp add: rtu_header_def fc_defs)
  have l: "length ?rsp = 6" "length (bits_request w a vs) = 7 + bit_bytes ?n" by (simp_all add: rtu_header_def body b(2))
  have "check_confirmation Backend_rtu (bits_request w a vs) (rtu_send_msg_pre ?rsp) (int (length ?rsp + 2)) = Some (Inr ?n)"
    using coils_confirmed [of ?n w a] assms(2) l unfolding rtu_seal body by simp
  from rtu_answer [OF shape _ assms(3) this c] l
  have "request_response c (bits_request w a vs) [int (9 + bit_bytes ?n)] chunks =
      Some (Answer ?n (rtu_send_msg_pre ?rsp), rtu_send_msg_pre (bits_request w a vs))"
    by (simp add: rtu_seal)
  then show ?thesis
    using assms(2) by (simp add: modbus_write_bits_def coil_limits master_request [OF assms(1)] fc_defs b(1) body)
qed

lemma bits_read:
  assumes "rtu_master c w" "1 \<le> n" "n \<le> 2000" "n \<le> length dest" "length bs = bit_bytes n"
    and "stream_of chunks = rtu_send_msg_pre ([w, 1, of_nat (bit_bytes n)] @ bs) @ junk"
  shows "modbus_read_bits c (int a) (int n) dest [8] chunks =
    Some (int n, map (\<lambda>i. bit_u8 (bit (bs ! (i div 8)) (i mod 8))) [0..<n] @ drop n dest, rtu_send_msg_pre (rtu_header w 1 a n))"
proof -
  let ?body = "[w, 1, of_nat (bit_bytes n)] @ bs"
  let ?x = "[fst (crc_pair ?body), snd (crc_pair ?body)]"
  have c: "backend_of c = Backend_rtu" using assms(1) by (simp add: rtu_master_def)
  have b: "bit_bytes n \<le> 250" using assms(3) by (simp add: bit_bytes_eq)
  then have shape: "response_shape ?body" using bit_bytes_count [OF assms(3)] assms(5) by (simp add: fc_defs)
  have seal: "rtu_send_msg_pre ?body = [w, 1, of_nat (bit_bytes n)] @ bs @ ?x" unfolding rtu_seal by simp
  have "check_confirmation Backend_rtu (rtu_header w 1 a n) (rtu_send_msg_pre ?body) (int (length ?body + 2)) = Some (Inr (bit_bytes n))"
    unfolding seal using bits_confirmed [OF assms(3,5), of ?x w a] by (simp add: assms(5) add.commute)
  from rtu_answer [OF shape _ assms(6) this c] b assms(5)
  have ans: "request_response c (rtu_header w 1 a n) [8] chunks =
      Some (Answer (bit_bytes n) (rtu_send_msg_pre ?body), rtu_send_msg_pre (rtu_header w 1 a n))"
    by (simp add: rtu_seal) (simp add: rtu_header_def)
  have le: "3 + bit_bytes n \<le> length (rtu_send_msg_pre ?body)" "n - 0 \<le> 8 * bit_bytes n" "0 \<le> n"
    by (simp_all add: rtu_seal assms(5) bit_bytes_eq)
  obtain d where d: "io_status_loop (rtu_send_msg_pre ?body) 3 (bit_bytes n) 0 n dest = Some d" "length d = length dest"
    "\<forall>j. d ! j = (if 0 \<le> j \<and> j < n then bit_u8 (bit (rtu_send_msg_pre ?body ! (3 + (j - 0) div 8)) ((j - 0) mod 8)) else dest ! j)"
    using io_status_bits [OF assms(4) le] by blast
  have "d = map (\<lambda>i. bit_u8 (bit (bs ! (i div 8)) (i mod 8))) [0..<n] @ drop n dest"
  proof (rule nth_equalityI)
    fix j assume "j < length d"
    have "rtu_send_msg_pre ?body ! (3 + j div 8) = bs ! (j div 8)" if "j < n"
      unfolding seal using bit_bytes_le [OF that] assms(5) by (simp add: nth_append)
    then show "d ! j = (map (\<lambda>i. bit_u8 (bit (bs ! (i div 8)) (i mod 8))) [0..<n] @ drop n dest) ! j"
      using d(3) assms(4) by (simp add: nth_append)
  qed (use d(2) assms(4) in simp)
  moreover have "int (bit_bytes n) \<noteq> -1" by simp
  ultimately show ?thesis
    using assms(3) ans d(1) c
    by (simp add: modbus_read_bits_def read_bits_by_def read_io_status_def coil_limits coil_functions
      master_request [OF assms(1)] answer_rc_def numeral_3_eq_3 [symmetric])
qed

text \<open>
  C19. Coils over a serial line. The bits that \<^verbatim>\<open>modbus_write_bits\<close> is given, any number
  that the protocol allows, end in the coils of the slave, from the address of the slave on and as 0 or
  1, and no other coil changes; \<^verbatim>\<open>modbus_read_bits\<close> then gives the master the same
  bits back, and both calls return what they should.
\<close>

theorem coils_roundtrip:
  assumes "rtu_master c w" "1 \<le> length vs" "length vs \<le> 1968" "a < 65536" "length vs \<le> length dest"
    and "a + (unat w - 1) * 10000 + length vs \<le> length (tab_bits m)"
  shows "\<exists>req rsp bits rsp'. let n = length vs; A = a + (unat w - 1) * 10000; k = int (5 + bit_bytes n) in
    modbus_reply_old Backend_rtu False req (int (length req)) [8] m s = Some (8, Some rsp, m\<lparr>tab_bits := bits\<rparr>, s) \<and>
    (\<forall>chunks junk. stream_of chunks = rsp @ junk \<longrightarrow>
      modbus_write_bits c (int a) n vs [int (length req)] chunks = Some (Answer n rsp, req)) \<and>
    length bits = length (tab_bits m) \<and>
    (\<forall>j. bits ! j = (if A \<le> j \<and> j < A + n then bit_u8 (vs ! (j - A) \<noteq> 0) else tab_bits m ! j)) \<and>
    modbus_reply_old Backend_rtu False (rtu_send_msg_pre (rtu_header w 1 a n)) 8 [k] (m\<lparr>tab_bits := bits\<rparr>) s =
      Some (k, Some rsp', m\<lparr>tab_bits := bits\<rparr>, s) \<and>
    (\<forall>chunks junk. stream_of chunks = rsp' @ junk \<longrightarrow>
      modbus_read_bits c (int a) (int n) dest [8] chunks =
        Some (int n, map (\<lambda>v. bit_u8 (v \<noteq> 0)) vs @ drop n dest, rtu_send_msg_pre (rtu_header w 1 a n)))"
proof -
  let ?n = "length vs" and ?req = "rtu_send_msg_pre (bits_request w a vs)" and ?A = "old_address (unat w) a"
  have w: "1 \<le> unat w" "unat w \<le> 8" using assms(1) by (simp_all add: rtu_master_def)
  have A: "?A = a + (unat w - 1) * 10000" using w(2) by (simp add: old_address_def RTU_MAX_WELL_NUM_def modbus_limits)
  obtain bytes where b: "pack_bytes (bit_bytes ?n) 0 ?n vs = Some bytes" "length bytes = bit_bytes ?n" by (rule packed)
  have l: "length ?req = 9 + bit_bytes ?n" by (simp add: rtu_seal bits_request_def b rtu_header_def)
  obtain bits where wr: "modbus_reply_old Backend_rtu False ?req (int (length ?req)) [8] m s =
      Some (8, Some (rtu_send_msg_pre (rtu_header w 15 a ?n)), m\<lparr>tab_bits := bits\<rparr>, s)"
    and bits: "length bits = length (tab_bits m)"
      "\<forall>j. bits ! j = (if ?A \<le> j \<and> j < ?A + ?n then bit_u8 (vs ! (j - ?A) \<noteq> 0) else tab_bits m ! j)"
    using old_writes_bits [OF w(1) assms(2-4), of m "int (length ?req)" s] assms(6) A by auto
  have part: "take ?n (drop ?A bits) = map (\<lambda>v. bit_u8 (v \<noteq> 0)) vs"
    by (rule nth_equalityI) (use bits assms(6) A in auto)
  have "bits01 (take ?n (drop ?A bits))" unfolding part by (auto simp: bits01_def bit_u8_def)
  then obtain bs where rd: "modbus_reply_old Backend_rtu False (rtu_send_msg_pre (rtu_header w 1 a ?n)) 8 [int (5 + bit_bytes ?n)]
        (m\<lparr>tab_bits := bits\<rparr>) s =
      Some (int (5 + bit_bytes ?n), Some (rtu_send_msg_pre ([w, 1, of_nat (bit_bytes ?n)] @ bs)), m\<lparr>tab_bits := bits\<rparr>, s)"
    and bs: "length bs = bit_bytes ?n" "\<forall>i < ?n. bit (bs ! (i div 8)) (i mod 8) = (bits ! (?A + i) = 1)"
    using old_reads_bits [OF w(1) assms(2) _ assms(4), of "m\<lparr>tab_bits := bits\<rparr>" s] assms(3,6) A bits(1) by auto
  have same: "map (\<lambda>i. bit_u8 (bit (bs ! (i div 8)) (i mod 8))) [0..<?n] = map (\<lambda>v. bit_u8 (v \<noteq> 0)) vs"
    by (rule nth_equalityI) (use bs(2) bits(2) in \<open>auto simp: bit_u8_def\<close>)
  have m1: "modbus_write_bits c (int a) ?n vs [int (length ?req)] chunks = Some (Answer ?n (rtu_send_msg_pre (rtu_header w 15 a ?n)), ?req)"
    if "stream_of chunks = rtu_send_msg_pre (rtu_header w 15 a ?n) @ junk" for chunks junk
    using bits_written [OF assms(1,3) that] l by simp
  have m2: "modbus_read_bits c (int a) (int ?n) dest [8] chunks =
      Some (int ?n, map (\<lambda>v. bit_u8 (v \<noteq> 0)) vs @ drop ?n dest, rtu_send_msg_pre (rtu_header w 1 a ?n))"
    if "stream_of chunks = rtu_send_msg_pre ([w, 1, of_nat (bit_bytes ?n)] @ bs) @ junk" for chunks junk
    using bits_read [OF assms(1,2) _ assms(5) bs(1) that] assms(3) same by simp
  show ?thesis
    unfolding Let_def A [symmetric] using wr m1 bits rd m2
    by (intro exI [of _ ?req] exI [of _ "rtu_send_msg_pre (rtu_header w 15 a ?n)"] exI [of _ bits]
      exI [of _ "rtu_send_msg_pre ([w, 1, of_nat (bit_bytes ?n)] @ bs)"]) blast
qed

lemma old_sends:
  assumes "modbus_reply_old Backend_rtu link req len sends m s = Some (k, Some rsp, m', s')"
  shows "stream_of [rsp] = rsp @ []"
  using assms
  by (auto simp: modbus_reply_old_def send_msg_def rtu_seal stream_of_def Let_def bind_eq_Some_conv split: if_splits option.splits)

definition mapping_demo :: mapping_t where
  "mapping_demo = \<lparr>tab_bits = replicate 10010 0, tab_input_bits = [], tab_input_registers = [], tab_registers = []\<rparr>"

theorem coils_roundtrip_witness:
  "\<exists>req rsp bits rsp' sent.
     modbus_reply_old Backend_rtu False req (int (length req)) [8] mapping_demo rtu_demo = Some (8, Some rsp, mapping_demo\<lparr>tab_bits := bits\<rparr>, rtu_demo) \<and>
     bits ! 10003 = 1 \<and> bits ! 10004 = 0 \<and> bits ! 10005 = 1 \<and> bits ! 3 = 0 \<and>
     modbus_read_bits \<lparr>backend_of = Backend_rtu, ctx_slave = 2, error_recovery_link = False, t_id = 0\<rparr> 3 3 [9, 9, 9, 9] [8] [rsp'] =
       Some (3, [1, 0, 1, 9], sent)"
proof -
  let ?c = "\<lparr>backend_of = Backend_rtu, ctx_slave = 2, error_recovery_link = False, t_id = 0\<rparr>"
  let ?vs = "[1, 0, 7] :: u8 list"
  have c: "rtu_master ?c 2" by (simp add: rtu_master_def)
  have k: "bit_bytes (length ?vs) = 1" by (simp add: bit_bytes_eq)
  have m: "length (tab_bits mapping_demo) = 10010" "tab_bits mapping_demo ! 3 = 0" by (simp_all add: mapping_demo_def)
  obtain req rsp bits rsp' where r: "modbus_reply_old Backend_rtu False req (int (length req)) [8] mapping_demo rtu_demo =
      Some (8, Some rsp, mapping_demo\<lparr>tab_bits := bits\<rparr>, rtu_demo)"
    and bits: "\<forall>j. bits ! j = (if 10003 \<le> j \<and> j < 10003 + length ?vs then bit_u8 (?vs ! (j - 10003) \<noteq> 0) else tab_bits mapping_demo ! j)"
    and r': "modbus_reply_old Backend_rtu False (rtu_send_msg_pre (rtu_header 2 1 3 (length ?vs))) 8 [int (5 + bit_bytes (length ?vs))]
        (mapping_demo\<lparr>tab_bits := bits\<rparr>) rtu_demo =
      Some (int (5 + bit_bytes (length ?vs)), Some rsp', mapping_demo\<lparr>tab_bits := bits\<rparr>, rtu_demo)"
    and rd: "\<forall>chunks junk. stream_of chunks = rsp' @ junk \<longrightarrow>
      modbus_read_bits ?c (int 3) (int (length ?vs)) [9, 9, 9, 9] [8] chunks =
        Some (int (length ?vs), map (\<lambda>v. bit_u8 (v \<noteq> 0)) ?vs @ drop (length ?vs) [9, 9, 9, 9], rtu_send_msg_pre (rtu_header 2 1 3 (length ?vs)))"
    using coils_roundtrip [OF c, of ?vs 3 "[9, 9, 9, 9]" mapping_demo rtu_demo] m(1) unfolding Let_def by auto
  have "modbus_read_bits ?c 3 3 [9, 9, 9, 9] [8] [rsp'] = Some (3, [1, 0, 1, 9], rtu_send_msg_pre (rtu_header 2 1 3 (length ?vs)))"
    using rd [rule_format, OF old_sends [OF r']] by (simp add: bit_u8_def)
  moreover have "bits ! 10003 = 1" "bits ! 10004 = 0" "bits ! 10005 = 1" "bits ! 3 = 0"
    using bits m(2) by (simp_all add: bit_u8_def)
  ultimately show ?thesis using r by blast
qed

text \<open>The buffer for an answer takes 127 registers, the limit that is tested is 1020.\<close>

lemma old_read_overflows:
  assumes "1 \<le> unat w" "128 \<le> n" "n \<le> 1020" "a < 65536" "old_address (unat w) a + n \<le> length (tab_registers m)"
  shows "modbus_reply_old Backend_rtu link (rtu_header w 3 a n @ rest) len sends m s = None"
proof -
  have "length (old_read_registers Backend_rtu \<lparr>sft_slave = unat w, sft_function = 3, sft_t_id = 0\<rparr> (old_address (unat w) a) n (tab_registers m)) = 3 + 2 * n"
    using assms(2,3,5) by (simp add: old_read_registers_def modbus_limits build_response_basis_def cell_bytes_def length_concat o_def sum_list_triv)
  then have "\<not> fits Backend_rtu (old_read_registers Backend_rtu \<lparr>sft_slave = unat w, sft_function = 3, sft_t_id = 0\<rparr> (old_address (unat w) a) n (tab_registers m))"
    using assms(2) by (simp add: fits_def coil_limits)
  then show ?thesis
    using old_served [of a n w link 3 rest len sends m s] header_fields(5,6) [of Backend_rtu "[]" a n w 3 rest] assms(1,3,4)
    by (simp add: reply_function_old_def Let_def fc_defs coil_functions pre_of_def)
qed

end
