(* ===== verification/Startup.thy ===== *)
theory Startup
  imports Meter Threads Map_Table
begin

text \<open>
  The main program of \<^verbatim>\<open>rtu_a118.c\<close> with its start-up and endless loop, the helpers of
  \<^verbatim>\<open>data/utils.c\<close> (hexadecimal text, the addresses of the network interface), and the log
  of \<^verbatim>\<open>common/rtu_log.c\<close>. On the target \<^verbatim>\<open>char\<close> is unsigned.
\<close>

section \<open>Hexadecimal text\<close>

definition utils_atoi_a :: "u8 \<Rightarrow> u8 option" where
  "utils_atoi_a c = (if c > 70 \<or> c < 48 then None else if c > 64 then Some (c - 65 + 10) else Some (c - 48))"

definition utils_atoi_b :: "u8 \<Rightarrow> u8 \<Rightarrow> u8 option" where
  "utils_atoi_b c d = do { h \<leftarrow> utils_atoi_a c; l \<leftarrow> utils_atoi_a d; Some (h * 16 + l) }"

text \<open>The end of the text is a character that is refused.\<close>

fun utils_astois :: "nat \<Rightarrow> u8 list \<Rightarrow> u8 list option" where
  "utils_astois 0 from = Some []"
| "utils_astois (Suc n) (c # d # from) = do { v \<leftarrow> utils_atoi_b c d; vs \<leftarrow> utils_astois n from; Some (v # vs) }"
| "utils_astois (Suc n) from = None"

definition utils_itoa_a :: "u8 \<Rightarrow> u8" where
  "utils_itoa_a v = (if v > 0x09 then 65 + v - 0x0A else 48 + v)"

definition utils_itoa_b :: "u8 \<Rightarrow> u8 list" where
  "utils_itoa_b v = [utils_itoa_a (drop_bit 4 (v AND 0xFF)), utils_itoa_a (v AND 0x0F)]"

definition utils_istoas :: "u8 list \<Rightarrow> u8 list" where
  "utils_istoas vs = concat (map utils_itoa_b vs)"

section \<open>Addresses of the interface\<close>

text \<open>\<^verbatim>\<open>%x\<close>.\<close>

definition scan_x :: "string \<Rightarrow> (u32 \<times> string) option" where
  "scan_x text =
     (let (sg, t) = sign_of (dropWhile is_space text);
          pre = is_prefix ''0x'' t \<or> is_prefix ''0X'' t;
          t = (if pre then drop 2 t else t);
          ds = takeWhile is_xdigit t;
          m = int (number 16 xdigit_val ds);
          v = (if m > ULONG_MAX then ULONG_MAX else sg * m)
      in if ds = [] \<and> \<not> pre then None else Some (word_of_int v, dropWhile is_xdigit t))"

text \<open>The variables of the scan; strings with what follows their end in the array.\<close>

record ipv6_scan =
  ip_addr :: string
  d_num :: u32
  ip_prefix_len :: u32
  ip_scope :: u32
  i_face :: u32
  d_name :: string

definition c_string :: "string \<Rightarrow> string" where
  "c_string buf = takeWhile (\<lambda>c. c \<noteq> CHR 0x00) buf"

definition store_string :: "string \<Rightarrow> string \<Rightarrow> string option" where
  "store_string w buf = (if length w < length buf then Some (w @ CHR 0x00 # drop (Suc (length w)) buf) else None)"

text \<open>\<^verbatim>\<open>sscanf(buf, "%s%x%x%x%x%s", ...)\<close>: what is not reached stays; \<^const>\<open>None\<close> is a word too long.\<close>

definition scan_numbers :: "string \<Rightarrow> ipv6_scan \<Rightarrow> ipv6_scan \<times> string option" where
  "scan_numbers t v =
     (case scan_x t of None \<Rightarrow> (v, None) | Some (x, t) \<Rightarrow> let v = v\<lparr>d_num := x\<rparr> in
      case scan_x t of None \<Rightarrow> (v, None) | Some (x, t) \<Rightarrow> let v = v\<lparr>ip_prefix_len := x\<rparr> in
      case scan_x t of None \<Rightarrow> (v, None) | Some (x, t) \<Rightarrow> let v = v\<lparr>ip_scope := x\<rparr> in
      case scan_x t of None \<Rightarrow> (v, None) | Some (x, t) \<Rightarrow> (v\<lparr>i_face := x\<rparr>, Some t))"

definition scan_line :: "string \<Rightarrow> ipv6_scan \<Rightarrow> ipv6_scan option" where
  "scan_line buf v =
     (case scan_s buf of
        None \<Rightarrow> Some v
      | Some (w, t) \<Rightarrow> do {
          addr \<leftarrow> store_string w (ip_addr v);
          let (v, rest) = scan_numbers t (v\<lparr>ip_addr := addr\<rparr>);
          case rest of
            None \<Rightarrow> Some v
          | Some t \<Rightarrow>
              (case scan_s t of
                 None \<Rightarrow> Some v
               | Some (w, _) \<Rightarrow> do { name \<leftarrow> store_string w (d_name v); Some (v\<lparr>d_name := name\<rparr>) }) })"

text \<open>\<^verbatim>\<open>ip_addr_str\<close>: the digits in groups of four, with spaces between and behind.\<close>

definition spread :: "string \<Rightarrow> string" where
  "spread addr = concat (map (\<lambda>i. take 4 (drop (4 * i) addr) @ '' '') [0..<8]) @ replicate 24 (CHR '' '')"

text \<open>Halfwords into an array, and how many there were.\<close>

fun scan_hxs :: "string \<Rightarrow> u16 list \<Rightarrow> u16 list \<times> nat" where
  "scan_hxs t [] = ([], 0)"
| "scan_hxs t (v # vs) =
     (case scan_hx t of
        None \<Rightarrow> (v # vs, 0)
      | Some (x, t) \<Rightarrow> let (xs, n) = scan_hxs t vs in (x # xs, Suc n))"

fun ipv6_lines :: "string list \<Rightarrow> ipv6_scan \<Rightarrow> u16 list \<Rightarrow> u16 list option" where
  "ipv6_lines [] v ipv6 = Some ipv6"
| "ipv6_lines (buf # lines) v ipv6 = do {
     v \<leftarrow> scan_line buf v;
     let everywhere = ip_scope v = 0 \<and> i_face v = 0;
     if c_string (d_name v) = ''eth1'' \<and> (ip_scope v = 0x20 \<or> everywhere) then
       (let (xs, rc) = scan_hxs (c_string (spread (ip_addr v))) (take 8 ipv6); ipv6 = xs @ drop 8 ipv6 in
        if rc \<noteq> 8 then ipv6_lines lines v ipv6
        else let ipv6 = ipv6[8 := ucast (ip_prefix_len v)] in
          if everywhere then Some ipv6 else ipv6_lines lines v ipv6)
     else ipv6_lines lines v ipv6 }"

text \<open>\<open>lines\<close> is what \<^verbatim>\<open>fgets\<close> gives of the file, \<^const>\<open>None\<close> if it cannot be opened.\<close>

definition get_ipv6_addr :: "string list option \<Rightarrow> ipv6_scan \<Rightarrow> u16 list \<Rightarrow> (int \<times> u16 list) option" where
  "get_ipv6_addr lines v ipv6 =
     (case lines of
        None \<Rightarrow> Some (-1, ipv6)
      | Some lines \<Rightarrow> do { ipv6 \<leftarrow> ipv6_lines lines v ipv6; Some (0, ipv6) })"

text \<open>The six bytes that the operating system gives.\<close>

definition get_mac_addr :: "u8 list option \<Rightarrow> rtu \<Rightarrow> rtu" where
  "get_mac_addr mac s =
     (case mac of None \<Rightarrow> s | Some bs \<Rightarrow> s\<lparr>mac_addr := (\<lambda>i. if i < 6 then ucast (bs ! i) else mac_addr s i)\<rparr>)"

definition rtu_sys_info_init :: "env \<Rightarrow> u8 list option \<Rightarrow> rtu \<Rightarrow> rtu" where
  "rtu_sys_info_init e mac s = thread_time_init e (get_mac_addr mac s)"

section \<open>The log\<close>

definition RTU_LOG_MAX_BUF_SIZE :: nat where "RTU_LOG_MAX_BUF_SIZE = 1024"
definition RTU_LOG_MAX_FILE_SIZE :: nat where "RTU_LOG_MAX_FILE_SIZE = 1024 * 1024"

lemmas log_sizes = RTU_LOG_MAX_BUF_SIZE_def RTU_LOG_MAX_FILE_SIZE_def

text \<open>\<open>lflash\<close> is the mapped file, if it could be mapped, \<open>flen\<close> where the next line goes.\<close>

record log_t =
  lbuf :: string
  lflash :: "(nat \<Rightarrow> char) option"
  flen :: nat
  info_file :: "string option"

text \<open>
  The texts that \<^verbatim>\<open>ctime\<close> and the format give. \<^verbatim>\<open>vsnprintf\<close> returns the length of
  the whole text, whatever it has stored, and as many bytes are copied from the buffer; \<^const>\<open>None\<close>
  is a copy beyond its end.
\<close>

definition log_printf :: "string \<Rightarrow> string \<Rightarrow> log_t \<Rightarrow> log_t option" where
  "log_printf ctime body l =
     (case lflash l of
        None \<Rightarrow> Some l
      | Some f \<Rightarrow>
          let head = ''@'' @ ctime @ '' '';
              stored = head @ take (RTU_LOG_MAX_BUF_SIZE - length head - 2) body @ [CHR 0x00];
              buf = stored @ drop (length stored) (lbuf l);
              rc = length head + length body;
              pos = (if flen l + rc \<ge> RTU_LOG_MAX_FILE_SIZE then 0 else flen l)
          in if length buf < rc then None
             else Some (l\<lparr>lbuf := buf, lflash := Some (put f pos (take rc buf)), flen := pos + rc\<rparr>))"

definition info_printf :: "string \<Rightarrow> log_t \<Rightarrow> log_t" where
  "info_printf body l =
     (case info_file l of
        None \<Rightarrow> l
      | Some file \<Rightarrow>
          if body = [] then l
          else l\<lparr>info_file := Some (file @ take (RTU_LOG_MAX_BUF_SIZE - 2) body @ [CHR 0x0D, CHR 0x0A])\<rparr>)"

text \<open>
  The start: \<open>file\<close> is the content of the file if it has the right size, \<open>made\<close> whether it can be
  created, \<open>mapped_ok\<close> and \<open>opened\<close> whether it is mapped and the other one opened.
\<close>

definition log_init :: "(nat \<Rightarrow> char) option \<Rightarrow> bool \<Rightarrow> bool \<Rightarrow> bool \<Rightarrow> log_t \<Rightarrow> int \<times> log_t" where
  "log_init file made mapped_ok opened l =
     (if file = None \<and> \<not> made then (-1, l)
      else if \<not> mapped_ok then (-1, l)
      else let l = l\<lparr>lflash := Some (case file of Some f \<Rightarrow> f | None \<Rightarrow> \<lambda>_. CHR ''F'')\<rparr> in
        if opened then (0, l\<lparr>info_file := Some []\<rparr>) else (-1, l\<lparr>info_file := None\<rparr>))"

section \<open>The start of the program\<close>

datatype thread =
    Thread_zigbee_tty_server | Thread_modbus485_slave | Thread_modbus485_master | Thread_modbus232_server
  | Thread_tcp_server | Thread_tcp_client | Thread_data | Thread_gpio_test | Thread_gpio_irq | Thread_udp_server

text \<open>The threads in the order of their start, with the entry of the configuration each gets.\<close>

definition main_threads :: "bool \<Rightarrow> (thread \<times> string) list" where
  "main_threads mod_f =
     [(Thread_zigbee_tty_server, ''zigbee''), (Thread_modbus485_slave, ''modbus485_slave''),
      (if mod_f then Thread_modbus485_slave else Thread_modbus485_master, ''modbus485_master''),
      (Thread_modbus232_server, ''modbus232_server''), (Thread_tcp_server, ''tcp_server''), (Thread_tcp_client, ''tcp_client_test''),
      (Thread_data, ''data''), (Thread_gpio_test, ''gpio''), (Thread_gpio_irq, ''gpio_irq''), (Thread_udp_server, ''udp_server'')]"

definition MAP_ADDR_APP_START_COUNT :: nat where "MAP_ADDR_APP_START_COUNT = 15"

definition count_start :: "env \<Rightarrow> rtu \<Rightarrow> (u16 \<times> rtu) option" where
  "count_start e s = do {
     start_count \<leftarrow> read_register e s 0 1 MAP_ADDR_APP_START_COUNT;
     s \<leftarrow> write_registers e [start_count + 1] 1 MAP_ADDR_APP_START_COUNT s;
     Some (start_count + 1, s) }"

text \<open>What start-up finds: the descriptors of the three devices, an uninitialised array, and so on.\<close>

record start_env =
  config_ok :: bool
  mac_read :: "u8 list option"
  device_fds :: "int \<times> int \<times> int"
  do_junk :: "u16 list"
  db_opened :: bool
  mod_f_given :: bool

definition gpio_init :: "env \<Rightarrow> int \<times> int \<times> int \<Rightarrow> u16 list \<Rightarrow> rtu \<Rightarrow> (int \<times> rtu) option" where
  "gpio_init e = (\<lambda>(io, io_irq, adc) junk s.
     let rc = (if io < 0 \<or> io_irq < 0 then -1 else 0); s = s\<lparr>io_fd := io, adc_fd := adc\<rparr> in
     if adc = -1 then Some (-1, s)
     else do { s \<leftarrow> gpio_do_init e junk (zigbee_init s); Some (rc, s) })"

definition data_init :: "bool \<Rightarrow> int" where
  "data_init opened = (if opened then 0 else -1)"

text \<open>\<^const>\<open>Inl\<close>: the program ends with this value. The threads run from their start on.\<close>

definition app_start :: "env \<Rightarrow> start_env \<Rightarrow> rtu \<Rightarrow> (int + (thread \<times> string) list \<times> u16 \<times> rtu) option" where
  "app_start e c s =
     (let s = s\<lparr>equ_meter_para_time := \<lambda>_ _. 0\<rparr> in
      if \<not> config_ok c then Some (Inl (-1))
      else do {
        (rc, s) \<leftarrow> map_init e s;
        if rc = -1 then Some (Inl (-1))
        else do {
          (_, s) \<leftarrow> gpio_init e (device_fds c) (do_junk c) (rtu_sys_info_init e (mac_read c) s);
          if data_init (db_opened c) = -1 then Some (Inl (-1))
          else do {
            (start_count, s) \<leftarrow> count_start e s;
            Some (Inr (main_threads (mod_f_given c), start_count, s)) } } })"

text \<open>A round of the endless loop, every twenty seconds; \<open>i\<close> counts them.\<close>

definition main_round :: "env \<Rightarrow> nat \<times> rtu \<Rightarrow> (nat \<times> rtu) option" where
  "main_round e = (\<lambda>(i, s). do {
     s \<leftarrow> clear_meter_rtdata e s;
     Some (Suc i, if i mod 60 = 0 then test_thread_time e s else s) })"

end
