(* ===== verification/Startup_Facts.thy ===== *)
theory Startup_Facts
  imports Startup Meter_Facts
begin

text \<open>
  The start of the program and its endless loop are safe, the counter of the starts, the log file, and
  hexadecimal text.
\<close>

section \<open>Hexadecimal text\<close>

lemma nibble_text: "n < 16 \<Longrightarrow> utils_atoi_a (utils_itoa_a (of_nat n)) = Some (of_nat n)"
proof -
  assume "n < 16"
  then have "n \<in> set [0..<16]" by simp
  then show ?thesis by (auto simp: utils_atoi_a_def utils_itoa_a_def upt_rec)
qed

lemma unat_inverse: "of_nat (unat w) = w"
  by simp

lemma nibbles: "drop_bit 4 v = of_nat (unat v div 16)" "v AND 0x0F = of_nat (unat v mod 16)" for v :: u8
proof -
  have "unat (drop_bit 4 v) = unat v div 16" by (simp add: unat_drop_bit_eq drop_bit_nat_def)
  then show "drop_bit 4 v = of_nat (unat v div 16)" using unat_inverse [of "drop_bit 4 v"] by simp
  have "v AND 0x0F = take_bit 4 v" using take_bit_eq_mask [of 4 v] by (simp add: mask_eq_exp_minus_1)
  moreover have "unat (take_bit 4 v) = unat v mod 16" by (simp add: unsigned_take_bit_eq take_bit_nat_def)
  ultimately show "v AND 0x0F = of_nat (unat v mod 16)" using unat_inverse [of "take_bit 4 v"] by simp
qed

lemma byte_text: "utils_atoi_b (utils_itoa_a (drop_bit 4 (v AND 0xFF))) (utils_itoa_a (v AND 0x0F)) = Some v"
proof -
  have v: "v AND 0xFF = v" by (rule bit_word_eqI) (simp add: and_255 bit_simps)
  have "unat v < 256" using unsigned_less [of v] by simp
  then have lt: "unat v div 16 < 16" "unat v mod 16 < 16" by (auto intro: less_mult_imp_div_less)
  have "of_nat (unat v div 16 * 16 + unat v mod 16) = v" by (simp only: div_mult_mod_eq unat_inverse)
  then have "of_nat (unat v div 16) * 16 + of_nat (unat v mod 16) = v" by (simp only: of_nat_add of_nat_mult of_nat_numeral)
  then show ?thesis
    using nibble_text [OF lt(1)] nibble_text [OF lt(2)] by (simp add: utils_atoi_b_def v nibbles del: of_nat_mod of_nat_div)
qed

lemma hex_roundtrip: "utils_astois (length vs) (utils_istoas vs @ rest) = Some vs"
proof (induction vs)
  case (Cons v vs)
  then show ?case
    unfolding utils_istoas_def list.map concat.simps utils_itoa_b_def append.simps list.size add_Suc_right add_0_right utils_astois.simps
    by (simp only: byte_text bind.simps)
qed (simp add: utils_istoas_def)

text \<open>Six characters between the digits and the letters pass as digits.\<close>

lemma colon_is_ten: "utils_atoi_a (of_nat (of_char (CHR '':''))) = Some 10"
  by (simp add: utils_atoi_a_def)

section \<open>The log file\<close>

definition log_line :: "string \<times> string \<Rightarrow> string" where
  "log_line = (\<lambda>(ctime, body). ''@'' @ ctime @ '' '' @ body)"

text \<open>The lines since the file was last begun anew.\<close>

definition log_append :: "string \<Rightarrow> string \<times> string \<Rightarrow> string" where
  "log_append acc entry =
     (if length acc + length (log_line entry) \<ge> RTU_LOG_MAX_FILE_SIZE then log_line entry else acc @ log_line entry)"

fun log_run :: "(string \<times> string) list \<Rightarrow> log_t \<Rightarrow> log_t option" where
  "log_run [] l = Some l"
| "log_run ((ctime, body) # entries) l = do { l \<leftarrow> log_printf ctime body l; log_run entries l }"

text \<open>The date has 25 characters; lines of up to 995 more are stored whole.\<close>

definition short :: "string \<times> string \<Rightarrow> bool" where
  "short = (\<lambda>(ctime, body). length ctime = 25 \<and> length body \<le> 995)"

definition log_holds :: "(nat \<Rightarrow> char) \<Rightarrow> string \<Rightarrow> log_t \<Rightarrow> bool" where
  "log_holds f0 acc l \<longleftrightarrow> length (lbuf l) = RTU_LOG_MAX_BUF_SIZE \<and> flen l = length acc \<and> length acc < RTU_LOG_MAX_FILE_SIZE \<and>
     (\<exists>f. lflash l = Some f \<and> get f 0 (length acc) = acc \<and> (\<forall>k\<ge>RTU_LOG_MAX_FILE_SIZE. f k = f0 k))"

lemma get_put_end: "n = length acc \<Longrightarrow> get f 0 n = acc \<Longrightarrow> get (put f n vs) 0 (n + length vs) = acc @ vs"
  by (simp add: get_append get_put_below get_put_all)

lemma log_printf_holds:
  assumes "log_holds f0 acc l" "short (ctime, body)"
  shows "\<exists>l'. log_printf ctime body l = Some l' \<and> log_holds f0 (log_append acc (ctime, body)) l'"
proof -
  let ?line = "log_line (ctime, body)"
  let ?rest = "CHR 0x00 # drop (Suc (length ?line)) (lbuf l)"
  let ?pos = "if length acc + length ?line \<ge> RTU_LOG_MAX_FILE_SIZE then 0 else length acc"
  obtain f where f: "lflash l = Some f" "get f 0 (length acc) = acc" "\<forall>k\<ge>RTU_LOG_MAX_FILE_SIZE. f k = f0 k"
    and l: "length (lbuf l) = 1024" "flen l = length acc" "length acc < RTU_LOG_MAX_FILE_SIZE"
    using assms(1) by (auto simp: log_holds_def log_sizes)
  have n: "length ?line = 27 + length body" "length body \<le> 995" using assms(2) by (simp_all add: log_line_def short_def)
  have stored: "(''@'' @ ctime @ '' '') @ take (RTU_LOG_MAX_BUF_SIZE - length (''@'' @ ctime @ '' '') - 2) body @ [CHR 0x00] = ?line @ [CHR 0x00]"
    using assms(2) by (simp add: log_line_def short_def log_sizes)
  have rc: "length (''@'' @ ctime @ '' '') + length body = length ?line" by (simp add: log_line_def)
  have buf: "(?line @ [CHR 0x00]) @ drop (length (?line @ [CHR 0x00])) (lbuf l) = ?line @ ?rest" by simp
  have len: "length (?line @ ?rest) = 1024" using l(1) n by simp
  let ?l = "l\<lparr>lbuf := ?line @ ?rest, lflash := Some (put f ?pos ?line), flen := ?pos + length ?line\<rparr>"
  have "\<not> length (?line @ ?rest) < length ?line" by simp
  then have "log_printf ctime body l = Some ?l"
    unfolding log_printf_def f(1) option.case Let_def stored rc buf l(2) by (simp only: if_False take_append) simp
  moreover have "log_holds f0 (log_append acc (ctime, body)) ?l"
  proof (cases "length acc + length ?line \<ge> RTU_LOG_MAX_FILE_SIZE")
    case True
    then show ?thesis
      using len n f(3) by (auto simp: log_holds_def log_append_def get_put_all log_sizes put_outside)
  next
    case False
    then show ?thesis
      using len f get_put_end [OF refl f(2)] by (auto simp: log_holds_def log_append_def log_sizes put_outside)
  qed
  ultimately show ?thesis by blast
qed

text \<open>
  C21. The log file. Whatever lines of at most 995 characters are logged, every call returns and the
  file holds, one after the other and whole, the lines since it was last begun anew; nothing is written
  beyond its end.
\<close>

theorem log_ring:
  assumes "lflash l = Some f" "flen l = 0" "length (lbuf l) = RTU_LOG_MAX_BUF_SIZE" "list_all short entries"
  shows "\<exists>l' f'. log_run entries l = Some l' \<and> lflash l' = Some f' \<and>
    get f' 0 (flen l') = foldl log_append [] entries \<and> flen l' < RTU_LOG_MAX_FILE_SIZE \<and>
    (\<forall>k\<ge>RTU_LOG_MAX_FILE_SIZE. f' k = f k)"
proof -
  have "list_all short entries \<Longrightarrow> log_holds f acc l \<Longrightarrow>
      \<exists>l'. log_run entries l = Some l' \<and> log_holds f (foldl log_append acc entries) l'" for acc
  proof (induction entries arbitrary: acc l)
    case (Cons entry entries)
    obtain ctime body where entry: "entry = (ctime, body)" by (cases entry)
    then obtain l1 where l1: "log_printf ctime body l = Some l1" "log_holds f (log_append acc entry) l1"
      using log_printf_holds [OF Cons.prems(2)] Cons.prems(1) by auto
    then show ?case using Cons.IH [OF _ l1(2)] Cons.prems(1) by (simp add: entry)
  qed simp
  moreover have "log_holds f [] l" using assms(1-3) by (simp add: log_holds_def log_sizes)
  ultimately show ?thesis using assms(4) by (fastforce simp: log_holds_def)
qed

definition log_demo :: log_t where
  "log_demo = \<lparr>lbuf = replicate 1024 (CHR 0x00), lflash = Some (\<lambda>_. CHR ''F''), flen = 0, info_file = None\<rparr>"

theorem log_ring_witness:
  "\<exists>l' f'. log_run [(replicate 25 (CHR ''t''), ''start''), (replicate 25 (CHR ''t''), ''stop'')] log_demo = Some l' \<and>
     lflash l' = Some f' \<and> get f' 0 (flen l') = (''@'' @ replicate 25 (CHR ''t'') @ '' start@'') @ replicate 25 (CHR ''t'') @ '' stop''"
  using log_ring [of log_demo "\<lambda>_. CHR ''F''" "[(replicate 25 (CHR ''t''), ''start''), (replicate 25 (CHR ''t''), ''stop'')]"]
  by (auto simp: log_demo_def log_sizes short_def log_append_def log_line_def)

text \<open>The length that is returned for a longer line is more than the buffer has.\<close>

lemma long_line_overflows:
  "lflash l = Some f \<Longrightarrow> length (lbuf l) = 1024 \<Longrightarrow> length ctime = 25 \<Longrightarrow> 998 \<le> length body \<Longrightarrow> log_printf ctime body l = None"
  by (simp add: log_printf_def Let_def log_sizes)

section \<open>The start\<close>

lemma write_registers_total:
  assumes "map_wf (mp s)" "tables_fit e (x_max (mp s))"
  shows "\<exists>t. write_registers e vs w a s = Some t \<and> map_wf (mp t) \<and> x_max (mp t) = x_max (mp s)"
  using zigbee_write_wf [OF assms, of "int (length vs)" vs "int w" "int a"] by (auto simp: write_registers_def)

lemma gpio_do_init_total:
  assumes "map_wf (mp s)" "tables_fit e (x_max (mp s))" "8 \<le> length junk"
  shows "\<exists>t. gpio_do_init e junk s = Some t \<and> map_wf (mp t) \<and> x_max (mp t) = x_max (mp s)"
proof -
  obtain rc vs where vs: "zigbee_read_registers e s junk 8 1 (int MAP_GET_DO0) = Some (rc, vs)" "length vs = length junk"
    using read_total [OF assms(1), of 8 junk e 1 "int MAP_GET_DO0"] assms(3) by auto
  then show ?thesis
    using zigbee_write_wf [OF assms(1,2), of 8 "map (\<lambda>b. if b \<noteq> 1 then 0 else b) vs" 1 "int MAP_GET_DO0"] assms(3)
    by (auto simp: gpio_do_init_def)
qed

lemma interval_rows_total: "map_wf (mp s) \<Longrightarrow> \<exists>rows. interval_rows e s tmp ks = Some rows"
proof (induction ks arbitrary: tmp)
  case (Cons k ks)
  have "read_register e s old w a \<noteq> None" for old w a using read_register_total [OF Cons.prems, of e old w a] by auto
  then have "interval_row e s tmp k \<noteq> None" by (simp add: interval_row_def bind_eq_None_conv del: not_None_eq)
  then obtain row tmp' where "interval_row e s tmp k = Some (row, tmp')" by auto
  then show ?case using Cons.IH [OF Cons.prems, of tmp'] by auto
qed simp

lemma mset_keeps: "map_wf (mp s) \<Longrightarrow> map_wf (mp (snd (zigbee_write_registers_mset v n w a s))) \<and>
    x_max (mp (snd (zigbee_write_registers_mset v n w a s))) = x_max (mp s)"
  by (simp add: zigbee_write_registers_mset_def Let_def map_wf_def)

lemma clear_meter_keeps:
  "map_wf (mp s) \<Longrightarrow> map_wf (mp (clear_meter e row i c s)) \<and> x_max (mp (clear_meter e row i c s)) = x_max (mp s)"
  using mset_keeps [of "set_sample_time e i (fst c) s"] by (auto simp: clear_meter_def split_beta set_sample_time_def)

lemma clear_fold_keeps:
  "map_wf (mp s) \<Longrightarrow> map_wf (mp (fold (clear_meter e row i) cs s)) \<and> x_max (mp (fold (clear_meter e row i) cs s)) = x_max (mp s)"
proof (induction cs arbitrary: s)
  case (Cons c cs)
  then show ?case using clear_meter_keeps [OF Cons.prems, of e row i c] by simp
qed simp

lemma clear_rows_keeps:
  "map_wf (mp s) \<Longrightarrow> map_wf (mp (clear_rows e rows i s)) \<and> x_max (mp (clear_rows e rows i s)) = x_max (mp s)"
proof (induction rows arbitrary: i s)
  case (Cons row rows)
  then show ?case using clear_fold_keeps [OF Cons.prems, of e row i clear_table] by simp
qed simp

lemma main_round_keeps:
  assumes "map_wf (mp s)"
  shows "\<exists>t. main_round e (i, s) = Some (Suc i, t) \<and> map_wf (mp t) \<and> x_max (mp t) = x_max (mp s)"
proof -
  obtain rows where "interval_rows e s 0 [0..<RTU_MAX_WELL_NUM] = Some rows" using interval_rows_total [OF assms] by blast
  then show ?thesis
    using clear_rows_keeps [OF assms] by (simp add: main_round_def clear_meter_rtdata_def test_thread_time_def Let_def frame_simps)
qed

fun main_loop :: "env list \<Rightarrow> nat \<times> rtu \<Rightarrow> (nat \<times> rtu) option" where
  "main_loop [] x = Some x"
| "main_loop (e # es) x = do { x \<leftarrow> main_round e x; main_loop es x }"

lemma main_loop_runs:
  "map_wf (mp s) \<Longrightarrow> \<exists>t. main_loop es (i, s) = Some (i + length es, t) \<and> map_wf (mp t)"
proof (induction es arbitrary: i s)
  case (Cons e es)
  obtain t where t: "main_round e (i, s) = Some (Suc i, t)" "map_wf (mp t)" using main_round_keeps [OF Cons.prems] by blast
  then show ?case using Cons.IH [OF t(2), of "Suc i"] by auto
qed simp

lemma count_start_total:
  assumes "map_wf (mp s)" "tables_fit e (x_max (mp s))"
  shows "\<exists>n t. count_start e s = Some (n, t) \<and> map_wf (mp t) \<and> x_max (mp t) = x_max (mp s)"
proof -
  obtain n where n: "read_register e s 0 1 MAP_ADDR_APP_START_COUNT = Some n" using read_register_total [OF assms(1)] by blast
  then show ?thesis
    using write_registers_total [OF assms, of "[n + 1]" 1 MAP_ADDR_APP_START_COUNT] by (auto simp: count_start_def)
qed

text \<open>
  C20. The program comes up. With tables that fit, the start never leaves an array: it ends with -1,
  or it has started the ten threads in their order and the endless loop then runs any number of rounds,
  at any times, with the map well formed.
\<close>

theorem program_runs:
  assumes "get_x_y_z_max_len e 0 = Some (0, xm)" "300 \<le> unat xm" "unat xm \<le> MAX_REGISTER_NUM"
    and "table_fits e (unat xm) True PATH_MAP1" "tables_fit e (unat xm)" "8 \<le> length (do_junk c)"
  shows "\<exists>r. app_start e c s = Some r \<and>
    (case r of
       Inl rc \<Rightarrow> rc = -1
     | Inr (threads, n, t) \<Rightarrow> config_ok c \<and> db_opened c \<and> threads = main_threads (mod_f_given c) \<and> map_wf (mp t) \<and> x_max (mp t) = unat xm \<and>
         (\<forall>es. \<exists>t'. main_loop es (0, t) = Some (length es, t') \<and> map_wf (mp t')))"
proof (cases "config_ok c")
  case False
  then show ?thesis by (simp add: app_start_def)
next
  case True
  let ?s = "s\<lparr>equ_meter_para_time := \<lambda>_ _. 0\<rparr>"
  obtain rc s1 where s1: "map_init e ?s = Some (rc, s1)"
    "if rc = 0 then map_wf (mp s1) \<and> x_max (mp s1) = unat xm \<and> disk1 s1 = flash1 (mp s1) \<and> disk2 s1 = flash2 (mp s1)
     else rc = -1 \<and> mp s1 = mp ?s"
    using map_init_result [OF assms(1-5)] by blast
  show ?thesis
  proof (cases "rc = 0")
    case False
    then show ?thesis using s1 True by (simp add: app_start_def)
  next
    case rc: True
    let ?s2 = "rtu_sys_info_init e (mac_read c) s1"
    have s2: "map_wf (mp ?s2)" "x_max (mp ?s2) = unat xm"
      using s1(2) rc by (simp_all add: rtu_sys_info_init_def thread_time_init_def get_mac_addr_def split: option.split)
    obtain rc3 s3 where s3: "gpio_init e (device_fds c) (do_junk c) ?s2 = Some (rc3, s3)" "map_wf (mp s3)" "x_max (mp s3) = unat xm"
    proof (cases "snd (snd (device_fds c)) = -1")
      case True
      then show ?thesis using that s2 by (simp add: gpio_init_def split_beta)
    next
      case False
      let ?z = "zigbee_init (?s2\<lparr>io_fd := fst (device_fds c), adc_fd := snd (snd (device_fds c))\<rparr>)"
      have "map_wf (mp ?z)" "x_max (mp ?z) = unat xm" using s2 by (simp_all add: zigbee_init_def frame_simps)
      then obtain t where "gpio_do_init e (do_junk c) ?z = Some t" "map_wf (mp t)" "x_max (mp t) = unat xm"
        using gpio_do_init_total [of ?z e "do_junk c"] assms(5,6) by auto
      then show ?thesis using that False by (simp add: gpio_init_def split_beta)
    qed
    obtain n t where t: "count_start e s3 = Some (n, t)" "map_wf (mp t)" "x_max (mp t) = unat xm"
      using count_start_total [of s3 e] s3(2,3) assms(5) by auto
    have "app_start e c s = Some (if db_opened c then Inr (main_threads (mod_f_given c), n, t) else Inl (-1))"
      using True rc s1(1) s3(1) t(1) by (simp add: app_start_def data_init_def)
    then show ?thesis using True t(2,3) main_loop_runs [OF t(2), of _ 0] by simp
  qed
qed

text \<open>
  The counter of the starts. When its register is a plain one and the flash can be synchronised,
  a start raises it by one, modulo 65536, in the map of the well and, where it is kept in the first
  flash file, in that file.
\<close>

theorem start_counted:
  assumes "map_wf (mp s)" "15 < x_max (mp s)" "kind_at (mp s) 1 15 \<noteq> MAP_SYS" "\<forall>k. msync_ok e k"
  shows "\<exists>t. count_start e s = Some (reg (mp s) 1 15 + 1, t) \<and> reg (mp t) 1 15 = reg (mp s) 1 15 + 1 \<and>
    (\<forall>j. 1 \<le> j \<and> j < x_max (mp s) \<and> j \<noteq> 15 \<longrightarrow> reg (mp t) 1 j = reg (mp s) 1 j) \<and>
    (kind_at (mp s) 1 15 = MAP_FLASH1 \<longrightarrow> disk1 t 15 = reg (mp s) 1 15 + 1)"
proof -
  let ?n = "reg (mp s) 1 15 + 1"
  have "j = 15" if "15 \<le> j" "j < 15 + 1" for j :: nat using that by simp
  then have plain: "plain (mp s) 1 15 1" using assms(3) unfolding plain_def by blast
  have args: "args_ok (x_max (mp s)) 1 1 15" using assms(2) by (simp add: args_ok_def map_sizes)
  have rd: "read_register e s 0 1 MAP_ADDR_APP_START_COUNT = Some (reg (mp s) 1 15)"
    using read_loop_plain [OF assms(1), of 1 15 1 "[0]" e] assms(2) plain args
    by (simp add: read_register_def zigbee_read_registers_def MAP_ADDR_APP_START_COUNT_def)
  obtain rc t where t: "write_loop e 1 15 1 [?n] s = Some (rc, t)" "rc = 0 \<or> rc = -1 \<and> (\<exists>k. \<not> msync_ok e k)"
    using write_loop_outcome [OF assms(1), of 1 15 1 "[?n]" e] assms(2) plain by auto
  then have rc: "rc = 0" using assms(4) by auto
  have "write_loop e 1 15 1 [?n] s = Some (0, t)" using t(1) rc by simp
  from write_loop_stored(1) [OF assms(1) _ _ _ plain _ this] write_loop_stored(2) [OF assms(1) _ _ _ plain _ this, of "\<lambda>_. False"] assms(2)
  have st1: "mp t = store_run 1 15 [?n] (mp s)" and "well_synced t 1 15" by auto
  moreover have regs: "reg (mp t) 1 j = (if j = 15 then ?n else reg (mp s) 1 j)" if "j < x_max (mp s)" for j
    unfolding st1 using reg_store_run [of 1 1 15 "[?n]" "mp s" j] that assms(2) by auto
  moreover have "kind_at (mp t) 1 15 = kind_at (mp s) 1 15" unfolding st1 by simp
  ultimately have "kind_at (mp s) 1 15 = MAP_FLASH1 \<longrightarrow> disk1 t 15 = ?n"
    using regs [OF assms(2)] by (auto simp: well_synced_def synced1_def reg_def)
  moreover have "zigbee_write_registers e [?n] 1 1 15 s = Some (rc, t)"
    using t(1) args unfolding zigbee_write_registers_def by (simp only: nat_1 nat_numeral not_True_eq_False if_False) simp
  then have "write_registers e [?n] 1 MAP_ADDR_APP_START_COUNT s = Some t"
    by (simp add: write_registers_def MAP_ADDR_APP_START_COUNT_def)
  then have "count_start e s = Some (?n, t)" using rd by (simp add: count_start_def)
  ultimately show ?thesis using regs assms(2) by auto
qed

theorem start_counted_witness:
  "\<exists>t. count_start env_demo rtu_demo = Some (1, t) \<and> reg (mp t) 1 15 = 1 \<and> reg (mp t) 1 5 = reg (mp rtu_demo) 1 5"
proof -
  have "kind_at (mp rtu_demo) 1 15 \<noteq> MAP_SYS" "15 < x_max (mp rtu_demo)" "\<forall>k. msync_ok env_demo k" "reg (mp rtu_demo) 1 15 = 0"
    by (simp_all add: rtu_demo_eval env_demo_def reg_def)
  from start_counted [OF demo_wf this(2,1,3)] this(2,4) show ?thesis by auto
qed

definition start_demo :: start_env where
  "start_demo =
     \<lparr>config_ok = True, mac_read = None, device_fds = (3, 4, 5), do_junk = replicate 8 0, db_opened = True, mod_f_given = False\<rparr>"

theorem program_runs_witness:
  "\<exists>r. app_start env_demo start_demo rtu_demo = Some r \<and>
    (case r of
       Inl rc \<Rightarrow> rc = -1
     | Inr (threads, n, t) \<Rightarrow> length threads = 10 \<and> (\<exists>t'. main_loop (replicate 100 env_demo) (0, t) = Some (100, t')))"
proof -
  have g: "get_x_y_z_max_len env_demo 0 = Some (0, 311)"
    by (simp add: get_x_y_z_max_len_def env_demo_eval scan_map0_def line_top_def scan_hd_hd_def map_sizes)
  have u: "unat (311 :: u16) = 311" by simp
  have f: "table_fits env_demo (unat (311 :: u16)) True PATH_MAP1" "tables_fit env_demo (unat (311 :: u16))"
    unfolding u
    by (simp add: table_fits_def line_fits_def fits_def env_demo_eval parse_line_def scan_ranges_def scan_dv_def
        modbus_to_y_def line_type_def map_sizes) (rule tables_demo_fit)
  have "300 \<le> unat (311 :: u16)" "unat (311 :: u16) \<le> MAX_REGISTER_NUM" "8 \<le> length (do_junk start_demo)"
    by (simp_all add: map_sizes start_demo_def)
  from program_runs [OF g this(1,2) f this(3), of rtu_demo] obtain r where
    r: "app_start env_demo start_demo rtu_demo = Some r"
    "case r of Inl rc \<Rightarrow> rc = -1
     | Inr (threads, n, t) \<Rightarrow> config_ok start_demo \<and> db_opened start_demo \<and> threads = main_threads (mod_f_given start_demo) \<and> map_wf (mp t) \<and> x_max (mp t) = unat (311 :: u16) \<and>
         (\<forall>es. \<exists>t'. main_loop es (0, t) = Some (length es, t') \<and> map_wf (mp t'))" by blast
  have "\<exists>t'. main_loop (replicate 100 env_demo) (0, t) = Some (100, t')" if "\<forall>es. \<exists>t'. main_loop es (0, t) = Some (length es, t') \<and> map_wf (mp t')" for t
    using that [rule_format, of "replicate 100 env_demo"] by auto
  then show ?thesis using r by (auto simp: main_threads_def split: sum.splits)
qed

end
