(* ===== verification/Address_Facts.thy ===== *)
theory Address_Facts
  imports Startup Network
begin

text \<open>
  The scan of the kernel's list of IPv6 addresses gives what the lines say.
\<close>

definition hex2 :: "nat \<Rightarrow> string" where
  "hex2 n = [digit_char (n div 16), digit_char (n mod 16)]"

definition hex4 :: "u16 \<Rightarrow> string" where
  "hex4 v = hex2 (unat v div 256) @ hex2 (unat v mod 256)"

lemma digit_char_facts:
  "d < 16 \<Longrightarrow> is_xdigit (digit_char d) \<and> xdigit_val (digit_char d) = d \<and> \<not> is_space (digit_char d) \<and> digit_char d \<noteq> CHR 0x00 \<and>
    digit_char d \<noteq> CHR ''x'' \<and> digit_char d \<noteq> CHR ''X'' \<and> digit_char d \<noteq> CHR ''-'' \<and> digit_char d \<noteq> CHR ''+''"
  (is "_ \<Longrightarrow> ?facts d")
proof -
  assume "d < 16"
  then have "d = 0 \<or> d = 1 \<or> d = 2 \<or> d = 3 \<or> d = 4 \<or> d = 5 \<or> d = 6 \<or> d = 7 \<or>
    d = 8 \<or> d = 9 \<or> d = 10 \<or> d = 11 \<or> d = 12 \<or> d = 13 \<or> d = 14 \<or> d = 15" by presburger
  then show "?facts d"
    by (elim disjE) (simp_all add: digit_char_def is_xdigit_def is_digit_def code_def xdigit_val_def is_space_def char_of_eq_iff take_bit_nat_def)
qed

text \<open>Digits between spaces, as both conversions read them.\<close>

definition hex_digits :: "string \<Rightarrow> bool" where
  "hex_digits ds \<longleftrightarrow> ds \<noteq> [] \<and> (\<forall>c\<in>set ds. is_xdigit c \<and> \<not> is_space c \<and> c \<noteq> CHR ''x'' \<and> c \<noteq> CHR ''X'' \<and> c \<noteq> CHR ''-'' \<and> c \<noteq> CHR ''+'' \<and> c \<noteq> CHR 0x00)"

lemma hex2_digits: "n < 256 \<Longrightarrow> hex_digits (hex2 n)"
  using digit_char_facts [of "n div 16"] digit_char_facts [of "n mod 16"]
  by (auto simp: hex_digits_def hex2_def less_mult_imp_div_less)

lemma hex_digits_append: "hex_digits xs \<Longrightarrow> hex_digits ys \<Longrightarrow> hex_digits (xs @ ys)"
  by (auto simp: hex_digits_def)

lemma u16_bytes_lt: "unat (v :: u16) div 256 < 256" "unat v mod 256 < 256"
  using unsigned_less [of v] by (auto intro: less_mult_imp_div_less)

lemma hex4_digits: "hex_digits (hex4 v)"
  using hex2_digits [OF u16_bytes_lt(1) [of v]] hex2_digits [OF u16_bytes_lt(2) [of v]] by (simp add: hex4_def hex_digits_append)

lemma number_append: "number b f (xs @ ys) = foldl (\<lambda>n c. b * n + f c) (number b f xs) ys"
  by (simp add: number_def)

lemma hex2_number: "n < 256 \<Longrightarrow> foldl (\<lambda>m c. 16 * m + xdigit_val c) k (hex2 n) = 256 * k + n"
  using digit_char_facts [of "n div 16"] digit_char_facts [of "n mod 16"]
  by (simp add: hex2_def less_mult_imp_div_less)

lemma hex2_value: "n < 256 \<Longrightarrow> number 16 xdigit_val (hex2 n) = n"
  using hex2_number [of n 0] by (simp add: number_def)

lemma hex4_value: "number 16 xdigit_val (hex4 v) = unat v"
  using hex2_number [OF u16_bytes_lt(2) [of v], of "unat v div 256"]
  by (simp add: hex4_def number_append hex2_value u16_bytes_lt)

lemma digits_taken:
  assumes "hex_digits ds" "\<forall>c\<in>set sp. is_space c" "is_space e"
  shows "sign_of (dropWhile is_space (sp @ ds @ e # r)) = (1, ds @ e # r)"
    "\<not> is_prefix ''0x'' (ds @ e # r)" "\<not> is_prefix ''0X'' (ds @ e # r)"
    "takeWhile is_xdigit (ds @ e # r) = ds" "dropWhile is_xdigit (ds @ e # r) = e # r"
proof -
  obtain d ds' where ds: "ds = d # ds'" using assms(1) by (cases ds) (auto simp: hex_digits_def)
  have sp: "dropWhile is_space (sp @ ds @ e # r) = ds @ e # r"
    using assms(1,2) by (subst dropWhile_append2) (auto simp: ds hex_digits_def)
  then show "sign_of (dropWhile is_space (sp @ ds @ e # r)) = (1, ds @ e # r)"
    using assms(1) by (auto simp: ds hex_digits_def)
  have e: "e \<noteq> CHR ''x''" "e \<noteq> CHR ''X''" "\<not> is_xdigit e" using assms(3) by (auto simp: scan_eval)
  then show "\<not> is_prefix ''0x'' (ds @ e # r)" "\<not> is_prefix ''0X'' (ds @ e # r)"
    using assms(1) by (cases ds'; auto simp: ds hex_digits_def)+
  show "takeWhile is_xdigit (ds @ e # r) = ds" "dropWhile is_xdigit (ds @ e # r) = e # r"
    using assms(1) e(3) by (auto simp: takeWhile_append dropWhile_append hex_digits_def)
qed

lemma scan_x_digits:
  assumes "hex_digits ds" "\<forall>c\<in>set sp. is_space c" "is_space e" "int (number 16 xdigit_val ds) \<le> ULONG_MAX"
  shows "scan_x (sp @ ds @ e # r) = Some (word_of_int (int (number 16 xdigit_val ds)), e # r)"
  using assms(1,4) by (simp add: scan_x_def digits_taken [OF assms(1-3)] hex_digits_def Let_def)

lemma scan_hx_digits:
  assumes "hex_digits ds" "\<forall>c\<in>set sp. is_space c" "is_space e" "int (number 16 xdigit_val ds) \<le> ULONG_MAX"
  shows "scan_hx (sp @ ds @ e # r) = Some (word_of_int (int (number 16 xdigit_val ds)), e # r)"
  using assms(1,4) by (simp add: scan_hx_def digits_taken [OF assms(1-3)] hex_digits_def Let_def)

lemma space_is: "is_space (CHR '' '')"
  by (simp add: scan_eval)

lemma scan_hex4: "\<forall>c\<in>set sp. is_space c \<Longrightarrow> scan_hx (sp @ hex4 v @ CHR '' '' # r) = Some (v, CHR '' '' # r)"
proof -
  assume sp: "\<forall>c\<in>set sp. is_space c"
  have "int (unat v) \<le> ULONG_MAX" using u16_bytes_lt [of v] div_mult_mod_eq [of "unat v" 256] by (simp add: ULONG_MAX_def del: of_nat_unat)
  then show ?thesis using scan_hx_digits [OF hex4_digits sp space_is, of v r] by (simp add: hex4_value del: of_nat_unat) simp
qed

lemma scan_groups:
  "length vs = length a \<Longrightarrow> \<forall>c\<in>set sp. is_space c \<Longrightarrow>
    scan_hxs (sp @ concat (map (\<lambda>v. hex4 v @ '' '') a) @ r) vs = (a, length a)"
proof (induction a arbitrary: vs sp)
  case (Cons v a)
  then obtain w ws where vs: "vs = w # ws" by (cases vs) auto
  have "scan_hxs ('' '' @ concat (map (\<lambda>v. hex4 v @ '' '') a) @ r) ws = (a, length a)"
    by (rule Cons.IH) (use Cons.prems vs space_is in auto)
  then show ?case using scan_hex4 [OF Cons.prems(2), of v "concat (map (\<lambda>v. hex4 v @ '' '') a) @ r"] by (simp add: vs)
qed simp

section \<open>The list\<close>

text \<open>A line: address, number of the interface, length of the prefix, scope, flags, name.\<close>

record if_entry =
  if_words :: "u16 list"
  if_num :: nat
  if_prefix :: nat
  if_scope :: nat
  if_flags :: nat
  if_name :: string

definition if_line :: "if_entry \<Rightarrow> string" where
  "if_line x = concat (map hex4 (if_words x)) @ '' '' @ hex2 (if_num x) @ '' '' @ hex2 (if_prefix x) @ '' '' @ hex2 (if_scope x) @ '' '' @
     hex2 (if_flags x) @ '' '' @ replicate (8 - length (if_name x)) (CHR '' '') @ if_name x @ [CHR 0x0A]"

definition if_ok :: "if_entry \<Rightarrow> bool" where
  "if_ok x \<longleftrightarrow> length (if_words x) = 8 \<and> if_num x < 256 \<and> if_prefix x < 256 \<and> if_scope x < 256 \<and> if_flags x < 256 \<and>
     if_name x \<noteq> [] \<and> length (if_name x) < 32 \<and> (\<forall>c\<in>set (if_name x). \<not> is_space c \<and> c \<noteq> CHR 0x00)"

text \<open>
  What the scan is to find: the last address of the link of the interface before the first one that
  is valid everywhere, and that one if there is one.
\<close>

fun if_pick :: "if_entry list \<Rightarrow> u16 list \<Rightarrow> u16 list" where
  "if_pick [] r = r"
| "if_pick (x # xs) r =
     (let r' = if_words x @ [of_nat (if_prefix x)] in
      if if_name x \<noteq> ''eth1'' then if_pick xs r
      else if if_scope x = 0 \<and> if_flags x = 0 then r'
      else if if_scope x = 0x20 then if_pick xs r' else if_pick xs r)"

lemma scan_hex2:
  assumes "n < 256" "\<forall>c\<in>set sp. is_space c"
  shows "scan_x (sp @ hex2 n @ CHR '' '' # r) = Some (of_nat n, CHR '' '' # r)"
  using scan_x_digits [OF hex2_digits [OF assms(1)] assms(2) space_is, of r] assms(1) by (simp add: hex2_value ULONG_MAX_def)

lemma scan_word:
  assumes "w \<noteq> []" "\<forall>c\<in>set w. \<not> is_space c" "\<forall>c\<in>set sp. is_space c" "is_space e"
  shows "scan_s (sp @ w @ e # r) = Some (w, e # r)"
proof -
  obtain c cs where w: "w = c # cs" using assms(1) by (cases w) auto
  have "dropWhile is_space (sp @ w @ e # r) = w @ e # r" using assms(2,3) by (subst dropWhile_append2) (auto simp: w)
  moreover have "takeWhile (\<lambda>c. \<not> is_space c) (w @ e # r) = w" "dropWhile (\<lambda>c. \<not> is_space c) (w @ e # r) = e # r"
    using assms(2,4) by (auto simp: takeWhile_append dropWhile_append)
  ultimately show ?thesis using assms(1) by (simp add: scan_s_def Let_def)
qed

lemma hex4_length [simp]: "length (hex4 v) = 4"
  by (simp add: hex4_def hex2_def)

lemma length_hex4s [simp]: "length (concat (map hex4 ws)) = 4 * length ws"
  by (induction ws) simp_all

lemma hex4s_digits: "c \<in> set (concat (map hex4 ws)) \<Longrightarrow> \<not> is_space c \<and> c \<noteq> CHR 0x00"
  using hex4_digits by (auto simp: hex_digits_def)

lemma hex4s_group: "i < length ws \<Longrightarrow> take 4 (drop (4 * i) (concat (map hex4 ws) @ x)) = hex4 (ws ! i)"
proof (induction ws arbitrary: i)
  case (Cons w ws)
  then show ?case by (cases i) simp_all
qed simp

lemma spread_groups:
  assumes "length ws = 8"
  shows "c_string (spread (concat (map hex4 ws) @ CHR 0x00 # x)) = concat (map (\<lambda>v. hex4 v @ '' '') ws) @ replicate 24 (CHR '' '')"
proof -
  have "map (\<lambda>i. take 4 (drop (4 * i) (concat (map hex4 ws) @ CHR 0x00 # x)) @ '' '') [0..<8] = map (\<lambda>i. hex4 (ws ! i) @ '' '') [0..<8]"
    using assms by (intro map_cong refl arg_cong [where f = "\<lambda>u. u @ _"] hex4s_group) auto
  also have "\<dots> = map (\<lambda>v. hex4 v @ '' '') ws" using assms by (intro nth_equalityI) auto
  finally have "spread (concat (map hex4 ws) @ CHR 0x00 # x) = concat (map (\<lambda>v. hex4 v @ '' '') ws) @ replicate 24 (CHR '' '')"
    by (simp add: spread_def)
  moreover have "\<forall>c\<in>set (concat (map (\<lambda>v. hex4 v @ '' '') ws) @ replicate 24 (CHR '' '')). c \<noteq> CHR 0x00"
    using hex4_digits by (auto simp: hex_digits_def)
  ultimately show ?thesis by (simp add: c_string_def takeWhile_eq_all_conv)
qed

lemma scan_if_line:
  assumes "if_ok x" "length (ip_addr v) = 65" "length (d_name v) = 32"
  shows "\<exists>a n. scan_line (if_line x) v =
      Some (v\<lparr>ip_addr := concat (map hex4 (if_words x)) @ CHR 0x00 # a, d_num := of_nat (if_num x), ip_prefix_len := of_nat (if_prefix x),
              ip_scope := of_nat (if_scope x), i_face := of_nat (if_flags x), d_name := if_name x @ CHR 0x00 # n\<rparr>) \<and>
    length (concat (map hex4 (if_words x)) @ CHR 0x00 # a) = 65 \<and> length (if_name x @ CHR 0x00 # n) = 32"
proof -
  note x = assms(1) [unfolded if_ok_def]
  let ?addr = "concat (map hex4 (if_words x))"
  let ?pad = "CHR '' '' # replicate (8 - length (if_name x)) (CHR '' '')"
  let ?t5 = "?pad @ if_name x @ CHR 0x0A # []"
  have sp: "\<forall>c\<in>set '' ''. is_space c" "\<forall>c\<in>set ?pad. is_space c" "is_space (CHR 0x0A)" by (auto simp: space_is) (simp_all add: scan_eval)
  let ?t1 = "'' '' @ hex2 (if_num x) @ CHR '' '' # (hex2 (if_prefix x) @ CHR '' '' # (hex2 (if_scope x) @ CHR '' '' # (hex2 (if_flags x) @ ?t5)))"
  have "length ?addr = 32" using x by simp
  then have ne: "?addr \<noteq> []" by (metis list.size(3) zero_neq_numeral)
  have addr: "\<forall>c\<in>set ?addr. \<not> is_space c" using hex4s_digits by blast
  have w1: "scan_s (if_line x) = Some (?addr, ?t1)"
    using scan_word [OF ne addr, of "[]" "CHR '' ''"] space_is
    by (simp only: if_line_def append.simps append_assoc list.set ball_empty simp_thms)
  have nums: "scan_numbers ?t1 u = (u\<lparr>d_num := of_nat (if_num x), ip_prefix_len := of_nat (if_prefix x), ip_scope := of_nat (if_scope x), i_face := of_nat (if_flags x)\<rparr>, Some ?t5)" for u
    using x scan_hex2 [OF _ sp(1)] by (simp add: scan_numbers_def)
  have w2: "scan_s ?t5 = Some (if_name x, [CHR 0x0A])"
    using scan_word [of "if_name x" ?pad "CHR 0x0A" "[]"] x sp by auto
  have s1: "store_string ?addr (ip_addr v) = Some (?addr @ CHR 0x00 # drop 33 (ip_addr v))"
    using x assms(2) by (simp add: store_string_def del: set_concat)
  have s2: "store_string (if_name x) (d_name v) = Some (if_name x @ CHR 0x00 # drop (Suc (length (if_name x))) (d_name v))"
    using x assms(3) by (simp add: store_string_def)
  have "scan_line (if_line x) v =
      Some (v\<lparr>ip_addr := ?addr @ CHR 0x00 # drop 33 (ip_addr v), d_num := of_nat (if_num x), ip_prefix_len := of_nat (if_prefix x),
              ip_scope := of_nat (if_scope x), i_face := of_nat (if_flags x), d_name := if_name x @ CHR 0x00 # drop (Suc (length (if_name x))) (d_name v)\<rparr>)"
    unfolding scan_line_def w1 option.case prod.case s1 bind.simps nums Let_def w2 using s2 by simp
  moreover have "length (?addr @ CHR 0x00 # drop 33 (ip_addr v)) = 65" using x assms(2) by simp
  moreover have "length (if_name x @ CHR 0x00 # drop (Suc (length (if_name x))) (d_name v)) = 32" using x assms(3) by simp
  ultimately show ?thesis by blast
qed

lemma small_word: "n < 256 \<Longrightarrow> m < 256 \<Longrightarrow> (of_nat n :: u32) = of_nat m \<longleftrightarrow> n = m"
proof -
  assume nm: "n < 256" "m < 256"
  then have "unat (of_nat n :: u32) = n" "unat (of_nat m :: u32) = m" by (simp_all add: unat_of_nat take_bit_nat_def)
  then show ?thesis by metis
qed

text \<open>
  The scan of the kernel's list. For the lines that the kernel writes, with any addresses and names
  of interfaces, the nine registers get the address and the length of the prefix that are to be shown.
\<close>

lemma prefix_word: "n < 256 \<Longrightarrow> (ucast (of_nat n :: u32) :: u16) = of_nat n"
  by (simp add: unsigned_of_nat take_bit_nat_def)

theorem ipv6_addr_found:
  assumes "list_all if_ok xs" "length (ip_addr v) = 65" "length (d_name v) = 32" "length r = 9"
  shows "get_ipv6_addr (Some (map if_line xs)) v r = Some (0, if_pick xs r)"
proof -
  have "ipv6_lines (map if_line xs) v r = Some (if_pick xs r)"
    using assms
  proof (induction xs arbitrary: v r)
    case (Cons x xs)
    have x: "if_ok x" "list_all if_ok xs" using Cons.prems(1) by simp_all
    obtain u a n where u: "scan_line (if_line x) v = Some u" "ip_addr u = concat (map hex4 (if_words x)) @ CHR 0x00 # a"
        "ip_prefix_len u = of_nat (if_prefix x)" "ip_scope u = of_nat (if_scope x)" "i_face u = of_nat (if_flags x)"
        "d_name u = if_name x @ CHR 0x00 # n" "length (ip_addr u) = 65" "length (d_name u) = 32"
      using scan_if_line [OF x(1) Cons.prems(2,3)] by force
    note IH = Cons.IH [OF x(2) u(7,8)]
    have name: "c_string (d_name u) = if_name x" using x(1) by (auto simp: u(6) c_string_def if_ok_def takeWhile_append)
    have scope: "ip_scope u = 0 \<longleftrightarrow> if_scope x = 0" "ip_scope u = 0x20 \<longleftrightarrow> if_scope x = 0x20" "i_face u = 0 \<longleftrightarrow> if_flags x = 0"
      using x(1) small_word [of "if_scope x" 0] small_word [of "if_scope x" 32] small_word [of "if_flags x" 0] by (simp_all add: u(4,5) if_ok_def)
    have words: "scan_hxs (c_string (spread (ip_addr u))) (take 8 r) = (if_words x, 8)"
      using scan_groups [of "take 8 r" "if_words x" "[]" "replicate 24 (CHR '' '')"] spread_groups [of "if_words x" a] x(1) Cons.prems(4)
      by (simp add: u(2) if_ok_def)
    have "drop 8 r = [r ! 8]" using Cons.prems(4) by (simp add: Cons_nth_drop_Suc [symmetric])
    then have r': "(if_words x @ drop 8 r)[8 := ucast (ip_prefix_len u)] = if_words x @ [of_nat (if_prefix x)]"
      using x(1) by (simp add: u(3) list_update_append if_ok_def prefix_word)
    have l9: "length (if_words x @ [of_nat (if_prefix x)]) = 9" using x(1) by (simp add: if_ok_def)
    show ?case
      unfolding list.map ipv6_lines.simps u(1) bind.simps Let_def name scope words prod.case r'
      using IH [OF Cons.prems(4)] IH [OF l9] by (simp add: Let_def)
  qed simp
  then show ?thesis by (simp add: get_ipv6_addr_def)
qed

end
