(* ===== verification/Line.thy ===== *)
theory Line
  imports Master485
begin

text \<open>
  Contexts of the Modbus library and what opens and closes them: \<^verbatim>\<open>modbus-rtu.c\<close> with the
  settings of the serial line, \<^verbatim>\<open>modbus-tcp.c\<close> with its sockets, the common calls of
  \<^verbatim>\<open>modbus.c\<close>. The parts for Windows are left out. What the calls of the operating system
  return is an argument.
\<close>

section \<open>Copying a text\<close>

text \<open>
  \<^verbatim>\<open>strlcpy\<close>. The source is read up to its null byte; the loops give what is left of it, what
  was written and the rest of the room.
\<close>

fun copy_loop :: "string \<Rightarrow> nat \<Rightarrow> string \<Rightarrow> string \<times> string \<times> nat" where
  "copy_loop [] n d = ([], d, n)"
| "copy_loop (c # s) n d =
     (if c = CHR 0x00 then (s, d @ [c], n)
      else if n - 1 = 0 then (s, d @ [c], 0)
      else copy_loop s (n - 1) (d @ [c]))"

fun skip_rest :: "string \<Rightarrow> string" where
  "skip_rest [] = []"
| "skip_rest (c # s) = (if c = CHR 0x00 then s else skip_rest s)"

definition strlcpy :: "string \<Rightarrow> nat \<Rightarrow> string \<times> nat" where
  "strlcpy src dest_size =
     (let mem = src @ [CHR 0x00];
          (s, d, n) = (if dest_size \<noteq> 0 \<and> dest_size - 1 \<noteq> 0 then copy_loop mem (dest_size - 1) [] else (mem, [], 0));
          d = (if n = 0 \<and> dest_size \<noteq> 0 then d @ [CHR 0x00] else d);
          s = (if n = 0 then skip_rest s else s)
      in (d, length mem - length s - 1))"

section \<open>Contexts\<close>

record modbus_t =
  mt_slave :: int
  mt_s :: int
  mt_debug :: bool
  mt_error_recovery :: u8
  response_timeout :: "int \<times> int"
  byte_timeout :: "int \<times> int"

definition RESPONSE_TIMEOUT :: int where "RESPONSE_TIMEOUT = 500000"
definition BYTE_TIMEOUT :: int where "BYTE_TIMEOUT = 500000"
definition MODBUS_TCP_SLAVE :: int where "MODBUS_TCP_SLAVE = 0xFF"
definition MODBUS_TCP_PI_NODE_LENGTH :: nat where "MODBUS_TCP_PI_NODE_LENGTH = 1025"
definition MODBUS_TCP_PI_SERVICE_LENGTH :: nat where "MODBUS_TCP_PI_SERVICE_LENGTH = 32"
definition MODBUS_TCP_MAX_ADU_LENGTH :: nat where "MODBUS_TCP_MAX_ADU_LENGTH = 260"

lemmas line_constants = RESPONSE_TIMEOUT_def BYTE_TIMEOUT_def MODBUS_TCP_SLAVE_def MODBUS_TCP_PI_NODE_LENGTH_def
  MODBUS_TCP_PI_SERVICE_LENGTH_def MODBUS_TCP_MAX_ADU_LENGTH_def

definition modbus_init_common :: modbus_t where
  "modbus_init_common = \<lparr>mt_slave = -1, mt_s = -1, mt_debug = False, mt_error_recovery = 0,
     response_timeout = (0, RESPONSE_TIMEOUT), byte_timeout = (0, BYTE_TIMEOUT)\<rparr>"

definition tcp_set_slave :: "int \<Rightarrow> modbus_t \<Rightarrow> int \<times> modbus_t" where
  "tcp_set_slave slave c =
     (if 0 \<le> slave \<and> slave \<le> 247 then (0, c\<lparr>mt_slave := slave\<rparr>)
      else if slave = MODBUS_TCP_SLAVE then (0, c\<lparr>mt_slave := slave\<rparr>)
      else (-1, c))"

definition modbus_set_error_recovery :: "nat \<Rightarrow> modbus_t \<Rightarrow> int \<times> modbus_t" where
  "modbus_set_error_recovery mode c = (0, c\<lparr>mt_error_recovery := of_nat mode\<rparr>)"

definition modbus_set_socket :: "int \<Rightarrow> modbus_t \<Rightarrow> modbus_t" where "modbus_set_socket s c = c\<lparr>mt_s := s\<rparr>"
definition modbus_get_socket :: "modbus_t \<Rightarrow> int" where "modbus_get_socket c = mt_s c"
definition modbus_set_response_timeout :: "int \<times> int \<Rightarrow> modbus_t \<Rightarrow> modbus_t" where "modbus_set_response_timeout t c = c\<lparr>response_timeout := t\<rparr>"
definition modbus_get_response_timeout :: "modbus_t \<Rightarrow> int \<times> int" where "modbus_get_response_timeout c = response_timeout c"
definition modbus_set_byte_timeout :: "int \<times> int \<Rightarrow> modbus_t \<Rightarrow> modbus_t" where "modbus_set_byte_timeout t c = c\<lparr>byte_timeout := t\<rparr>"
definition modbus_get_byte_timeout :: "modbus_t \<Rightarrow> int \<times> int" where "modbus_get_byte_timeout c = byte_timeout c"
definition modbus_set_debug :: "bool \<Rightarrow> modbus_t \<Rightarrow> modbus_t" where "modbus_set_debug b c = c\<lparr>mt_debug := b\<rparr>"

section \<open>The serial line\<close>

text \<open>The flags of a line as sets; \<open>c_size\<close> is the number of data bits, the field of \<^verbatim>\<open>CSIZE\<close>.\<close>

datatype cflag = CREAD | CLOCAL | CSTOPB | PARENB | PARODD | HUPCL | CRTSCTS
datatype lflag = ICANON | ECHO | ECHOE | ISIG | IEXTEN
datatype iflag = INPCK | IXON | IXOFF | IXANY | ICRNL | ISTRIP
datatype oflag = OPOST | ONLCR

record termios =
  c_iflag :: "iflag set"
  c_oflag :: "oflag set"
  c_cflag :: "cflag set"
  c_size :: nat
  c_lflag :: "lflag set"
  vmin :: nat
  vtime :: nat
  c_ispeed :: nat
  c_ospeed :: nat

definition no_termios :: termios where
  "no_termios = \<lparr>c_iflag = {}, c_oflag = {}, c_cflag = {}, c_size = 5, c_lflag = {}, vmin = 0, vtime = 0, c_ispeed = 0, c_ospeed = 0\<rparr>"

datatype serial_mode = MODBUS_RTU_RS232 | MODBUS_RTU_RS485

record modbus_rtu_t =
  device :: string
  baud :: int
  data_bit :: u8
  stop_bit :: u8
  parity :: char
  old_tios :: termios
  mode_of :: serial_mode

text \<open>
  A new context, and how many blocks of memory are in use then. \<^verbatim>\<open>modbus_free\<close> gives back
  both blocks; \<open>old\<close> is what the new block holds.
\<close>

definition modbus_free :: "int \<Rightarrow> int" where "modbus_free live = live - 2"

definition new_rtu :: "modbus_rtu_t \<Rightarrow> string \<Rightarrow> int \<Rightarrow> char \<Rightarrow> int \<Rightarrow> int \<Rightarrow> int \<Rightarrow> (modbus_t \<times> modbus_rtu_t) option \<times> int" where
  "new_rtu old dev b par db sb live =
     (let c = modbus_init_common; live = live + 2; (d, ret_size) = strlcpy dev 16 in
      if ret_size = 0 then (None, modbus_free live)
      else if ret_size \<ge> 16 then (None, modbus_free live)
      else if par = CHR ''N'' \<or> par = CHR ''E'' \<or> par = CHR ''O'' then
        (Some (c, old\<lparr>device := takeWhile (\<lambda>x. x \<noteq> CHR 0x00) d, baud := b, parity := par,
                      data_bit := word_of_int db, stop_bit := word_of_int sb\<rparr>), live)
      else (None, modbus_free live))"

definition speed_of :: "int \<Rightarrow> nat" where
  "speed_of b = (if b \<in> {110, 300, 600, 1200, 2400, 4800, 9600, 19200, 38400, 57600, 115200} then nat b else 9600)"

definition data_size :: "u8 \<Rightarrow> nat" where
  "data_size db = (if db = 5 then 5 else if db = 6 then 6 else if db = 7 then 7 else 8)"

definition line_termios :: "modbus_rtu_t \<Rightarrow> termios" where
  "line_termios r =
     (let speed = speed_of (baud r);
          t = no_termios\<lparr>c_ispeed := speed, c_ospeed := speed\<rparr>;
          t = t\<lparr>c_cflag := c_cflag t \<union> {CREAD, CLOCAL}\<rparr>;
          t = t\<lparr>c_size := data_size (data_bit r)\<rparr>;
          t = (if stop_bit r = 1 then t\<lparr>c_cflag := c_cflag t - {CSTOPB}\<rparr> else t\<lparr>c_cflag := c_cflag t \<union> {CSTOPB}\<rparr>);
          t = (if parity r = CHR ''N'' then t\<lparr>c_cflag := c_cflag t - {PARENB}\<rparr>
               else if parity r = CHR ''E'' then t\<lparr>c_cflag := c_cflag t \<union> {PARENB} - {PARODD}\<rparr>
               else t\<lparr>c_cflag := c_cflag t \<union> {PARENB} \<union> {PARODD}\<rparr>);
          t = t\<lparr>c_lflag := c_lflag t - {ICANON, ECHO, ECHOE, ISIG}\<rparr>;
          t = (if parity r = CHR ''N'' then t\<lparr>c_iflag := c_iflag t - {INPCK}\<rparr> else t\<lparr>c_iflag := c_iflag t \<union> {INPCK}\<rparr>);
          t = t\<lparr>c_iflag := c_iflag t - {IXON, IXOFF, IXANY}\<rparr>;
          t = t\<lparr>c_oflag := c_oflag t - {OPOST}\<rparr>
      in t\<lparr>vmin := 0, vtime := 0\<rparr>)"

text \<open>
  A line with its settings, and the descriptors of the process. The answers of the operating system:
  the descriptor that \<^verbatim>\<open>open\<close> gives, and whether it takes the speeds and the settings.
\<close>

record tty =
  settings :: termios
  open_fds :: "int set"

record tty_answers =
  opened_as :: int
  speed_ok :: bool
  settings_ok :: bool

definition modbus_rtu_connect :: "tty_answers \<Rightarrow> modbus_t \<Rightarrow> modbus_rtu_t \<Rightarrow> tty \<Rightarrow> int \<times> modbus_t \<times> modbus_rtu_t \<times> tty" where
  "modbus_rtu_connect a c r l =
     (let c = c\<lparr>mt_s := opened_as a\<rparr> in
      if mt_s c = -1 then (-1, c, r, l)
      else
        let l = l\<lparr>open_fds := insert (mt_s c) (open_fds l)\<rparr>;
            r = r\<lparr>old_tios := settings l\<rparr>;
            l_closed = l\<lparr>open_fds := open_fds l - {mt_s c}\<rparr>
        in if \<not> speed_ok a then (-1, c\<lparr>mt_s := -1\<rparr>, r, l_closed)
           else if \<not> settings_ok a then (-1, c\<lparr>mt_s := -1\<rparr>, r, l_closed)
           else (0, c, r\<lparr>mode_of := MODBUS_RTU_RS232\<rparr>, l\<lparr>settings := line_termios r\<rparr>))"

definition modbus_rtu_close :: "modbus_t \<Rightarrow> modbus_rtu_t \<Rightarrow> tty \<Rightarrow> tty" where
  "modbus_rtu_close c r l = l\<lparr>settings := old_tios r, open_fds := open_fds l - {mt_s c}\<rparr>"

text \<open>\<^verbatim>\<open>ioctl\<close> takes the settings of RS485 or not; only a build that knows the call gets here.\<close>

definition modbus_rtu_set_serial_mode :: "bool \<Rightarrow> serial_mode \<Rightarrow> modbus_rtu_t \<Rightarrow> int \<times> modbus_rtu_t" where
  "modbus_rtu_set_serial_mode taken mode r = (if \<not> taken then (-1, r) else (0, r\<lparr>mode_of := mode\<rparr>))"

section \<open>Waiting\<close>

text \<open>What \<^verbatim>\<open>select\<close> gives, call after call: a signal, another error, nothing in time, descriptors.\<close>

datatype select_result = Interrupted | Select_error | Timed_out | Ready "int set"

text \<open>
  The loop around \<^verbatim>\<open>select\<close> with the set it is called with; after a signal the set is built
  anew. The result has the set of the last call, to compare; \<^const>\<open>None\<close>: it waits on.
\<close>

fun select_loop :: "int set \<Rightarrow> int set \<Rightarrow> select_result list \<Rightarrow> (int \<times> int set) option" where
  "select_loop again rfds [] = None"
| "select_loop again rfds (Interrupted # rs) = select_loop again again rs"
| "select_loop again rfds (Select_error # rs) = Some (-1, {})"
| "select_loop again rfds (Timed_out # rs) = Some (-1, {})"
| "select_loop again rfds (Ready fds # rs) =
     (let ready = fds \<inter> rfds in Some (if ready = {} then -1 else int (card ready), ready))"

definition modbus_tcp_select :: "modbus_t \<Rightarrow> int set \<Rightarrow> select_result list \<Rightarrow> (int \<times> int set) option" where
  "modbus_tcp_select c rfds rs = select_loop {mt_s c} rfds rs"

text \<open>With the descriptor of the message queue, whose message is given to the handler.\<close>

definition modbus_rtu_select :: "int \<Rightarrow> modbus_t \<Rightarrow> int set \<Rightarrow> select_result list \<Rightarrow> (int \<times> int set \<times> bool) option" where
  "modbus_rtu_select msgfd c rfds rs = do {
     (s_rc, ready) \<leftarrow> select_loop ({mt_s c} \<union> (if msgfd > 0 then {msgfd} else {}))
                       (if 0 < msgfd then insert msgfd rfds else rfds) rs;
     Some (s_rc, ready, s_rc \<noteq> -1 \<and> msgfd > 0 \<and> msgfd \<in> ready) }"

text \<open>\<^verbatim>\<open>nanosleep\<close> goes on with what remains after a signal: the whole time slept.\<close>

fun sleep_loop :: "nat \<Rightarrow> nat list \<Rightarrow> nat" where
  "sleep_loop request [] = request"
| "sleep_loop request (slept # signals) =
     (if slept < request then slept + sleep_loop (request - slept) signals else request)"

definition sleep_time :: "modbus_t \<Rightarrow> nat list \<Rightarrow> nat" where
  "sleep_time c signals =
     sleep_loop (nat (fst (response_timeout c) * 1000000000 + snd (response_timeout c) mod 1000000 * 1000)) signals"

text \<open>\<^verbatim>\<open>recv\<close> takes at most a block of what has arrived, as long as it gets whole blocks.\<close>

function flush_loop :: "nat \<Rightarrow> nat \<Rightarrow> nat \<times> nat" where
  "flush_loop arrived rc_sum =
     (let rc = min arrived MODBUS_TCP_MAX_ADU_LENGTH in
      if rc = MODBUS_TCP_MAX_ADU_LENGTH then flush_loop (arrived - rc) (rc_sum + rc) else (arrived - rc, rc_sum + rc))"
  by pat_completeness auto
termination
  by (relation "measure fst") (auto simp: MODBUS_TCP_MAX_ADU_LENGTH_def)

declare flush_loop.simps [simp del]

definition modbus_tcp_flush :: "nat \<Rightarrow> nat \<times> nat" where
  "modbus_tcp_flush arrived = flush_loop arrived 0"

section \<open>Sockets\<close>

text \<open>
  An address that the resolver gives, with what the calls for it return: the socket, its options,
  binding, listening and connecting.
\<close>

record address =
  socket_rc :: int
  option_rc :: int
  bind_rc :: int
  listen_rc :: int
  connect_rc :: int

text \<open>The descriptors that are open, and of the context the socket.\<close>

definition modbus_tcp_connect :: "address \<Rightarrow> modbus_t \<Rightarrow> int set \<Rightarrow> int \<times> modbus_t \<times> int set" where
  "modbus_tcp_connect a c fds =
     (let c = c\<lparr>mt_s := socket_rc a\<rparr> in
      if mt_s c = -1 then (-1, c, fds)
      else let fds = insert (mt_s c) fds in
        if option_rc a = -1 then (-1, c, fds - {mt_s c})
        else if connect_rc a = -1 then (-1, c\<lparr>mt_s := -1\<rparr>, fds - {mt_s c})
        else (0, c, fds))"

fun pi_connect_loop :: "address list \<Rightarrow> modbus_t \<Rightarrow> int set \<Rightarrow> modbus_t \<times> int set" where
  "pi_connect_loop [] c fds = (c, fds)"
| "pi_connect_loop (a # as) c fds =
     (if socket_rc a < 0 then pi_connect_loop as c fds
      else let s = socket_rc a; fds = insert s fds in
        if connect_rc a \<noteq> 0 then pi_connect_loop as c (fds - {s})
        else (c\<lparr>mt_s := s\<rparr>, fds))"

text \<open>\<^const>\<open>Inl\<close>: the error of the resolver.\<close>

definition modbus_tcp_pi_connect :: "int + address list \<Rightarrow> modbus_t \<Rightarrow> int set \<Rightarrow> int \<times> modbus_t \<times> int set" where
  "modbus_tcp_pi_connect found c fds =
     (case found of
        Inl rc \<Rightarrow> (rc, c, fds)
      | Inr as \<Rightarrow>
          let (c, fds) = pi_connect_loop as c fds in (if mt_s c < 0 then -1 else 0, c, fds))"

definition modbus_tcp_close :: "modbus_t \<Rightarrow> int set \<Rightarrow> int set" where
  "modbus_tcp_close c fds = fds - {mt_s c}"

definition modbus_tcp_listen :: "address \<Rightarrow> int set \<Rightarrow> int \<times> int set" where
  "modbus_tcp_listen a fds =
     (let s = socket_rc a in
      if s = -1 then (-1, fds)
      else let fds = insert s fds in
        if option_rc a = -1 then (-1, fds - {s})
        else if bind_rc a = -1 then (-1, fds - {s})
        else if listen_rc a = -1 then (-1, fds - {s})
        else (s, fds))"

text \<open>\<open>listening\<close> is false for the datagram socket, which is only bound.\<close>

fun pi_listen_loop :: "bool \<Rightarrow> address list \<Rightarrow> int set \<Rightarrow> int \<times> int set" where
  "pi_listen_loop tcp [] fds = (-1, fds)"
| "pi_listen_loop tcp (a # as) fds =
     (if socket_rc a < 0 then pi_listen_loop tcp as fds
      else let s = socket_rc a; fds = insert s fds in
        if option_rc a \<noteq> 0 then pi_listen_loop tcp as (fds - {s})
        else if bind_rc a \<noteq> 0 then pi_listen_loop tcp as (fds - {s})
        else if tcp \<and> listen_rc a \<noteq> 0 then pi_listen_loop tcp as (fds - {s})
        else (s, fds))"

text \<open>What the resolver is asked: no node is any, no service is 502.\<close>

definition listen_query :: "string \<Rightarrow> string \<Rightarrow> string option \<times> string" where
  "listen_query node service = (if node = [] then None else Some node, if service = [] then ''502'' else service)"

definition pi_listen :: "bool \<Rightarrow> (string option \<times> string \<Rightarrow> int + address list) \<Rightarrow> string \<Rightarrow> string \<Rightarrow> int set \<Rightarrow> int \<times> int set" where
  "pi_listen tcp resolve node service fds =
     (case resolve (listen_query node service) of
        Inl _ \<Rightarrow> (-1, fds)
      | Inr as \<Rightarrow> let (s, fds) = pi_listen_loop tcp as fds in (if s < 0 then -1 else s, fds))"

definition modbus_tcp_pi_listen :: "(string option \<times> string \<Rightarrow> int + address list) \<Rightarrow> string \<Rightarrow> string \<Rightarrow> int set \<Rightarrow> int \<times> int set" where
  "modbus_tcp_pi_listen = pi_listen True"

definition modbus_tcp_pi_udp_listen :: "(string option \<times> string \<Rightarrow> int + address list) \<Rightarrow> string \<Rightarrow> string \<Rightarrow> int set \<Rightarrow> int \<times> int set" where
  "modbus_tcp_pi_udp_listen = pi_listen False"

text \<open>\<open>got\<close> is what \<^verbatim>\<open>accept\<close> returns. A failure closes the listening socket.\<close>

definition modbus_tcp_accept :: "int \<Rightarrow> int \<Rightarrow> modbus_t \<Rightarrow> int set \<Rightarrow> int \<times> int \<times> modbus_t \<times> int set" where
  "modbus_tcp_accept got socket c fds =
     (let c = c\<lparr>mt_s := got\<rparr> in
      if mt_s c = -1 then (-1, 0, c, fds - {socket}) else (mt_s c, socket, c, insert (mt_s c) fds))"

record modbus_tcp_t =
  tcp_port :: int
  tcp_ip :: string

record modbus_tcp_pi_t =
  pi_node :: string
  pi_service :: string

definition c_text :: "string \<Rightarrow> string" where
  "c_text d = takeWhile (\<lambda>x. x \<noteq> CHR 0x00) d"

definition modbus_new_tcp :: "string \<Rightarrow> int \<Rightarrow> int \<Rightarrow> (modbus_t \<times> modbus_tcp_t) option \<times> int" where
  "modbus_new_tcp ip port live =
     (let c = modbus_init_common\<lparr>mt_slave := MODBUS_TCP_SLAVE\<rparr>; live = live + 2; (d, ret_size) = strlcpy ip 16 in
      if ret_size = 0 then (None, modbus_free live)
      else if ret_size \<ge> 16 then (None, modbus_free live)
      else (Some (c, \<lparr>tcp_port = port, tcp_ip = c_text d\<rparr>), live))"

definition modbus_new_tcp_pi :: "string \<Rightarrow> string \<Rightarrow> int \<Rightarrow> (modbus_t \<times> modbus_tcp_pi_t) option \<times> int" where
  "modbus_new_tcp_pi node service live =
     (let c = modbus_init_common\<lparr>mt_slave := MODBUS_TCP_SLAVE\<rparr>; live = live + 2;
          (d, ret_size) = strlcpy node MODBUS_TCP_PI_NODE_LENGTH in
      if ret_size = 0 then (None, modbus_free live)
      else if ret_size \<ge> MODBUS_TCP_PI_NODE_LENGTH then (None, modbus_free live)
      else
        let (d', ret_size) = strlcpy service MODBUS_TCP_PI_SERVICE_LENGTH in
        if ret_size = 0 then (None, modbus_free live)
        else if ret_size \<ge> MODBUS_TCP_PI_SERVICE_LENGTH then (None, modbus_free live)
        else (Some (c, \<lparr>pi_node = c_text d, pi_service = c_text d'\<rparr>), live))"

section \<open>Texts of the errors\<close>

definition MODBUS_ENOBASE :: int where "MODBUS_ENOBASE = 112345678"

definition modbus_strerror :: "(int \<Rightarrow> string) \<Rightarrow> int \<Rightarrow> string" where
  "modbus_strerror strerror errnum =
     (case map_of
        [(1, ''Illegal function''), (2, ''Illegal data address''), (3, ''Illegal data value''),
         (4, ''Slave device or server failure''), (5, ''Acknowledge''), (6, ''Slave device or server is busy''),
         (7, ''Negative acknowledge''), (8, ''Memory parity error''), (10, ''Gateway path unavailable''),
         (11, ''Target device failed to respond''), (12, ''Invalid CRC''), (13, ''Invalid data''),
         (14, ''Invalid exception code''), (16, ''Too many data'')]
        (errnum - MODBUS_ENOBASE) of
        Some text \<Rightarrow> text
      | None \<Rightarrow> strerror errnum)"

end
