(* ===== verification/Line_Facts.thy ===== *)
theory Line_Facts
  imports Line
begin

text \<open>
  A line is set up as its registers say and gets its settings back; no descriptor is lost on any path
  of the calls that open sockets; signals do not change what a wait gives.
\<close>

section \<open>Copies\<close>

lemma copy_loop_copies:
  "CHR 0x00 \<notin> set s \<Longrightarrow> 0 < n \<Longrightarrow> copy_loop (s @ [CHR 0x00]) n d =
    (if length s < n then ([], d @ s @ [CHR 0x00], n - length s) else (drop n s @ [CHR 0x00], d @ take n s, 0))"
proof (induction s arbitrary: n d)
  case (Cons c s)
  then show ?case by (cases n) (auto simp: drop_Cons' take_Cons')
qed simp

lemma skip_rest_end: "CHR 0x00 \<notin> set s \<Longrightarrow> skip_rest (s @ [CHR 0x00]) = []"
  by (induction s) auto

lemma strlcpy_copies:
  assumes "CHR 0x00 \<notin> set src"
  shows "strlcpy src n = (if n = 0 then [] else take (n - 1) src @ [CHR 0x00], length src)"
proof -
  have "CHR 0x00 \<notin> set (drop k src)" for k using assms by (meson in_set_dropD)
  then show ?thesis
    using assms copy_loop_copies [OF assms, of "n - 1" "[]"] by (auto simp: strlcpy_def skip_rest_end Let_def)
qed

lemma c_text_taken: "CHR 0x00 \<notin> set src \<Longrightarrow> c_text (take k src @ [CHR 0x00]) = take k src"
  by (auto simp: c_text_def takeWhile_append dest: in_set_takeD)

lemma strlcpy_small: "CHR 0x00 \<notin> set src \<Longrightarrow> length src < n \<Longrightarrow> strlcpy src n = (src @ [CHR 0x00], length src)"
  by (simp add: strlcpy_copies)

section \<open>The serial line\<close>

lemma new_rtu_result:
  assumes "CHR 0x00 \<notin> set dev"
  shows "new_rtu old dev b par db sb live =
    (if dev \<noteq> [] \<and> length dev < 16 \<and> par \<in> {CHR ''N'', CHR ''E'', CHR ''O''}
     then (Some (modbus_init_common, old\<lparr>device := dev, baud := b, parity := par, data_bit := word_of_int db, stop_bit := word_of_int sb\<rparr>), live + 2)
     else (None, live))"
  using c_text_taken [OF assms, of "length dev"]
  by (auto simp: new_rtu_def strlcpy_copies [OF assms] modbus_free_def Let_def c_text_def)

lemma line_termios_eq:
  "line_termios r = \<lparr>c_iflag = (if parity r = CHR ''N'' then {} else {INPCK}), c_oflag = {},
     c_cflag = {CREAD, CLOCAL} \<union> (if stop_bit r = 1 then {} else {CSTOPB}) \<union>
       (if parity r = CHR ''N'' then {} else if parity r = CHR ''E'' then {PARENB} else {PARENB, PARODD}),
     c_size = data_size (data_bit r), c_lflag = {}, vmin = 0, vtime = 0, c_ispeed = speed_of (baud r), c_ospeed = speed_of (baud r)\<rparr>"
  by (auto simp: line_termios_def no_termios_def Let_def)

lemma connect_fails:
  assumes "opened_as a \<notin> open_fds l" "modbus_rtu_connect a c r l = (rc, c', r', l')" "rc \<noteq> 0"
  shows "rc = -1 \<and> mt_s c' = -1 \<and> l' = l"
  using assms by (auto simp: modbus_rtu_connect_def Let_def split: if_splits)

lemma connect_close:
  assumes "opened_as a \<notin> open_fds l" "modbus_rtu_connect a c r l = (0, c', r', l')"
  shows "settings l' = line_termios r \<and> open_fds l' = insert (mt_s c') (open_fds l) \<and> modbus_rtu_close c' r' l' = l"
  using assms by (auto simp: modbus_rtu_connect_def modbus_rtu_close_def line_termios_eq Let_def split: if_splits)

lemma port_registers:
  assumes "k < 7" "d < 2" "st < 2" "v < 3"
  shows "init_port_info [of_nat k, of_nat d, of_nat st, of_nat v] p =
    p\<lparr>port_rate := [1200, 2400, 4800, 9600, 19200, 38400, 57600] ! k, data_flag := 7 + int d, stop_flag := 1 + int st,
      ver_flag := [CHR ''N'', CHR ''E'', CHR ''O''] ! v\<rparr>"
proof -
  have k: "k = 0 \<or> k = 1 \<or> k = 2 \<or> k = 3 \<or> k = 4 \<or> k = 5 \<or> k = 6" using assms(1) by presburger
  have d: "d = 0 \<or> d = 1" "st = 0 \<or> st = 1" "v = 0 \<or> v = 1 \<or> v = 2" using assms(2-4) by presburger+
  have "port_case [(0, 1200), (1, 2400), (2, 4800), (3, 9600), (4, 19200), (5, 38400), (6, 57600)] (of_nat k) (port_rate p)
      = [1200, 2400, 4800, 9600, 19200, 38400, 57600] ! k"
    using k by (elim disjE) (simp_all add: port_case_def)
  moreover have "port_case [(0, 7), (1, 8)] (of_nat d) (data_flag p) = 7 + int d"
    using d(1) by (elim disjE) (simp_all add: port_case_def)
  moreover have "port_case [(0, 1), (1, 2)] (of_nat st) (stop_flag p) = 1 + int st"
    using d(2) by (elim disjE) (simp_all add: port_case_def)
  moreover have "port_case [(0, CHR ''N''), (1, CHR ''E''), (2, CHR ''O'')] (of_nat v) (ver_flag p) = [CHR ''N'', CHR ''E'', CHR ''O''] ! v"
    using d(3) by (elim disjE) (simp_all add: port_case_def)
  ultimately show ?thesis by (simp add: init_port_info_def numeral_2_eq_2 [symmetric] numeral_3_eq_3 [symmetric])
qed

text \<open>
  C22. The line of the meters. With any device name of at most fifteen characters, the four registers
  of a port decide how its line is set: the speed out of the seven, seven or eight data bits, one or
  two stop bits, no parity, even or odd, and nothing that would change, echo or hold back a byte. A
  failed opening leaves line and descriptors as they were; closing gives the line its old settings and
  the descriptor back.
\<close>

theorem line_as_configured:
  assumes "CHR 0x00 \<notin> set dev" "dev \<noteq> []" "length dev < 16" "k < 7" "d < 2" "st < 2" "v < 3" "opened_as a \<notin> open_fds l"
    and "q = init_port_info [of_nat k, of_nat d, of_nat st, of_nat v] p"
  shows "\<exists>c r. new_rtu old dev (port_rate q) (ver_flag q) (data_flag q) (stop_flag q) live = (Some (c, r), live + 2) \<and>
    (\<exists>rc c' r' l'. modbus_rtu_connect a c r l = (rc, c', r', l') \<and>
      (if rc \<noteq> 0 then rc = -1 \<and> mt_s c' = -1 \<and> l' = l
       else settings l' =
              \<lparr>c_iflag = (if v = 0 then {} else {INPCK}), c_oflag = {},
               c_cflag = {CREAD, CLOCAL} \<union> (if st = 0 then {} else {CSTOPB}) \<union>
                 (if v = 0 then {} else if v = 1 then {PARENB} else {PARENB, PARODD}),
               c_size = 7 + d, c_lflag = {}, vmin = 0, vtime = 0,
               c_ispeed = [1200, 2400, 4800, 9600, 19200, 38400, 57600] ! k,
               c_ospeed = [1200, 2400, 4800, 9600, 19200, 38400, 57600] ! k\<rparr> \<and>
            open_fds l' = insert (mt_s c') (open_fds l) \<and> modbus_rtu_close c' r' l' = l))"
proof -
  have q: "q = p\<lparr>port_rate := [1200, 2400, 4800, 9600, 19200, 38400, 57600] ! k, data_flag := 7 + int d, stop_flag := 1 + int st,
      ver_flag := [CHR ''N'', CHR ''E'', CHR ''O''] ! v\<rparr>"
    unfolding assms(9) by (rule port_registers [OF assms(4-7)])
  let ?r = "old\<lparr>device := dev, baud := port_rate q, parity := ver_flag q, data_bit := word_of_int (data_flag q),
      stop_bit := word_of_int (stop_flag q)\<rparr>"
  have v: "v = 0 \<or> v = 1 \<or> v = 2" and st: "st = 0 \<or> st = 1" and d: "d = 0 \<or> d = 1"
    and k: "k = 0 \<or> k = 1 \<or> k = 2 \<or> k = 3 \<or> k = 4 \<or> k = 5 \<or> k = 6" using assms(4-7) by presburger+
  have new: "new_rtu old dev (port_rate q) (ver_flag q) (data_flag q) (stop_flag q) live = (Some (modbus_init_common, ?r), live + 2)"
    using assms(2,3) v by (auto simp: new_rtu_result [OF assms(1)] q)
  have rate: "speed_of ([1200, 2400, 4800, 9600, 19200, 38400, 57600] ! k) = [1200, 2400, 4800, 9600, 19200, 38400, 57600] ! k"
    using k by (auto simp: speed_of_def)
  have set: "line_termios ?r =
      \<lparr>c_iflag = (if v = 0 then {} else {INPCK}), c_oflag = {},
       c_cflag = {CREAD, CLOCAL} \<union> (if st = 0 then {} else {CSTOPB}) \<union> (if v = 0 then {} else if v = 1 then {PARENB} else {PARENB, PARODD}),
       c_size = 7 + d, c_lflag = {}, vmin = 0, vtime = 0,
       c_ispeed = [1200, 2400, 4800, 9600, 19200, 38400, 57600] ! k, c_ospeed = [1200, 2400, 4800, 9600, 19200, 38400, 57600] ! k\<rparr>"
    using v st d by (auto simp: line_termios_eq q data_size_def rate)
  obtain rc c' r' l' where con: "modbus_rtu_connect a modbus_init_common ?r l = (rc, c', r', l')" by (metis prod_cases4)
  have "if rc \<noteq> 0 then rc = -1 \<and> mt_s c' = -1 \<and> l' = l
      else settings l' = line_termios ?r \<and> open_fds l' = insert (mt_s c') (open_fds l) \<and> modbus_rtu_close c' r' l' = l"
    using con connect_fails [OF assms(8) con] connect_close [OF assms(8), of modbus_init_common ?r c' r' l'] by auto
  then show ?thesis using new con unfolding set by blast
qed

definition rtu_line_demo :: modbus_rtu_t where
  "rtu_line_demo = \<lparr>device = [], baud = 0, data_bit = 0, stop_bit = 0, parity = CHR ''N'', old_tios = no_termios, mode_of = MODBUS_RTU_RS232\<rparr>"

theorem line_as_configured_witness:
  "\<exists>c r. new_rtu rtu_line_demo ''/dev/ttyO2'' 9600 (CHR ''E'') 8 1 0 = (Some (c, r), 2) \<and>
    (\<exists>c' r' l'. modbus_rtu_connect \<lparr>opened_as = 5, speed_ok = True, settings_ok = True\<rparr> c r \<lparr>settings = no_termios, open_fds = {0, 1, 2}\<rparr> =
        (0, c', r', l') \<and> c_size (settings l') = 8 \<and> c_ospeed (settings l') = 9600 \<and> open_fds l' = insert (mt_s c') {0, 1, 2} \<and>
          modbus_rtu_close c' r' l' = \<lparr>settings = no_termios, open_fds = {0, 1, 2}\<rparr>)"
proof -
  let ?a = "\<lparr>opened_as = 5, speed_ok = True, settings_ok = True\<rparr>" and ?l = "\<lparr>settings = no_termios, open_fds = {0, 1, 2}\<rparr>"
  have p: "init_port_info [of_nat 3, of_nat 1, of_nat 0, of_nat 1] (DEFAULT_PORT 0) =
      \<lparr>port_rate = 9600, data_flag = 8, stop_flag = 1, ver_flag = CHR ''E''\<rparr>"
    by (simp add: init_port_info_def port_case_def DEFAULT_PORT_def)
  have ok: "fst (modbus_rtu_connect ?a c r ?l) = 0" for c r by (simp add: modbus_rtu_connect_def Let_def)
  from line_as_configured [of "''/dev/ttyO2''" 3 1 0 1 ?a ?l, OF _ _ _ _ _ _ _ _ p [symmetric], of rtu_line_demo 0]
  obtain c r rc c' r' l' where
    new: "new_rtu rtu_line_demo ''/dev/ttyO2'' 9600 (CHR ''E'') 8 1 0 = (Some (c, r), 2)"
    and con: "modbus_rtu_connect ?a c r ?l = (rc, c', r', l')"
    and res: "rc = 0 \<Longrightarrow> c_size (settings l') = 8 \<and> c_ospeed (settings l') = 9600 \<and>
      open_fds l' = insert (mt_s c') {0, 1, 2} \<and> modbus_rtu_close c' r' l' = ?l"
    by (auto split: if_splits)
  have "rc = 0" using ok [of c r] con by simp
  then show ?thesis using new con res by blast
qed

section \<open>Sockets\<close>

definition usable :: "address \<Rightarrow> bool" where
  "usable a \<longleftrightarrow> socket_rc a \<ge> 0 \<and> connect_rc a = 0"

definition bound :: "bool \<Rightarrow> address \<Rightarrow> bool" where
  "bound tcp a \<longleftrightarrow> socket_rc a \<ge> 0 \<and> option_rc a = 0 \<and> bind_rc a = 0 \<and> (tcp \<longrightarrow> listen_rc a = 0)"

lemma pi_connect_first:
  "\<forall>a\<in>set as. socket_rc a \<notin> fds \<Longrightarrow> pi_connect_loop as c fds =
    (case find usable as of None \<Rightarrow> (c, fds) | Some a \<Rightarrow> (c\<lparr>mt_s := socket_rc a\<rparr>, insert (socket_rc a) fds))"
  by (induction as) (auto simp: usable_def Let_def)

lemma pi_listen_first:
  "\<forall>a\<in>set as. socket_rc a \<notin> fds \<Longrightarrow> pi_listen_loop tcp as fds =
    (case find (bound tcp) as of None \<Rightarrow> (-1, fds) | Some a \<Rightarrow> (socket_rc a, insert (socket_rc a) fds))"
  by (induction as) (auto simp: bound_def Let_def)

lemma find_bound_socket: "find P as = Some a \<Longrightarrow> \<forall>x. P x \<longrightarrow> 0 \<le> socket_rc x \<Longrightarrow> 0 \<le> socket_rc a \<and> a \<in> set as"
  by (auto simp: find_Some_iff)

text \<open>
  No descriptor is lost. Whatever the calls of the operating system return for the addresses of the
  resolver, listening and connecting take the first address that works, and afterwards exactly the
  returned socket is open in addition to what was open before, or nothing when the call fails.
\<close>

theorem sockets_kept:
  assumes "\<forall>a\<in>set as. socket_rc a \<notin> fds" "resolve (listen_query node service) = Inr as" "mt_s c = -1"
  shows "modbus_tcp_pi_listen resolve node service fds =
      (case find (bound True) as of None \<Rightarrow> (-1, fds) | Some a \<Rightarrow> (socket_rc a, insert (socket_rc a) fds)) \<and>
    modbus_tcp_pi_udp_listen resolve node service fds =
      (case find (bound False) as of None \<Rightarrow> (-1, fds) | Some a \<Rightarrow> (socket_rc a, insert (socket_rc a) fds)) \<and>
    modbus_tcp_pi_connect (Inr as) c fds =
      (case find usable as of None \<Rightarrow> (-1, c, fds) | Some a \<Rightarrow> (0, c\<lparr>mt_s := socket_rc a\<rparr>, insert (socket_rc a) fds))"
proof -
  have s: "0 \<le> socket_rc a" if "find P as = Some a" "P = bound True \<or> P = bound False \<or> P = usable" for P a
    using that by (auto simp: find_Some_iff bound_def usable_def)
  show ?thesis
    using s [of "bound True"] s [of "bound False"] s [of usable] assms(3)
    by (auto simp: modbus_tcp_pi_listen_def modbus_tcp_pi_udp_listen_def pi_listen_def modbus_tcp_pi_connect_def assms(2)
        pi_listen_first [OF assms(1)] pi_connect_first [OF assms(1)] Let_def split: option.splits)
qed

definition addresses_demo :: "address list" where
  "addresses_demo =
     [\<lparr>socket_rc = -1, option_rc = 0, bind_rc = 0, listen_rc = 0, connect_rc = 0\<rparr>,
      \<lparr>socket_rc = 4, option_rc = 0, bind_rc = -1, listen_rc = 0, connect_rc = -1\<rparr>,
      \<lparr>socket_rc = 4, option_rc = 0, bind_rc = 0, listen_rc = -1, connect_rc = 0\<rparr>]"

theorem sockets_kept_witness:
  "modbus_tcp_pi_listen (\<lambda>_. Inr addresses_demo) ''::'' ''502'' {0, 1, 2, 3} = (-1, {0, 1, 2, 3}) \<and>
   modbus_tcp_pi_udp_listen (\<lambda>_. Inr addresses_demo) ''::'' ''502'' {0, 1, 2, 3} = (4, {4, 0, 1, 2, 3}) \<and>
   fst (modbus_tcp_pi_connect (Inr addresses_demo) modbus_init_common {0, 1, 2, 3}) = 0"
proof -
  have "\<forall>a\<in>set addresses_demo. socket_rc a \<notin> {0, 1, 2, 3}" by (simp add: addresses_demo_def)
  from sockets_kept [OF this, of "\<lambda>_. Inr addresses_demo" "''::''" "''502''" modbus_init_common]
  show ?thesis by (simp add: modbus_init_common_def addresses_demo_def bound_def usable_def)
qed

text \<open>
  A context that was connected and is closed keeps the number of its socket. When it is connected
  again and no address can be reached, the call reports success and the context has the closed socket.
\<close>

lemma reconnect_stale:
  assumes "find usable as = None" "\<forall>a\<in>set as. socket_rc a \<notin> fds - {mt_s c}" "0 \<le> mt_s c"
  shows "modbus_tcp_pi_connect (Inr as) c (modbus_tcp_close c fds) = (0, c, fds - {mt_s c})"
  using assms by (simp add: modbus_tcp_pi_connect_def modbus_tcp_close_def pi_connect_first)

lemma listen_kept:
  assumes "socket_rc a \<notin> fds" "modbus_tcp_listen a fds = (s, fds')"
  shows "fds' = (if s = -1 then fds else insert s fds)"
  using assms by (auto simp: modbus_tcp_listen_def Let_def split: if_splits)

text \<open>A failure of the options leaves the closed socket in the context.\<close>

lemma connect_kept:
  assumes "socket_rc a \<notin> fds" "modbus_tcp_connect a c fds = (rc, c', fds')"
  shows "fds' = (if rc = -1 then fds else insert (mt_s c') fds)"
    "rc = -1 \<Longrightarrow> mt_s c' = -1 \<or> mt_s c' = socket_rc a \<and> option_rc a = -1"
  using assms by (auto simp: modbus_tcp_connect_def Let_def split: if_splits)

lemma new_tcp_pi_result:
  assumes "CHR 0x00 \<notin> set node" "CHR 0x00 \<notin> set service"
  shows "modbus_new_tcp_pi node service live =
    (if node \<noteq> [] \<and> length node < 1025 \<and> service \<noteq> [] \<and> length service < 32
     then (Some (modbus_init_common\<lparr>mt_slave := 255\<rparr>, \<lparr>pi_node = node, pi_service = service\<rparr>), live + 2)
     else (None, live))"
  using c_text_taken [OF assms(1), of "length node"] c_text_taken [OF assms(2), of "length service"]
  by (auto simp: modbus_new_tcp_pi_def strlcpy_copies [OF assms(1)] strlcpy_copies [OF assms(2)] modbus_free_def Let_def line_constants)

lemma new_tcp_result:
  assumes "CHR 0x00 \<notin> set ip"
  shows "modbus_new_tcp ip port live =
    (if ip \<noteq> [] \<and> length ip < 16
     then (Some (modbus_init_common\<lparr>mt_slave := 255\<rparr>, \<lparr>tcp_port = port, tcp_ip = ip\<rparr>), live + 2) else (None, live))"
  using c_text_taken [OF assms, of "length ip"]
  by (auto simp: modbus_new_tcp_def strlcpy_copies [OF assms] modbus_free_def Let_def line_constants)

section \<open>Waiting\<close>

lemma select_signals:
  "select_loop again again (replicate n Interrupted @ rs) = select_loop again again rs"
  by (induction n) simp_all

lemma sleep_total: "sleep_loop request signals = request"
  by (induction request signals rule: sleep_loop.induct) auto

lemma flush_loop_all: "flush_loop arrived rc_sum = (0, rc_sum + arrived)"
proof (induction arrived rc_sum rule: flush_loop.induct)
  case (1 arrived rc_sum)
  then show ?case by (subst flush_loop.simps) (auto simp: Let_def min_def)
qed

lemma flush_takes_all: "modbus_tcp_flush arrived = (0, arrived)"
  by (simp add: modbus_tcp_flush_def flush_loop_all)

text \<open>
  Signals do not end a wait. Any number of them before the result leaves what the wait of a serial
  line gives: the same descriptors, and the message queue is served in exactly the same cases.
\<close>

theorem signals_ignored:
  "modbus_rtu_select msgfd c {mt_s c} (replicate n Interrupted @ rs) = modbus_rtu_select msgfd c {mt_s c} rs \<and>
   modbus_tcp_select c {mt_s c} (replicate n Interrupted @ rs) = modbus_tcp_select c {mt_s c} rs"
proof -
  have "(if 0 < msgfd then {msgfd, mt_s c} else {mt_s c}) = {mt_s c} \<union> (if msgfd > 0 then {msgfd} else {})" by auto
  then show ?thesis by (simp add: modbus_rtu_select_def modbus_tcp_select_def select_signals)
qed

end
