(* ===== verification/Drivers.thy ===== *)
theory Drivers
  imports Panel
begin

text \<open>
  The two kernel modules of the device, \<^verbatim>\<open>driver/leds.c\<close> (the pins) and
  \<^verbatim>\<open>driver/gpio_irq.c\<close> (the interrupts of the inputs and of the button), and the message
  queues of \<^verbatim>\<open>common/pmsg_q.c\<close>. Registering devices and interrupts is left to the kernel.
\<close>

section \<open>The pins\<close>

text \<open>What \<^verbatim>\<open>gpio_set_value\<close> does: any value but zero is high.\<close>

definition gpio_set_value :: "nat \<Rightarrow> u8 \<Rightarrow> (nat \<Rightarrow> bool) \<Rightarrow> nat \<Rightarrow> bool" where
  "gpio_set_value pin v pins = pins(pin := v \<noteq> 0)"

definition led_pins :: "nat list" where
  "led_pins = [GPIO_TO_PIN 2 1, GPIO_TO_PIN 1 30, GPIO_TO_PIN 2 0, GPIO_TO_PIN 3 2, GPIO_TO_PIN 3 1, GPIO_TO_PIN 3 0]"

definition led_on :: "(nat \<Rightarrow> bool) \<Rightarrow> nat \<Rightarrow> bool" where "led_on pins = fold (\<lambda>p. gpio_set_value p 1) led_pins pins"
definition led_off :: "(nat \<Rightarrow> bool) \<Rightarrow> nat \<Rightarrow> bool" where "led_off pins = fold (\<lambda>p. gpio_set_value p 0) led_pins pins"

text \<open>The argument that the program passes; \<open>readable\<close> and \<open>writable\<close>: its memory is.\<close>

record leds_io_t =
  io_num :: nat
  io_status :: u8

definition EFAULT :: int where "EFAULT = 14"
definition ENOTTY :: int where "ENOTTY = 25"

definition leds_ioctl :: "bool \<Rightarrow> bool \<Rightarrow> nat \<Rightarrow> leds_io_t \<Rightarrow> (nat \<Rightarrow> bool) \<Rightarrow> int \<times> leds_io_t \<times> (nat \<Rightarrow> bool)" where
  "leds_ioctl readable writable cmd arg pins =
     (if cmd = 1 then
        if \<not> readable then (-EFAULT, arg, pins)
        else (0, arg, gpio_set_value (io_num arg) (io_status arg) pins)
      else if cmd = 0 then
        if \<not> readable then (-EFAULT, arg, pins)
        else if \<not> writable then (-EFAULT, arg, pins)
        else (0, arg\<lparr>io_status := (if pins (io_num arg) then 1 else 0)\<rparr>, pins)
      else (-ENOTTY, arg, pins))"

definition SET :: nat where "SET = 1"
definition GET :: nat where "GET = 0"

text \<open>The calls of the program, one after the other.\<close>

definition ioctl_event :: "event \<Rightarrow> (nat \<Rightarrow> bool) \<Rightarrow> nat \<Rightarrow> bool" where
  "ioctl_event ev pins =
     (case ev of IoctlSet pin level \<Rightarrow> snd (snd (leds_ioctl True True SET \<lparr>io_num = pin, io_status = level\<rparr> pins)) | _ \<Rightarrow> pins)"

section \<open>The interrupts\<close>

definition irq_num_table :: "nat list" where
  "irq_num_table = [GPIO_TO_PIN 0 7, GPIO_TO_PIN 1 15, GPIO_TO_PIN 1 14, GPIO_TO_PIN 1 13, GPIO_TO_PIN 1 12,
     GPIO_TO_PIN 0 27, GPIO_TO_PIN 0 26, GPIO_TO_PIN 0 23, GPIO_TO_PIN 0 22, GPIO_TO_PIN 0 31]"

text \<open>The one buffer of the module, its flag, and whether a read is between clearing the flag and copying.\<close>

record irq_dev =
  snd_msg :: "nat \<times> int"
  gpio_flag :: bool
  copying :: bool

text \<open>
  \<open>Edge\<close>: the handler runs for a pin, with the level it finds. \<open>Woken\<close>: the reading thread goes on
  after \<^verbatim>\<open>wait_event_interruptible\<close>, because the flag is set or, if the argument says so,
  because of a signal, and clears the flag. \<open>Copied\<close>: the message is copied and the read returns.
\<close>

datatype irq_event = Edge nat int | Woken bool | Copied

text \<open>A step with the message that the read returns, if it does; \<^const>\<open>None\<close> cannot happen.\<close>

definition irq_step :: "irq_event \<Rightarrow> irq_dev \<Rightarrow> (irq_dev \<times> (nat \<times> int) list) option" where
  "irq_step ev d =
     (case ev of
        Edge pin level \<Rightarrow>
          if pin \<in> set irq_num_table then Some (d\<lparr>snd_msg := (pin, level), gpio_flag := True\<rparr>, []) else None
      | Woken signal \<Rightarrow>
          if copying d \<or> \<not> (gpio_flag d \<or> signal) then None else Some (d\<lparr>gpio_flag := False, copying := True\<rparr>, [])
      | Copied \<Rightarrow>
          if copying d then Some (d\<lparr>copying := False\<rparr>, [snd_msg d]) else None)"

fun irq_run :: "irq_event list \<Rightarrow> irq_dev \<Rightarrow> (irq_dev \<times> (nat \<times> int) list) option" where
  "irq_run [] d = Some (d, [])"
| "irq_run (ev # evs) d = do {
     (d, ms) \<leftarrow> irq_step ev d;
     (d, ms') \<leftarrow> irq_run evs d;
     Some (d, ms @ ms') }"

definition irq_start :: irq_dev where
  "irq_start = \<lparr>snd_msg = (0, 0), gpio_flag = False, copying = False\<rparr>"

section \<open>Message queues\<close>

definition PMSG_MAXMSG :: nat where "PMSG_MAXMSG = 10"
definition PMSG_ITEM_MAX_SIZE :: nat where "PMSG_ITEM_MAX_SIZE = 1024"

text \<open>A queue that does not block: the oldest message first, all have the same priority.\<close>

definition pmsg_q_send :: "u8 list \<Rightarrow> u8 list list \<Rightarrow> int \<times> u8 list list" where
  "pmsg_q_send msg q =
     (if length msg > PMSG_ITEM_MAX_SIZE then (-1, q)
      else if length q = PMSG_MAXMSG then (-1, q)
      else (0, q @ [msg]))"

text \<open>
  The message goes to the start of the buffer, whose size the call does not look at, and the first
  eight words of the buffer are logged. \<^const>\<open>None\<close> is an access beyond its end.
\<close>

definition pmsg_q_receive :: "u8 list \<Rightarrow> u8 list list \<Rightarrow> (int \<times> u8 list \<times> u8 list list) option" where
  "pmsg_q_receive buf q =
     (case q of
        [] \<Rightarrow> Some (-1, buf, [])
      | m # q \<Rightarrow> if length buf < max (length m) 32 then None else Some (int (length m), m @ drop (length m) buf, q))"

text \<open>A queue is removed and made anew at the start of the program.\<close>

definition pmsg_q_rm :: "string \<Rightarrow> (string \<rightharpoonup> u8 list list) \<Rightarrow> int \<times> (string \<rightharpoonup> u8 list list)" where
  "pmsg_q_rm path qs = (if qs path = None then -1 else 0, qs(path := None))"

definition pmsg_q_open :: "string \<Rightarrow> (string \<rightharpoonup> u8 list list) \<Rightarrow> string \<rightharpoonup> u8 list list" where
  "pmsg_q_open path qs = (if qs path = None then qs(path \<mapsto> []) else qs)"

end
