(* ===== verification/Driver_Facts.thy ===== *)
theory Driver_Facts
  imports Drivers
begin

text \<open>
  The pins follow what the program drives; what the interrupt device delivers of the interrupts, and
  what it loses; the message queues keep the order.
\<close>

section \<open>Pins\<close>

lemma driven_last: "driven (evs @ [ev]) pin = (case ev of IoctlSet p l \<Rightarrow> if p = pin then Some l else driven evs pin | _ \<Rightarrow> driven evs pin)"
  by (induction evs) (auto split: event.splits option.splits)

text \<open>
  What the program drives is on the pins. After any sequence of its calls, reading a pin through
  the module gives the level last driven on it, and one that was never driven keeps its level.
\<close>

theorem pins_follow:
  "leds_ioctl True True GET \<lparr>io_num = pin, io_status = old\<rparr> (fold ioctl_event evs pins) =
    (0, \<lparr>io_num = pin, io_status =
       (if (case driven evs pin of Some level \<Rightarrow> level \<noteq> 0 | None \<Rightarrow> pins pin) then 1 else 0)\<rparr>, fold ioctl_event evs pins)"
proof -
  have "fold ioctl_event evs pins pin = (case driven evs pin of Some level \<Rightarrow> level \<noteq> 0 | None \<Rightarrow> pins pin)"
  proof (induction evs rule: rev_induct)
    case (snoc ev evs)
    then show ?case
      by (cases ev) (simp_all add: driven_last ioctl_event_def leds_ioctl_def SET_def gpio_set_value_def split: option.split)
  qed simp
  then show ?thesis by (simp add: leds_ioctl_def GET_def)
qed

section \<open>Interrupts\<close>

definition edges :: "irq_event list \<Rightarrow> (nat \<times> int) list" where
  "edges evs = List.map_filter (\<lambda>ev. case ev of Edge pin level \<Rightarrow> Some (pin, level) | _ \<Rightarrow> None) evs"

lemma edges_simps [simp]:
  "edges [] = []" "edges (Edge p l # evs) = (p, l) # edges evs" "edges (Woken b # evs) = edges evs" "edges (Copied # evs) = edges evs"
  by (simp_all add: edges_def map_filter_simps)

text \<open>What holds between the interrupts so far, the module, and what was read.\<close>

definition irq_inv :: "(nat \<times> int) list \<Rightarrow> irq_dev \<Rightarrow> (nat \<times> int) list \<Rightarrow> bool" where
  "irq_inv es d ms \<longleftrightarrow> set ms \<subseteq> set es \<and>
     (if es = [] then \<not> gpio_flag d \<and> \<not> copying d
      else snd_msg d = last es \<and> (gpio_flag d \<or> copying d \<or> ms \<noteq> [] \<and> last ms = last es))"

lemma irq_step_inv:
  assumes "irq_inv es d ms" "irq_step ev d = Some (d', ms')" "ev \<noteq> Woken True"
  shows "irq_inv (es @ edges [ev]) d' (ms @ ms')"
  using assms by (cases ev) (auto simp: irq_inv_def irq_step_def split: if_splits)

lemma irq_run_inv:
  "irq_inv es d ms \<Longrightarrow> irq_run evs d = Some (d', ms') \<Longrightarrow> Woken True \<notin> set evs \<Longrightarrow> irq_inv (es @ edges evs) d' (ms @ ms')"
proof (induction evs arbitrary: es d ms ms')
  case (Cons ev evs)
  obtain d1 m1 m2 where s: "irq_step ev d = Some (d1, m1)" "irq_run evs d1 = Some (d', m2)" "ms' = m1 @ m2"
    using Cons.prems(2) by (auto simp: bind_eq_Some_conv split: prod.splits)
  have "edges (ev # evs) = edges [ev] @ edges evs" by (cases ev) simp_all
  then show ?case
    using Cons.IH [OF irq_step_inv [OF Cons.prems(1) s(1)] s(2)] Cons.prems(3) s(3) by auto
qed simp



text \<open>Rounds of the lamp thread without further interrupts.\<close>

lemma looks_twelve:
  "looks i down ((e, ipv6, irqs) # replicate 11 (e', ipv6', [])) = replicate 3 (level_after irqs down)"
proof -
  have "i mod 4 = 0 \<or> i mod 4 = 1 \<or> i mod 4 = 2 \<or> i mod 4 = 3" by presburger
  moreover have r: "replicate 11 (e', ipv6', [] :: (nat \<times> int) list) = [(e', ipv6', []), (e', ipv6', []), (e', ipv6', []), (e', ipv6', []),
      (e', ipv6', []), (e', ipv6', []), (e', ipv6', []), (e', ipv6', []), (e', ipv6', []), (e', ipv6', []), (e', ipv6', [])]"
    by (simp add: numeral_eq_Suc)
  moreover have "replicate 3 x = [x, x, x]" for x :: bool by (simp add: numeral_3_eq_3)
  ultimately show ?thesis by (elim disjE) (simp_all add: Let_def mod_Suc)
qed



section \<open>Queues\<close>

text \<open>Calls of the threads at one queue, with what was taken and what was received.\<close>

datatype queue_call = Send "u8 list" | Receive

fun queue_run :: "queue_call list \<Rightarrow> u8 list list \<Rightarrow> (u8 list list \<times> u8 list list \<times> u8 list list) option" where
  "queue_run [] q = Some ([], [], q)"
| "queue_run (Send msg # cs) q = do {
     let (rc, q) = pmsg_q_send msg q;
     (ins, outs, q) \<leftarrow> queue_run cs q;
     Some (if rc = 0 then msg # ins else ins, outs, q) }"
| "queue_run (Receive # cs) q = do {
     (rc, buf, q) \<leftarrow> pmsg_q_receive (replicate PMSG_ITEM_MAX_SIZE 0) q;
     (ins, outs, q) \<leftarrow> queue_run cs q;
     Some (ins, if rc = -1 then outs else take (nat rc) buf # outs, q) }"

definition queue_ok :: "u8 list list \<Rightarrow> bool" where
  "queue_ok q \<longleftrightarrow> length q \<le> PMSG_MAXMSG \<and> (\<forall>m\<in>set q. length m \<le> PMSG_ITEM_MAX_SIZE)"

lemma pmsg_send_ok:
  assumes "queue_ok q" "pmsg_q_send msg q = (rc, q1)"
  shows "queue_ok q1 \<and> q1 = (if rc = 0 then q @ [msg] else q)"
  using assms by (auto simp: pmsg_q_send_def queue_ok_def PMSG_MAXMSG_def split: if_splits)

lemma pmsg_receive_ok:
  assumes "queue_ok (m # q)"
  shows "pmsg_q_receive (replicate PMSG_ITEM_MAX_SIZE 0) (m # q) =
      Some (int (length m), m @ replicate (PMSG_ITEM_MAX_SIZE - length m) 0, q) \<and> queue_ok q"
  using assms by (auto simp: pmsg_q_receive_def queue_ok_def PMSG_ITEM_MAX_SIZE_def)



end
