(* ===== verification/Spec2Isabelle.thy ===== *)
theory Spec2Isabelle
  imports Modbus_Facts Zigbee_Server Panel Master_Facts Udp_Facts Tcp_Client History_Facts
    Coils_Facts Startup_Facts Address_Facts Line_Facts Driver_Facts
begin

text \<open>
  Verification library of the RTU A118 firmware, the remote terminal unit of an oil field: it
  collects the values of wireless and wired meters, keeps them in registers and gives them to a
  host over Modbus.

  \<^bold>\<open>The program.\<close> One process with a thread for every interface. All threads share one
  record, \<^verbatim>\<open>rtu_a118_t\<close> (\<^verbatim>\<open>config.h\<close>), and the register map
  (\<^verbatim>\<open>data/map.c\<close>), whose registers are in flash files or in memory, as a table read at
  start-up says. The ZigBee thread receives frames of the meters and stores what they report; the
  Modbus slave threads (serial line and TCP) answer the host out of the map; the master thread asks
  wired meters; the lamp thread shows the state of the others and resets the configuration when its
  button is held.

  \<^bold>\<open>Shared.\<close>
  \<^item> \<open>Prelude\<close>: widths, byte and halfword views, lemmas on lists and words, the collections
    \<open>frame_simps\<close> and the like.
  \<^item> \<open>Common\<close>: \<^verbatim>\<open>common/common.c\<close>, the conversions of byte order and of
    packed decimals; they are shown to be reversals and inverse to each other.
  \<^item> \<open>Scan\<close>: what the program uses of \<^verbatim>\<open>sscanf\<close>.
  \<^item> \<open>Device\<close>: the state \<open>rtu\<close> (fields of \<^verbatim>\<open>Rtu_a118_t\<close>, the map, and the list
    of visible events: pins, messages, serial output, log) and the environment \<open>env\<close> (clock,
    texts of the tables, results of the operating system).
  \<^item> \<open>Floats\<close>: binary floating-point numbers of IEEE 754 in single and double precision, with
    rounding to nearest even and, for results that are no number, the rules of the processor
    (ARM). A rounding is shown to be correct, and \<open>near\<close> bounds the relative error of a
    calculation.
  \<^item> \<open>Threads\<close>: \<^verbatim>\<open>common/thread.c\<close>, times of life of the threads.

  \<^bold>\<open>The register map.\<close>
  \<^item> \<open>Map_Table\<close>, \<open>Map_Facts\<close>: reading the tables and start-up
    (\<^verbatim>\<open>map_init\<close>). Start-up establishes \<open>map_wf\<close>, the invariant on the sizes of all
    areas, and leaves memory and files equal.
  \<^item> \<open>Registers\<close>, \<open>Register_Facts\<close>, \<open>Register_Store\<close>: the function registers (clock,
    outputs, reset, change of well type) and the entry points \<^verbatim>\<open>zigbee_read_registers\<close>,
    \<^verbatim>\<open>zigbee_write_registers\<close>, \<^verbatim>\<open>map_modbus_read_registers\<close> and
    their relatives. They keep the invariant and never leave the arrays; on plain registers they
    refine an abstract store (\<open>put\<close>/\<open>get\<close> of a cell), so that reads give what was written.
  \<^item> \<open>Gpio\<close>, \<open>Panel\<close>: \<^verbatim>\<open>gpio/leds.c\<close>, digital inputs and outputs, the lamp thread
    and the reset button.

  \<^bold>\<open>Frames.\<close>
  \<^item> \<open>Checksum\<close>, \<open>Frames\<close>: CRC-16 (equal to the bitwise definition), sums, the three
    integrity checks; a changed byte is detected.
  \<^item> \<open>Receive\<close>: the receive loops of the patched \<^verbatim>\<open>libmodbus-3.0.6\<close> over a stream
    that arrives in arbitrary chunks; the result depends on the bytes only, stays within the buffer,
    and sealed frames come through whole. A loop consumes a chunk or ends, so it needs no fuel.
  \<^item> \<open>Modbus\<close>, \<open>Modbus_Facts\<close>: slave (\<^verbatim>\<open>modbus_reply\<close>) and master
    (\<^verbatim>\<open>modbus_read_registers\<close>, \<^verbatim>\<open>modbus_write_registers\<close>); the answers
    byte by byte, the exceptions, and master and slave connected end to end.
  \<^item> \<open>Zigbee\<close>: \<^verbatim>\<open>zigbee/zigbee.c\<close>, data packets, parameter frames and the
    configuration dialogue, whose ten attempts a command are its only bound.

  \<^bold>\<open>The wireless meters.\<close>
  \<^item> \<open>Meter\<close>, \<open>Meter_Facts\<close>, \<open>Stale_Values\<close>: \<^verbatim>\<open>meter/meter.c\<close>, packet layouts,
    answers, the daily question for parameters and the clearing of old values. \<open>store_blocks\<close> is
    the abstract effect of writing blocks of plain registers.
  \<^item> \<open>Sensors\<close>, \<open>Sensor_Facts\<close>: \<^verbatim>\<open>meter/pressure_meter_analysis.c\<close>. The
    analysers get a send function; the locale \<open>sender\<close> states what they rely on (it sends what it
    is given and leaves the registers alone) and is interpreted with \<^verbatim>\<open>zigbee_send_packet\<close>.
  \<^item> \<open>Diagrams\<close>, \<open>Diagram_Facts\<close>: \<^verbatim>\<open>meter/load_meter_analysis.c\<close>,
    \<^verbatim>\<open>meter/electrical_param_analysis.c\<close> and the dispatch of a received frame.
  \<^item> \<open>Zigbee_Server\<close>: \<^verbatim>\<open>zigbee/zigbee_tty_server.c\<close> as a step relation with its
    invariant.

  \<^bold>\<open>The wired meters.\<close>
  \<^item> \<open>Actuator\<close>, \<open>Actuator_Facts\<close>: \<^verbatim>\<open>meter/wired_actuator.c\<close>, the commands to the
    actuators on the RS485 master bus, their answers and the resends. \<open>heard\<close> is the abstract view
    of a resend loop: the number of attempts and the first message that fits.
  \<^item> \<open>Electrical\<close>, \<open>Electrical_Facts\<close>, \<open>Stroke_Facts\<close>:
    \<^verbatim>\<open>meter/wired_electrical_param.c\<close>, the poll of the electricity meter with its twelve
    values in floating point, and the sampling of one stroke that the load meter has announced, with
    its interpolation. The stored values are shown close to the formulas over the reals; a stroke
    too fast for its points writes past the samples.
  \<^item> \<open>Master485\<close>, \<open>Master_Facts\<close>: \<^verbatim>\<open>modbus_485/modbus485_master.c\<close> and
    \<^verbatim>\<open>meter/wired_meter.c\<close>, the thread that polls them: its messages, the choice of
    the next poll, its type over every history, and that no meter is starved.

  \<^bold>\<open>The servers.\<close>
  \<^item> \<open>Servers\<close>, \<open>Server_Facts\<close>: the loops of \<^verbatim>\<open>modbus_485/modbus485_slave.c\<close>,
    \<^verbatim>\<open>modbus_232/modbus232_server.c\<close> and \<^verbatim>\<open>network/tcp_server.c\<close>, a round
    of each as one function over what arrived; what one client writes another reads, and the
    invariant of the set of connections.
  \<^item> \<open>Tcp_Client\<close>: \<^verbatim>\<open>network/tcp_client.c\<close>, the two remote hosts in turn and the
    time-outs.
  \<^item> \<open>Network\<close>, \<open>Udp_Server\<close>, \<open>Udp_Facts\<close>: the commands that set the addresses
    (\<^verbatim>\<open>network/network.c\<close>) and the UDP server with its heart beats
    (\<^verbatim>\<open>network/udp_server.c\<close>).

  \<^bold>\<open>The rest of the program.\<close>
  \<^item> \<open>History\<close>, \<open>History_Facts\<close>: \<^verbatim>\<open>data/data.c\<close> and
    \<^verbatim>\<open>data/sqlite_utils.c\<close>, the thread that stores the registers in a database every
    ten minutes, deletes the oldest records and answers requests. The database is a list of records;
    what a statement gives and the functions of zlib are parameters.
  \<^item> \<open>Coils\<close>, \<open>Coils_Facts\<close>: what \<^verbatim>\<open>libmodbus-3.0.6\<close> offers beside the registers:
    bits, the combined write and read, the identification, and \<^verbatim>\<open>modbus_reply_old\<close>, the
    slave over plain tables. Bits survive both encodings and the two lines between.
  \<^item> \<open>Startup\<close>, \<open>Startup_Facts\<close>: \<^verbatim>\<open>rtu_a118.c\<close>,
    \<^verbatim>\<open>data/utils.c\<close> and \<^verbatim>\<open>common/rtu_log.c\<close>: the start in its order, the
    threads it starts, the endless loop, and the log as a ring over its file. \<open>Address_Facts\<close>
    shows that the scan of the kernel's list of addresses finds what its lines say.
  \<^item> \<open>Line\<close>, \<open>Line_Facts\<close>: what opens and closes the contexts of the Modbus library
    (\<^verbatim>\<open>modbus-rtu.c\<close>, \<^verbatim>\<open>modbus-tcp.c\<close>): a serial line is set as its
    registers say and gets its settings back, no descriptor is lost, signals do not end a wait.
  \<^item> \<open>Drivers\<close>, \<open>Driver_Facts\<close>: the kernel modules \<^verbatim>\<open>driver/leds.c\<close> and
    \<^verbatim>\<open>driver/gpio_irq.c\<close> and the message queues of \<^verbatim>\<open>common/pmsg_q.c\<close>: what
    the interrupt device delivers and what it loses, down to the reset that a lost release causes.

  \<^bold>\<open>Conventions.\<close> Bytes, halfwords and words are \<open>u8\<close>, \<open>u16\<close>, \<open>u32\<close>; sizes and
  addresses are natural numbers where the code has checked them, integers where it has not. An
  operation that would read or write outside an array, or divide by zero, is \<open>None\<close>; error codes
  are the integers the code returns. \<^verbatim>\<open>float\<close> values that are only moved
  are bit patterns; where the program calculates, they are the numbers of theory \<open>Floats\<close>.
  What an uninitialised variable or buffer holds is a parameter. Threads interleave only at the
  granularity of whole operations.

  \<^bold>\<open>Bounds.\<close> The model needs no fuel: a receive loop consumes a chunk or ends, a resend loop
  counts its attempts down, the loops over registers, wells, samples and lines are structural, and an
  endless loop is modelled as its round, with the properties stated over every sequence of rounds.

  \<^bold>\<open>Not modelled.\<close> Reading the
  configuration text (\<^verbatim>\<open>common/config_utils.c\<close>), creating a thread, and \<^verbatim>\<open>network/webserver.c\<close> and \<^verbatim>\<open>network/knevn.c\<close>, which are
  not started, are calls of the operating system and of cJSON; where the rest of the program depends
  on what they give, that is a parameter. SQLite, zlib, cJSON and the kernel board files are other
  projects.
\<close>

end
